(* ===== verification/Prelude.thy ===== *)
theory Prelude
  imports Main "HOL-Library.Word" "HOL-Library.AList"
begin

text \<open>
  Shared vocabulary of the development: Python strings as lists of code points, byte
  strings as lists of 8-bit words, insertion-ordered dictionaries as association lists,
  Python's slices, and the generic lemmas on them that the components use.
\<close>

section \<open>Types\<close>

text \<open>A Python \<open>str\<close> is a sequence of code points; lone surrogates can occur in it.\<close>

type_synonym pystr = "nat list"
type_synonym byte = "8 word"
type_synonym bytes = "byte list"

text \<open>A Python \<open>dict\<close> keeps insertion order: an association list with distinct keys.\<close>

type_synonym ('k, 'v) dict = "('k \<times> 'v) list"

text \<open>A string or byte literal of the source.\<close>

definition lit :: "string \<Rightarrow> pystr" where
  "lit s = map of_char s"

definition blit :: "string \<Rightarrow> bytes" where
  "blit s = map of_char s"

named_theorems result_simps \<open>case analysis on results, options and conditions\<close>

lemmas [result_simps] = sum.splits option.splits if_splits list.splits prod.splits

section \<open>Literals\<close>

lemma lit_Nil [simp]: "lit [] = []"
  by (simp add: lit_def)

lemma lit_Cons: "lit (c # s) = of_char c # lit s"
  by (simp add: lit_def)

lemma length_lit [simp]: "length (lit s) = length s"
  by (simp add: lit_def)

lemma lit_eq_Nil_iff [simp]: "lit s = [] \<longleftrightarrow> s = []"
  by (simp add: lit_def)

lemma lit_eq_iff [simp]: "lit s = lit t \<longleftrightarrow> s = t"
proof -
  have "inj (of_char :: char \<Rightarrow> nat)" by (rule injI) simp
  then show ?thesis by (simp add: lit_def)
qed

lemma set_lit_lt: "c \<in> set (lit s) \<Longrightarrow> c < 256"
  by (auto simp: lit_def)

section \<open>Dictionaries\<close>

text \<open>\<open>d[k] = v\<close>: in place when the key is present, at the end otherwise.\<close>

abbreviation dict_set :: "'k \<Rightarrow> 'v \<Rightarrow> ('k, 'v) dict \<Rightarrow> ('k, 'v) dict" where
  "dict_set \<equiv> AList.update"

abbreviation dict_get :: "('k, 'v) dict \<Rightarrow> 'k \<Rightarrow> 'v option" where
  "dict_get \<equiv> map_of"

text \<open>\<open>d.pop(k, None)\<close> on the dictionary itself.\<close>

abbreviation dict_pop :: "'k \<Rightarrow> ('k, 'v) dict \<Rightarrow> ('k, 'v) dict" where
  "dict_pop \<equiv> AList.delete"

lemma dict_get_set [simp]: "dict_get (dict_set k v d) k' = (if k' = k then Some v else dict_get d k')"
  by (simp add: update_conv')

lemma dict_get_pop [simp]: "dict_get (dict_pop k d) k' = (if k' = k then None else dict_get d k')"
  by (simp add: delete_conv')

lemma keys_dict_set:
  "map fst (dict_set k v d) = (if k \<in> set (map fst d) then map fst d else map fst d @ [k])"
  by (induction d) auto

lemma dict_set_absent: "k \<notin> set (map fst d) \<Longrightarrow> dict_set k v d = d @ [(k, v)]"
  by (induction d) auto

lemma distinct_keys_set [simp]: "distinct (map fst d) \<Longrightarrow> distinct (map fst (dict_set k v d))"
  by (rule distinct_update)

lemma set_dict_set_subset: "set (dict_set k v d) \<subseteq> insert (k, v) (set d)"
  by (induction d) auto

lemma dict_get_Some_in: "dict_get d k = Some v \<Longrightarrow> (k, v) \<in> set d"
  by (rule map_of_SomeD)

lemma dict_get_iff_in: "distinct (map fst d) \<Longrightarrow> dict_get d k = Some v \<longleftrightarrow> (k, v) \<in> set d"
  by (simp add: map_of_eq_Some_iff)

lemma dict_get_None_iff: "dict_get d k = None \<longleftrightarrow> k \<notin> set (map fst d)"
  by (metis map_of_eq_None_iff list.set_map)

section \<open>Slices\<close>

text \<open>\<open>xs[i:]\<close> with Python's treatment of negative and too large indices.\<close>

definition slice_start :: "nat \<Rightarrow> int \<Rightarrow> nat" where
  "slice_start n i = (if i < 0 then nat (max 0 (int n + i)) else nat i)"

definition slice_from :: "'a list \<Rightarrow> int \<Rightarrow> 'a list" where
  "slice_from xs i = drop (slice_start (length xs) i) xs"

text \<open>\<open>xs[i:j]\<close>.\<close>

definition slice :: "'a list \<Rightarrow> int \<Rightarrow> int \<Rightarrow> 'a list" where
  "slice xs i j =
     (let n = length xs; a = slice_start n i; b = slice_start n j in drop a (take b xs))"

lemma slice_from_0 [simp]: "slice_from xs 0 = xs"
  by (simp add: slice_from_def slice_start_def)

lemma slice_nonneg: "0 \<le> i \<Longrightarrow> 0 \<le> j \<Longrightarrow> slice xs i j = drop (nat i) (take (nat j) xs)"
  by (simp add: slice_def slice_start_def)

lemma length_slice_nonneg:
  "0 \<le> i \<Longrightarrow> 0 \<le> j \<Longrightarrow> length (slice xs i j) = min (length xs) (nat j) - nat i"
  by (simp add: slice_nonneg)

section \<open>Results\<close>

text \<open>Lifting a function over the success side of a result.\<close>

definition map_ok :: "('a \<Rightarrow> 'b) \<Rightarrow> 'e + 'a \<Rightarrow> 'e + 'b" where
  "map_ok f r = (case r of Inl e \<Rightarrow> Inl e | Inr x \<Rightarrow> Inr (f x))"

lemma map_ok_simps [simp]: "map_ok f (Inl e) = Inl e" "map_ok f (Inr x) = Inr (f x)"
  by (simp_all add: map_ok_def)

lemma map_ok_eq_Inr [simp]: "map_ok f r = Inr y \<longleftrightarrow> (\<exists>x. r = Inr x \<and> y = f x)"
  by (cases r) auto

lemma map_ok_eq_Inl [simp]: "map_ok f r = Inl e \<longleftrightarrow> r = Inl e"
  by (cases r) auto

lemma map_ok_map_ok [simp]: "map_ok f (map_ok g r) = map_ok (f \<circ> g) r"
  by (cases r) auto

text \<open>A comprehension over a list whose element expression can raise.\<close>

fun map_result :: "('a \<Rightarrow> 'e + 'b) \<Rightarrow> 'a list \<Rightarrow> 'e + 'b list" where
  "map_result f [] = Inr []"
| "map_result f (x # xs) =
     (case f x of Inl e \<Rightarrow> Inl e | Inr y \<Rightarrow> map_ok ((#) y) (map_result f xs))"

lemma map_result_Inr: "(\<And>x. x \<in> set xs \<Longrightarrow> f x = Inr (g x)) \<Longrightarrow> map_result f xs = Inr (map g xs)"
  by (induction xs) auto

lemma map_result_map: "map_result f (map g xs) = map_result (\<lambda>x. f (g x)) xs"
  by (induction xs) (simp_all split: sum.split)

text \<open>A dictionary display or comprehension: later items replace the values of earlier ones.\<close>

definition dict_of :: "('k \<times> 'v) list \<Rightarrow> ('k, 'v) dict" where
  "dict_of items = fold (\<lambda>(k, v). dict_set k v) items []"

lemma fold_dict_set_distinct:
  "distinct (map fst (d @ items)) \<Longrightarrow> fold (\<lambda>(k, v). dict_set k v) items d = d @ items"
  by (induction items arbitrary: d) (auto simp: dict_set_absent)

lemma dict_of_distinct [simp]: "distinct (map fst items) \<Longrightarrow> dict_of items = items"
  using fold_dict_set_distinct [of "[]" items] by (simp add: dict_of_def)

section \<open>Lists\<close>

lemma span_append:
  assumes "\<forall>x \<in> set xs. P x" and "ys = [] \<or> \<not> P (hd ys)"
  shows "takeWhile P (xs @ ys) = xs" and "dropWhile P (xs @ ys) = ys"
  using assms by (induction xs) (cases ys; auto)+

lemma dropWhile_all: "\<forall>x \<in> set xs. P x \<Longrightarrow> dropWhile P xs = []"
  by simp

text \<open>A list that is strictly ordered is determined by its elements.\<close>

lemma sorted_wrt_unique:
  assumes "\<And>a b. P a b \<Longrightarrow> \<not> P b a"
  shows "sorted_wrt P xs \<Longrightarrow> sorted_wrt P ys \<Longrightarrow> set xs = set ys \<Longrightarrow> xs = ys"
proof (induction xs arbitrary: ys)
  case Nil
  then show ?case by simp
next
  case (Cons x xs)
  then obtain y zs where ys: "ys = y # zs" by (cases ys) auto
  have "x = y"
  proof (rule ccontr)
    assume "x \<noteq> y"
    with Cons.prems ys have "x \<in> set zs" "y \<in> set xs" by auto
    with Cons.prems ys have "P y x" "P x y" by auto
    with assms show False by blast
  qed
  have "\<not> P x x" using assms by blast
  then have "x \<notin> set xs" "y \<notin> set zs" using Cons.prems ys \<open>x = y\<close> by auto
  with \<open>x = y\<close> Cons.prems(3) ys have "set xs = set zs" by (simp add: insert_ident)
  with Cons.IH [of zs] Cons.prems(1,2) ys \<open>x = y\<close> show ?case by simp
qed

lemma those_Some_iff: "those xs = Some ys \<longleftrightarrow> xs = map Some ys"
proof (induction xs arbitrary: ys)
  case Nil
  then show ?case by auto
next
  case (Cons x xs)
  then show ?case by (cases x; cases ys) (auto split: option.splits)
qed

end
