(* ===== verification/Py_Text.thy ===== *)
theory Py_Text
  imports Prelude
begin

text \<open>
  Python's text operations as the program uses them: white space and decimal digits of
  Unicode 15.0 (the database of Python 3.12), \<open>strip\<close>, \<open>split\<close>, \<open>join\<close>, the conversion
  between digit strings and integers, and the strict UTF-8 and UTF-16 codecs with the
  error positions that CPython reports.
\<close>

section \<open>Character classes\<close>

definition py_isspace :: "nat \<Rightarrow> bool" where
  "py_isspace c \<longleftrightarrow>
     (9 \<le> c \<and> c \<le> 13) \<or> (28 \<le> c \<and> c \<le> 32) \<or> c = 133 \<or> c = 160 \<or> c = 5760 \<or>
     (8192 \<le> c \<and> c \<le> 8202) \<or> c = 8232 \<or> c = 8233 \<or> c = 8239 \<or> c = 8287 \<or> c = 12288"

text \<open>The zeros of the 68 runs of decimal digits (general category Nd).\<close>

definition decimal_zeros :: "nat list" where
  "decimal_zeros =
     [48, 1632, 1776, 1984, 2406, 2534, 2662, 2790, 2918, 3046, 3174, 3302, 3430, 3558, 3664,
      3792, 3872, 4160, 4240, 6112, 6160, 6470, 6608, 6784, 6800, 6992, 7088, 7232, 7248,
      42528, 43216, 43264, 43472, 43504, 43600, 44016, 65296, 66720, 68912, 69734, 69872,
      69942, 70096, 70384, 70736, 70864, 71248, 71360, 71472, 71904, 72016, 72784, 73040,
      73120, 73552, 92768, 92864, 93008, 120782, 120792, 120802, 120812, 120822, 123200,
      123632, 124144, 125264, 130032]"

definition decimal_value :: "nat \<Rightarrow> nat option" where
  "decimal_value c =
     (if c < 1632 then (if 48 \<le> c \<and> c \<le> 57 then Some (c - 48) else None)
      else map_option (\<lambda>z. c - z) (find (\<lambda>z. z \<le> c \<and> c < z + 10) decimal_zeros))"

definition py_isdecimal :: "nat \<Rightarrow> bool" where
  "py_isdecimal c \<longleftrightarrow> decimal_value c \<noteq> None"

lemma decimal_value_ascii: "d < 10 \<Longrightarrow> decimal_value (48 + d) = Some d"
  by (simp add: decimal_value_def)

lemma decimal_value_lt: "decimal_value c = Some d \<Longrightarrow> d < 10"
  by (auto simp: decimal_value_def find_Some_iff split: if_splits)

lemma decimal_not_ascii_punct:
  "c < 48 \<Longrightarrow> decimal_value c = None" "57 < c \<Longrightarrow> c < 1632 \<Longrightarrow> decimal_value c = None"
  by (simp_all add: decimal_value_def)

section \<open>Stripping, splitting and joining\<close>

definition py_lstrip :: "pystr \<Rightarrow> pystr" where
  "py_lstrip s = dropWhile py_isspace s"

definition py_strip :: "pystr \<Rightarrow> pystr" where
  "py_strip s = rev (py_lstrip (rev (py_lstrip s)))"

text \<open>\<open>s.split(sep)\<close> for a separator of one character.\<close>

fun split_on :: "nat \<Rightarrow> pystr \<Rightarrow> pystr list" where
  "split_on sep [] = [[]]"
| "split_on sep (c # s) =
     (if c = sep then [] # split_on sep s
      else case split_on sep s of [] \<Rightarrow> [[c]] | w # ws \<Rightarrow> (c # w) # ws)"

text \<open>\<open>sep.join(words)\<close>.\<close>

fun join :: "pystr \<Rightarrow> pystr list \<Rightarrow> pystr" where
  "join sep [] = []"
| "join sep [w] = w"
| "join sep (w # ws) = w @ sep @ join sep ws"

lemma split_on_nonempty [simp]: "split_on sep s \<noteq> []"
  by (cases s) (auto split: list.splits)

lemma split_on_absent: "sep \<notin> set s \<Longrightarrow> split_on sep s = [s]"
  by (induction s) auto

lemma split_on_append: "sep \<notin> set w \<Longrightarrow> split_on sep (w @ sep # s) = w # split_on sep s"
  by (induction w) auto

lemma split_on_no_sep: "w \<in> set (split_on sep s) \<Longrightarrow> sep \<notin> set w"
  by (induction s arbitrary: w) (auto split: if_splits list.splits)

lemma split_on_subset: "w \<in> set (split_on sep s) \<Longrightarrow> set w \<subseteq> set s"
  by (induction s arbitrary: w) (fastforce split: if_splits list.splits)+

lemma split_on_join:
  "ws \<noteq> [] \<Longrightarrow> \<forall>w \<in> set ws. sep \<notin> set w \<Longrightarrow> split_on sep (join [sep] ws) = ws"
  by (induction "[sep]" ws rule: join.induct) (auto simp: split_on_absent split_on_append)

lemma join_snoc: "ws \<noteq> [] \<Longrightarrow> join sep (ws @ [w]) = join sep ws @ sep @ w"
  by (induction sep ws rule: join.induct) auto

lemma join_split_on: "join [sep] (split_on sep s) = s"
proof (induction s)
  case (Cons c s)
  then show ?case
    by (cases "split_on sep s" rule: list.exhaust; cases "tl (split_on sep s)") auto
qed simp

section \<open>Integers and digit strings\<close>

text \<open>\<open>str(n)\<close> for a natural number and for an integer.\<close>

fun nat_str :: "nat \<Rightarrow> pystr" where
  "nat_str n = (if n < 10 then [48 + n] else nat_str (n div 10) @ [48 + n mod 10])"

declare nat_str.simps [simp del]

definition int_str :: "int \<Rightarrow> pystr" where
  "int_str i = (if i < 0 then 45 # nat_str (nat (- i)) else nat_str (nat i))"

text \<open>The value of a string of decimal digits, most significant first.\<close>

fun digits_value :: "nat \<Rightarrow> pystr \<Rightarrow> nat option" where
  "digits_value acc [] = Some acc"
| "digits_value acc (c # s) =
     (case decimal_value c of None \<Rightarrow> None | Some d \<Rightarrow> digits_value (10 * acc + d) s)"

text \<open>
  \<open>int(s)\<close> on a string without sign, space or underscore: \<open>None\<close> is the
  \<open>ValueError\<close>, also raised beyond the interpreter's limit of 4300 digits.
\<close>

definition int_max_str_digits :: nat where
  "int_max_str_digits = 4300"

definition py_int :: "pystr \<Rightarrow> int option" where
  "py_int s =
     (if s = [] \<or> length s > int_max_str_digits then None else map_option int (digits_value 0 s))"

lemma digits_value_append:
  "digits_value acc (s @ t) = (case digits_value acc s of None \<Rightarrow> None | Some v \<Rightarrow> digits_value v t)"
  by (induction acc s rule: digits_value.induct) (auto split: option.splits)

lemma digits_value_nat_str: "digits_value 0 (nat_str n) = Some n"
proof (induction n rule: nat_str.induct)
  case (1 n)
  have last: "decimal_value (48 + n mod 10) = Some (n mod 10)"
    by (rule decimal_value_ascii) simp
  show ?case
  proof (cases "n < 10")
    case True
    then show ?thesis by (subst nat_str.simps) (simp add: decimal_value_ascii)
  next
    case False
    with 1 show ?thesis
      by (subst nat_str.simps) (simp add: digits_value_append last)
  qed
qed

lemma nat_str_nonempty [simp]: "nat_str n \<noteq> []"
  by (subst nat_str.simps) simp

lemma nat_str_ascii_digits: "c \<in> set (nat_str n) \<Longrightarrow> 48 \<le> c \<and> c \<le> 57"
proof (induction n rule: nat_str.induct)
  case (1 n)
  show ?case
  proof (cases "n < 10")
    case True
    with "1.prems" show ?thesis by (subst (asm) nat_str.simps) simp
  next
    case False
    then have "nat_str n = nat_str (n div 10) @ [48 + n mod 10]"
      by (subst nat_str.simps) simp
    with "1.prems" consider "c \<in> set (nat_str (n div 10))" | "c = 48 + n mod 10" by auto
    then show ?thesis
    proof cases
      case 1
      with "1.IH" False show ?thesis by simp
    next
      case 2
      have "n mod 10 < 10" by simp
      with 2 show ?thesis by linarith
    qed
  qed
qed

lemma py_int_nat_str:
  "length (nat_str n) \<le> int_max_str_digits \<Longrightarrow> py_int (nat_str n) = Some (int n)"
  by (simp add: py_int_def digits_value_nat_str)

lemma py_int_nonneg: "py_int s = Some i \<Longrightarrow> 0 \<le> i"
  by (auto simp: py_int_def split: if_splits)

end
