(* ===== verification/Py_Codecs.thy ===== *)
theory Py_Codecs
  imports Py_Text
begin

text \<open>
  The strict codecs behind \<open>str.encode\<close> and \<open>bytes.decode\<close>: UTF-8 with and without
  signature, UTF-16 in both byte orders, ASCII, Latin-1 and table-driven code pages.
  A decoding failure carries the \<open>start\<close> and \<open>reason\<close> of CPython's
  \<open>UnicodeDecodeError\<close>. Code units are natural numbers; \<open>bytes\<close> values are converted
  at the outside.
\<close>

datatype decode_failure = Decode_Failure (fail_start: nat) (fail_reason: string)

type_synonym decoded = "decode_failure + pystr"

section \<open>UTF-8\<close>

definition surrogate :: "nat \<Rightarrow> bool" where
  "surrogate c \<longleftrightarrow> 0xD800 \<le> c \<and> c < 0xE000"

definition scalar :: "nat \<Rightarrow> bool" where
  "scalar c \<longleftrightarrow> c < 0x110000 \<and> \<not> surrogate c"

definition utf8_units :: "nat \<Rightarrow> nat list" where
  "utf8_units c =
     (if c < 0x80 then [c]
      else if c < 0x800 then [0xC0 + c div 64, 0x80 + c mod 64]
      else if c < 0x10000 then [0xE0 + c div 64 div 64, 0x80 + c div 64 mod 64, 0x80 + c mod 64]
      else [0xF0 + c div 64 div 64 div 64, 0x80 + c div 64 div 64 mod 64, 0x80 + c div 64 mod 64,
            0x80 + c mod 64])"

text \<open>\<open>s.encode("utf-8")\<close>; \<open>None\<close> is the \<open>UnicodeEncodeError\<close> for a lone surrogate.\<close>

definition utf8_encode :: "pystr \<Rightarrow> bytes option" where
  "utf8_encode s =
     (if list_all scalar s then Some (map word_of_nat (concat (map utf8_units s))) else None)"

text \<open>Six more bits from a continuation byte.\<close>

definition shift6 :: "nat \<Rightarrow> nat \<Rightarrow> nat" where
  "shift6 q r = q * 64 + r"

definition cont :: "nat \<Rightarrow> bool" where
  "cont b \<longleftrightarrow> 0x80 \<le> b \<and> b < 0xC0"

text \<open>The second byte a lead byte of three or four allows.\<close>

definition second_ok :: "nat \<Rightarrow> nat \<Rightarrow> bool" where
  "second_ok a b \<longleftrightarrow> cont b \<and> (a = 0xE0 \<longrightarrow> 0xA0 \<le> b) \<and> (a = 0xED \<longrightarrow> b < 0xA0) \<and>
     (a = 0xF0 \<longrightarrow> 0x90 \<le> b) \<and> (a = 0xF4 \<longrightarrow> b < 0x90)"

definition bad_start :: string where "bad_start = ''invalid start byte''"
definition bad_cont :: string where "bad_cont = ''invalid continuation byte''"
definition bad_end :: string where "bad_end = ''unexpected end of data''"

fun utf8_dec :: "nat \<Rightarrow> nat list \<Rightarrow> decoded" where
  "utf8_dec pos [] = Inr []"
| "utf8_dec pos (a # s) =
     (if a < 0x80 then map_ok ((#) a) (utf8_dec (pos + 1) s)
      else if a < 0xC2 then Inl (Decode_Failure pos bad_start)
      else if a < 0xE0 then
        (case s of
           [] \<Rightarrow> Inl (Decode_Failure pos bad_end)
         | b # s1 \<Rightarrow>
             if \<not> cont b then Inl (Decode_Failure pos bad_cont)
             else map_ok ((#) (shift6 (a - 0xC0) (b - 0x80))) (utf8_dec (pos + 2) s1))
      else if a < 0xF0 then
        (case s of
           [] \<Rightarrow> Inl (Decode_Failure pos bad_end)
         | b # s1 \<Rightarrow>
             if \<not> second_ok a b then Inl (Decode_Failure pos bad_cont)
             else (case s1 of
                 [] \<Rightarrow> Inl (Decode_Failure pos bad_end)
               | c # s2 \<Rightarrow>
                   if \<not> cont c then Inl (Decode_Failure pos bad_cont)
                   else map_ok ((#) (shift6 (shift6 (a - 0xE0) (b - 0x80)) (c - 0x80)))
                     (utf8_dec (pos + 3) s2)))
      else if a < 0xF5 then
        (case s of
           [] \<Rightarrow> Inl (Decode_Failure pos bad_end)
         | b # s1 \<Rightarrow>
             if \<not> second_ok a b then Inl (Decode_Failure pos bad_cont)
             else (case s1 of
                 [] \<Rightarrow> Inl (Decode_Failure pos bad_end)
               | c # s2 \<Rightarrow>
                   if \<not> cont c then Inl (Decode_Failure pos bad_cont)
                   else (case s2 of
                       [] \<Rightarrow> Inl (Decode_Failure pos bad_end)
                     | d # s3 \<Rightarrow>
                         if \<not> cont d then Inl (Decode_Failure pos bad_cont)
                         else map_ok ((#) (shift6 (shift6 (shift6 (a - 0xF0) (b - 0x80))
                               (c - 0x80)) (d - 0x80))) (utf8_dec (pos + 4) s3))))
      else Inl (Decode_Failure pos bad_start))"

declare utf8_dec.simps(2) [simp del]

definition utf8_decode :: "bytes \<Rightarrow> decoded" where
  "utf8_decode b = utf8_dec 0 (map unat b)"

text \<open>
  \<open>utf-8-sig\<close> drops the signature and then decodes the remainder, so the start of a
  failure counts from behind the signature.
\<close>

definition utf8_sig_decode :: "bytes \<Rightarrow> decoded" where
  "utf8_sig_decode b =
     (if take 3 b = [0xEF, 0xBB, 0xBF] then utf8_decode (drop 3 b) else utf8_decode b)"

subsection \<open>Round trips\<close>

lemma utf8_units_byte: "c < 0x110000 \<Longrightarrow> u \<in> set (utf8_units c) \<Longrightarrow> u < 256"
  by (auto simp: utf8_units_def split: if_splits)

lemma utf8_units_nonempty [simp]: "utf8_units c \<noteq> []"
  by (simp add: utf8_units_def)

lemma shift6_div_mod [simp]: "r < 64 \<Longrightarrow> shift6 q r div 64 = q" "r < 64 \<Longrightarrow> shift6 q r mod 64 = r"
  by (auto simp: shift6_def)

lemma shift6_lt: "q < m \<Longrightarrow> r < 64 \<Longrightarrow> shift6 q r < 64 * m"
  by (simp add: shift6_def)

lemma shift6_ge: "m \<le> q \<Longrightarrow> 64 * m \<le> shift6 q r"
  by (simp add: shift6_def)

lemma shift6_cases:
  obtains q r where "c = shift6 q r" "r < 64"
  by (metis shift6_def div_mod_decomp mod_less_divisor zero_less_numeral)

lemma utf8_dec_units:
  assumes "scalar c"
  shows "utf8_dec pos (utf8_units c @ s) = map_ok ((#) c) (utf8_dec (pos + length (utf8_units c)) s)"
proof -
  obtain q r where c: "c = shift6 q r" "r < 64" by (rule shift6_cases)
  obtain t u where q: "q = shift6 t u" "u < 64" by (rule shift6_cases)
  obtain v w where t: "t = shift6 v w" "w < 64" by (rule shift6_cases)
  have d: "c div 64 = q" "c mod 64 = r" "q div 64 = t" "q mod 64 = u" "t div 64 = v" "t mod 64 = w"
    using c q t by simp_all
  note ar = c(1) [unfolded shift6_def] q(1) [unfolded shift6_def] t(1) [unfolded shift6_def]
    c(2) q(2) t(2)
  consider "c < 0x80" | "0x80 \<le> c" "c < 0x800" | "0x800 \<le> c" "c < 0x10000"
    | "0x10000 \<le> c" "c < 0x110000"
    using assms by (fastforce simp: scalar_def)
  then show ?thesis
  proof cases
    case 1
    then show ?thesis by (simp add: utf8_units_def utf8_dec.simps)
  next
    case 2
    then have "utf8_units c = [0xC0 + q, 0x80 + r]" "2 \<le> q" "q < 32"
      using d ar by (auto simp: utf8_units_def)
    with c show ?thesis by (simp add: utf8_dec.simps cont_def)
  next
    case 3
    then have u: "utf8_units c = [0xE0 + t, 0x80 + u, 0x80 + r]"
      using d by (simp add: utf8_units_def)
    have "t < 16" "t = 0 \<Longrightarrow> 32 \<le> u" using 3 ar by linarith+
    moreover have "t = 13 \<Longrightarrow> u < 32"
      using assms ar(1,2,4,5) by (auto simp: scalar_def surrogate_def)
    moreover have three: "Suc (Suc (Suc pos)) = pos + 3" by simp
    ultimately show ?thesis using c q unfolding u
      by (simp add: utf8_dec.simps second_ok_def cont_def three)
  next
    case 4
    then have u: "utf8_units c = [0xF0 + v, 0x80 + w, 0x80 + u, 0x80 + r]"
      using d by (simp add: utf8_units_def)
    have "v < 5" "v = 0 \<Longrightarrow> 16 \<le> w" "v = 4 \<Longrightarrow> w < 16" using 4 ar by linarith+
    moreover have four: "Suc (Suc (Suc (Suc pos))) = pos + 4" by simp
    ultimately show ?thesis using c q t unfolding u
      by (simp add: utf8_dec.simps second_ok_def cont_def four)
  qed
qed

lemma utf8_dec_concat_units:
  "list_all scalar s \<Longrightarrow> utf8_dec pos (concat (map utf8_units s)) = Inr s"
  by (induction s arbitrary: pos) (simp_all add: utf8_dec_units)

lemma map_unat_word_of_nat:
  "\<forall>u \<in> set us. u < 256 \<Longrightarrow> map unat (map word_of_nat us :: bytes) = us"
  by (induction us) (auto simp: unat_of_nat)

lemma utf8_decode_encode: "utf8_encode s = Some b \<Longrightarrow> utf8_decode b = Inr s"
proof -
  assume e: "utf8_encode s = Some b"
  then have ok: "list_all scalar s" and b: "b = map word_of_nat (concat (map utf8_units s))"
    by (auto simp: utf8_encode_def split: if_splits)
  from ok have "\<forall>u \<in> set (concat (map utf8_units s)). u < 256"
    by (auto simp: list_all_iff scalar_def intro: utf8_units_byte)
  with ok b show ?thesis
    by (simp add: utf8_decode_def map_unat_word_of_nat utf8_dec_concat_units del: map_map)
qed

text \<open>Whatever the decoder accepts is the encoding of what it returns.\<close>

definition encodes :: "nat \<Rightarrow> nat list \<Rightarrow> bool" where
  "encodes n us \<longleftrightarrow> scalar n \<and> utf8_units n = us"

lemma utf8_units_1: "a < 0x80 \<Longrightarrow> encodes a [a]"
  by (simp add: encodes_def utf8_units_def scalar_def surrogate_def)

lemma utf8_units_2:
  assumes "\<not> a < 0xC2" "a < 0xE0" "cont b"
  shows "encodes (shift6 (a - 0xC0) (b - 0x80)) [a, b]"
proof -
  obtain x y where b: "a = 0xC0 + x" "b = 0x80 + y" "2 \<le> x" "x < 32" "y < 64"
    using assms by (auto simp: cont_def intro!: that [of "a - 0xC0" "b - 0x80"])
  moreover from b have "0x80 \<le> shift6 x y" "shift6 x y < 0x800" by (simp_all add: shift6_def)
  ultimately show ?thesis
    by (simp add: encodes_def utf8_units_def scalar_def surrogate_def)
qed

lemma utf8_units_3:
  assumes "\<not> a < 0xE0" "a < 0xF0" "second_ok a b" "cont c"
  shows "encodes (shift6 (shift6 (a - 0xE0) (b - 0x80)) (c - 0x80)) [a, b, c]"
proof -
  obtain x y z where abc: "a = 0xE0 + x" "b = 0x80 + y" "c = 0x80 + z"
    using assms unfolding second_ok_def cont_def by (metis le_iff_add not_less)
  then have b: "x < 16" "y < 64" "z < 64" "x = 0 \<longrightarrow> 32 \<le> y" "x = 13 \<longrightarrow> y < 32"
    using assms by (simp_all add: second_ok_def cont_def)
  let ?n = "shift6 (shift6 x y) z"
  have n: "?n = x * 4096 + y * 64 + z" by (simp add: shift6_def)
  have "0x800 \<le> ?n" using b n by (cases "x = 0") linarith+
  moreover have "?n < 0x10000" using b n by linarith
  moreover have "\<not> (0xD800 \<le> ?n \<and> ?n < 0xE000)"
  proof (cases "x = 13")
    case True
    with b n show ?thesis by linarith
  next
    case False
    then have "x \<le> 12 \<or> 14 \<le> x" by linarith
    with b n show ?thesis by linarith
  qed
  ultimately show ?thesis
    using b abc by (simp add: encodes_def utf8_units_def scalar_def surrogate_def)
qed

lemma utf8_units_4:
  assumes "\<not> a < 0xF0" "a < 0xF5" "second_ok a b" "cont c" "cont d"
  shows "encodes (shift6 (shift6 (shift6 (a - 0xF0) (b - 0x80)) (c - 0x80)) (d - 0x80)) [a, b, c, d]"
proof -
  obtain w x y z where abc: "a = 0xF0 + w" "b = 0x80 + x" "c = 0x80 + y" "d = 0x80 + z"
    using assms unfolding second_ok_def cont_def by (metis le_iff_add not_less)
  then have b: "w < 5" "x < 64" "y < 64" "z < 64" "w = 0 \<longrightarrow> 16 \<le> x" "w = 4 \<longrightarrow> x < 16"
    using assms by (simp_all add: second_ok_def cont_def)
  let ?n = "shift6 (shift6 (shift6 w x) y) z"
  have n: "?n = w * 262144 + x * 4096 + y * 64 + z" by (simp add: shift6_def)
  have "0x10000 \<le> ?n" using b n by (cases "w = 0") linarith+
  moreover have "?n < 0x110000"
  proof (cases "w = 4")
    case True
    with b n show ?thesis by linarith
  next
    case False
    then have "w \<le> 3" using b by linarith
    with b n show ?thesis by linarith
  qed
  ultimately show ?thesis
    using b abc by (simp add: encodes_def utf8_units_def scalar_def surrogate_def)
qed

definition encodes_all :: "pystr \<Rightarrow> nat list \<Rightarrow> bool" where
  "encodes_all s us \<longleftrightarrow> list_all scalar s \<and> concat (map utf8_units s) = us"

lemma encodes_all_Nil: "encodes_all [] []"
  by (simp add: encodes_all_def)

lemma encodes_all_Cons: "encodes n us \<Longrightarrow> encodes_all s vs \<Longrightarrow> us @ vs = ws \<Longrightarrow> encodes_all (n # s) ws"
  by (auto simp: encodes_def encodes_all_def)

lemma utf8_dec_sound: "utf8_dec pos us = Inr s \<Longrightarrow> encodes_all s us"
proof (induction pos us arbitrary: s rule: utf8_dec.induct)
  case (2 pos a us)
  note step = "2.prems" [unfolded utf8_dec.simps(2)]
  consider "a < 0x80" | "\<not> a < 0xC2" "a < 0xE0" | "\<not> a < 0xE0" "a < 0xF0" | "\<not> a < 0xF0" "a < 0xF5"
    using step by (fastforce split: if_splits)
  then show ?case
  proof cases
    case 1
    with step 2(1) show ?thesis
      by (auto intro!: encodes_all_Cons [OF utf8_units_1])
  next
    case 2
    with step "2.IH"(2) show ?thesis
      by (auto split: list.splits if_splits intro!: encodes_all_Cons [OF utf8_units_2])
  next
    case 3
    with step "2.IH"(3) show ?thesis
      by (auto split: list.splits if_splits intro!: encodes_all_Cons [OF utf8_units_3])
  next
    case 4
    with step "2.IH"(4) show ?thesis
      by (auto split: list.splits if_splits intro!: encodes_all_Cons [OF utf8_units_4])
  qed
qed (simp add: encodes_all_Nil)

lemma utf8_encode_decode: "utf8_decode b = Inr s \<Longrightarrow> utf8_encode s = Some b"
proof -
  assume "utf8_decode b = Inr s"
  then have "list_all scalar s" "concat (map utf8_units s) = map unat b"
    by (auto simp: utf8_decode_def encodes_all_def dest!: utf8_dec_sound)
  then show ?thesis by (simp add: utf8_encode_def comp_def)
qed

lemma utf8_encode_inj: "utf8_encode s = Some b \<Longrightarrow> utf8_encode t = Some b \<Longrightarrow> s = t"
  by (metis utf8_decode_encode Inr_inject)

lemma utf8_encode_None_iff: "utf8_encode s = None \<longleftrightarrow> (\<exists>c \<in> set s. \<not> scalar c)"
  by (auto simp: utf8_encode_def list_all_iff)

lemma utf8_encode_Nil [simp]: "utf8_encode [] = Some []"
  by (simp add: utf8_encode_def)

lemma utf8_encode_eq_Nil: "utf8_encode s = Some [] \<Longrightarrow> s = []"
  by (metis utf8_encode_Nil utf8_encode_inj)

section \<open>UTF-16\<close>

datatype byte_order = Little | Big

definition unit16 :: "byte_order \<Rightarrow> nat \<Rightarrow> nat \<Rightarrow> nat" where
  "unit16 order a b = (case order of Little \<Rightarrow> a + 256 * b | Big \<Rightarrow> 256 * a + b)"

definition high_surrogate :: "nat \<Rightarrow> bool" where
  "high_surrogate u \<longleftrightarrow> 0xD800 \<le> u \<and> u < 0xDC00"

definition low_surrogate :: "nat \<Rightarrow> bool" where
  "low_surrogate u \<longleftrightarrow> 0xDC00 \<le> u \<and> u < 0xE000"

fun utf16_dec :: "byte_order \<Rightarrow> nat \<Rightarrow> nat list \<Rightarrow> decoded" where
  "utf16_dec order pos [] = Inr []"
| "utf16_dec order pos [a] = Inl (Decode_Failure pos ''truncated data'')"
| "utf16_dec order pos (a # b # s) =
     (let u = unit16 order a b in
      if high_surrogate u then
        (case s of
           c # d # s1 \<Rightarrow>
             (let v = unit16 order c d in
              if low_surrogate v
              then map_ok ((#) (0x10000 + (u - 0xD800) * 1024 + (v - 0xDC00)))
                     (utf16_dec order (pos + 4) s1)
              else Inl (Decode_Failure pos ''illegal UTF-16 surrogate''))
         | _ \<Rightarrow> Inl (Decode_Failure pos bad_end))
      else if low_surrogate u then Inl (Decode_Failure pos ''illegal encoding'')
      else map_ok ((#) u) (utf16_dec order (pos + 2) s))"

text \<open>
  The codec \<open>utf-16\<close> takes the byte order from a leading mark, which it drops; without a
  mark it falls back to the host's order, here little-endian. Positions count the mark.
\<close>

definition utf16_decode :: "byte_order \<Rightarrow> bytes \<Rightarrow> decoded" where
  "utf16_decode order b = utf16_dec order 0 (map unat b)"

definition utf16_bom_decode :: "bytes \<Rightarrow> decoded" where
  "utf16_bom_decode b =
     (let us = map unat b in
      if take 2 us = [0xFF, 0xFE] then utf16_dec Little 2 (drop 2 us)
      else if take 2 us = [0xFE, 0xFF] then utf16_dec Big 2 (drop 2 us)
      else utf16_dec Little 0 us)"

section \<open>Single-byte encodings\<close>

fun ascii_dec :: "nat \<Rightarrow> nat list \<Rightarrow> decoded" where
  "ascii_dec pos [] = Inr []"
| "ascii_dec pos (a # s) =
     (if a < 128 then map_ok ((#) a) (ascii_dec (pos + 1) s)
      else Inl (Decode_Failure pos ''ordinal not in range(128)''))"

definition ascii_decode :: "bytes \<Rightarrow> decoded" where
  "ascii_decode b = ascii_dec 0 (map unat b)"

definition latin1_decode :: "bytes \<Rightarrow> decoded" where
  "latin1_decode b = Inr (map unat b)"

text \<open>A code page is given by its decoding table; \<open>None\<close> marks an undefined byte.\<close>

type_synonym charmap = "byte \<Rightarrow> nat option"

fun charmap_dec :: "charmap \<Rightarrow> nat \<Rightarrow> bytes \<Rightarrow> decoded" where
  "charmap_dec t pos [] = Inr []"
| "charmap_dec t pos (a # s) =
     (case t a of
        Some c \<Rightarrow> map_ok ((#) c) (charmap_dec t (pos + 1) s)
      | None \<Rightarrow> Inl (Decode_Failure pos ''character maps to <undefined>''))"

definition charmap_decode :: "charmap \<Rightarrow> bytes \<Rightarrow> decoded" where
  "charmap_decode t b = charmap_dec t 0 b"

end
