(* ===== verification/Py_Datetime.thy ===== *)
theory Py_Datetime
  imports Py_Codecs
begin

text \<open>
  Python's \<open>datetime\<close>: calendar fields with an optional time zone and the \<open>fold\<close> flag,
  the proleptic Gregorian ordinal, equality (with the rules of PEP 495 for zones whose
  offset depends on \<open>fold\<close>) and \<open>isoformat\<close>. Messages of exceptions are kept as the
  fragments of the f-string that builds them.
\<close>

section \<open>Exceptions and their messages\<close>

text \<open>
  The pieces of an f-string: literal text, an integer, a string, and the conversions
  \<open>!r\<close> and \<open>!a\<close>, which are left unrendered.
\<close>

datatype frag = Txt string | Num int | Str pystr | Repr pystr | Ascii pystr

type_synonym message = "frag list"

datatype py_exn =
    ValueError message
  | TypeError message
  | RuntimeError message
  | OverflowError message
  | OSError message
  | KeyErrorInt int
  | KeyErrorStr pystr
  | StoreError string message
  | RecursionError

text \<open>
  \<open>value.encode("utf-8")\<close> succeeds on a rendered message: \<open>!a\<close> is ASCII and \<open>!r\<close>
  escapes surrogates, so only interpolated strings can fail.
\<close>

fun frag_encodable :: "frag \<Rightarrow> bool" where
  "frag_encodable (Txt s) = list_all scalar (lit s)"
| "frag_encodable (Num i) = True"
| "frag_encodable (Str s) = list_all scalar s"
| "frag_encodable (Repr s) = True"
| "frag_encodable (Ascii s) = True"

definition message_encodable :: "message \<Rightarrow> bool" where
  "message_encodable m \<longleftrightarrow> list_all frag_encodable m"

lemma scalar_small: "c < 0xD800 \<Longrightarrow> scalar c"
  by (simp add: scalar_def surrogate_def)

lemma scalar_lit [simp]: "list_all scalar (lit s)"
  by (auto simp: list_all_iff dest!: set_lit_lt intro!: scalar_small)

lemma message_encodable_simps [simp]:
  "message_encodable []"
  "message_encodable (f # m) \<longleftrightarrow> frag_encodable f \<and> message_encodable m"
  "message_encodable (m @ m') \<longleftrightarrow> message_encodable m \<and> message_encodable m'"
  by (simp_all add: message_encodable_def)

section \<open>Calendar\<close>

definition is_leap :: "int \<Rightarrow> bool" where
  "is_leap y \<longleftrightarrow> y mod 4 = 0 \<and> (y mod 100 \<noteq> 0 \<or> y mod 400 = 0)"

definition days_in_month :: "int \<Rightarrow> int \<Rightarrow> int" where
  "days_in_month y m =
     (if m = 2 then (if is_leap y then 29 else 28)
      else if m = 4 \<or> m = 6 \<or> m = 9 \<or> m = 11 then 30 else 31)"

definition days_before_year :: "int \<Rightarrow> int" where
  "days_before_year y = (let y1 = y - 1 in y1 * 365 + y1 div 4 - y1 div 100 + y1 div 400)"

definition days_before_month :: "int \<Rightarrow> int \<Rightarrow> int" where
  "days_before_month y m =
     ([0, 31, 59, 90, 120, 151, 181, 212, 243, 273, 304, 334] ! nat (m - 1)) +
     (if m > 2 \<and> is_leap y then 1 else 0)"

definition ymd_ordinal :: "int \<Rightarrow> int \<Rightarrow> int \<Rightarrow> int" where
  "ymd_ordinal y m d = days_before_year y + days_before_month y m + d"

section \<open>Date-times\<close>

datatype tzinfo = Fixed_Offset int | Zone pystr

record datetime =
  dt_year :: int
  dt_month :: int
  dt_day :: int
  dt_hour :: int
  dt_minute :: int
  dt_second :: int
  dt_microsecond :: int
  dt_tz :: "tzinfo option"
  dt_fold :: bool

definition valid_date :: "int \<Rightarrow> int \<Rightarrow> int \<Rightarrow> bool" where
  "valid_date y m d \<longleftrightarrow> 1 \<le> y \<and> y \<le> 9999 \<and> 1 \<le> m \<and> m \<le> 12 \<and> 1 \<le> d \<and> d \<le> days_in_month y m"

definition valid_datetime :: "datetime \<Rightarrow> bool" where
  "valid_datetime t \<longleftrightarrow> valid_date (dt_year t) (dt_month t) (dt_day t) \<and>
     0 \<le> dt_hour t \<and> dt_hour t < 24 \<and> 0 \<le> dt_minute t \<and> dt_minute t < 60 \<and>
     0 \<le> dt_second t \<and> dt_second t < 60 \<and> 0 \<le> dt_microsecond t \<and> dt_microsecond t < 1000000"

text \<open>\<open>datetime(year, month, day, hour, minute)\<close> with the texts of its \<open>ValueError\<close>s.\<close>

definition make_datetime :: "int \<Rightarrow> int \<Rightarrow> int \<Rightarrow> int \<Rightarrow> int \<Rightarrow> py_exn + datetime" where
  "make_datetime y m d h mi =
     (if \<not> (1 \<le> y \<and> y \<le> 9999) then Inl (ValueError [Txt ''year '', Num y, Txt '' is out of range''])
      else if \<not> (1 \<le> m \<and> m \<le> 12) then Inl (ValueError [Txt ''month must be in 1..12''])
      else if \<not> (1 \<le> d \<and> d \<le> days_in_month y m)
        then Inl (ValueError [Txt ''day is out of range for month''])
      else if \<not> (0 \<le> h \<and> h \<le> 23) then Inl (ValueError [Txt ''hour must be in 0..23''])
      else if \<not> (0 \<le> mi \<and> mi \<le> 59) then Inl (ValueError [Txt ''minute must be in 0..59''])
      else Inr \<lparr>dt_year = y, dt_month = m, dt_day = d, dt_hour = h, dt_minute = mi,
                dt_second = 0, dt_microsecond = 0, dt_tz = None, dt_fold = False\<rparr>)"

text \<open>The wall clock as microseconds since the day before 0001-01-01.\<close>

definition dt_wall :: "datetime \<Rightarrow> int" where
  "dt_wall t =
     (((ymd_ordinal (dt_year t) (dt_month t) (dt_day t) * 24 + dt_hour t) * 60 + dt_minute t) * 60
       + dt_second t) * 1000000 + dt_microsecond t"

definition min_wall :: int where "min_wall = 86400000000"
definition max_wall :: int where "max_wall = (3652059 + 1) * 86400000000 - 1"

text \<open>
  The time zone database: the known keys, \<open>utcoffset\<close> of a zone for a wall clock and a fold,
  and \<open>fromutc\<close>, the wall clock of a zone for a UTC instant, both in microseconds.
\<close>

record tzdb =
  has_zone :: "pystr \<Rightarrow> bool"
  utcoffset :: "pystr \<Rightarrow> int \<Rightarrow> bool \<Rightarrow> int"
  fromutc :: "pystr \<Rightarrow> int \<Rightarrow> int"

fun tz_offset :: "tzdb \<Rightarrow> tzinfo \<Rightarrow> int \<Rightarrow> bool \<Rightarrow> int" where
  "tz_offset db (Fixed_Offset o') w f = o'"
| "tz_offset db (Zone k) w f = utcoffset db k w f"

definition fold_sensitive :: "tzdb \<Rightarrow> tzinfo \<Rightarrow> int \<Rightarrow> bool" where
  "fold_sensitive db z w \<longleftrightarrow> tz_offset db z w False \<noteq> tz_offset db z w True"

text \<open>
  \<open>a == b\<close>: one zone compares wall clocks, two zones compare instants, except that an
  operand whose offset depends on \<open>fold\<close> is unequal to every operand of another zone.
\<close>

definition py_datetime_eq :: "tzdb \<Rightarrow> datetime \<Rightarrow> datetime \<Rightarrow> bool" where
  "py_datetime_eq db a b =
     (case (dt_tz a, dt_tz b) of
        (None, None) \<Rightarrow> dt_wall a = dt_wall b
      | (Some x, Some y) \<Rightarrow>
          if x = y then dt_wall a = dt_wall b
          else \<not> fold_sensitive db x (dt_wall a) \<and> \<not> fold_sensitive db y (dt_wall b) \<and>
            dt_wall a - tz_offset db x (dt_wall a) (dt_fold a) =
            dt_wall b - tz_offset db y (dt_wall b) (dt_fold b)
      | _ \<Rightarrow> False)"

definition opt_datetime_eq :: "tzdb \<Rightarrow> datetime option \<Rightarrow> datetime option \<Rightarrow> bool" where
  "opt_datetime_eq db a b =
     (case (a, b) of
        (None, None) \<Rightarrow> True
      | (Some x, Some y) \<Rightarrow> py_datetime_eq db x y
      | _ \<Rightarrow> False)"

lemma py_datetime_eq_refl [simp]: "py_datetime_eq db t t"
  by (simp add: py_datetime_eq_def split: option.split)

lemma opt_datetime_eq_refl [simp]: "opt_datetime_eq db t t"
  by (simp add: opt_datetime_eq_def split: option.split)

lemma py_datetime_eq_sym: "py_datetime_eq db a b = py_datetime_eq db b a"
  by (auto simp: py_datetime_eq_def split: option.split)

section \<open>isoformat\<close>

definition pad_str :: "nat \<Rightarrow> int \<Rightarrow> pystr" where
  "pad_str n i = (let s = nat_str (nat i) in replicate (n - length s) 48 @ s)"

definition offset_str :: "int \<Rightarrow> pystr" where
  "offset_str off =
     (let a = \<bar>off\<bar>; h = a div 3600000000; m = a div 60000000 mod 60; s = a div 1000000 mod 60;
          us = a mod 1000000
      in (if off < 0 then 45 else 43) # pad_str 2 h @ 58 # pad_str 2 m @
         (if s \<noteq> 0 \<or> us \<noteq> 0 then 58 # pad_str 2 s else []) @
         (if us \<noteq> 0 then 46 # pad_str 6 us else []))"

definition isoformat :: "tzdb \<Rightarrow> datetime \<Rightarrow> pystr" where
  "isoformat db t =
     pad_str 4 (dt_year t) @ 45 # pad_str 2 (dt_month t) @ 45 # pad_str 2 (dt_day t) @ 84 #
     pad_str 2 (dt_hour t) @ 58 # pad_str 2 (dt_minute t) @ 58 # pad_str 2 (dt_second t) @
     (if dt_microsecond t \<noteq> 0 then 46 # pad_str 6 (dt_microsecond t) else []) @
     (case dt_tz t of
        None \<Rightarrow> []
      | Some z \<Rightarrow> offset_str (tz_offset db z (dt_wall t) (dt_fold t)))"

lemma pad_str_ascii: "c \<in> set (pad_str k i) \<Longrightarrow> 48 \<le> c \<and> c \<le> 57"
  using nat_str_ascii_digits by (fastforce simp: pad_str_def Let_def)

lemma pad_str_scalar: "list_all scalar (pad_str k i)"
  using pad_str_ascii by (fastforce simp: list_all_iff intro: scalar_small)

lemma isoformat_scalar: "list_all scalar (isoformat db t)"
  by (auto simp: isoformat_def offset_str_def Let_def pad_str_scalar scalar_small split: option.split)

section \<open>Validity\<close>

lemma make_datetime_valid: "make_datetime y m d h mi = Inr t \<Longrightarrow> valid_datetime t"
  by (auto simp: make_datetime_def valid_datetime_def valid_date_def split: if_splits)

lemma make_datetime_naive: "make_datetime y m d h mi = Inr t \<Longrightarrow> dt_tz t = None"
  by (auto simp: make_datetime_def split: if_splits)

end
