(* ===== verification/Model.thy ===== *)
theory Model
  imports Py_Datetime
begin

text \<open>
  The package \<open>snapshotfs.model\<close>: its enumerations, recursively frozen metadata, and the
  validating constructors of \<open>Node\<close>, \<open>ParsedEntry\<close> and \<open>Snapshot\<close>. A constructor
  (\<open>__post_init__\<close>) is a function into \<open>py_exn + record\<close>.
\<close>

section \<open>model/enums.py\<close>

datatype node_kind = DIRECTORY | FILE | SYMLINK | SPECIAL | UNKNOWN

datatype content_status = NOT_APPLICABLE | MISSING | PRESENT | REMOTE | FAILED | REDACTED

datatype observation = SECTION_HEADER | DIRECTORY_ENTRY | FILE_ENTRY

fun node_kind_value :: "node_kind \<Rightarrow> pystr" where
  "node_kind_value DIRECTORY = lit ''directory''"
| "node_kind_value FILE = lit ''file''"
| "node_kind_value SYMLINK = lit ''symlink''"
| "node_kind_value SPECIAL = lit ''special''"
| "node_kind_value UNKNOWN = lit ''unknown''"

fun content_status_value :: "content_status \<Rightarrow> pystr" where
  "content_status_value NOT_APPLICABLE = lit ''not_applicable''"
| "content_status_value MISSING = lit ''missing''"
| "content_status_value PRESENT = lit ''present''"
| "content_status_value REMOTE = lit ''remote''"
| "content_status_value FAILED = lit ''failed''"
| "content_status_value REDACTED = lit ''redacted''"

fun observation_value :: "observation \<Rightarrow> pystr" where
  "observation_value SECTION_HEADER = lit ''section_header''"
| "observation_value DIRECTORY_ENTRY = lit ''directory_entry''"
| "observation_value FILE_ENTRY = lit ''file_entry''"

section \<open>model/metadata.py\<close>

text \<open>
  A double is a finite dyadic number \<open>m * 2 ^ e\<close>, an infinity or not a number. A mapping
  is its list of items in iteration order; \<open>PyOther\<close> is a value of a type that metadata
  does not support, by the name of its type.
\<close>

datatype pyfloat = Finite int int | Infinity | NegInfinity | NaN

datatype pyval =
    PyNone
  | PyBool bool
  | PyInt int
  | PyFloat pyfloat
  | PyStr pystr
  | PyList "pyval list"
  | PyFrozenList "pyval list"
  | PyMap "(pyval \<times> pyval) list"
  | PyOther string

type_synonym metadata = "(pyval \<times> pyval) list"

definition EMPTY_METADATA :: metadata where
  "EMPTY_METADATA = []"

definition require_unicode :: "pystr \<Rightarrow> string \<Rightarrow> py_exn + unit" where
  "require_unicode value description =
     (if utf8_encode value = None
      then Inl (ValueError [Txt description, Txt '' is not valid Unicode''])
      else Inr ())"

fun freeze_value :: "pyval \<Rightarrow> py_exn + pyval"
  and freeze_items :: "(pyval \<times> pyval) list \<Rightarrow> py_exn + (pyval \<times> pyval) list"
  and freeze_list :: "pyval list \<Rightarrow> py_exn + pyval list" where
  "freeze_value (PyMap items) = map_ok PyMap (freeze_items items)"
| "freeze_value (PyFrozenList xs) = Inr (PyFrozenList xs)"
| "freeze_value (PyList xs) = map_ok PyFrozenList (freeze_list xs)"
| "freeze_value (PyStr s) = map_ok (\<lambda>_. PyStr s) (require_unicode s ''metadata string'')"
| "freeze_value PyNone = Inr PyNone"
| "freeze_value (PyBool b) = Inr (PyBool b)"
| "freeze_value (PyInt i) = Inr (PyInt i)"
| "freeze_value (PyFloat f) =
     (case f of
        Finite m e \<Rightarrow> Inr (PyFloat f)
      | _ \<Rightarrow> Inl (ValueError [Txt ''metadata contains a non-finite number'']))"
| "freeze_value (PyOther name) = Inl (TypeError [Txt ''unsupported metadata value '', Txt name])"
| "freeze_items [] = Inr []"
| "freeze_items ((k, v) # rest) =
     (case k of
        PyStr s \<Rightarrow>
          (case require_unicode s ''metadata object key'' of
             Inl e \<Rightarrow> Inl e
           | Inr _ \<Rightarrow>
               (case freeze_value v of
                  Inl e \<Rightarrow> Inl e
                | Inr v' \<Rightarrow> map_ok ((#) (PyStr s, v')) (freeze_items rest)))
      | _ \<Rightarrow> Inl (TypeError [Txt ''metadata object keys must be strings'']))"
| "freeze_list [] = Inr []"
| "freeze_list (v # rest) =
     (case freeze_value v of
        Inl e \<Rightarrow> Inl e
      | Inr v' \<Rightarrow> map_ok ((#) v') (freeze_list rest))"

definition freeze_metadata :: "metadata \<Rightarrow> py_exn + metadata" where
  "freeze_metadata m = freeze_items m"

fun thaw_value :: "pyval \<Rightarrow> pyval" where
  "thaw_value (PyMap items) = PyMap (map (\<lambda>(k, v). (k, thaw_value v)) items)"
| "thaw_value (PyFrozenList xs) = PyList (map thaw_value xs)"
| "thaw_value v = v"

definition thaw_metadata :: "metadata \<Rightarrow> metadata" where
  "thaw_metadata m = map (\<lambda>(k, v). (k, thaw_value v)) m"

subsection \<open>Frozen values\<close>

text \<open>
  A JSON value as the program accepts it: lists are Python lists, keys are strings that
  can be encoded, numbers are finite. A frozen value has only immutable containers.
\<close>

fun json_value :: "pyval \<Rightarrow> bool" where
  "json_value (PyMap items) \<longleftrightarrow>
     list_all (\<lambda>(k, v). (case k of PyStr s \<Rightarrow> utf8_encode s \<noteq> None | _ \<Rightarrow> False) \<and> json_value v) items"
| "json_value (PyList xs) \<longleftrightarrow> list_all json_value xs"
| "json_value (PyStr s) \<longleftrightarrow> utf8_encode s \<noteq> None"
| "json_value (PyFloat f) \<longleftrightarrow> (case f of Finite m e \<Rightarrow> True | _ \<Rightarrow> False)"
| "json_value PyNone \<longleftrightarrow> True"
| "json_value (PyBool b) \<longleftrightarrow> True"
| "json_value (PyInt i) \<longleftrightarrow> True"
| "json_value (PyFrozenList xs) \<longleftrightarrow> False"
| "json_value (PyOther n) \<longleftrightarrow> False"

abbreviation json_items :: "metadata \<Rightarrow> bool" where
  "json_items items \<equiv> json_value (PyMap items)"

text \<open>Freezing accepts every JSON value and thawing gives it back unchanged.\<close>

lemma freeze_thaw:
  "json_value v \<Longrightarrow> \<exists>w. freeze_value v = Inr w \<and> thaw_value w = v"
  "json_items items \<Longrightarrow> \<exists>items'. freeze_items items = Inr items' \<and> thaw_metadata items' = items"
  "list_all json_value xs \<Longrightarrow> \<exists>ys. freeze_list xs = Inr ys \<and> map thaw_value ys = xs"
proof (induction v and items and xs rule: freeze_value_freeze_items_freeze_list.induct)
  case (1 items)
  then show ?case by (auto simp: thaw_metadata_def)
next
  case (11 k v rest)
  then obtain s where k: "k = PyStr s" "utf8_encode s \<noteq> None" "json_value v" "json_items rest"
    by (auto split: pyval.splits)
  with "11.IH" obtain w rest' where
    "freeze_value v = Inr w" "thaw_value w = v" "freeze_items rest = Inr rest'" "thaw_metadata rest' = rest"
    by (fastforce simp: require_unicode_def)
  with k show ?case by (auto simp: require_unicode_def thaw_metadata_def)
qed (auto simp: require_unicode_def thaw_metadata_def split: sum.splits pyfloat.splits)

text \<open>Freezing a frozen value changes nothing, so records may be rebuilt from each other.\<close>

lemma freeze_idem:
  "freeze_value v = Inr w \<Longrightarrow> freeze_value w = Inr w"
  "freeze_items items = Inr items' \<Longrightarrow> freeze_items items' = Inr items'"
  "freeze_list xs = Inr ys \<Longrightarrow> list_all (\<lambda>y. freeze_value y = Inr y) ys"
  by (induction v and items and xs arbitrary: w and items' and ys
      rule: freeze_value_freeze_items_freeze_list.induct)
    (auto split: sum.splits pyfloat.splits pyval.splits)

lemma freeze_metadata_idem: "freeze_metadata m = Inr m' \<Longrightarrow> freeze_metadata m' = Inr m'"
  unfolding freeze_metadata_def by (rule freeze_idem(2))

lemma freeze_EMPTY [simp]: "freeze_metadata EMPTY_METADATA = Inr EMPTY_METADATA"
  by (simp add: freeze_metadata_def EMPTY_METADATA_def)

section \<open>model/node.py\<close>

record node =
  node_id :: int
  node_snapshot_id :: pystr
  node_parent_id :: "int option"
  node_mounted_name :: bytes
  node_original_path :: "pystr option"
  node_kind :: node_kind
  node_size :: "int option"
  node_modified_at :: "datetime option"
  node_content :: "bytes option"
  node_content_status :: content_status
  node_content_ref :: "pystr option"
  node_source_line :: "int option"
  node_source_metadata :: metadata

text \<open>\<open>not self.content_ref\<close>: absent or the empty string.\<close>

definition no_ref :: "pystr option \<Rightarrow> bool" where
  "no_ref r \<longleftrightarrow> r = None \<or> r = Some []"

definition validate_file :: "node \<Rightarrow> py_exn + unit" where
  "validate_file n =
     (if (case node_size n of Some s \<Rightarrow> s < 0 | None \<Rightarrow> False)
      then Inl (ValueError [Txt ''file size cannot be negative''])
      else if (case node_content n of Some c \<Rightarrow> node_size n \<noteq> Some (int (length c)) | None \<Rightarrow> False)
      then Inl (ValueError [Txt ''content length must match the declared size''])
      else if node_content_status n = NOT_APPLICABLE
      then Inl (ValueError [Txt ''file content status cannot be not_applicable''])
      else if node_size n = Some 0 \<and>
        (node_content n \<noteq> Some [] \<or> node_content_status n \<noteq> PRESENT \<or> node_content_ref n \<noteq> None)
      then Inl (ValueError [Txt ''zero-length files must contain present empty content''])
      else if node_content n \<noteq> None then
        (if node_content_status n \<noteq> PRESENT
         then Inl (ValueError [Txt ''inline content must be present''])
         else if node_content_ref n \<noteq> None
         then Inl (ValueError [Txt ''inline content cannot also have a content reference''])
         else Inr ())
      else if node_content_status n = PRESENT then
        (if no_ref (node_content_ref n)
         then Inl (ValueError [Txt ''external present content requires a reference''])
         else Inr ())
      else if node_content_status n = REMOTE then
        (if no_ref (node_content_ref n)
         then Inl (ValueError [Txt ''remote content requires a reference''])
         else Inr ())
      else if node_content_ref n \<noteq> None
      then Inl (ValueError [Txt ''only present or remote content may have a reference''])
      else Inr ())"

definition make_node :: "node \<Rightarrow> py_exn + node" where
  "make_node n =
     (case (if node_kind n = DIRECTORY then
              (if node_size n \<noteq> None \<or> node_content n \<noteq> None \<or> node_content_ref n \<noteq> None \<or>
                  node_content_status n \<noteq> NOT_APPLICABLE
               then Inl (ValueError [Txt ''directories cannot have file content metadata''])
               else Inr ())
            else if node_kind n = FILE then validate_file n
            else Inr ()) of
        Inl e \<Rightarrow> Inl e
      | Inr _ \<Rightarrow>
          map_ok (\<lambda>m. n\<lparr>node_source_metadata := m\<rparr>) (freeze_metadata (node_source_metadata n)))"

text \<open>The content invariants that the architecture document lists, as one predicate.\<close>

definition content_ok :: "node_kind \<Rightarrow> int option \<Rightarrow> bytes option \<Rightarrow> content_status \<Rightarrow> pystr option \<Rightarrow> bool"
where
  "content_ok kind sz content status ref \<longleftrightarrow>
     (kind = DIRECTORY \<longrightarrow> sz = None \<and> content = None \<and> ref = None \<and> status = NOT_APPLICABLE) \<and>
     (kind = FILE \<longrightarrow>
        status \<noteq> NOT_APPLICABLE \<and>
        (\<forall>s. sz = Some s \<longrightarrow> 0 \<le> s) \<and>
        (\<forall>c. content = Some c \<longrightarrow> sz = Some (int (length c)) \<and> status = PRESENT \<and> ref = None) \<and>
        (sz = Some 0 \<longrightarrow> content = Some []) \<and>
        (content = None \<longrightarrow> (ref = None \<longleftrightarrow> status \<noteq> PRESENT \<and> status \<noteq> REMOTE) \<and> ref \<noteq> Some []))"

abbreviation node_content_ok :: "node \<Rightarrow> bool" where
  "node_content_ok n \<equiv> content_ok (node_kind n) (node_size n) (node_content n)
     (node_content_status n) (node_content_ref n)"

lemma validate_file_iff:
  "node_kind n = FILE \<Longrightarrow> validate_file n = Inr () \<longleftrightarrow> node_content_ok n"
  by (cases "node_size n"; cases "node_content n"; cases "node_content_ref n")
    (auto simp: validate_file_def content_ok_def no_ref_def split: if_splits)

text \<open>The constructor accepts exactly the nodes that satisfy the content invariants.\<close>

lemma make_node_iff:
  "(\<exists>n'. make_node n = Inr n') \<longleftrightarrow>
     node_content_ok n \<and> (\<exists>m. freeze_metadata (node_source_metadata n) = Inr m)"
proof (cases "node_kind n = FILE")
  case True
  then show ?thesis
    using validate_file_iff [OF True] by (cases "validate_file n") (auto simp: make_node_def)
next
  case False
  then show ?thesis by (auto simp: make_node_def content_ok_def)
qed

lemma make_node_fields:
  "make_node n = Inr n' \<Longrightarrow> \<exists>m. n' = n\<lparr>node_source_metadata := m\<rparr> \<and>
     freeze_metadata (node_source_metadata n) = Inr m"
  by (auto simp: make_node_def split: sum.splits)

lemma make_node_content_ok: "make_node n = Inr n' \<Longrightarrow> node_content_ok n'"
proof -
  assume n': "make_node n = Inr n'"
  then have "node_content_ok n" using make_node_iff [of n] by blast
  with make_node_fields [OF n'] show ?thesis by auto
qed

section \<open>model/parsed\_entry.py\<close>

record parsed_entry =
  entry_path :: "pystr list"
  entry_kind :: node_kind
  entry_observation :: observation
  entry_size :: "int option"
  entry_modified_local :: "datetime option"
  entry_source_line :: "int option"
  entry_content :: "bytes option"
  entry_source_metadata :: metadata

definition make_entry :: "parsed_entry \<Rightarrow> py_exn + parsed_entry" where
  "make_entry e =
     (if (case entry_source_line e of Some l \<Rightarrow> l \<le> 0 | None \<Rightarrow> False)
      then Inl (ValueError [Txt ''source line must be a positive integer or None''])
      else if entry_kind e = DIRECTORY \<and> (entry_size e \<noteq> None \<or> entry_content e \<noteq> None)
      then Inl (ValueError [Txt ''directories cannot have file content metadata''])
      else if entry_kind e = FILE \<and> (case entry_size e of Some s \<Rightarrow> s < 0 | None \<Rightarrow> False)
      then Inl (ValueError [Txt ''file size cannot be negative''])
      else if entry_kind e = FILE \<and>
        (case entry_content e of Some c \<Rightarrow> entry_size e \<noteq> Some (int (length c)) | None \<Rightarrow> False)
      then Inl (ValueError [Txt ''content length must match the declared size''])
      else map_ok (\<lambda>m. e\<lparr>entry_source_metadata := m\<rparr>) (freeze_metadata (entry_source_metadata e)))"

text \<open>What every constructed entry satisfies.\<close>

definition entry_ok :: "parsed_entry \<Rightarrow> bool" where
  "entry_ok e \<longleftrightarrow>
     (\<forall>l. entry_source_line e = Some l \<longrightarrow> 0 < l) \<and>
     (entry_kind e = DIRECTORY \<longrightarrow> entry_size e = None \<and> entry_content e = None) \<and>
     (entry_kind e = FILE \<longrightarrow> (\<forall>s. entry_size e = Some s \<longrightarrow> 0 \<le> s) \<and>
        (\<forall>c. entry_content e = Some c \<longrightarrow> entry_size e = Some (int (length c)))) \<and>
     freeze_metadata (entry_source_metadata e) = Inr (entry_source_metadata e)"

lemma make_entry_ok: "make_entry e = Inr e' \<Longrightarrow> entry_ok e'"
  by (auto simp: make_entry_def entry_ok_def freeze_metadata_idem split: if_splits option.splits)

lemma make_entry_id: "entry_ok e \<Longrightarrow> make_entry e = Inr e"
  by (auto simp: make_entry_def entry_ok_def split: option.splits)

section \<open>model/snapshot.py\<close>

record snapshot =
  snapshot_id :: pystr
  snapshot_source_uri :: pystr
  snapshot_source_format :: pystr
  snapshot_imported_at :: datetime
  snapshot_source_metadata :: metadata

definition make_snapshot :: "snapshot \<Rightarrow> py_exn + snapshot" where
  "make_snapshot s =
     (case require_unicode (snapshot_id s) ''snapshot ID'' of Inl e \<Rightarrow> Inl e | Inr _ \<Rightarrow>
      (case require_unicode (snapshot_source_uri s) ''source URI'' of Inl e \<Rightarrow> Inl e | Inr _ \<Rightarrow>
       (case require_unicode (snapshot_source_format s) ''source format'' of Inl e \<Rightarrow> Inl e | Inr _ \<Rightarrow>
          map_ok (\<lambda>m. s\<lparr>snapshot_source_metadata := m\<rparr>)
            (freeze_metadata (snapshot_source_metadata s)))))"

end
