(* ===== verification/Diagnostics.thy ===== *)
theory Diagnostics
  imports Model
begin

text \<open>
  \<open>snapshotfs.diagnostics\<close>: diagnostics with a validated line number and texts, and the
  collector that counts every diagnostic while it retains a bounded prefix.
\<close>

definition MAX_DIAGNOSTICS :: nat where
  "MAX_DIAGNOSTICS = 1000"

datatype severity = WARNING | ERROR

fun severity_value :: "severity \<Rightarrow> pystr" where
  "severity_value WARNING = lit ''warning''"
| "severity_value ERROR = lit ''error''"

record diagnostic =
  diag_severity :: severity
  diag_code :: pystr
  diag_message :: message
  diag_line_number :: "int option"

definition make_diagnostic :: "diagnostic \<Rightarrow> py_exn + diagnostic" where
  "make_diagnostic d =
     (if (case diag_line_number d of Some l \<Rightarrow> l \<le> 0 | None \<Rightarrow> False)
      then Inl (ValueError [Txt ''diagnostic line number must be a positive integer or None''])
      else if utf8_encode (diag_code d) = None
      then Inl (ValueError [Txt ''diagnostic code is not valid Unicode''])
      else if \<not> message_encodable (diag_message d)
      then Inl (ValueError [Txt ''message is not valid Unicode''])
      else Inr d)"

definition diagnostic_ok :: "diagnostic \<Rightarrow> bool" where
  "diagnostic_ok d \<longleftrightarrow> (\<forall>l. diag_line_number d = Some l \<longrightarrow> 0 < l) \<and>
     list_all scalar (diag_code d) \<and> message_encodable (diag_message d)"

lemma make_diagnostic_iff: "make_diagnostic d = Inr d' \<longleftrightarrow> diagnostic_ok d \<and> d' = d"
  by (auto simp: make_diagnostic_def diagnostic_ok_def utf8_encode_None_iff list_all_iff
      split: option.splits)

section \<open>The collector\<close>

record collector =
  coll_limit :: nat
  coll_items :: "diagnostic list"
  coll_total :: nat
  coll_has_errors :: bool
  coll_source_line :: "(int \<times> pystr) option"

definition new_collector :: "nat \<Rightarrow> collector" where
  "new_collector limit =
     \<lparr>coll_limit = limit, coll_items = [], coll_total = 0, coll_has_errors = False,
      coll_source_line = None\<rparr>"

text \<open>An excerpt of at most 240 characters, with an ellipsis (U+2026) when cut.\<close>

definition observe_line :: "int \<Rightarrow> pystr \<Rightarrow> collector \<Rightarrow> collector" where
  "observe_line number text c =
     c\<lparr>coll_source_line :=
        Some (number, take 240 text @ (if length text > 240 then [0x2026] else []))\<rparr>"

definition with_context :: "collector \<Rightarrow> diagnostic \<Rightarrow> diagnostic" where
  "with_context c d =
     (case coll_source_line c of
        None \<Rightarrow> d
      | Some (number, text) \<Rightarrow>
          if diag_line_number d = Some number
          then d\<lparr>diag_message := diag_message d @ [Txt ''; input: '', Ascii text]\<rparr>
          else d)"

definition add_diagnostic :: "diagnostic \<Rightarrow> collector \<Rightarrow> collector" where
  "add_diagnostic d c =
     (let d' = with_context c d;
          c1 = c\<lparr>coll_total := coll_total c + 1\<rparr>;
          c2 = (if diag_severity d' = ERROR then c1\<lparr>coll_has_errors := True\<rparr> else c1)
      in if length (coll_items c2) < coll_limit c2
         then c2\<lparr>coll_items := coll_items c2 @ [d']\<rparr>
         else c2)"

text \<open>
  The codes and messages that the program passes are literals and ASCII conversions, and
  its line numbers are positive, so the constructor succeeds.
\<close>

definition error_diag :: "string \<Rightarrow> message \<Rightarrow> int option \<Rightarrow> diagnostic" where
  "error_diag code m line =
     \<lparr>diag_severity = ERROR, diag_code = lit code, diag_message = m, diag_line_number = line\<rparr>"

definition coll_error :: "string \<Rightarrow> message \<Rightarrow> int option \<Rightarrow> collector \<Rightarrow> collector" where
  "coll_error code m line c = add_diagnostic (error_diag code m line) c"

definition coll_warning :: "string \<Rightarrow> message \<Rightarrow> int option \<Rightarrow> collector \<Rightarrow> collector" where
  "coll_warning code m line c =
     add_diagnostic \<lparr>diag_severity = WARNING, diag_code = lit code, diag_message = m,
       diag_line_number = line\<rparr> c"

section \<open>Invariant and behaviour\<close>

text \<open>
  The retained items are a prefix of everything added, cut at the limit; an error is
  remembered even when it is not retained.
\<close>

definition collector_ok :: "collector \<Rightarrow> bool" where
  "collector_ok c \<longleftrightarrow> length (coll_items c) = min (coll_limit c) (coll_total c) \<and>
     ((\<exists>d \<in> set (coll_items c). diag_severity d = ERROR) \<longrightarrow> coll_has_errors c)"

lemma collector_ok_new [simp, intro]: "collector_ok (new_collector n)"
  by (simp add: collector_ok_def new_collector_def)

lemma with_context_fields [simp]:
  "diag_severity (with_context c d) = diag_severity d"
  "diag_code (with_context c d) = diag_code d"
  "diag_line_number (with_context c d) = diag_line_number d"
  by (simp_all add: with_context_def split: option.split)

lemma add_diagnostic_fields [simp]:
  "coll_limit (add_diagnostic d c) = coll_limit c"
  "coll_total (add_diagnostic d c) = coll_total c + 1"
  "coll_has_errors (add_diagnostic d c) \<longleftrightarrow> coll_has_errors c \<or> diag_severity d = ERROR"
  "coll_source_line (add_diagnostic d c) = coll_source_line c"
  "coll_items (add_diagnostic d c) =
     coll_items c @ (if length (coll_items c) < coll_limit c then [with_context c d] else [])"
  by (simp_all add: add_diagnostic_def Let_def)

lemma collector_ok_add [intro]: "collector_ok c \<Longrightarrow> collector_ok (add_diagnostic d c)"
  by (auto simp: collector_ok_def)

lemma collector_ok_error [intro]: "collector_ok c \<Longrightarrow> collector_ok (coll_error code m l c)"
  by (auto simp: coll_error_def)

lemma observe_line_fields [simp]:
  "coll_limit (observe_line n t c) = coll_limit c"
  "coll_items (observe_line n t c) = coll_items c"
  "coll_total (observe_line n t c) = coll_total c"
  "coll_has_errors (observe_line n t c) = coll_has_errors c"
  by (simp_all add: observe_line_def)

lemma collector_ok_observe [intro]: "collector_ok c \<Longrightarrow> collector_ok (observe_line n t c)"
  by (simp add: collector_ok_def)

lemma coll_error_fields [simp]:
  "coll_limit (coll_error code m l c) = coll_limit c"
  "coll_total (coll_error code m l c) = coll_total c + 1"
  "coll_has_errors (coll_error code m l c)"
  by (simp_all add: coll_error_def error_diag_def)

text \<open>A sequence of additions, the shape every client produces.\<close>

definition add_all :: "diagnostic list \<Rightarrow> collector \<Rightarrow> collector" where
  "add_all ds c = fold add_diagnostic ds c"

lemma add_all_simps [simp]:
  "add_all [] c = c" "add_all (d # ds) c = add_all ds (add_diagnostic d c)"
  by (simp_all add: add_all_def)

lemma add_all_append: "add_all (ds @ es) c = add_all es (add_all ds c)"
  by (simp add: add_all_def)

lemma with_context_cong: "coll_source_line c = coll_source_line c' \<Longrightarrow> with_context c = with_context c'"
  by (simp add: with_context_def fun_eq_iff)

lemma add_all_fields:
  "coll_total (add_all ds c) = coll_total c + length ds"
  "coll_has_errors (add_all ds c) \<longleftrightarrow> coll_has_errors c \<or> (\<exists>d \<in> set ds. diag_severity d = ERROR)"
  "coll_limit (add_all ds c) = coll_limit c"
  "coll_source_line (add_all ds c) = coll_source_line c"
  by (induction ds arbitrary: c) auto

lemma add_all_items:
  "length (coll_items c) \<le> coll_limit c \<Longrightarrow>
   coll_items (add_all ds c) =
     take (coll_limit c) (coll_items c @ map (with_context c) ds)"
proof (induction ds arbitrary: c)
  case (Cons d ds)
  have ctx: "with_context (add_diagnostic d c) = with_context c"
    by (rule with_context_cong) simp
  show ?case
  proof (cases "length (coll_items c) < coll_limit c")
    case True
    then show ?thesis using Cons.IH [of "add_diagnostic d c"] by (simp add: ctx)
  next
    case False
    with Cons.prems have "length (coll_items c) = coll_limit c" by simp
    then show ?thesis using Cons.IH [of "add_diagnostic d c"] by simp
  qed
qed simp

end
