(* ===== verification/Timestamps.thy ===== *)
theory Timestamps
  imports Py_Datetime
begin

text \<open>
  \<open>snapshotfs.timestamps\<close>: interpreting a naive wall clock in a source zone. Instants are the
  microseconds of the UTC wall clock.
\<close>

definition source_zone :: "tzdb \<Rightarrow> pystr \<Rightarrow> py_exn + pystr" where
  "source_zone db name =
     (if has_zone db name then Inr name
      else Inl (ValueError [Txt ''unknown source timezone '', Repr name,
             Txt ''; use an IANA name such as UTC or Europe/London'']))"

definition date_out_of_range :: py_exn where
  "date_out_of_range = OverflowError [Txt ''date value out of range'']"

definition in_range :: "int \<Rightarrow> bool" where
  "in_range w \<longleftrightarrow> min_wall \<le> w \<and> w \<le> max_wall"

text \<open>\<open>candidate.astimezone(UTC)\<close> and \<open>instant.astimezone(zone)\<close>.\<close>

definition to_utc :: "tzdb \<Rightarrow> pystr \<Rightarrow> datetime \<Rightarrow> py_exn + int" where
  "to_utc db key t =
     (let i = dt_wall t - utcoffset db key (dt_wall t) (dt_fold t)
      in if in_range i then Inr i else Inl date_out_of_range)"

definition from_utc :: "tzdb \<Rightarrow> pystr \<Rightarrow> int \<Rightarrow> py_exn + int" where
  "from_utc db key i =
     (let w = fromutc db key i in if in_range w then Inr w else Inl date_out_of_range)"

text \<open>One round of the loop over \<open>fold\<close>.\<close>

definition localize_candidate ::
  "tzdb \<Rightarrow> datetime \<Rightarrow> pystr \<Rightarrow> bool \<Rightarrow> (int, datetime) dict \<Rightarrow> py_exn + (int, datetime) dict" where
  "localize_candidate db v key fld cands =
     (let candidate = v\<lparr>dt_tz := Some (Zone key), dt_fold := fld\<rparr>
      in case to_utc db key candidate of
           Inl x \<Rightarrow> Inl x
         | Inr instant \<Rightarrow>
             (case from_utc db key instant of
                Inl x \<Rightarrow> Inl x
              | Inr back \<Rightarrow>
                  if back = dt_wall v
                  then Inr (case dict_get cands instant of
                         Some _ \<Rightarrow> cands | None \<Rightarrow> dict_set instant candidate cands)
                  else Inr cands))"

definition localize :: "tzdb \<Rightarrow> datetime \<Rightarrow> pystr \<Rightarrow> pystr \<Rightarrow> py_exn + datetime" where
  "localize db v key ambiguous =
     (case localize_candidate db v key False [] of
        Inl x \<Rightarrow> Inl x
      | Inr c0 \<Rightarrow>
          (case localize_candidate db v key True c0 of
             Inl x \<Rightarrow> Inl x
           | Inr cands \<Rightarrow>
               if cands = []
               then Inl (ValueError [Txt ''nonexistent local time '', Str (isoformat db v), Txt '' in '',
                      Str key, Txt ''; check the source timezone and listing''])
               else
                 (let ordered = sort (map fst cands)
                  in if length ordered > 1 \<and> ambiguous = lit ''reject''
                     then Inl (ValueError [Txt ''ambiguous local time '', Str (isoformat db v), Txt '' in '',
                            Str key, Txt ''; select --ambiguous-time earlier or later''])
                     else
                       (let instant = (if ambiguous = lit ''later'' then last ordered else hd ordered)
                        in case dict_get cands instant of
                             Some t \<Rightarrow> Inr t
                           | None \<Rightarrow> Inl (KeyErrorInt instant)))))"

section \<open>Correctness\<close>

text \<open>The instants whose wall clock in the zone is the given one.\<close>

definition candidate_instant :: "tzdb \<Rightarrow> pystr \<Rightarrow> datetime \<Rightarrow> bool \<Rightarrow> int" where
  "candidate_instant db key v fld = dt_wall v - utcoffset db key (dt_wall v) fld"

definition instants :: "tzdb \<Rightarrow> pystr \<Rightarrow> datetime \<Rightarrow> int set" where
  "instants db key v =
     Set.filter (\<lambda>i. fromutc db key i = dt_wall v)
       {candidate_instant db key v False, candidate_instant db key v True}"

definition convertible :: "tzdb \<Rightarrow> pystr \<Rightarrow> datetime \<Rightarrow> bool" where
  "convertible db key v \<longleftrightarrow>
     (\<forall>fld \<in> {False, True}. in_range (candidate_instant db key v fld) \<and>
        in_range (fromutc db key (candidate_instant db key v fld)))"

lemma dt_wall_tz_fold [simp]: "dt_wall (v\<lparr>dt_tz := z, dt_fold := f\<rparr>) = dt_wall v"
  by (simp add: dt_wall_def)

text \<open>
  The result reads as the given wall clock in the zone and denotes an instant at which the
  zone shows that clock: the only one, or the one the option selects. Without such an
  instant, or with two and the option \<open>reject\<close>, the result is a \<open>ValueError\<close>.
\<close>

definition localized :: "tzdb \<Rightarrow> pystr \<Rightarrow> datetime \<Rightarrow> datetime \<Rightarrow> int \<Rightarrow> bool" where
  "localized db key v t i \<longleftrightarrow> dt_wall t = dt_wall v \<and> dt_tz t = Some (Zone key) \<and>
     i = dt_wall t - tz_offset db (Zone key) (dt_wall t) (dt_fold t)"

lemma localize_cases:
  assumes "convertible db key v"
  shows "case localize db v key ambiguous of
      Inl x \<Rightarrow> (\<exists>m. x = ValueError m) \<and>
        (instants db key v = {} \<or> card (instants db key v) = 2 \<and> ambiguous = lit ''reject'')
    | Inr t \<Rightarrow> \<exists>i \<in> instants db key v. localized db key v t i \<and>
        i = (if ambiguous = lit ''later'' then Max (instants db key v) else Min (instants db key v)) \<and>
        (ambiguous = lit ''reject'' \<longrightarrow> instants db key v = {i})"
proof -
  define a where "a = candidate_instant db key v False"
  define b where "b = candidate_instant db key v True"
  define w where "w = dt_wall v"
  have ab: "w - utcoffset db key w False = a" "w - utcoffset db key w True = b"
    by (simp_all add: a_def b_def w_def candidate_instant_def)
  have r: "in_range a" "in_range b" "in_range (fromutc db key a)" "in_range (fromutc db key b)"
    using assms by (auto simp: convertible_def a_def b_def)
  have ins: "instants db key v = Set.filter (\<lambda>i. fromutc db key i = w) {a, b}"
    by (simp add: instants_def a_def b_def w_def)
  have loc: "localized db key v (v\<lparr>dt_tz := Some (Zone key), dt_fold := False\<rparr>) a"
    "localized db key v (v\<lparr>dt_tz := Some (Zone key), dt_fold := True\<rparr>) b"
    using ab by (simp_all add: localized_def w_def)
  consider "fromutc db key a \<noteq> w" "fromutc db key b \<noteq> w" | "fromutc db key a = w" "fromutc db key b \<noteq> w"
    | "fromutc db key a \<noteq> w" "fromutc db key b = w" | "fromutc db key a = w" "a = b"
    | "fromutc db key a = w" "fromutc db key b = w" "a < b"
    | "fromutc db key a = w" "fromutc db key b = w" "b < a" by fastforce
  then show ?thesis
  proof cases
    case 1
    then have "instants db key v = {}" unfolding ins by auto
    with 1 r ab show ?thesis
      by (simp add: localize_def localize_candidate_def to_utc_def from_utc_def Let_def w_def)
  next
    case 2
    then have "instants db key v = {a}" unfolding ins by auto
    with 2 r ab loc show ?thesis
      by (simp add: localize_def localize_candidate_def to_utc_def from_utc_def Let_def w_def)
  next
    case 3
    then have "instants db key v = {b}" unfolding ins by auto
    with 3 r ab loc show ?thesis
      by (simp add: localize_def localize_candidate_def to_utc_def from_utc_def Let_def w_def)
  next
    case 4
    then have "instants db key v = {a}" unfolding ins by auto
    with 4 r ab loc show ?thesis
      by (simp add: localize_def localize_candidate_def to_utc_def from_utc_def Let_def w_def)
  next
    case 5
    then have "instants db key v = {a, b}" unfolding ins by auto
    with 5 r ab loc show ?thesis
      by (simp add: localize_def localize_candidate_def to_utc_def from_utc_def Let_def w_def)
  next
    case 6
    then have "instants db key v = {a, b}" unfolding ins by auto
    with 6 r ab loc show ?thesis
      by (simp add: localize_def localize_candidate_def to_utc_def from_utc_def Let_def w_def)
  qed
qed

text \<open>Outside the range of \<open>datetime\<close> the conversion raises an \<open>OverflowError\<close> instead.\<close>

lemma localize_overflow:
  assumes "\<not> in_range (candidate_instant db key v False)"
  shows "localize db v key ambiguous = Inl date_out_of_range"
  using assms by (simp add: localize_def localize_candidate_def to_utc_def candidate_instant_def Let_def)

end
