(* ===== verification/Py_Re.thy ===== *)
theory Py_Re
  imports Py_Text
begin

text \<open>
  The part of Python's \<open>re\<close> that the grammar uses: a backtracking matcher whose results are
  the lists of all successes, in the order in which the engine tries them, each with the
  unread rest and the groups. Patterns are anchored at the start by \<open>match\<close> and
  \<open>fullmatch\<close>, so \<open>^\<close> is left out.
\<close>

type_synonym groups = "(string \<times> pystr) list"
type_synonym results = "(pystr \<times> groups) list"

datatype re =
    RWord pystr
  | RSet "nat \<Rightarrow> bool"
  | RMany bool nat "nat option" "nat \<Rightarrow> bool"
  | RSeq re re
  | RAlt re re
  | ROpt re
  | RStar re
  | RGroup string re
  | RRef string
  | REnd

text \<open>
  \<open>RMany greedy lo hi C\<close> is a class with a repetition count; the others are a literal, a
  class, concatenation, \<open>|\<close>, a greedy \<open>?\<close>, a greedy \<open>*\<close> of a group, a capturing group, a
  back reference and \<open>$\<close>.
\<close>

definition many :: "bool \<Rightarrow> nat \<Rightarrow> nat option \<Rightarrow> (nat \<Rightarrow> bool) \<Rightarrow> pystr \<Rightarrow> groups \<Rightarrow> results" where
  "many greedy lo hi C s caps =
     (let run = length (takeWhile C s);
          n = (case hi of None \<Rightarrow> run | Some h \<Rightarrow> min h run);
          counts = [lo..<n + 1]
      in map (\<lambda>i. (drop i s, caps)) (if greedy then rev counts else counts))"

text \<open>The repetitions of a matcher, longest first; the fuel bounds their number.\<close>

fun star :: "(pystr \<Rightarrow> groups \<Rightarrow> results) \<Rightarrow> nat \<Rightarrow> pystr \<Rightarrow> groups \<Rightarrow> results" where
  "star f 0 s caps = [(s, caps)]"
| "star f (Suc k) s caps =
     concat (map (\<lambda>(s', caps'). if length s' < length s then star f k s' caps' else []) (f s caps)) @ [(s, caps)]"

primrec run_re :: "re \<Rightarrow> pystr \<Rightarrow> groups \<Rightarrow> results" where
  "run_re (RWord w) = (\<lambda>s caps. if take (length w) s = w then [(drop (length w) s, caps)] else [])"
| "run_re (RSet C) = (\<lambda>s caps. case s of [] \<Rightarrow> [] | c # s' \<Rightarrow> if C c then [(s', caps)] else [])"
| "run_re (RMany greedy lo hi C) = many greedy lo hi C"
| "run_re (RSeq a b) = (\<lambda>s caps. concat (map (\<lambda>(s', caps'). run_re b s' caps') (run_re a s caps)))"
| "run_re (RAlt a b) = (\<lambda>s caps. run_re a s caps @ run_re b s caps)"
| "run_re (ROpt a) = (\<lambda>s caps. run_re a s caps @ [(s, caps)])"
| "run_re (RStar a) = (\<lambda>s caps. star (run_re a) (length s) s caps)"
| "run_re (RGroup g a) = (\<lambda>s caps.
     map (\<lambda>(s', caps'). (s', (g, take (length s - length s') s) # caps')) (run_re a s caps))"
| "run_re (RRef g) = (\<lambda>s caps.
     case map_of caps g of
       None \<Rightarrow> []
     | Some w \<Rightarrow> if take (length w) s = w then [(drop (length w) s, caps)] else [])"
| "run_re REnd = (\<lambda>s caps. if s = [] \<or> s = [10] then [(s, caps)] else [])"

definition re_fullmatch :: "re \<Rightarrow> pystr \<Rightarrow> groups option" where
  "re_fullmatch r s = map_option snd (find (\<lambda>(s', caps). s' = []) (run_re r s []))"

definition re_match :: "re \<Rightarrow> pystr \<Rightarrow> groups option" where
  "re_match r s = (case run_re r s [] of [] \<Rightarrow> None | (_, caps) # _ \<Rightarrow> Some caps)"

definition group :: "groups \<Rightarrow> string \<Rightarrow> pystr option" where
  "group caps g = map_of caps g"

section \<open>Classes\<close>

abbreviation space :: "nat \<Rightarrow> bool" where "space \<equiv> py_isspace"
abbreviation digit :: "nat \<Rightarrow> bool" where "digit \<equiv> py_isdecimal"

text \<open>\<open>.\<close> matches everything but a line feed.\<close>

definition dot :: "nat \<Rightarrow> bool" where
  "dot c \<longleftrightarrow> c \<noteq> 10"

definition one_of :: "string \<Rightarrow> nat \<Rightarrow> bool" where
  "one_of cs c \<longleftrightarrow> c \<in> set (lit cs)"

definition ascii_letter :: "nat \<Rightarrow> bool" where
  "ascii_letter c \<longleftrightarrow> 65 \<le> c \<and> c \<le> 90 \<or> 97 \<le> c \<and> c \<le> 122"

definition hex_or_dash :: "nat \<Rightarrow> bool" where
  "hex_or_dash c \<longleftrightarrow> 48 \<le> c \<and> c \<le> 57 \<or> 65 \<le> c \<and> c \<le> 70 \<or> 97 \<le> c \<and> c \<le> 102 \<or> c = 45"

fun seq :: "re list \<Rightarrow> re" where
  "seq [] = RWord []"
| "seq [r] = r"
| "seq (r # rs) = RSeq r (seq rs)"

section \<open>Matching by consumption\<close>

text \<open>
  A regular expression can consume a word when the engine has a success that reads it; the
  first-success order matters only for which groups are reported.
\<close>

lemma many_results:
  "(s', caps') \<in> set (many greedy lo hi C s caps) \<longleftrightarrow>
     caps' = caps \<and> (\<exists>i. lo \<le> i \<and> i \<le> length (takeWhile C s) \<and> (\<forall>h. hi = Some h \<longrightarrow> i \<le> h) \<and> s' = drop i s)"
proof -
  define n where "n = (case hi of None \<Rightarrow> length (takeWhile C s) | Some h \<Rightarrow> min h (length (takeWhile C s)))"
  have "set (many greedy lo hi C s caps) = (\<lambda>i. (drop i s, caps)) ` {lo..n}"
    by (simp add: many_def n_def Let_def atLeastLessThanSuc_atLeastAtMost del: upt_Suc)
  moreover have "i \<le> n \<longleftrightarrow> i \<le> length (takeWhile C s) \<and> (\<forall>h. hi = Some h \<longrightarrow> i \<le> h)" for i
    by (auto simp: n_def split: option.split)
  ultimately show ?thesis by auto
qed

lemma re_fullmatch_Some:
  "re_fullmatch r s = Some caps \<Longrightarrow> ([], caps) \<in> set (run_re r s [])"
  by (auto simp: re_fullmatch_def find_Some_iff) (metis nth_mem)

lemma re_fullmatch_None:
  "re_fullmatch r s = None \<longleftrightarrow> (\<forall>caps. ([], caps) \<notin> set (run_re r s []))"
  by (auto simp: re_fullmatch_def find_None_iff)

lemma run_seq:
  "(s', c') \<in> set (run_re (RSeq a b) s c) \<longleftrightarrow>
     (\<exists>s1 c1. (s1, c1) \<in> set (run_re a s c) \<and> (s', c') \<in> set (run_re b s1 c1))"
  by auto

lemma run_group:
  "(s', c') \<in> set (run_re (RGroup g a) s c) \<longleftrightarrow>
     (\<exists>c1. (s', c1) \<in> set (run_re a s c) \<and> c' = (g, take (length s - length s') s) # c1)"
  by auto

lemma run_many:
  "(s', c') \<in> set (run_re (RMany greedy lo hi C) s c) \<longleftrightarrow>
     c' = c \<and> (\<exists>i. lo \<le> i \<and> i \<le> length (takeWhile C s) \<and> (\<forall>h. hi = Some h \<longrightarrow> i \<le> h) \<and> s' = drop i s)"
  by (simp add: many_results)

text \<open>A repeated class reads a word of its characters.\<close>

lemma run_many_word:
  assumes "(s', c') \<in> set (run_re (RMany greedy lo hi C) s c)"
  obtains w where "s = w @ s'" "list_all C w" "lo \<le> length w" "\<And>h. hi = Some h \<Longrightarrow> length w \<le> h" "c' = c"
proof -
  from assms obtain i where i: "lo \<le> i" "i \<le> length (takeWhile C s)" "\<forall>h. hi = Some h \<longrightarrow> i \<le> h" "s' = drop i s" "c' = c"
    unfolding run_many by blast
  have "take i s = take i (takeWhile C s)"
    using i(2) by (metis takeWhile_eq_take take_take min.absorb1)
  then have "list_all C (take i s)"
    by (auto simp: list_all_iff dest: in_set_takeD set_takeWhileD)
  moreover have "length (take i s) = i"
    using i(2) length_takeWhile_le [of C s] by simp
  ultimately show thesis using i that [of "take i s"] by simp
qed

text \<open>A group over a repeated class reports that word.\<close>

lemma run_group_many:
  assumes "(s', c') \<in> set (run_re (RGroup g (RMany greedy lo hi C)) s c)"
  obtains w where "s = w @ s'" "c' = (g, w) # c" "list_all C w" "lo \<le> length w" "\<And>h. hi = Some h \<Longrightarrow> length w \<le> h"
proof -
  from assms obtain c1 where "(s', c1) \<in> set (run_re (RMany greedy lo hi C) s c)"
    "c' = (g, take (length s - length s') s) # c1" unfolding run_group by blast
  with that show thesis by (elim run_many_word) simp
qed

section \<open>Matching by the first success\<close>

text \<open>
  \<open>reads r w s c c'\<close>: on input \<open>w @ s\<close> the first success of \<open>r\<close> reads exactly \<open>w\<close>. First
  successes compose, which gives the matches of printed lines.
\<close>

definition reads :: "re \<Rightarrow> pystr \<Rightarrow> pystr \<Rightarrow> groups \<Rightarrow> groups \<Rightarrow> bool" where
  "reads r w s c c' \<longleftrightarrow> (\<exists>others. run_re r (w @ s) c = (s, c') # others)"

lemma reads_fullmatch: "reads r w [] [] c \<Longrightarrow> re_fullmatch r w = Some c"
  by (auto simp: reads_def re_fullmatch_def)

lemma reads_match: "reads r w s [] c \<Longrightarrow> re_match r (w @ s) = Some c"
  by (auto simp: reads_def re_match_def)

lemma reads_seq: "reads a v (w @ s) c c1 \<Longrightarrow> reads b w s c1 c2 \<Longrightarrow> reads (RSeq a b) (v @ w) s c c2"
  by (auto simp: reads_def)

lemma reads_word [simp]: "reads (RWord w) w s c c"
  by (simp add: reads_def)

lemma reads_set: "C x \<Longrightarrow> reads (RSet C) [x] s c c"
  by (simp add: reads_def)

lemma reads_group: "reads r w s c c1 \<Longrightarrow> reads (RGroup g r) w s c ((g, w) # c1)"
  by (auto simp: reads_def)

lemma reads_left: "reads a w s c c' \<Longrightarrow> reads (RAlt a b) w s c c'"
  by (auto simp: reads_def)

lemma reads_right: "run_re a (w @ s) c = [] \<Longrightarrow> reads b w s c c' \<Longrightarrow> reads (RAlt a b) w s c c'"
  by (auto simp: reads_def)

lemma reads_opt: "reads a w s c c' \<Longrightarrow> reads (ROpt a) w s c c'"
  by (auto simp: reads_def)

lemma reads_opt_skip: "run_re a s c = [] \<Longrightarrow> reads (ROpt a) [] s c c"
  by (auto simp: reads_def)

lemma reads_ref: "map_of c g = Some w \<Longrightarrow> reads (RRef g) w s c c"
  by (simp add: reads_def)

lemma reads_end: "reads REnd [] [] c c"
  by (simp add: reads_def)

text \<open>A greedy repetition reads a word of the class that ends where the class or the count does.\<close>

lemma reads_many:
  assumes "list_all C w" "lo \<le> length w" "case hi of None \<Rightarrow> True | Some h \<Rightarrow> length w \<le> h"
    and "(s = [] \<or> \<not> C (hd s)) \<or> hi = Some (length w)"
  shows "reads (RMany True lo hi C) w s c c"
proof -
  let ?run = "length (takeWhile C (w @ s))"
  have "takeWhile C (w @ s) = w @ takeWhile C s"
    using assms(1) by (intro takeWhile_append2) (simp add: list_all_iff)
  then have run: "?run = length w + length (takeWhile C s)" by simp
  have n: "(case hi of None \<Rightarrow> ?run | Some h \<Rightarrow> min h ?run) = length w"
    using assms(3,4) run by (cases s; cases hi) auto
  have "[lo..<length w + 1] = [lo..<length w] @ [length w]" using assms(2) by simp
  then show ?thesis using assms(2) by (simp add: reads_def many_def n Let_def)
qed

end
