(* ===== verification/Grammar.thy ===== *)
theory Grammar
  imports Diagnostics Timestamps Py_Re
begin

text \<open>
  \<open>snapshotfs.parser.windows\_dir.grammar\<close> and \<open>paths\<close>: the patterns of a \<open>dir /s\<close> listing,
  the values in them, and the projection of Windows paths into the mounted hierarchy.
\<close>

section \<open>Patterns\<close>

definition header_re :: re where
  "header_re = seq
     [RMany True 0 None space, RWord (lit ''Directory of''), RMany True 1 None space,
      RGroup ''1'' (RMany False 1 None dot), RMany True 0 None space, REnd]"

definition date_re :: re where
  "date_re = RGroup ''date'' (seq
     [RMany True 1 (Some 4) digit, RGroup ''separator'' (RSet (one_of ''/.-'')),
      RMany True 1 (Some 2) digit, RRef ''separator'', RMany True 1 (Some 4) digit])"

definition time_re :: re where
  "time_re = RGroup ''time'' (seq
     [RMany True 1 (Some 2) digit, RWord (lit '':''), RMany True 2 (Some 2) digit])"

definition meridiem_re :: re where
  "meridiem_re = ROpt (RSeq (RMany True 1 None space)
     (RGroup ''meridiem'' (RSeq (RSet (one_of ''AP'')) (RWord (lit ''M'')))))"

definition kind_re :: re where
  "kind_re = RAlt
     (RSeq (RGroup ''directory'' (RWord (lit ''<DIR>''))) (RMany True 10 (Some 10) (one_of '' '')))
     (RSeq (RGroup ''size'' (RMany True 1 None (\<lambda>c. digit c \<or> one_of '','' c))) (RWord (lit '' '')))"

definition entry_re :: re where
  "entry_re = seq
     [RMany True 0 None space, date_re, RMany True 1 None space, time_re, meridiem_re,
      RMany True 1 None space, kind_re, RGroup ''name'' (RMany True 1 None dot), REnd]"

definition number_re :: "string \<Rightarrow> re" where
  "number_re g = RGroup g (RMany True 1 None (\<lambda>c. digit c \<or> one_of '','' c))"

definition file_summary_re :: re where
  "file_summary_re = seq
     [RMany True 0 None space, number_re ''1'', RWord (lit '' File(s)''), RMany True 1 None space,
      number_re ''2'', RWord (lit '' bytes''), RMany True 0 None space, REnd]"

definition dir_summary_re :: re where
  "dir_summary_re = seq
     [RMany True 0 None space, number_re ''1'', RWord (lit '' Dir(s)''), RMany True 1 None space,
      number_re ''2'', RWord (lit '' bytes free''), RMany True 0 None space, REnd]"

definition volume_re :: re where
  "volume_re = seq
     [RMany True 0 None space,
      RAlt (RSeq (RWord (lit ''Volume in drive '')) (RMany True 1 None dot))
        (RSeq (RWord (lit ''Volume Serial Number is '')) (RMany True 1 None hex_or_dash)),
      RMany True 0 None space, REnd]"

definition integer_re :: re where
  "integer_re = RAlt
     (RSeq (RMany True 1 (Some 3) digit) (RStar (RSeq (RWord (lit '','')) (RMany True 3 (Some 3) digit))))
     (RMany True 1 None digit)"

definition drive_path_re :: re where
  "drive_path_re = seq [RSet ascii_letter, RWord [58, 92], RMany True 0 None dot]"

datatype date_format = MDY | DMY | YMD

fun date_format_value :: "date_format \<Rightarrow> string" where
  "date_format_value MDY = ''mdy''"
| "date_format_value DMY = ''dmy''"
| "date_format_value YMD = ''ymd''"

section \<open>Lines\<close>

definition header_path :: "pystr \<Rightarrow> pystr option" where
  "header_path line = (case re_fullmatch header_re line of None \<Rightarrow> None | Some g \<Rightarrow> group g ''1'')"

definition summary :: "re \<Rightarrow> pystr \<Rightarrow> (pystr \<times> pystr) option" where
  "summary r line =
     (case re_fullmatch r line of
        None \<Rightarrow> None
      | Some g \<Rightarrow>
          (case (group g ''1'', group g ''2'') of (Some a, Some b) \<Rightarrow> Some (a, b) | _ \<Rightarrow> None))"

definition file_summary :: "pystr \<Rightarrow> (pystr \<times> pystr) option" where
  "file_summary = summary file_summary_re"

definition dir_summary :: "pystr \<Rightarrow> (pystr \<times> pystr) option" where
  "dir_summary = summary dir_summary_re"

definition is_volume :: "pystr \<Rightarrow> bool" where
  "is_volume line \<longleftrightarrow> re_fullmatch volume_re line \<noteq> None"

definition resembles_entry :: "pystr \<Rightarrow> bool" where
  "resembles_entry line \<longleftrightarrow> re_match (RSeq (RMany True 0 None space) (RSet digit)) line \<noteq> None"

definition parse_integer :: "pystr \<Rightarrow> int option" where
  "parse_integer text =
     (if re_fullmatch integer_re text = None then None
      else py_int (List.filter (\<lambda>c. c \<noteq> 44) text))"

definition valid_section_path :: "pystr \<Rightarrow> bool" where
  "valid_section_path raw =
     (if re_fullmatch drive_path_re raw = None then False
      else
        (let remainder = drop 3 raw
         in if remainder = [] then True
            else
              (let components = split_on 92 remainder
               in list_all (\<lambda>c. c \<notin> {[], lit ''.'', lit ''..''}) components \<and>
                  list_all (\<lambda>c. 58 \<notin> set c) components)))"

section \<open>Windows paths\<close>

text \<open>
  \<open>PureWindowsPath(raw).parts[1:]\<close> for a path with a drive and a root: the non-empty
  components other than a dot.
\<close>

definition windows_parts :: "pystr \<Rightarrow> pystr list" where
  "windows_parts raw = List.filter (\<lambda>c. c \<noteq> [] \<and> c \<noteq> lit ''.'') (split_on 92 (drop 3 raw))"

definition ascii_upper :: "nat \<Rightarrow> nat" where
  "ascii_upper c = (if 97 \<le> c \<and> c \<le> 122 then c - 32 else c)"

text \<open>\<open>to\_mounted\_path(path)\<close>; for an entry the path is the section's with the name joined.\<close>

definition to_mounted_path :: "pystr \<Rightarrow> pystr list \<Rightarrow> pystr list" where
  "to_mounted_path raw names = [ascii_upper (hd raw)] # windows_parts raw @ names"

section \<open>Dates\<close>

text \<open>\<open>re.split\<close> with a class of separators.\<close>

fun split_set :: "(nat \<Rightarrow> bool) \<Rightarrow> pystr \<Rightarrow> pystr list" where
  "split_set C [] = [[]]"
| "split_set C (c # s) =
     (if C c then [] # split_set C s
      else (case split_set C s of [] \<Rightarrow> [[c]] | w # ws \<Rightarrow> (c # w) # ws))"

fun positions :: "date_format \<Rightarrow> nat \<times> nat \<times> nat" where
  "positions MDY = (2, 0, 1)"
| "positions DMY = (2, 1, 0)"
| "positions YMD = (0, 1, 2)"

text \<open>\<open>int\<close> of a token that the pattern has found to be one to four decimal digits.\<close>

definition token_int :: "pystr \<Rightarrow> int" where
  "token_int s = (case py_int s of Some i \<Rightarrow> i | None \<Rightarrow> 0)"

definition parse_datetime ::
  "pystr \<Rightarrow> pystr \<Rightarrow> pystr option \<Rightarrow> date_format \<Rightarrow> int \<Rightarrow> collector \<Rightarrow> datetime option \<times> collector" where
  "parse_datetime date_text time_text meridiem fmt number c =
     (let tokens = split_set (one_of ''/.-'') date_text;
          parts = map token_int tokens;
          (py, pm, pd) = positions fmt;
          year = parts ! py; month = parts ! pm; day = parts ! pd
      in if length (tokens ! py) \<noteq> 4
         then (None, coll_error ''TWO_DIGIT_YEAR'' [Txt ''entry dates require a four-digit year''] (Some number) c)
         else
           (let clock = map token_int (split_on 58 time_text);
                hour = clock ! 0; minute = clock ! 1
            in if meridiem \<noteq> None \<and> \<not> (1 \<le> hour \<and> hour \<le> 12)
               then (None, coll_error ''INVALID_TIME'' [Txt ''12-hour time must use 1-12''] (Some number) c)
               else if meridiem = None \<and> \<not> (0 \<le> hour \<and> hour \<le> 23)
               then (None, coll_error ''INVALID_TIME'' [Txt ''24-hour time must use 0-23''] (Some number) c)
               else
                 (let hour' = (case meridiem of
                          Some m \<Rightarrow> hour mod 12 + (if m = lit ''PM'' then 12 else 0) | None \<Rightarrow> hour)
                  in case make_datetime year month day hour' minute of
                       Inr t \<Rightarrow> (Some t, c)
                     | Inl x \<Rightarrow>
                         (None, coll_error ''INVALID_DATETIME''
                           ((case x of ValueError m \<Rightarrow> m | _ \<Rightarrow> []) @
                            [Txt ''; check --date-format '', Txt (date_format_value fmt), Txt '' against the source date''])
                           (Some number) c))))"

section \<open>Entries\<close>

definition parse_entry ::
  "pystr \<Rightarrow> pystr \<Rightarrow> int \<Rightarrow> date_format \<Rightarrow> collector \<Rightarrow> (bool \<times> parsed_entry option) \<times> collector" where
  "parse_entry section line number fmt c =
     (case re_fullmatch entry_re line of
        None \<Rightarrow> ((False, None), c)
      | Some g \<Rightarrow>
          (let field = (\<lambda>k. case group g k of Some w \<Rightarrow> w | None \<Rightarrow> []);
               (modified, c1) = parse_datetime (field ''date'') (field ''time'') (group g ''meridiem'') fmt number c;
               name = field ''name''
           in if modified = None \<or> name = lit ''.'' \<or> name = lit ''..'' then ((True, None), c1)
              else if 0 \<in> set name \<or> 47 \<in> set name \<or> 92 \<in> set name \<or> 58 \<in> set name
              then ((True, None), coll_error ''INVALID_ENTRY_NAME''
                     [Txt ''entry name contains NUL, a path separator, or an unsupported colon''] (Some number) c1)
              else if group g ''directory'' \<noteq> None
              then ((True, Some \<lparr>entry_path = to_mounted_path section [name], entry_kind = DIRECTORY,
                      entry_observation = DIRECTORY_ENTRY, entry_size = None, entry_modified_local = modified,
                      entry_source_line = Some number, entry_content = None,
                      entry_source_metadata = EMPTY_METADATA\<rparr>), c1)
              else (case parse_integer (field ''size'') of
                  None \<Rightarrow> ((True, None), coll_error ''INVALID_SIZE''
                            [Txt ''invalid file size '', Repr (field ''size'')] (Some number) c1)
                | Some sz \<Rightarrow>
                    ((True, Some \<lparr>entry_path = to_mounted_path section [name], entry_kind = FILE,
                        entry_observation = FILE_ENTRY, entry_size = Some sz, entry_modified_local = modified,
                        entry_source_line = Some number, entry_content = None,
                        entry_source_metadata = EMPTY_METADATA\<rparr>), c1))))"

section \<open>Safety of what is parsed\<close>

text \<open>A component that names a child: not empty, not a dot entry, without separators.\<close>

definition name_ok :: "pystr \<Rightarrow> bool" where
  "name_ok c \<longleftrightarrow> c \<noteq> [] \<and> c \<noteq> lit ''.'' \<and> c \<noteq> lit ''..'' \<and> 0 \<notin> set c \<and> 47 \<notin> set c \<and> 92 \<notin> set c \<and>
     58 \<notin> set c"

definition drive_ok :: "pystr \<Rightarrow> bool" where
  "drive_ok c \<longleftrightarrow> (\<exists>u. c = [u] \<and> 65 \<le> u \<and> u \<le> 90)"

definition section_ok :: "pystr \<Rightarrow> bool" where
  "section_ok raw \<longleftrightarrow> valid_section_path raw \<and> 0 \<notin> set raw \<and> 47 \<notin> set raw"

definition emitted_ok :: "parsed_entry \<Rightarrow> bool" where
  "emitted_ok e \<longleftrightarrow> entry_ok e \<and> entry_content e = None \<and> entry_source_metadata e = EMPTY_METADATA \<and>
     (\<exists>d cs. entry_path e = d # cs \<and> drive_ok d \<and> list_all name_ok cs) \<and>
     (case entry_observation e of
        SECTION_HEADER \<Rightarrow> entry_kind e = DIRECTORY \<and> entry_modified_local e = None
      | DIRECTORY_ENTRY \<Rightarrow> entry_kind e = DIRECTORY \<and> entry_modified_local e \<noteq> None
      | FILE_ENTRY \<Rightarrow> entry_kind e = FILE \<and> entry_modified_local e \<noteq> None \<and> entry_size e \<noteq> None)"

lemma drive_path_start: "re_fullmatch drive_path_re raw \<noteq> None \<Longrightarrow> \<exists>c rest. raw = c # 58 # 92 # rest \<and> ascii_letter c"
  by (auto simp: drive_path_re_def re_fullmatch_None split: list.splits if_splits)
    (metis append_take_drop_id append_Cons append_Nil numeral_2_eq_2 drop_Suc_Cons)

lemma ascii_upper_letter: "ascii_letter c \<Longrightarrow> drive_ok [ascii_upper c]"
  by (auto simp: ascii_letter_def drive_ok_def ascii_upper_def)

lemma to_mounted_path_ok:
  assumes raw: "section_ok raw" and names: "list_all name_ok names"
  shows "\<exists>d cs. to_mounted_path raw names = d # cs \<and> drive_ok d \<and> list_all name_ok cs"
proof -
  from raw have m: "re_fullmatch drive_path_re raw \<noteq> None"
    unfolding section_ok_def valid_section_path_def by presburger
  then have d: "drive_ok [ascii_upper (hd raw)]"
    using drive_path_start ascii_upper_letter by fastforce
  have "name_ok c" if "c \<in> set (windows_parts raw)" for c
  proof -
    from that have c: "c \<in> set (split_on 92 (drop 3 raw))" "c \<noteq> []" "c \<noteq> lit ''.''"
      by (auto simp: windows_parts_def)
    then have "drop 3 raw \<noteq> []" by auto
    with raw m c have "c \<noteq> lit ''..''" "58 \<notin> set c"
      by (auto simp: section_ok_def valid_section_path_def Let_def list_all_iff)
    moreover have "92 \<notin> set c" using c(1) by (rule split_on_no_sep)
    moreover have "set c \<subseteq> set raw"
      using split_on_subset [OF c(1)] set_drop_subset [of 3 raw] by blast
    ultimately show ?thesis using raw c by (auto simp: name_ok_def section_ok_def)
  qed
  with d names show ?thesis by (auto simp: to_mounted_path_def list_all_iff)
qed

text \<open>The name that a match of the entry pattern reports is not empty.\<close>

lemma entry_match_name:
  assumes "re_fullmatch entry_re line = Some g"
  obtains name where "group g ''name'' = Some name" "name \<noteq> []" "10 \<notin> set name"
proof -
  from re_fullmatch_Some [OF assms] obtain s c s' c' where
    "(s', c') \<in> set (run_re (RGroup ''name'' (RMany True 1 None dot)) s c)"
    "([], g) \<in> set (run_re REnd s' c')"
    unfolding entry_re_def seq.simps run_seq by blast
  then show thesis
    by (elim run_group_many) (auto simp: group_def dot_def list_all_iff split: if_splits intro!: that)
qed

lemma parse_integer_nonneg: "parse_integer text = Some i \<Longrightarrow> 0 \<le> i"
  by (auto simp: parse_integer_def dest: py_int_nonneg split: if_splits)

lemma parse_entry_ok:
  assumes "parse_entry raw line number fmt c = ((matched, Some e), c')" "section_ok raw" "0 < number"
  shows "emitted_ok e" "matched"
proof -
  from assms(1) obtain g where g: "re_fullmatch entry_re line = Some g"
    by (auto simp: parse_entry_def split: option.splits)
  then obtain name where name: "group g ''name'' = Some name" "name \<noteq> []" by (rule entry_match_name)
  have path: "\<exists>d cs. to_mounted_path raw [name] = d # cs \<and> drive_ok d \<and> list_all name_ok cs" if "name_ok name"
    using to_mounted_path_ok [OF assms(2), of "[name]"] that by simp
  have fz: "freeze_metadata EMPTY_METADATA = Inr EMPTY_METADATA" by simp
  show "emitted_ok e" "matched" using assms(1,3) g name path fz
    by (auto simp: parse_entry_def Let_def emitted_ok_def entry_ok_def name_ok_def parse_integer_nonneg
        split: prod.splits if_splits option.splits)
qed

end
