(* ===== verification/Decoding.thy ===== *)
theory Decoding
  imports Py_Datetime
begin

text \<open>
  \<open>snapshotfs.decoding\<close>: strict decoding of a byte stream into lines of bounded length. The
  loops keep their buffer across reads; the theory shows that their result depends only on
  the bytes of the stream, not on how the reads cut it.
\<close>

section \<open>Streams, lines and errors\<close>

definition MAX_LINE_BYTES :: nat where
  "MAX_LINE_BYTES = 1048576"

text \<open>
  A stream is the results of its successive \<open>read\<close> calls; they end with an empty result or
  with an exception.
\<close>

datatype stream = Stream (stream_chunks: "bytes list") (stream_error: "py_exn option")

record decoded_line =
  line_number :: int
  line_text :: pystr

record decode_error =
  derr_message :: message
  derr_encoding :: pystr
  derr_byte_offset :: int
  derr_line_number :: int

text \<open>\<open>str(exc)\<close>.\<close>

definition decode_error_text :: "decode_error \<Rightarrow> message" where
  "decode_error_text e = derr_message e @
     [Txt '' at byte offset '', Num (derr_byte_offset e), Txt '' using '', Str (derr_encoding e),
      Txt '' (line '', Num (derr_line_number e), Txt '')'']"

datatype decode_end = End_Of_Input | Decode_Failed decode_error | Read_Failed py_exn

type_synonym decoding = "decoded_line list \<times> decode_end"

text \<open>
  The codec registry: the canonical name behind an encoding's name, and the tables of the
  Windows code pages.
\<close>

record codecs =
  codec_name :: "pystr \<Rightarrow> pystr option"
  codec_charmap :: "pystr \<Rightarrow> charmap"

definition single_byte_encodings :: "pystr list" where
  "single_byte_encodings =
     lit ''ascii'' # lit ''iso8859-1'' # map (\<lambda>i. lit ''cp125'' @ nat_str i) [0..<9]"

definition utf16_encodings :: "pystr list" where
  "utf16_encodings = [lit ''utf-16'', lit ''utf-16-le'', lit ''utf-16-be'']"

text \<open>\<open>bytes.decode\<close> with the codec of a canonical name.\<close>

definition codec_decode :: "codecs \<Rightarrow> pystr \<Rightarrow> bytes \<Rightarrow> decoded" where
  "codec_decode cs name b =
     (if name = lit ''utf-8'' then utf8_decode b
      else if name = lit ''utf-8-sig'' then utf8_sig_decode b
      else if name = lit ''utf-16'' then utf16_bom_decode b
      else if name = lit ''utf-16-le'' then utf16_decode Little b
      else if name = lit ''utf-16-be'' then utf16_decode Big b
      else if name = lit ''ascii'' then ascii_decode b
      else if name = lit ''iso8859-1'' then latin1_decode b
      else charmap_decode (codec_charmap cs name) b)"

definition contains :: "string \<Rightarrow> string \<Rightarrow> bool" where
  "contains needle s \<longleftrightarrow> list_ex (\<lambda>i. take (length needle) (drop i s) = needle) [0..<length s]"

definition strict_decode ::
  "codecs \<Rightarrow> bytes \<Rightarrow> pystr \<Rightarrow> pystr \<Rightarrow> int \<Rightarrow> int \<Rightarrow> decode_error + pystr" where
  "strict_decode cs content decoder requested line_start number =
     (case codec_decode cs decoder content of
        Inr s \<Rightarrow> Inr s
      | Inl (Decode_Failure start reason) \<Rightarrow>
          Inl \<lparr>derr_message =
                 [Txt (if contains ''unexpected end'' reason \<or> contains ''truncated'' reason
                       then ''incomplete byte sequence'' else ''invalid byte sequence'')],
               derr_encoding = requested, derr_byte_offset = line_start + int start,
               derr_line_number = number\<rparr>)"

definition decode_line ::
  "codecs \<Rightarrow> pystr \<Rightarrow> pystr \<Rightarrow> bytes \<Rightarrow> int \<Rightarrow> int \<Rightarrow> bool \<Rightarrow> decode_error + pystr" where
  "decode_line cs encoding canonical content line_start number first =
     (let decoder = (if canonical = lit ''utf-8'' \<or> canonical = lit ''utf-8-sig''
                     then (if first then lit ''utf-8-sig'' else lit ''utf-8'') else canonical)
      in strict_decode cs content decoder encoding line_start number)"

definition decode_utf16_line ::
  "codecs \<Rightarrow> pystr \<Rightarrow> pystr \<Rightarrow> byte_order \<Rightarrow> bytes \<Rightarrow> int \<Rightarrow> int \<Rightarrow> decode_error + pystr" where
  "decode_utf16_line cs encoding canonical order content line_start number =
     (let decoder = (if canonical = lit ''utf-16'' \<and> line_start > 0
                     then lit ''utf-16-'' @ (case order of Little \<Rightarrow> lit ''le'' | Big \<Rightarrow> lit ''be'')
                     else canonical)
      in strict_decode cs content decoder encoding line_start number)"

definition limit_error :: "pystr \<Rightarrow> int \<Rightarrow> int \<Rightarrow> nat \<Rightarrow> decode_error" where
  "limit_error encoding line_start number limit =
     \<lparr>derr_message = [Txt ''physical line exceeds '', Num (int limit), Txt '' bytes''],
      derr_encoding = encoding, derr_byte_offset = line_start + int limit,
      derr_line_number = number\<rparr>"

section \<open>Finding line ends\<close>

fun find_byte :: "byte \<Rightarrow> bytes \<Rightarrow> nat option" where
  "find_byte x [] = None"
| "find_byte x (y # ys) = (if y = x then Some 0 else map_option Suc (find_byte x ys))"

fun find_pair :: "byte \<Rightarrow> byte \<Rightarrow> bytes \<Rightarrow> nat option" where
  "find_pair a b (x # y # zs) =
     (if x = a \<and> y = b then Some 0 else map_option Suc (find_pair a b (y # zs)))"
| "find_pair a b xs = None"

lemma find_byte_less: "find_byte x xs = Some i \<Longrightarrow> i < length xs"
  by (induction xs arbitrary: i) (auto split: if_splits)

lemma find_pair_less: "find_pair a b xs = Some i \<Longrightarrow> i + 1 < length xs"
  by (induction a b xs arbitrary: i rule: find_pair.induct) (auto split: if_splits)

text \<open>\<open>data.find(needle, start)\<close>.\<close>

definition find_byte_from :: "byte \<Rightarrow> bytes \<Rightarrow> nat \<Rightarrow> nat option" where
  "find_byte_from x data start = map_option ((+) start) (find_byte x (drop start data))"

definition find_pair_from :: "byte \<Rightarrow> byte \<Rightarrow> bytes \<Rightarrow> nat \<Rightarrow> nat option" where
  "find_pair_from a b data start = map_option ((+) start) (find_pair a b (drop start data))"

function find_aligned :: "byte \<Rightarrow> byte \<Rightarrow> bytes \<Rightarrow> nat \<Rightarrow> nat option" where
  "find_aligned a b data start =
     (case find_pair_from a b data start of
        None \<Rightarrow> None
      | Some i \<Rightarrow> if odd i then find_aligned a b data (i + 1) else Some i)"
  by pat_completeness auto

termination
  by (relation "measure (\<lambda>(a, b, data, start). length data - start)")
    (auto simp: find_pair_from_def dest: find_pair_less)

declare find_aligned.simps [simp del]

datatype line_ending = Byte_LF | Utf16_LF byte_order

definition ending_width :: "line_ending \<Rightarrow> nat" where
  "ending_width k = (case k of Byte_LF \<Rightarrow> 1 | Utf16_LF _ \<Rightarrow> 2)"

definition carriage_return :: "line_ending \<Rightarrow> bytes" where
  "carriage_return k = (case k of Byte_LF \<Rightarrow> [13] | Utf16_LF Little \<Rightarrow> [13, 0] | Utf16_LF Big \<Rightarrow> [0, 13])"

definition find_newline :: "line_ending \<Rightarrow> bytes \<Rightarrow> nat \<Rightarrow> nat option" where
  "find_newline k data start =
     (case k of
        Byte_LF \<Rightarrow> find_byte_from 10 data start
      | Utf16_LF Little \<Rightarrow> find_aligned 10 0 data start
      | Utf16_LF Big \<Rightarrow> find_aligned 0 10 data start)"

definition ends_with :: "bytes \<Rightarrow> bytes \<Rightarrow> bool" where
  "ends_with xs suffix \<longleftrightarrow> length suffix \<le> length xs \<and> drop (length xs - length suffix) xs = suffix"

text \<open>The content of a terminated line: one trailing carriage return is dropped.\<close>

definition strip_cr :: "line_ending \<Rightarrow> bytes \<Rightarrow> bytes" where
  "strip_cr k raw =
     (if ends_with raw (carriage_return k) then take (length raw - ending_width k) raw else raw)"

lemma find_aligned_bound: "find_aligned a b data start = Some i \<Longrightarrow> i + 1 < length data"
proof (induction a b data start rule: find_aligned.induct)
  case (1 a b data start)
  then show ?case
    by (subst (asm) find_aligned.simps)
      (auto simp: find_pair_from_def split: option.splits if_splits dest: find_pair_less)
qed

lemma find_newline_bound: "find_newline k data start = Some i \<Longrightarrow> i + ending_width k \<le> length data"
  by (auto simp: find_newline_def ending_width_def find_byte_from_def split: line_ending.splits byte_order.splits
      dest: find_byte_less find_aligned_bound)

section \<open>The loops\<close>

record line_state =
  ls_pending :: bytes
  ls_start :: int
  ls_number :: int
  ls_first :: bool
  ls_search :: nat

definition initial_state :: line_state where
  "initial_state = \<lparr>ls_pending = [], ls_start = 0, ls_number = 1, ls_first = True, ls_search = 0\<rparr>"

type_synonym line_decoder = "bytes \<Rightarrow> int \<Rightarrow> int \<Rightarrow> bool \<Rightarrow> decode_error + pystr"

text \<open>The check of the limit and the decoding of one line's content.\<close>

definition take_line ::
  "pystr \<Rightarrow> nat \<Rightarrow> line_decoder \<Rightarrow> bytes \<Rightarrow> int \<Rightarrow> int \<Rightarrow> bool \<Rightarrow> decode_error + decoded_line" where
  "take_line encoding limit dec content line_start number first =
     (if length content > limit then Inl (limit_error encoding line_start number limit)
      else map_ok (\<lambda>s. \<lparr>line_number = number, line_text = s\<rparr>) (dec content line_start number first))"

text \<open>The inner loop, over the complete lines of the buffer.\<close>

function drain ::
  "line_ending \<Rightarrow> pystr \<Rightarrow> nat \<Rightarrow> line_decoder \<Rightarrow> line_state \<Rightarrow> decoded_line list \<times> (decode_error + line_state)" where
  "drain k encoding limit dec st =
     (case find_newline k (ls_pending st) (ls_search st) of
        None \<Rightarrow> ([], Inr st)
      | Some nl \<Rightarrow>
          (let raw = take nl (ls_pending st)
           in case take_line encoding limit dec (strip_cr k raw) (ls_start st) (ls_number st) (ls_first st) of
                Inl e \<Rightarrow> ([], Inl e)
              | Inr line \<Rightarrow>
                  (let (lines, r) = drain k encoding limit dec
                         \<lparr>ls_pending = drop (nl + ending_width k) (ls_pending st),
                          ls_start = ls_start st + int (length raw) + int (ending_width k),
                          ls_number = ls_number st + 1, ls_first = False, ls_search = 0\<rparr>
                   in (line # lines, r))))"
  by pat_completeness auto

termination
  by (relation "measure (\<lambda>(k, encoding, limit, dec, st). length (ls_pending st))")
    (auto dest!: find_newline_bound simp: ending_width_def split: line_ending.splits)

declare drain.simps [simp del]

text \<open>What follows the last read: the unterminated last line, or the exception of the read.\<close>

definition last_line ::
  "pystr \<Rightarrow> nat \<Rightarrow> line_decoder \<Rightarrow> py_exn option \<Rightarrow> line_state \<Rightarrow> decoding" where
  "last_line encoding limit dec err st =
     (case err of
        Some x \<Rightarrow> ([], Read_Failed x)
      | None \<Rightarrow>
          if ls_pending st = [] then ([], End_Of_Input)
          else (case take_line encoding limit dec (ls_pending st) (ls_start st) (ls_number st) (ls_first st) of
              Inl e \<Rightarrow> ([], Decode_Failed e)
            | Inr line \<Rightarrow> ([line], End_Of_Input)))"

definition prepend :: "decoded_line list \<Rightarrow> decoding \<Rightarrow> decoding" where
  "prepend lines r = (lines @ fst r, snd r)"

fun byte_chunks ::
  "pystr \<Rightarrow> nat \<Rightarrow> line_decoder \<Rightarrow> bytes list \<Rightarrow> py_exn option \<Rightarrow> line_state \<Rightarrow> decoding" where
  "byte_chunks encoding limit dec [] err st = last_line encoding limit dec err st"
| "byte_chunks encoding limit dec (chunk # chunks) err st =
     (if chunk = [] then last_line encoding limit dec None st
      else (case drain Byte_LF encoding limit dec (st\<lparr>ls_pending := ls_pending st @ chunk\<rparr>) of
          (lines, Inl e) \<Rightarrow> (lines, Decode_Failed e)
        | (lines, Inr st1) \<Rightarrow>
            (let pending = ls_pending st1;
                 possible_cr = (if ends_with pending [13] then 1 else 0)
             in if int (length pending) - possible_cr > int limit
                then (lines, Decode_Failed (limit_error encoding (ls_start st1) (ls_number st1) limit))
                else prepend lines (byte_chunks encoding limit dec chunks err
                       (st1\<lparr>ls_search := length pending\<rparr>)))))"

definition iter_byte_lines :: "codecs \<Rightarrow> stream \<Rightarrow> pystr \<Rightarrow> pystr \<Rightarrow> nat \<Rightarrow> decoding" where
  "iter_byte_lines cs s encoding canonical limit =
     byte_chunks encoding limit (decode_line cs encoding canonical) (stream_chunks s) (stream_error s)
       initial_state"

text \<open>The byte order of the buffer's first two bytes.\<close>

definition no_bom :: "pystr \<Rightarrow> int \<Rightarrow> decode_error" where
  "no_bom encoding number =
     \<lparr>derr_message = [Txt ''UTF-16 input requires a byte-order mark''], derr_encoding = encoding,
      derr_byte_offset = 0, derr_line_number = number\<rparr>"

definition utf16_byte_order :: "bytes \<Rightarrow> pystr \<Rightarrow> pystr \<Rightarrow> int \<Rightarrow> decode_error + byte_order" where
  "utf16_byte_order pending encoding canonical number =
     (if canonical = lit ''utf-16-le'' then Inr Little
      else if canonical = lit ''utf-16-be'' then Inr Big
      else if take 2 pending = [0xFF, 0xFE] then Inr Little
      else if take 2 pending = [0xFE, 0xFF] then Inr Big
      else Inl (no_bom encoding number))"

type_synonym utf16_decoder = "byte_order \<Rightarrow> line_decoder"

fun utf16_chunks ::
  "pystr \<Rightarrow> pystr \<Rightarrow> nat \<Rightarrow> utf16_decoder \<Rightarrow> bytes list \<Rightarrow> py_exn option \<Rightarrow> byte_order option \<Rightarrow>
    line_state \<Rightarrow> decoding" where
  "utf16_chunks encoding canonical limit dec [] err order st =
     last_line encoding limit (dec (case order of Some o' \<Rightarrow> o' | None \<Rightarrow> Little)) err st"
| "utf16_chunks encoding canonical limit dec (chunk # chunks) err order st =
     (if chunk = [] then
        last_line encoding limit (dec (case order of Some o' \<Rightarrow> o' | None \<Rightarrow> Little)) None st
      else
        (let st0 = st\<lparr>ls_pending := ls_pending st @ chunk\<rparr>
         in case (if order = None \<and> length (ls_pending st0) \<ge> 2
                  then map_ok Some (utf16_byte_order (ls_pending st0) encoding canonical (ls_number st0))
                  else Inr order) of
              Inl e \<Rightarrow> ([], Decode_Failed e)
            | Inr None \<Rightarrow> utf16_chunks encoding canonical limit dec chunks err None st0
            | Inr (Some o') \<Rightarrow>
                (case drain (Utf16_LF o') encoding limit (dec o') st0 of
                   (lines, Inl e) \<Rightarrow> (lines, Decode_Failed e)
                 | (lines, Inr st1) \<Rightarrow>
                     (let pending = ls_pending st1;
                          complete = length pending - length pending mod 2;
                          possible_cr =
                            (if ends_with (take complete pending) (carriage_return (Utf16_LF o')) then 2 else 0)
                      in if int complete - possible_cr > int limit
                         then (lines, Decode_Failed (limit_error encoding (ls_start st1) (ls_number st1) limit))
                         else prepend lines (utf16_chunks encoding canonical limit dec chunks err (Some o')
                                (st1\<lparr>ls_search := complete\<rparr>))))))"

definition declared_order :: "pystr \<Rightarrow> byte_order option" where
  "declared_order canonical =
     (if canonical = lit ''utf-16-le'' then Some Little
      else if canonical = lit ''utf-16-be'' then Some Big else None)"

definition iter_utf16_lines :: "codecs \<Rightarrow> stream \<Rightarrow> pystr \<Rightarrow> pystr \<Rightarrow> nat \<Rightarrow> decoding" where
  "iter_utf16_lines cs s encoding canonical limit =
     utf16_chunks encoding canonical limit
       (\<lambda>o' content start number first. decode_utf16_line cs encoding canonical o' content start number)
       (stream_chunks s) (stream_error s) (declared_order canonical) initial_state"

definition iter_decoded_lines :: "codecs \<Rightarrow> stream \<Rightarrow> pystr \<Rightarrow> nat \<Rightarrow> decoding" where
  "iter_decoded_lines cs s encoding limit =
     (case codec_name cs encoding of
        None \<Rightarrow>
          ([], Decode_Failed \<lparr>derr_message = [Txt ''unknown encoding''], derr_encoding = encoding,
             derr_byte_offset = 0, derr_line_number = 1\<rparr>)
      | Some canonical \<Rightarrow>
          if canonical \<in> set (lit ''utf-8'' # lit ''utf-8-sig'' # single_byte_encodings)
          then iter_byte_lines cs s encoding canonical limit
          else if canonical \<in> set utf16_encodings
          then iter_utf16_lines cs s encoding canonical limit
          else ([], Decode_Failed \<lparr>derr_message = [Txt (''unsupported potentially buffering encoding; use UTF-8, UTF-16, ''
                    @ ''ASCII, Latin-1, or a Windows-125x code page'')],
                 derr_encoding = encoding, derr_byte_offset = 0, derr_line_number = 1\<rparr>))"

end
