(* ===== verification/Building.thy ===== *)
theory Building
  imports Diagnostics "HOL-Library.List_Lexorder"
begin

text \<open>
  \<open>snapshotfs.store.building\<close>: the path validation and the merge rules that both store
  builders share. A raised \<open>BuildError\<close> is the \<open>Inl\<close> side, with its diagnostic; what a
  builder's method can raise is a \<open>BuildError\<close> or another exception.
\<close>

datatype build_exn = Build_Error diagnostic | Raised py_exn

definition MAX_MOUNTED_NAME_BYTES :: nat where
  "MAX_MOUNTED_NAME_BYTES = 255"

record mutable_node =
  mn_id :: int
  mn_parent_id :: "int option"
  mn_mounted_name :: bytes
  mn_original_path :: "pystr option"
  mn_kind :: node_kind
  mn_size :: "int option"
  mn_modified_at :: "datetime option"
  mn_content :: "bytes option"
  mn_source_line :: "int option"
  mn_observation :: "observation option"
  mn_source_metadata :: metadata

text \<open>\<open>MutableNode(id, parent\_id, name, original\_path, kind)\<close> with the default fields.\<close>

definition new_mutable_node ::
  "int \<Rightarrow> int option \<Rightarrow> bytes \<Rightarrow> pystr option \<Rightarrow> node_kind \<Rightarrow> mutable_node" where
  "new_mutable_node i p name orig kind =
     \<lparr>mn_id = i, mn_parent_id = p, mn_mounted_name = name, mn_original_path = orig,
      mn_kind = kind, mn_size = None, mn_modified_at = None, mn_content = None,
      mn_source_line = None, mn_observation = None, mn_source_metadata = EMPTY_METADATA\<rparr>"

lemma new_mutable_node_sel [simp]:
  "mn_id (new_mutable_node i p n og k) = i"
  "mn_parent_id (new_mutable_node i p n og k) = p"
  "mn_mounted_name (new_mutable_node i p n og k) = n"
  "mn_original_path (new_mutable_node i p n og k) = og"
  "mn_kind (new_mutable_node i p n og k) = k"
  "mn_size (new_mutable_node i p n og k) = None"
  "mn_modified_at (new_mutable_node i p n og k) = None"
  "mn_content (new_mutable_node i p n og k) = None"
  "mn_source_line (new_mutable_node i p n og k) = None"
  "mn_observation (new_mutable_node i p n og k) = None"
  "mn_source_metadata (new_mutable_node i p n og k) = EMPTY_METADATA"
  by (simp_all add: new_mutable_node_def)

section \<open>Path components\<close>

definition invalid_path :: "parsed_entry \<Rightarrow> string \<Rightarrow> diagnostic" where
  "invalid_path e m = error_diag ''INVALID_PATH'' [Txt m] (entry_source_line e)"

definition slash :: nat where "slash = 47"

fun components_loop :: "parsed_entry \<Rightarrow> pystr list \<Rightarrow> diagnostic + bytes list" where
  "components_loop e [] = Inr []"
| "components_loop e (c # cs) =
     (if c = [] \<or> c = lit ''.'' \<or> c = lit ''..''
      then Inl (invalid_path e ''path contains an empty or reserved component'')
      else if 0 \<in> set c \<or> slash \<in> set c
      then Inl (invalid_path e ''path component contains NUL or forward slash'')
      else (case utf8_encode c of
          None \<Rightarrow> Inl (invalid_path e ''path component is not valid Unicode'')
        | Some name \<Rightarrow>
            if length name > MAX_MOUNTED_NAME_BYTES
            then Inl (invalid_path e ''path component exceeds the 255-byte mounted-name limit'')
            else map_ok ((#) name) (components_loop e cs)))"

definition components :: "parsed_entry \<Rightarrow> diagnostic + bytes list" where
  "components e =
     (if entry_path e = []
      then Inl (invalid_path e ''path must contain at least one mounted component'')
      else components_loop e (entry_path e))"

text \<open>A safe component, and the mounted name that stands for it.\<close>

definition safe_component :: "pystr \<Rightarrow> bool" where
  "safe_component c \<longleftrightarrow> c \<noteq> [] \<and> c \<noteq> lit ''.'' \<and> c \<noteq> lit ''..'' \<and> 0 \<notin> set c \<and> slash \<notin> set c \<and>
     list_all scalar c"

definition mounts_as :: "pystr \<Rightarrow> bytes \<Rightarrow> bool" where
  "mounts_as c name \<longleftrightarrow> safe_component c \<and> utf8_encode c = Some name \<and>
     length name \<le> MAX_MOUNTED_NAME_BYTES"

definition mounted_name_ok :: "bytes \<Rightarrow> bool" where
  "mounted_name_ok name \<longleftrightarrow> (\<exists>c. mounts_as c name)"

lemma mounts_as_inj: "mounts_as c n \<Longrightarrow> mounts_as c' n \<Longrightarrow> c = c'"
  unfolding mounts_as_def by (metis utf8_encode_inj)

lemma mounts_as_fun: "mounts_as c n \<Longrightarrow> mounts_as c n' \<Longrightarrow> n = n'"
  by (auto simp: mounts_as_def)

lemma mounts_as_all_inj:
  assumes "list_all2 mounts_as cs ns" "list_all2 mounts_as ds ns"
  shows "cs = ds"
  using assms
proof (induction cs ns arbitrary: ds rule: list_all2_induct)
  case Nil
  then show ?case by simp
next
  case (Cons c cs n ns)
  then obtain d ds' where ds: "ds = d # ds'" "mounts_as d n" "list_all2 mounts_as ds' ns"
    by (cases ds) auto
  with Cons.hyps have "c = d" by (blast intro: mounts_as_inj)
  with ds Cons.IH show ?case by simp
qed

lemma components_loop_iff:
  "components_loop e cs = Inr names \<longleftrightarrow> list_all2 mounts_as cs names"
proof (induction cs arbitrary: names)
  case (Cons c cs)
  then show ?case
    by (cases names)
      (auto simp: mounts_as_def safe_component_def list_all_iff utf8_encode_def split: if_splits)
qed auto

text \<open>
  Validation accepts exactly the non-empty paths of safe components and returns their
  UTF-8 names in order.
\<close>

lemma components_iff:
  "components e = Inr names \<longleftrightarrow> entry_path e \<noteq> [] \<and> list_all2 mounts_as (entry_path e) names"
  by (simp add: components_def components_loop_iff)

lemma components_loop_error: "components_loop e cs = Inl d \<Longrightarrow> \<exists>m. d = invalid_path e m"
  by (induction cs) (auto split: if_splits option.splits)

lemma components_error: "components e = Inl d \<Longrightarrow> \<exists>m. d = invalid_path e m"
  by (auto simp: components_def dest: components_loop_error split: if_splits)

lemma components_nonempty: "components e = Inr names \<Longrightarrow> names \<noteq> []"
  by (auto simp: components_iff)

section \<open>Merging observations\<close>

definition apply_entry :: "mutable_node \<Rightarrow> parsed_entry \<Rightarrow> mutable_node" where
  "apply_entry n e =
     n\<lparr>mn_size := entry_size e, mn_modified_at := entry_modified_local e,
       mn_content := entry_content e, mn_source_line := entry_source_line e,
       mn_original_path := Some (join [slash] (entry_path e)),
       mn_observation := Some (entry_observation e),
       mn_source_metadata := entry_source_metadata e\<rparr>"

definition entry_location :: "parsed_entry \<Rightarrow> message" where
  "entry_location e =
     (case entry_source_line e of
        Some l \<Rightarrow> [Txt ''line '', Num l]
      | None \<Rightarrow> [Txt ''path '', Repr (join [slash] (entry_path e))])"

definition conflict :: "mutable_node \<Rightarrow> parsed_entry \<Rightarrow> string \<Rightarrow> diagnostic" where
  "conflict n e reason =
     (let existing =
        (case mn_source_line n of
           Some l \<Rightarrow> [Txt ''line '', Num l]
         | None \<Rightarrow>
             (case (mn_observation n, mn_original_path n) of
                (Some _, Some p) \<Rightarrow> [Txt ''path '', Repr p]
              | _ \<Rightarrow> [Txt ''synthesized node'']));
        incoming =
        (case entry_source_line e of
           Some l \<Rightarrow> [Txt ''line '', Num l]
         | None \<Rightarrow> [Txt ''path '', Repr (join [slash] (entry_path e))])
      in error_diag ''ENTRY_CONFLICT''
           ([Txt reason, Txt '': existing ''] @ existing @ [Txt '', incoming ''] @ incoming)
           (entry_source_line e))"

definition merge :: "tzdb \<Rightarrow> mutable_node \<Rightarrow> parsed_entry \<Rightarrow> diagnostic + mutable_node" where
  "merge db n e =
     (if mn_observation n = None then Inr (apply_entry n e)
      else if mn_kind n = FILE then
        (if mn_size n \<noteq> entry_size e \<or>
            \<not> opt_datetime_eq db (mn_modified_at n) (entry_modified_local e) \<or>
            mn_content n \<noteq> entry_content e
         then Inl (conflict n e ''incompatible duplicate file metadata'')
         else Inr n)
      else if entry_observation e = SECTION_HEADER then Inr n
      else if mn_observation n = Some SECTION_HEADER then Inr (apply_entry n e)
      else if \<not> opt_datetime_eq db (mn_modified_at n) (entry_modified_local e)
      then Inl (conflict n e ''incompatible duplicate directory metadata'')
      else Inr n)"

definition content_values :: "mutable_node \<Rightarrow> bytes option \<times> content_status" where
  "content_values n =
     (let content =
        (if mn_kind n = FILE \<and> mn_size n = Some 0 \<and> mn_content n = None then Some [] else mn_content n)
      in if mn_kind n = DIRECTORY then (content, NOT_APPLICABLE)
         else if mn_kind n = FILE \<and> content \<noteq> None then (content, PRESENT)
         else (content, MISSING))"

section \<open>What merging preserves\<close>

lemma apply_entry_sel [simp]:
  "mn_id (apply_entry n e) = mn_id n"
  "mn_parent_id (apply_entry n e) = mn_parent_id n"
  "mn_mounted_name (apply_entry n e) = mn_mounted_name n"
  "mn_kind (apply_entry n e) = mn_kind n"
  "mn_size (apply_entry n e) = entry_size e"
  "mn_content (apply_entry n e) = entry_content e"
  "mn_original_path (apply_entry n e) = Some (join [slash] (entry_path e))"
  "mn_observation (apply_entry n e) = Some (entry_observation e)"
  "mn_modified_at (apply_entry n e) = entry_modified_local e"
  "mn_source_line (apply_entry n e) = entry_source_line e"
  "mn_source_metadata (apply_entry n e) = entry_source_metadata e"
  by (simp_all add: apply_entry_def)

lemma merge_cases:
  assumes "merge db n e = Inr n'"
  obtains "n' = n" "mn_observation n \<noteq> None" | "n' = apply_entry n e"
  using assms by (auto simp: merge_def split: if_splits)

lemma merge_identity:
  assumes "merge db n e = Inr n'"
  shows "mn_id n' = mn_id n" "mn_parent_id n' = mn_parent_id n"
    "mn_mounted_name n' = mn_mounted_name n" "mn_kind n' = mn_kind n" "mn_observation n' \<noteq> None"
  using assms by (rule merge_cases; auto)+

text \<open>
  The fields of a node that validation constrains: directories carry no content, files a
  non-negative size and content of that size, metadata is frozen.
\<close>

definition fields_ok :: "mutable_node \<Rightarrow> bool" where
  "fields_ok n \<longleftrightarrow>
     (mn_kind n = DIRECTORY \<longrightarrow> mn_size n = None \<and> mn_content n = None) \<and>
     (mn_kind n = FILE \<longrightarrow> (\<forall>s. mn_size n = Some s \<longrightarrow> 0 \<le> s) \<and>
        (\<forall>c. mn_content n = Some c \<longrightarrow> mn_size n = Some (int (length c)))) \<and>
     freeze_metadata (mn_source_metadata n) = Inr (mn_source_metadata n)"

lemma fields_ok_new [simp]: "fields_ok (new_mutable_node i p name orig kind)"
  by (simp add: fields_ok_def)

lemma fields_ok_merge:
  assumes "merge db n e = Inr n'" "fields_ok n" "entry_ok e" "mn_kind n = entry_kind e"
  shows "fields_ok n'"
  using assms(1)
proof (cases rule: merge_cases)
  case 1
  with assms show ?thesis by simp
next
  case 2
  with assms(3,4) show ?thesis by (simp add: fields_ok_def entry_ok_def)
qed

text \<open>
  Content values always satisfy the content invariants of the \<open>Node\<close> constructor, so
  finishing a builder cannot be rejected.
\<close>

lemma content_values_ok:
  "fields_ok n \<Longrightarrow> content_values n = (c, st) \<Longrightarrow> content_ok (mn_kind n) (mn_size n) c st None"
  by (auto simp: content_values_def content_ok_def fields_ok_def Let_def split: if_splits)

section \<open>Merging all observations of a node\<close>

text \<open>
  The observations of one path are merged one after the other. The specification says which of them
  the node shows, for a directory the first entry that
  is not a section header, or else the first observation, and which
  observations agree with it.
\<close>

fun merge_all :: "tzdb \<Rightarrow> mutable_node \<Rightarrow> parsed_entry list \<Rightarrow> diagnostic + mutable_node" where
  "merge_all db n [] = Inr n"
| "merge_all db n (e # es) = (case merge db n e of Inl d \<Rightarrow> Inl d | Inr n' \<Rightarrow> merge_all db n' es)"

definition shown_observation :: "node_kind \<Rightarrow> parsed_entry list \<Rightarrow> parsed_entry" where
  "shown_observation kind es =
     (case List.find (\<lambda>e. kind \<noteq> FILE \<and> entry_observation e \<noteq> SECTION_HEADER) es of
        Some e \<Rightarrow> e
      | None \<Rightarrow> hd es)"

definition observation_agrees :: "tzdb \<Rightarrow> node_kind \<Rightarrow> parsed_entry \<Rightarrow> parsed_entry \<Rightarrow> bool" where
  "observation_agrees db kind w e \<longleftrightarrow>
     (if kind = FILE
      then entry_size e = entry_size w \<and> opt_datetime_eq db (entry_modified_local w) (entry_modified_local e) \<and>
        entry_content e = entry_content w
      else entry_observation e = SECTION_HEADER \<or> opt_datetime_eq db (entry_modified_local w) (entry_modified_local e))"

lemma apply_entry_again [simp]: "apply_entry (apply_entry n e) e' = apply_entry n e'"
  by (simp add: apply_entry_def)

lemma observation_agrees_self [simp]: "observation_agrees db kind e e"
  by (simp add: observation_agrees_def)

lemma shown_observation_simps:
  "shown_observation FILE (w # es) = w"
  "entry_observation w \<noteq> SECTION_HEADER \<Longrightarrow> shown_observation kind (w # es) = w"
  "entry_observation w = SECTION_HEADER \<Longrightarrow> entry_observation e = SECTION_HEADER \<Longrightarrow>
   shown_observation kind (w # e # es) = shown_observation kind (w # es)"
  "entry_observation w = SECTION_HEADER \<Longrightarrow> entry_observation e \<noteq> SECTION_HEADER \<Longrightarrow>
   kind \<noteq> FILE \<Longrightarrow> shown_observation kind (w # e # es) = e"
proof -
  have "List.find (\<lambda>_. False) xs = None" for xs :: "parsed_entry list" by (simp add: find_None_iff)
  then show "shown_observation FILE (w # es) = w"
    and "entry_observation w \<noteq> SECTION_HEADER \<Longrightarrow> shown_observation kind (w # es) = w"
    by (cases kind; simp add: shown_observation_def)+
qed (auto simp: shown_observation_def split: option.split)

lemma merge_shown:
  assumes "mn_kind n = FILE \<or> entry_observation w \<noteq> SECTION_HEADER"
  shows "merge_all db (apply_entry n w) es = Inr n' \<longleftrightarrow>
    (\<forall>e \<in> set es. observation_agrees db (mn_kind n) w e) \<and> n' = apply_entry n w"
  using assms by (induction es) (auto simp: merge_def observation_agrees_def)

lemma merge_header:
  assumes "mn_kind n \<noteq> FILE" "entry_observation w = SECTION_HEADER"
  shows "merge_all db (apply_entry n w) es = Inr n' \<longleftrightarrow>
    (let v = shown_observation (mn_kind n) (w # es)
     in (\<forall>e \<in> set es. observation_agrees db (mn_kind n) v e) \<and> n' = apply_entry n v)"
proof (induction es)
  case Nil
  then show ?case using assms(2) by (auto simp: shown_observation_def)
next
  case (Cons e es)
  show ?case
  proof (cases "entry_observation e = SECTION_HEADER")
    case True
    with Cons assms show ?thesis by (simp add: merge_def shown_observation_simps(3) Let_def) (simp add: observation_agrees_def)
  next
    case False
    then have "merge db (apply_entry n w) e = Inr (apply_entry n e)" using assms by (simp add: merge_def)
    then show ?thesis using merge_shown [of n e db es n'] assms False by (simp add: shown_observation_simps(4))
  qed
qed

lemma merge_all_observations:
  assumes "es \<noteq> []" "mn_observation n = None"
  shows "merge_all db n es = Inr n' \<longleftrightarrow>
    (\<forall>e \<in> set es. observation_agrees db (mn_kind n) (shown_observation (mn_kind n) es) e) \<and>
    n' = apply_entry n (shown_observation (mn_kind n) es)"
proof (cases es)
  case (Cons w rest)
  then have "merge_all db n es = merge_all db (apply_entry n w) rest" using assms by (simp add: merge_def)
  moreover have "shown_observation (mn_kind n) es = w" if "mn_kind n = FILE \<or> entry_observation w \<noteq> SECTION_HEADER"
    using Cons that by (auto simp: shown_observation_simps)
  moreover have "observation_agrees db (mn_kind n) v w" if "entry_observation w = SECTION_HEADER" "mn_kind n \<noteq> FILE" for v using that by (simp add: observation_agrees_def)
  ultimately show ?thesis
    using merge_shown [of n w db rest n'] merge_header [of n w db rest n'] Cons
    by (cases "mn_kind n = FILE \<or> entry_observation w \<noteq> SECTION_HEADER") (auto simp: Let_def)
qed (use assms in simp)

end
