(* ===== verification/Store_Interface.thy ===== *)
theory Store_Interface
  imports Building
begin

text \<open>
  \<open>snapshotfs.store.base\<close>: the \<open>SnapshotStore\<close> protocol as a record of methods, and the
  contract its clients (the FUSE adapter, the inspection output) rely on, as a locale. The
  contract relates the methods to the map from inodes to nodes that the store stands for.
\<close>

record store =
  diagnostics :: "py_exn + diagnostic list"
  diagnostic_count :: "py_exn + int"
  get_snapshot :: "pystr \<Rightarrow> py_exn + snapshot"
  get_root :: "pystr \<Rightarrow> py_exn + node"
  get_node :: "int \<Rightarrow> py_exn + node"
  lookup :: "int \<Rightarrow> bytes \<Rightarrow> py_exn + node option"
  iter_children :: "int \<Rightarrow> int \<Rightarrow> py_exn + node list"
  iter_nodes :: "py_exn + node list"

text \<open>\<open>ImportFailure\<close>: the diagnostics and the count, by default their number.\<close>

record import_failure =
  failure_diagnostics :: "diagnostic list"
  failure_diagnostic_count :: nat

definition make_import_failure :: "diagnostic list \<Rightarrow> nat option \<Rightarrow> import_failure" where
  "make_import_failure ds n =
     \<lparr>failure_diagnostics = ds,
      failure_diagnostic_count = (case n of Some k \<Rightarrow> k | None \<Rightarrow> length ds)\<rparr>"

section \<open>Trees of nodes\<close>

type_synonym node_map = "int \<Rightarrow> node option"

text \<open>The children of a directory, ordered by mounted name.\<close>

definition children_of :: "node_map \<Rightarrow> int \<Rightarrow> node list \<Rightarrow> bool" where
  "children_of m p cs \<longleftrightarrow>
     sorted_wrt (\<lambda>a b. node_mounted_name a < node_mounted_name b) cs \<and>
     (\<forall>n. n \<in> set cs \<longleftrightarrow> m (node_id n) = Some n \<and> node_parent_id n = Some p)"

text \<open>
  A node map is a tree: inode 1 is a directory without parent and with the empty name;
  every other inode has a directory as its parent and a mountable name; no inode is its own
  ancestor, since the parent always has the smaller rank; siblings differ in name; the content
  invariants hold.
\<close>

definition tree_ok :: "node_map \<Rightarrow> bool" where
  "tree_ok m \<longleftrightarrow>
     (\<exists>r. m 1 = Some r \<and> node_kind r = DIRECTORY \<and> node_parent_id r = None \<and> node_mounted_name r = []) \<and>
     (\<forall>i n. m i = Some n \<longrightarrow> node_id n = i \<and> 1 \<le> i \<and> node_content_ok n) \<and>
     (\<forall>i n. m i = Some n \<longrightarrow> i \<noteq> 1 \<longrightarrow> mounted_name_ok (node_mounted_name n) \<and>
        (\<exists>p pn. node_parent_id n = Some p \<and> m p = Some pn \<and> node_kind pn = DIRECTORY)) \<and>
     (\<exists>rank :: int \<Rightarrow> nat. \<forall>i n p. m i = Some n \<longrightarrow> node_parent_id n = Some p \<longrightarrow> rank p < rank i) \<and>
     (\<forall>i j n n'. m i = Some n \<longrightarrow> m j = Some n' \<longrightarrow> node_parent_id n = node_parent_id n' \<longrightarrow>
        node_mounted_name n = node_mounted_name n' \<longrightarrow> i = j)"

lemma tree_ok_id: "tree_ok m \<Longrightarrow> m i = Some n \<Longrightarrow> node_id n = i"
  by (simp add: tree_ok_def)

lemma tree_ok_content: "tree_ok m \<Longrightarrow> m i = Some n \<Longrightarrow> node_content_ok n"
  by (simp add: tree_ok_def)

lemma tree_ok_root:
  "tree_ok m \<Longrightarrow> \<exists>r. m 1 = Some r \<and> node_kind r = DIRECTORY \<and> node_parent_id r = None"
  by (auto simp: tree_ok_def)

lemma tree_ok_parent:
  "tree_ok m \<Longrightarrow> m i = Some n \<Longrightarrow> i \<noteq> 1 \<Longrightarrow>
   \<exists>p pn. node_parent_id n = Some p \<and> m p = Some pn \<and> node_kind pn = DIRECTORY"
  unfolding tree_ok_def by blast

lemma tree_ok_sibling:
  "tree_ok m \<Longrightarrow> m i = Some n \<Longrightarrow> m j = Some n' \<Longrightarrow> node_parent_id n = node_parent_id n' \<Longrightarrow>
   node_mounted_name n = node_mounted_name n' \<Longrightarrow> i = j"
  unfolding tree_ok_def by blast

lemma tree_ok_parent_Some:
  "tree_ok m \<Longrightarrow> m i = Some n \<Longrightarrow> node_parent_id n = Some p \<Longrightarrow>
   i \<noteq> 1 \<and> (\<exists>pn. m p = Some pn \<and> node_kind pn = DIRECTORY)"
  using tree_ok_parent tree_ok_root by (metis option.inject option.distinct(1))

lemma children_of_unique:
  assumes "children_of m p cs" "children_of m p ds"
  shows "cs = ds"
proof (rule sorted_wrt_unique [where P = "\<lambda>a b. node_mounted_name a < node_mounted_name b"])
  show "\<not> node_mounted_name b < node_mounted_name a" if "node_mounted_name a < node_mounted_name b"
    for a b :: node
    using that by (rule less_not_sym [rule_format])
  show "set cs = set ds" using assms by (auto simp: children_of_def)
qed (use assms in \<open>simp_all add: children_of_def\<close>)

section \<open>Resolving paths through the interface\<close>

text \<open>What a client sees at a path of mounted names, with inode and parent blanked out.\<close>

fun resolve :: "store \<Rightarrow> node \<Rightarrow> bytes list \<Rightarrow> node option" where
  "resolve st n [] = Some n"
| "resolve st n (name # names) =
     (case lookup st (node_id n) name of Inr (Some c) \<Rightarrow> resolve st c names | _ \<Rightarrow> None)"

definition blank_node :: "node \<Rightarrow> node" where
  "blank_node n = n\<lparr>node_id := 0, node_parent_id := None\<rparr>"

definition store_view :: "store \<Rightarrow> pystr \<Rightarrow> bytes list \<Rightarrow> node option" where
  "store_view st sid path =
     (case get_root st sid of
        Inl _ \<Rightarrow> None
      | Inr r \<Rightarrow> map_option blank_node (resolve st r path))"

section \<open>The contract\<close>

text \<open>
  The inodes the file system passes fit in 64 bits with a sign. For other numbers a store need
  not say that the node is missing: the SQLite driver cannot bind them.
\<close>

definition int64 :: "int \<Rightarrow> bool" where
  "int64 i \<longleftrightarrow> - (2 ^ 63) \<le> i \<and> i < 2 ^ 63"

locale snapshot_store =
  fixes obj :: "'s \<Rightarrow> store"
    and nodes_of :: "'s \<Rightarrow> node_map"
    and invar :: "'s \<Rightarrow> bool"
  assumes tree: "invar s \<Longrightarrow> tree_ok (nodes_of s)"
    and get_node_law: "invar s \<Longrightarrow> get_node (obj s) i = Inr n \<longleftrightarrow> nodes_of s i = Some n"
    and get_node_missing: "invar s \<Longrightarrow> nodes_of s i = None \<Longrightarrow> int64 i \<Longrightarrow>
      get_node (obj s) i = Inl (KeyErrorInt i)"
    and lookup_law: "invar s \<Longrightarrow> nodes_of s p \<noteq> None \<Longrightarrow>
      \<exists>r. lookup (obj s) p name = Inr r \<and>
        (\<forall>n. r = Some n \<longleftrightarrow>
          nodes_of s (node_id n) = Some n \<and> node_parent_id n = Some p \<and> node_mounted_name n = name)"
    and iter_children_law: "invar s \<Longrightarrow> nodes_of s p \<noteq> None \<Longrightarrow>
      \<exists>cs. children_of (nodes_of s) p cs \<and> (\<forall>off. iter_children (obj s) p off = Inr (slice_from cs off))"
    and iter_nodes_law: "invar s \<Longrightarrow>
      \<exists>ns. iter_nodes (obj s) = Inr ns \<and> ns \<noteq> [] \<and> nodes_of s 1 = Some (hd ns) \<and>
        distinct ns \<and> set ns = {n. \<exists>i. nodes_of s i = Some n}"
    and get_snapshot_law: "invar s \<Longrightarrow> nodes_of s i = Some n \<Longrightarrow>
      \<exists>sn. get_snapshot (obj s) (node_snapshot_id n) = Inr sn"
begin

lemma get_node_Some: "invar s \<Longrightarrow> nodes_of s i = Some n \<Longrightarrow> get_node (obj s) i = Inr n"
  by (simp add: get_node_law)

text \<open>\<open>lookup\<close> finds a node exactly when listing the directory shows it under that name.\<close>

lemma lookup_iff_listed:
  assumes "invar s" "nodes_of s p \<noteq> None"
  shows "lookup (obj s) p name = Inr (Some n) \<longleftrightarrow>
    (\<exists>cs. iter_children (obj s) p 0 = Inr cs \<and> n \<in> set cs \<and> node_mounted_name n = name)"
proof -
  obtain cs where "children_of (nodes_of s) p cs" "iter_children (obj s) p 0 = Inr cs"
    using iter_children_law [OF assms] by auto
  moreover obtain r where "lookup (obj s) p name = Inr r"
    "\<forall>n. r = Some n \<longleftrightarrow> nodes_of s (node_id n) = Some n \<and> node_parent_id n = Some p \<and>
       node_mounted_name n = name"
    using lookup_law [OF assms] by blast
  ultimately show ?thesis by (auto simp: children_of_def)
qed

text \<open>The parent of a listed child is the listed directory.\<close>

lemma listed_child:
  assumes "invar s" "nodes_of s p \<noteq> None" "iter_children (obj s) p off = Inr cs" "n \<in> set cs"
  shows "nodes_of s (node_id n) = Some n" "node_parent_id n = Some p"
proof -
  obtain all where "children_of (nodes_of s) p all" "cs = slice_from all off"
    using iter_children_law [OF assms(1,2)] assms(3) by (auto dest!: spec [of _ off])
  with assms(4) show "nodes_of s (node_id n) = Some n" "node_parent_id n = Some p"
    by (auto simp: children_of_def slice_from_def dest: in_set_dropD)
qed

end

end
