(* ===== verification/Node_Tree.thy ===== *)
theory Node_Tree
  imports Store_Interface
begin

text \<open>
  The tree that both store builders maintain, seen as two maps: from inodes to mutable
  nodes, and from a parent inode and a mounted name to the child's inode. The theory holds
  the invariant of that tree, the effect of its two updates (a fresh leaf, a merged node),
  the resolution of paths, and the abstract specification of adding an entry to a tree
  indexed by paths.
\<close>

type_synonym nodes = "int \<Rightarrow> mutable_node option"
type_synonym child_map = "int \<Rightarrow> bytes \<Rightarrow> int option"

section \<open>The invariant\<close>

text \<open>
  A node's relative path is the name below the root, or the parent's path, a slash and the
  name: the condition that opening an artifact checks with a recursive query.
\<close>

definition path_below :: "int \<Rightarrow> mutable_node \<Rightarrow> pystr \<Rightarrow> pystr" where
  "path_below p pn s =
     (if p = 1 then s else (case mn_original_path pn of Some q \<Rightarrow> q @ [slash] @ s | None \<Rightarrow> s))"

definition node_ok :: "nodes \<Rightarrow> int \<Rightarrow> mutable_node \<Rightarrow> bool" where
  "node_ok m i n \<longleftrightarrow> mn_id n = i \<and> fields_ok n \<and>
     (if i = 1 then mn_parent_id n = None \<and> mn_kind n = DIRECTORY \<and> mn_mounted_name n = [] \<and>
        mn_original_path n = None \<and> mn_observation n = None \<and> mn_modified_at n = None \<and>
        mn_source_line n = None \<and> mn_source_metadata n = EMPTY_METADATA
      else \<exists>p pn s. mn_parent_id n = Some p \<and> p < i \<and> m p = Some pn \<and> mn_kind pn = DIRECTORY \<and>
        mounts_as s (mn_mounted_name n) \<and> mn_original_path n = Some (path_below p pn s))"

lemma node_ok_nonrootI:
  "i \<noteq> 1 \<Longrightarrow> mn_id n = i \<Longrightarrow> fields_ok n \<Longrightarrow> mn_parent_id n = Some p \<Longrightarrow> p < i \<Longrightarrow>
   m p = Some pn \<Longrightarrow> mn_kind pn = DIRECTORY \<Longrightarrow> mounts_as s (mn_mounted_name n) \<Longrightarrow>
   mn_original_path n = Some (path_below p pn s) \<Longrightarrow> node_ok m i n"
  by (auto simp: node_ok_def)

lemma node_ok_nonrootE:
  assumes "node_ok m i n" "i \<noteq> 1"
  obtains p pn s where "mn_id n = i" "fields_ok n" "mn_parent_id n = Some p" "p < i" "m p = Some pn"
    "mn_kind pn = DIRECTORY" "mounts_as s (mn_mounted_name n)"
    "mn_original_path n = Some (path_below p pn s)"
  using assms by (auto simp: node_ok_def)

lemma node_ok_no_parent: "node_ok m i n \<Longrightarrow> mn_parent_id n = None \<Longrightarrow> i = 1"
  by (auto simp: node_ok_def split: if_splits)

lemma node_ok_root_cong: "node_ok m 1 n = node_ok m' 1 n"
  by (simp add: node_ok_def)

definition builder_tree :: "nodes \<Rightarrow> child_map \<Rightarrow> int \<Rightarrow> bool" where
  "builder_tree m ch k \<longleftrightarrow> 2 \<le> k \<and>
     (\<forall>i. m i \<noteq> None \<longleftrightarrow> 1 \<le> i \<and> i < k) \<and>
     (\<forall>i n. m i = Some n \<longrightarrow> node_ok m i n) \<and>
     (\<forall>p name i. ch p name = Some i \<longleftrightarrow>
        (\<exists>n. m i = Some n \<and> mn_parent_id n = Some p \<and> mn_mounted_name n = name))"

lemma builder_treeD:
  assumes "builder_tree m ch k"
  shows "2 \<le> k" and "m i \<noteq> None \<longleftrightarrow> 1 \<le> i \<and> i < k" and "m i = Some n \<Longrightarrow> node_ok m i n"
    and "ch p name = Some i \<longleftrightarrow>
      (\<exists>n. m i = Some n \<and> mn_parent_id n = Some p \<and> mn_mounted_name n = name)"
  using assms by (auto simp: builder_tree_def)

lemma builder_tree_fresh: "builder_tree m ch k \<Longrightarrow> m k = None"
  using builder_treeD(2) [of m ch k k] by auto

lemma builder_tree_root:
  assumes "builder_tree m ch k"
  obtains r where "m 1 = Some r" "mn_kind r = DIRECTORY" "mn_original_path r = None"
proof -
  from assms have "m 1 \<noteq> None" by (simp add: builder_tree_def)
  then obtain r where "m 1 = Some r" by blast
  with builder_treeD(3) [OF assms this] that show thesis by (auto simp: node_ok_def)
qed

lemma child_parent:
  assumes "builder_tree m ch k" "ch p name = Some i"
  obtains n pn where "m i = Some n" "mn_parent_id n = Some p" "mn_mounted_name n = name"
    "i \<noteq> 1" "p < i" "m p = Some pn" "mn_kind pn = DIRECTORY"
proof -
  from assms obtain n where n: "m i = Some n" "mn_parent_id n = Some p" "mn_mounted_name n = name"
    by (auto simp: builder_treeD(4))
  with builder_treeD(3) [OF assms(1) n(1)] that show thesis
    by (auto simp: node_ok_def split: if_splits)
qed

text \<open>The start: only the virtual root.\<close>

definition root_node :: mutable_node where
  "root_node = new_mutable_node 1 None [] None DIRECTORY"

lemma builder_tree_start: "builder_tree [1 \<mapsto> root_node] (\<lambda>_ _. None) 2"
  by (auto simp: builder_tree_def node_ok_def root_node_def)

section \<open>Updates\<close>

definition insert_child :: "child_map \<Rightarrow> int \<Rightarrow> bytes \<Rightarrow> int \<Rightarrow> child_map" where
  "insert_child ch p name i = ch(p := (ch p)(name \<mapsto> i))"

lemma insert_child_apply:
  "insert_child ch p name i q name' = (if q = p \<and> name' = name then Some i else ch q name')"
  by (simp add: insert_child_def)

lemma node_ok_fun_upd:
  assumes n: "node_ok m i n" and same: "\<And>x. m k = Some x \<Longrightarrow> mn_kind n' = mn_kind x \<and>
    mn_original_path n' = mn_original_path x"
  shows "node_ok (m(k \<mapsto> n')) i n"
proof (cases "i = 1")
  case True
  with n show ?thesis using node_ok_root_cong by blast
next
  case False
  with n obtain p pn s where p: "mn_id n = i" "fields_ok n" "mn_parent_id n = Some p" "p < i"
    "m p = Some pn" "mn_kind pn = DIRECTORY" "mounts_as s (mn_mounted_name n)"
    "mn_original_path n = Some (path_below p pn s)"
    by (rule node_ok_nonrootE)
  define pn' where "pn' = (if p = k then n' else pn)"
  have "(m(k \<mapsto> n')) p = Some pn'" "mn_kind pn' = DIRECTORY" "path_below p pn' s = path_below p pn s"
    using p same [of pn] by (auto simp: pn'_def path_below_def)
  with p False show ?thesis
    by (intro node_ok_nonrootI [where p = p and pn = pn' and s = s]) simp_all
qed

lemma builder_tree_insert:
  assumes bt: "builder_tree m ch k" and p: "m p = Some pn" "mn_kind pn = DIRECTORY"
    and free: "ch p name = None" and s: "mounts_as s name"
    and n: "n = new_mutable_node k (Some p) name (Some (path_below p pn s)) kind"
  shows "builder_tree (m(k \<mapsto> n)) (insert_child ch p name k) (k + 1)"
proof -
  have k: "m k = None" using bt by (rule builder_tree_fresh)
  have pk: "p < k" "p \<noteq> k" "2 \<le> k" using bt p(1) k builder_treeD(1,2) [OF bt] by auto
  have "node_ok (m(k \<mapsto> n)) i n'" if "(m(k \<mapsto> n)) i = Some n'" for i n'
  proof (cases "i = k")
    case True
    with that have n': "n' = n" by simp
    show ?thesis unfolding n' using True p s pk n
      by (intro node_ok_nonrootI [where p = p and pn = pn and s = s]) auto
  next
    case False
    with that have "node_ok m i n'" by (simp add: builder_treeD(3) [OF bt])
    with k show ?thesis by (auto intro: node_ok_fun_upd)
  qed
  moreover have "(insert_child ch p name k) q name' = Some i \<longleftrightarrow>
      (\<exists>n'. (m(k \<mapsto> n)) i = Some n' \<and> mn_parent_id n' = Some q \<and> mn_mounted_name n' = name')"
    for q name' i
    using free k n builder_treeD(4) [OF bt, of q name' i] builder_treeD(4) [OF bt, of p name]
    by (cases "i = k") (auto simp: insert_child_apply)
  moreover have "(m(k \<mapsto> n)) i \<noteq> None \<longleftrightarrow> 1 \<le> i \<and> i < k + 1" for i
    using builder_treeD(2) [OF bt, of i] pk by auto
  ultimately show ?thesis using pk by (simp add: builder_tree_def)
qed

text \<open>Nodes that agree on everything the tree structure depends on.\<close>

definition same_place :: "mutable_node \<Rightarrow> mutable_node \<Rightarrow> bool" where
  "same_place n n' \<longleftrightarrow> mn_id n' = mn_id n \<and> mn_parent_id n' = mn_parent_id n \<and>
     mn_mounted_name n' = mn_mounted_name n \<and> mn_kind n' = mn_kind n \<and>
     mn_original_path n' = mn_original_path n"

lemma same_place_refl [simp]: "same_place n n"
  by (simp add: same_place_def)

lemma builder_tree_update:
  assumes bt: "builder_tree m ch k" and n: "m i = Some n" "i \<noteq> 1"
    and n': "same_place n n'" "fields_ok n'"
  shows "builder_tree (m(i \<mapsto> n')) ch k"
proof -
  have ok: "node_ok (m(i \<mapsto> n')) j x" if "(m(i \<mapsto> n')) j = Some x" for j x
  proof -
    have "node_ok m j x"
    proof (cases "j = i")
      case True
      from builder_treeD(3) [OF bt n(1)] n(2) obtain p pn s where
        "mn_id n = i" "mn_parent_id n = Some p" "p < i" "m p = Some pn" "mn_kind pn = DIRECTORY"
        "mounts_as s (mn_mounted_name n)" "mn_original_path n = Some (path_below p pn s)"
        by (rule node_ok_nonrootE)
      with True that n n' show ?thesis
        by (intro node_ok_nonrootI [where p = p and pn = pn and s = s]) (auto simp: same_place_def)
    next
      case False
      with that show ?thesis using builder_treeD(3) [OF bt] by auto
    qed
    then show ?thesis using n n'(1) by (auto intro!: node_ok_fun_upd simp: same_place_def)
  qed
  have "(\<exists>x. (m(i \<mapsto> n')) j = Some x \<and> mn_parent_id x = Some p \<and> mn_mounted_name x = name) \<longleftrightarrow>
      (\<exists>x. m j = Some x \<and> mn_parent_id x = Some p \<and> mn_mounted_name x = name)" for j p name
    using n n' by (auto simp: same_place_def)
  then have "ch p name = Some j \<longleftrightarrow>
      (\<exists>x. (m(i \<mapsto> n')) j = Some x \<and> mn_parent_id x = Some p \<and> mn_mounted_name x = name)" for j p name
    using builder_treeD(4) [OF bt] by simp
  moreover have "(m(i \<mapsto> n')) j \<noteq> None \<longleftrightarrow> 1 \<le> j \<and> j < k" for j
    using builder_treeD(2) [OF bt, of j] builder_treeD(2) [OF bt, of i] n by auto
  ultimately show ?thesis using ok builder_treeD(1) [OF bt] unfolding builder_tree_def by blast
qed

section \<open>Resolving paths\<close>

fun walk :: "child_map \<Rightarrow> int \<Rightarrow> bytes list \<Rightarrow> int option" where
  "walk ch p [] = Some p"
| "walk ch p (name # names) =
     (case ch p name of None \<Rightarrow> None | Some i \<Rightarrow> walk ch i names)"

lemma walk_append:
  "walk ch p (xs @ ys) = (case walk ch p xs of None \<Rightarrow> None | Some i \<Rightarrow> walk ch i ys)"
  by (induction xs arbitrary: p) (auto split: option.splits)

lemma walk_snoc:
  "walk ch p (xs @ [name]) = (case walk ch p xs of None \<Rightarrow> None | Some i \<Rightarrow> ch i name)"
  by (simp add: walk_append split: option.split)

lemma walk_in_tree: "builder_tree m ch k \<Longrightarrow> walk ch 1 path = Some i \<Longrightarrow> m i \<noteq> None"
proof (induction path arbitrary: i rule: rev_induct)
  case Nil
  then show ?case by (auto elim: builder_tree_root)
next
  case (snoc name path)
  then show ?case by (auto simp: walk_snoc split: option.splits elim: child_parent)
qed

text \<open>Distinct paths lead to distinct nodes.\<close>

lemma walk_inj:
  assumes bt: "builder_tree m ch k"
  shows "walk ch 1 xs = Some i \<Longrightarrow> walk ch 1 ys = Some i \<Longrightarrow> xs = ys"
proof (induction xs arbitrary: i ys rule: rev_induct)
  case Nil
  then show ?case
    by (cases ys rule: rev_cases) (auto simp: walk_snoc split: option.splits elim: child_parent [OF bt])
next
  case (snoc x xs)
  from snoc.prems(1) obtain p where p: "walk ch 1 xs = Some p" "ch p x = Some i"
    by (auto simp: walk_snoc split: option.splits)
  from bt p(2) obtain n where n: "m i = Some n" "mn_parent_id n = Some p" "mn_mounted_name n = x" "i \<noteq> 1"
    by (rule child_parent)
  show ?case
  proof (cases ys rule: rev_cases)
    case Nil
    with snoc.prems(2) n(4) show ?thesis by simp
  next
    case (snoc zs z)
    with snoc.prems obtain q where q: "walk ch 1 zs = Some q" "ch q z = Some i"
      by (auto simp: walk_snoc split: option.splits)
    with n have "q = p" "z = x" by (auto simp: builder_treeD(4) [OF bt])
    with q p snoc.IH snoc show ?thesis by blast
  qed
qed

lemma walk_insert:
  assumes bt: "builder_tree m ch k" and P: "walk ch 1 P = Some p" and free: "ch p name = None"
  shows "walk (insert_child ch p name k) 1 Q = (if Q = P @ [name] then Some k else walk ch 1 Q)"
proof (induction Q rule: rev_induct)
  case Nil
  then show ?case by simp
next
  case (snoc x Q)
  have nk: "ch k y = None" for y
    using builder_treeD(4) [OF bt] builder_treeD(3) [OF bt] builder_tree_fresh [OF bt]
    by (metis child_parent [OF bt] not_None_eq)
  have pk: "p \<noteq> k" using walk_in_tree [OF bt P] builder_tree_fresh [OF bt] by auto
  show ?case
  proof (cases "Q = P @ [name]")
    case True
    then have "walk ch 1 Q = None" using P free by (simp add: walk_snoc)
    then have "walk ch 1 (Q @ [x]) = None" by (simp add: walk_snoc)
    moreover have "walk (insert_child ch p name k) 1 (Q @ [x]) = insert_child ch p name k k x"
      using True snoc by (subst walk_snoc) simp
    moreover have "insert_child ch p name k k x = None" using nk pk by (subst insert_child_apply) simp
    ultimately show ?thesis using True by simp
  next
    case False
    with snoc have Q: "walk (insert_child ch p name k) 1 Q = walk ch 1 Q" by simp
    show ?thesis
    proof (cases "walk ch 1 Q")
      case None
      with Q P show ?thesis by (auto simp: walk_snoc)
    next
      case (Some q)
      then have "q = p \<longleftrightarrow> Q = P" using P walk_inj [OF bt] by auto
      moreover have "insert_child ch p name k q x = (if q = p \<and> x = name then Some k else ch q x)"
        by (rule insert_child_apply)
      ultimately show ?thesis using Some Q by (auto simp: walk_snoc)
    qed
  qed
qed

section \<open>Trees indexed by paths: the specification of adding an entry\<close>

text \<open>
  The specification forgets inodes: a tree maps the list of mounted names of a node to
  its node with inode and parent blanked out.
\<close>

type_synonym path_tree = "bytes list \<Rightarrow> mutable_node option"

definition blank :: "mutable_node \<Rightarrow> mutable_node" where
  "blank n = n\<lparr>mn_id := 0, mn_parent_id := None\<rparr>"

lemma blank_sel [simp]:
  "mn_mounted_name (blank n) = mn_mounted_name n"
  "mn_original_path (blank n) = mn_original_path n"
  "mn_kind (blank n) = mn_kind n"
  "mn_size (blank n) = mn_size n"
  "mn_modified_at (blank n) = mn_modified_at n"
  "mn_content (blank n) = mn_content n"
  "mn_source_line (blank n) = mn_source_line n"
  "mn_observation (blank n) = mn_observation n"
  "mn_source_metadata (blank n) = mn_source_metadata n"
  by (simp_all add: blank_def)

definition view :: "nodes \<Rightarrow> child_map \<Rightarrow> path_tree" where
  "view m ch path = (case walk ch 1 path of None \<Rightarrow> None | Some i \<Rightarrow> map_option blank (m i))"

fun spec_add_loop ::
  "(mutable_node \<Rightarrow> mutable_node) \<Rightarrow> tzdb \<Rightarrow> parsed_entry \<Rightarrow> bytes list \<Rightarrow> bytes list \<Rightarrow> path_tree \<Rightarrow>
    diagnostic + path_tree" where
  "spec_add_loop norm db e upper [] t = Inr t"
| "spec_add_loop norm db e upper (name # rest) t =
     (let here = upper @ [name];
          kind = (if rest = [] then entry_kind e else DIRECTORY);
          n = (case t here of
                 Some n \<Rightarrow> n
               | None \<Rightarrow> new_mutable_node 0 None name
                   (Some (join [slash] (take (length here) (entry_path e)))) kind)
      in if mn_kind n \<noteq> kind then Inl (conflict n e ''file/directory type conflict'')
         else if rest = [] then map_ok (\<lambda>n'. t(here \<mapsto> norm n')) (merge db n e)
         else spec_add_loop norm db e here rest (t(here \<mapsto> n)))"

text \<open>\<open>norm\<close> is what storing makes of a merged node: nothing in memory.\<close>

definition spec_add_by ::
  "(mutable_node \<Rightarrow> mutable_node) \<Rightarrow> tzdb \<Rightarrow> parsed_entry \<Rightarrow> path_tree \<Rightarrow> diagnostic + path_tree" where
  "spec_add_by norm db e t =
     (case components e of Inl d \<Rightarrow> Inl d | Inr names \<Rightarrow> spec_add_loop norm db e [] names t)"

definition spec_add :: "tzdb \<Rightarrow> parsed_entry \<Rightarrow> path_tree \<Rightarrow> diagnostic + path_tree" where
  "spec_add db e t =
     (case components e of Inl d \<Rightarrow> Inl d | Inr names \<Rightarrow> spec_add_loop (\<lambda>n. n) db e [] names t)"

text \<open>The merge rules do not look at inodes.\<close>

lemma conflict_blank [simp]: "conflict (blank n) e r = conflict n e r"
  by (simp add: conflict_def split: option.split)

lemma apply_entry_blank: "apply_entry (blank n) e = blank (apply_entry n e)"
  by (simp add: apply_entry_def blank_def)

lemma merge_blank: "merge db (blank n) e = map_ok blank (merge db n e)"
  by (simp add: merge_def apply_entry_blank)

lemma view_insert:
  assumes bt: "builder_tree m ch k" and P: "walk ch 1 P = Some p" and free: "ch p name = None"
  shows "view (m(k \<mapsto> n)) (insert_child ch p name k) = (view m ch)(P @ [name] \<mapsto> blank n)"
proof
  fix Q
  have "walk ch 1 Q \<noteq> Some k" using walk_in_tree [OF bt] builder_tree_fresh [OF bt] by blast
  then show "view (m(k \<mapsto> n)) (insert_child ch p name k) Q = ((view m ch)(P @ [name] \<mapsto> blank n)) Q"
    unfolding view_def walk_insert [OF assms] by (auto split: option.split)
qed

lemma view_update:
  assumes bt: "builder_tree m ch k" and P: "walk ch 1 P = Some i"
  shows "view (m(i \<mapsto> n)) ch = (view m ch)(P \<mapsto> blank n)"
proof
  fix Q
  have "walk ch 1 Q = Some i \<longleftrightarrow> Q = P" using P walk_inj [OF bt] by blast
  then show "view (m(i \<mapsto> n)) ch Q = ((view m ch)(P \<mapsto> blank n)) Q"
    using P by (cases "walk ch 1 Q") (auto simp: view_def)
qed

lemma view_child:
  assumes bt: "builder_tree m ch k" and P: "walk ch 1 P = Some p"
  shows "view m ch (P @ [name]) = (case ch p name of None \<Rightarrow> None | Some i \<Rightarrow> map_option blank (m i))"
  using P by (simp add: view_def walk_snoc)

text \<open>The relative path of a node is its mounted path, decoded and joined by slashes.\<close>

lemma walk_original_path:
  assumes bt: "builder_tree m ch k"
  shows "walk ch 1 P = Some i \<Longrightarrow> P \<noteq> [] \<Longrightarrow> m i = Some n \<Longrightarrow>
    i \<noteq> 1 \<and> (\<exists>cs. list_all2 mounts_as cs P \<and> mn_original_path n = Some (join [slash] cs))"
proof (induction P arbitrary: i n rule: rev_induct)
  case Nil
  then show ?case by simp
next
  case (snoc x P)
  from snoc.prems(1) obtain p where p: "walk ch 1 P = Some p" "ch p x = Some i"
    by (auto simp: walk_snoc split: option.splits)
  from bt p(2) obtain n' pn where n': "m i = Some n'" "mn_parent_id n' = Some p"
    "mn_mounted_name n' = x" "i \<noteq> 1" "m p = Some pn"
    by (rule child_parent)
  with snoc.prems(3) builder_treeD(3) [OF bt] have "node_ok m i n" and n: "n' = n" by auto
  then obtain s where s: "mounts_as s x" "mn_original_path n = Some (path_below p pn s)"
    using n' by (elim node_ok_nonrootE) auto
  show ?case
  proof (cases "P = []")
    case True
    with p have "p = 1" by simp
    with s n' True show ?thesis by (auto simp: path_below_def intro!: exI [of _ "[s]"])
  next
    case False
    with snoc.IH [OF p(1) False n'(5)] obtain cs where
      cs: "p \<noteq> 1" "list_all2 mounts_as cs P" "mn_original_path pn = Some (join [slash] cs)" by auto
    then have "cs \<noteq> []" using False by auto
    with cs s have "list_all2 mounts_as (cs @ [s]) (P @ [x])"
      "mn_original_path n = Some (join [slash] (cs @ [s]))"
      by (simp_all add: list_all2_appendI path_below_def join_snoc)
    with n' show ?thesis by blast
  qed
qed

section \<open>Adding an entry, with inodes\<close>

text \<open>
  The loop of both builders over the abstract maps. \<open>norm\<close> is what storing a node does to
  it: nothing in memory, a round trip through the column formats in SQLite.
\<close>

type_synonym tree_state = "nodes \<times> child_map \<times> int"

fun tree_add_loop ::
  "(mutable_node \<Rightarrow> mutable_node) \<Rightarrow> tzdb \<Rightarrow> parsed_entry \<Rightarrow> nat \<Rightarrow> bytes list \<Rightarrow> int \<Rightarrow> tree_state \<Rightarrow>
    diagnostic option \<times> tree_state" where
  "tree_add_loop norm db e index [] p st = (None, st)"
| "tree_add_loop norm db e index (name # rest) p (m, ch, k) =
     (let kind = (if rest = [] then entry_kind e else DIRECTORY);
          continue = (\<lambda>n (m, ch, k).
            if rest = [] then
              (case merge db n e of
                 Inl d \<Rightarrow> (Some d, (m, ch, k))
               | Inr n' \<Rightarrow> (None, (m(mn_id n \<mapsto> norm n'), ch, k)))
            else tree_add_loop norm db e (index + 1) rest (mn_id n) (m, ch, k))
      in case ch p name of
           None \<Rightarrow>
             (let n = new_mutable_node k (Some p) name
                        (Some (join [slash] (take (index + 1) (entry_path e)))) kind
              in continue n (m(k \<mapsto> n), insert_child ch p name k, k + 1))
         | Some i \<Rightarrow>
             (case m i of
                None \<Rightarrow> (None, (m, ch, k))
              | Some n \<Rightarrow>
                  if mn_kind n \<noteq> kind
                  then (Some (conflict n e ''file/directory type conflict''), (m, ch, k))
                  else continue n (m, ch, k)))"

text \<open>What storing must keep.\<close>

definition stores :: "(mutable_node \<Rightarrow> mutable_node) \<Rightarrow> bool" where
  "stores norm \<longleftrightarrow> (\<forall>n. same_place n (norm n) \<and> (fields_ok n \<longrightarrow> fields_ok (norm n)))"

lemma stores_id [simp]: "stores (\<lambda>n. n)"
  by (simp add: stores_def)

text \<open>
  The position of the loop: the names walked so far lead to a directory, and the entry's
  path mounts as those names followed by the remaining ones.
\<close>

definition at_parent :: "tree_state \<Rightarrow> parsed_entry \<Rightarrow> bytes list \<Rightarrow> bytes list \<Rightarrow> int \<Rightarrow> bool" where
  "at_parent st e upper names p \<longleftrightarrow> (case st of (m, ch, k) \<Rightarrow>
     builder_tree m ch k \<and> walk ch 1 upper = Some p \<and>
     (\<exists>pn. m p = Some pn \<and> mn_kind pn = DIRECTORY) \<and>
     list_all2 mounts_as (entry_path e) (upper @ names))"

lemma at_parent_take:
  assumes "list_all2 mounts_as cs (upper @ name # rest)"
  shows "list_all2 mounts_as (take (length upper) cs) upper"
    and "mounts_as (cs ! length upper) name"
    and "take (length upper + 1) cs = take (length upper) cs @ [cs ! length upper]"
proof -
  from assms obtain as bs where ab: "cs = as @ bs" "length as = length upper"
    "list_all2 mounts_as as upper" "list_all2 mounts_as bs (name # rest)"
    by (auto simp: list_all2_append2)
  then obtain b bs' where "bs = b # bs'" "mounts_as b name" by (auto simp: list_all2_Cons2)
  with ab show "list_all2 mounts_as (take (length upper) cs) upper"
    "mounts_as (cs ! length upper) name"
    "take (length upper + 1) cs = take (length upper) cs @ [cs ! length upper]"
    by (simp_all add: nth_append)
qed

lemma at_parent_path:
  assumes ap: "at_parent (m, ch, k) e upper (name # rest) p"
  obtains pn s where "m p = Some pn" "mn_kind pn = DIRECTORY" "mounts_as s name"
    "join [slash] (take (length upper + 1) (entry_path e)) = path_below p pn s"
proof -
  let ?cs = "entry_path e" and ?s = "entry_path e ! length upper"
  from ap obtain pn where bt: "builder_tree m ch k" "walk ch 1 upper = Some p" "m p = Some pn"
    "mn_kind pn = DIRECTORY" and l: "list_all2 mounts_as ?cs (upper @ name # rest)"
    by (auto simp: at_parent_def)
  note tk = at_parent_take [OF l]
  have "join [slash] (take (length upper + 1) ?cs) = path_below p pn ?s"
  proof (cases "upper = []")
    case True
    with bt tk(3) show ?thesis by (simp add: path_below_def)
  next
    case False
    with walk_original_path [OF bt(1,2) False bt(3)] obtain ds where
      ds: "p \<noteq> 1" "list_all2 mounts_as ds upper" "mn_original_path pn = Some (join [slash] ds)" by auto
    then have "ds = take (length upper) ?cs" using tk(1) mounts_as_all_inj by blast
    moreover have "take (length upper) ?cs \<noteq> []" using tk(1) False by auto
    ultimately show ?thesis using ds tk(3) by (simp add: path_below_def join_snoc)
  qed
  with bt tk(2) that show thesis by blast
qed

end
