(* ===== verification/Tree_Refinement.thy ===== *)
theory Tree_Refinement
  imports Node_Tree
begin

text \<open>
  Adding an entry keeps the tree invariant and refines the path-indexed specification:
  the loop over inodes fails exactly when the specification does, with the same
  diagnostic, and otherwise its tree is the specified one.
\<close>

section \<open>The last component\<close>

lemma merge_in_place:
  assumes bt: "builder_tree m ch k" and P: "walk ch 1 P = Some i" "P \<noteq> []" and n: "m i = Some n"
    and e: "list_all2 mounts_as (entry_path e) P" "entry_ok e" "mn_kind n = entry_kind e"
    and mg: "merge db n e = Inr n'" and norm: "stores norm"
  shows "builder_tree (m(i \<mapsto> norm n')) ch k" and "mn_id n = i"
proof -
  obtain cs where i: "i \<noteq> 1" and cs: "list_all2 mounts_as cs P" "mn_original_path n = Some (join [slash] cs)"
    using walk_original_path [OF bt P n] by auto
  have ok: "node_ok m i n" using bt n by (rule builder_treeD(3))
  then show "mn_id n = i" by (simp add: node_ok_def)
  have "cs = entry_path e" using cs(1) e(1) by (rule mounts_as_all_inj)
  with mg cs(2) have "mn_original_path n' = mn_original_path n"
    by (auto elim: merge_cases)
  with merge_identity [OF mg] have "same_place n n'" by (simp add: same_place_def)
  moreover have "fields_ok n'"
    using fields_ok_merge [OF mg _ e(2,3)] ok by (simp add: node_ok_def)
  ultimately have "same_place n (norm n')" "fields_ok (norm n')"
    using norm by (auto simp: stores_def same_place_def)
  with bt n i show "builder_tree (m(i \<mapsto> norm n')) ch k" by (rule builder_tree_update)
qed

section \<open>One component\<close>

text \<open>Entering a component that exists.\<close>

lemma at_parent_enter:
  assumes ap: "at_parent (m, ch, k) e upper (name # rest) p" and c: "ch p name = Some i"
    and n: "m i = Some n" "mn_kind n = DIRECTORY"
  shows "at_parent (m, ch, k) e (upper @ [name]) rest i"
  using assms by (auto simp: at_parent_def walk_snoc)

text \<open>Creating a component that does not.\<close>

lemma at_parent_create:
  assumes ap: "at_parent (m, ch, k) e upper (name # rest) p" and c: "ch p name = None"
    and n: "n = new_mutable_node k (Some p) name
              (Some (join [slash] (take (length upper + 1) (entry_path e)))) kind"
  shows "builder_tree (m(k \<mapsto> n)) (insert_child ch p name k) (k + 1)"
    and "walk (insert_child ch p name k) 1 (upper @ [name]) = Some k"
    and "view (m(k \<mapsto> n)) (insert_child ch p name k) = (view m ch)(upper @ [name] \<mapsto> blank n)"
    and "kind = DIRECTORY \<Longrightarrow> at_parent (m(k \<mapsto> n), insert_child ch p name k, k + 1) e (upper @ [name]) rest k"
proof -
  from ap obtain pn s where s: "m p = Some pn" "mn_kind pn = DIRECTORY" "mounts_as s name"
    "join [slash] (take (length upper + 1) (entry_path e)) = path_below p pn s"
    by (rule at_parent_path)
  from ap have bt: "builder_tree m ch k" and w: "walk ch 1 upper = Some p"
    by (simp_all add: at_parent_def)
  show bt': "builder_tree (m(k \<mapsto> n)) (insert_child ch p name k) (k + 1)"
    using builder_tree_insert [OF bt s(1,2) c s(3)] n s(4) by simp
  show w': "walk (insert_child ch p name k) 1 (upper @ [name]) = Some k"
    by (simp add: walk_insert [OF bt w c])
  show "view (m(k \<mapsto> n)) (insert_child ch p name k) = (view m ch)(upper @ [name] \<mapsto> blank n)"
    by (rule view_insert [OF bt w c])
  show "at_parent (m(k \<mapsto> n), insert_child ch p name k, k + 1) e (upper @ [name]) rest k"
    if "kind = DIRECTORY"
    using that bt' w' n ap by (simp add: at_parent_def)
qed

section \<open>The loop\<close>

definition tree_inv :: "tree_state \<Rightarrow> bool" where
  "tree_inv st \<longleftrightarrow> (case st of (m, ch, k) \<Rightarrow> builder_tree m ch k)"

lemma tree_inv_simp [simp]: "tree_inv (m, ch, k) = builder_tree m ch k"
  by (simp add: tree_inv_def)

lemma at_parent_inv: "at_parent st e upper names p \<Longrightarrow> tree_inv st"
  by (auto simp: at_parent_def tree_inv_def)

theorem tree_add_loop_inv:
  assumes "stores norm" "entry_ok e"
  shows "at_parent st e upper names p \<Longrightarrow>
    tree_inv (snd (tree_add_loop norm db e (length upper) names p st))"
proof (induction names arbitrary: upper p st)
  case Nil
  then show ?case by (simp add: at_parent_inv)
next
  case (Cons name rest)
  obtain m ch k where st: "st = (m, ch, k)" by (cases st)
  note ap = Cons.prems [unfolded st]
  have bt: "builder_tree m ch k" and w: "walk ch 1 upper = Some p"
    and path: "list_all2 mounts_as (entry_path e) (upper @ name # rest)"
    using ap by (simp_all add: at_parent_def)
  define kind where "kind = (if rest = [] then entry_kind e else DIRECTORY)"
  show ?case
  proof (cases "ch p name")
    case None
    define n where "n = new_mutable_node k (Some p) name
      (Some (join [slash] (take (length upper + 1) (entry_path e)))) kind"
    note cr = at_parent_create [OF ap None n_def]
    show ?thesis
    proof (cases "rest = []")
      case True
      have "builder_tree ((m(k \<mapsto> n))(k \<mapsto> norm n')) (insert_child ch p name k) (k + 1)"
        if "merge db n e = Inr n'" for n'
        by (rule merge_in_place(1) [OF cr(1,2) _ _ _ assms(2) _ that assms(1)])
          (use path True in \<open>simp_all add: n_def kind_def\<close>)
      then show ?thesis
        using True None cr(1) by (auto simp: st Let_def n_def kind_def split: sum.split)
    next
      case False
      with Cons.IH [OF cr(4)] None show ?thesis
        by (simp add: st Let_def n_def kind_def)
    qed
  next
    case (Some i)
    with bt obtain n where n: "m i = Some n" by (rule child_parent)
    have w': "walk ch 1 (upper @ [name]) = Some i" using w Some by (simp add: walk_snoc)
    have id: "mn_id n = i" using builder_treeD(3) [OF bt n] by (simp add: node_ok_def)
    show ?thesis
    proof (cases "mn_kind n = kind")
      case False
      with bt n Some show ?thesis by (auto simp: st Let_def kind_def)
    next
      case True
      show ?thesis
      proof (cases "rest = []")
        case rest: True
        have "builder_tree (m(i \<mapsto> norm n')) ch k" if "merge db n e = Inr n'" for n'
          using merge_in_place(1) [OF bt w' _ n _ assms(2) _ that assms(1)] path rest True
          by (simp add: kind_def)
        then show ?thesis using rest Some n True bt id
          by (auto simp: st Let_def kind_def split: sum.split)
      next
        case rest: False
        with True at_parent_enter [OF ap Some n] have "at_parent (m, ch, k) e (upper @ [name]) rest i"
          by (simp add: kind_def)
        from Cons.IH [OF this] rest Some n True id show ?thesis
          by (simp add: st Let_def kind_def)
      qed
    qed
  qed
qed

text \<open>The result of the loop against the specification's.\<close>

definition agrees :: "diagnostic option \<times> tree_state \<Rightarrow> diagnostic + path_tree \<Rightarrow> bool" where
  "agrees r spec \<longleftrightarrow> (case r of (err, (m, ch, k)) \<Rightarrow>
     (case spec of Inl d \<Rightarrow> err = Some d | Inr t \<Rightarrow> err = None \<and> view m ch = t))"

lemma agrees_simps [simp]:
  "agrees (err, (m, ch, k)) (Inl d) \<longleftrightarrow> err = Some d"
  "agrees (err, (m, ch, k)) (Inr t) \<longleftrightarrow> err = None \<and> view m ch = t"
  by (simp_all add: agrees_def)

lemma agrees_error [simp]: "agrees (Some d, st) (Inl d)"
  by (cases st) simp

theorem tree_add_loop_refines:
  assumes norm: "\<And>n. blank (norm n) = norm (blank n)"
  shows "at_parent (m, ch, k) e upper names p \<Longrightarrow>
    agrees (tree_add_loop norm db e (length upper) names p (m, ch, k))
      (spec_add_loop norm db e upper names (view m ch))"
proof (induction names arbitrary: upper p m ch k)
  case Nil
  then show ?case by simp
next
  case (Cons name rest)
  note ap = Cons.prems
  have bt: "builder_tree m ch k" and w: "walk ch 1 upper = Some p"
    using ap by (simp_all add: at_parent_def)
  define kind where "kind = (if rest = [] then entry_kind e else DIRECTORY)"
  note vc = view_child [OF bt w, of name]
  show ?case
  proof (cases "ch p name")
    case None
    define n where "n = new_mutable_node k (Some p) name
      (Some (join [slash] (take (length upper + 1) (entry_path e)))) kind"
    note cr = at_parent_create [OF ap None n_def]
    have b: "blank n = new_mutable_node 0 None name
        (Some (join [slash] (take (length (upper @ [name])) (entry_path e)))) kind"
      by (simp add: n_def blank_def new_mutable_node_def)
    show ?thesis
    proof (cases "rest = []")
      case True
      have "view ((m(k \<mapsto> n))(k \<mapsto> norm n')) (insert_child ch p name k) =
          (view m ch)(upper @ [name] \<mapsto> norm (blank n'))" for n'
        using view_update [OF cr(1,2), of "norm n'"] cr(3) by (simp add: norm)
      moreover have "merge db (blank n) e = map_ok blank (merge db n e)" by (rule merge_blank)
      moreover have "blank n = new_mutable_node 0 None name
          (Some (join [slash] (take (Suc (length upper)) (entry_path e)))) (entry_kind e)"
        using b True by (simp add: kind_def)
      moreover have "n = new_mutable_node k (Some p) name
          (Some (join [slash] (take (Suc (length upper)) (entry_path e)))) (entry_kind e)"
        using True by (simp add: n_def kind_def)
      ultimately show ?thesis
        using True None vc
        by (cases "merge db n e") (simp_all add: Let_def cong: if_cong)
    next
      case False
      then have k: "kind = DIRECTORY" by (simp add: kind_def)
      have IH: "agrees (tree_add_loop norm db e (length (upper @ [name])) rest k
          (m(k \<mapsto> n), insert_child ch p name k, k + 1))
        (spec_add_loop norm db e (upper @ [name]) rest ((view m ch)(upper @ [name] \<mapsto> blank n)))"
        unfolding cr(3) [symmetric] by (rule Cons.IH [OF cr(4) [OF k]])
      show ?thesis using IH [unfolded b] False None vc
        by (simp add: Let_def k n_def del: fun_upd_apply)
    qed
  next
    case (Some i)
    with bt obtain n where n: "m i = Some n" by (rule child_parent)
    have w': "walk ch 1 (upper @ [name]) = Some i" using w Some by (simp add: walk_snoc)
    have id: "mn_id n = i" using builder_treeD(3) [OF bt n] by (simp add: node_ok_def)
    have v: "view m ch (upper @ [name]) = Some (blank n)" using vc Some n by simp
    show ?thesis
    proof (cases "mn_kind n = kind")
      case False
      with n Some v show ?thesis by (auto simp: Let_def kind_def)
    next
      case True
      show ?thesis
      proof (cases "rest = []")
        case rest: True
        then show ?thesis using Some n True id v view_update [OF bt w']
          by (cases "merge db n e") (auto simp: Let_def kind_def merge_blank norm)
      next
        case rest: False
        with True at_parent_enter [OF ap Some n] have "at_parent (m, ch, k) e (upper @ [name]) rest i"
          by (simp add: kind_def)
        from Cons.IH [OF this] rest Some n True id v show ?thesis
          by (simp add: Let_def kind_def map_upd_triv)
      qed
    qed
  qed
qed

text \<open>The start of the loop.\<close>

lemma at_parent_start:
  assumes "builder_tree m ch k" "components e = Inr names"
  shows "at_parent (m, ch, k) e [] names 1"
proof -
  from assms(1) obtain r where "m 1 = Some r" "mn_kind r = DIRECTORY" by (rule builder_tree_root)
  with assms show ?thesis by (simp add: at_parent_def components_iff)
qed

corollary tree_add_inv:
  assumes "stores norm" "entry_ok e" "builder_tree m ch k" "components e = Inr names"
  shows "tree_inv (snd (tree_add_loop norm db e 0 names 1 (m, ch, k)))"
  using tree_add_loop_inv [OF assms(1,2) at_parent_start [OF assms(3,4)]] by simp

corollary tree_add_refines_by:
  assumes norm: "\<And>n. blank (norm n) = norm (blank n)"
    and "builder_tree m ch k" "components e = Inr names"
  shows "agrees (tree_add_loop norm db e 0 names 1 (m, ch, k)) (spec_add_by norm db e (view m ch))"
  using tree_add_loop_refines [where norm = norm and db = db, OF norm at_parent_start [OF assms(2,3)]] assms(3)
  by (simp add: spec_add_by_def)

lemma spec_add_by_id: "spec_add_by (\<lambda>n. n) = spec_add"
  by (simp add: spec_add_by_def spec_add_def fun_eq_iff)

corollary tree_add_refines:
  assumes "builder_tree m ch k" "components e = Inr names"
  shows "agrees (tree_add_loop (\<lambda>n. n) db e 0 names 1 (m, ch, k)) (spec_add db e (view m ch))"
  using tree_add_refines_by [where norm = "\<lambda>n. n", OF refl assms] by (simp add: spec_add_by_id)

end
