(* ===== verification/Finished_Tree.thy ===== *)
theory Finished_Tree
  imports Tree_Refinement Store_Interface
begin

text \<open>
  What a builder's tree becomes when it is finished: the arguments of the \<open>Node\<close> constructor, the
  tree of validated nodes, and, for any store that meets the contract and holds those nodes, the
  view by paths.
\<close>

text \<open>The arguments of the \<open>Node\<close> constructor call.\<close>

definition node_of :: "pystr \<Rightarrow> mutable_node \<Rightarrow> node" where
  "node_of sid n =
     (let (content, status) = content_values n
      in \<lparr>node_id = mn_id n, node_snapshot_id = sid, node_parent_id = mn_parent_id n,
          node_mounted_name = mn_mounted_name n, node_original_path = mn_original_path n,
          node_kind = mn_kind n, node_size = mn_size n, node_modified_at = mn_modified_at n,
          node_content = content, node_content_status = status, node_content_ref = None,
          node_source_line = mn_source_line n, node_source_metadata = mn_source_metadata n\<rparr>)"

section \<open>The finished nodes\<close>

lemma node_of_sel [simp]:
  "node_id (node_of sid n) = mn_id n"
  "node_snapshot_id (node_of sid n) = sid"
  "node_parent_id (node_of sid n) = mn_parent_id n"
  "node_mounted_name (node_of sid n) = mn_mounted_name n"
  "node_original_path (node_of sid n) = mn_original_path n"
  "node_kind (node_of sid n) = mn_kind n"
  "node_size (node_of sid n) = mn_size n"
  "node_modified_at (node_of sid n) = mn_modified_at n"
  "node_content (node_of sid n) = fst (content_values n)"
  "node_content_status (node_of sid n) = snd (content_values n)"
  "node_content_ref (node_of sid n) = None"
  "node_source_line (node_of sid n) = mn_source_line n"
  "node_source_metadata (node_of sid n) = mn_source_metadata n"
  by (simp_all add: node_of_def split: prod.split)

lemma node_of_content_ok: "fields_ok n \<Longrightarrow> node_content_ok (node_of sid n)"
  using content_values_ok [of n "fst (content_values n)" "snd (content_values n)"] by simp

lemma make_node_of: "fields_ok n \<Longrightarrow> make_node (node_of sid n) = Inr (node_of sid n)"
proof -
  assume n: "fields_ok n"
  then have fz: "freeze_metadata (node_source_metadata (node_of sid n)) = Inr (node_source_metadata (node_of sid n))"
    by (simp add: fields_ok_def)
  then obtain n' where "make_node (node_of sid n) = Inr n'"
    using make_node_iff [of "node_of sid n"] node_of_content_ok [OF n] by blast
  with make_node_fields [OF this] fz show ?thesis by auto
qed

text \<open>The tree of validated nodes that a builder's tree finishes into.\<close>

lemma tree_ok_finished:
  assumes bt: "builder_tree m ch k"
  shows "tree_ok (\<lambda>i. map_option (node_of sid) (m i))"
  unfolding tree_ok_def
proof (intro conjI allI impI)
  show "\<exists>r. map_option (node_of sid) (m 1) = Some r \<and> node_kind r = DIRECTORY \<and>
      node_parent_id r = None \<and> node_mounted_name r = []"
  proof -
    obtain r where r: "m 1 = Some r" by (rule builder_tree_root [OF bt])
    with builder_treeD(3) [OF bt r] show ?thesis by (simp add: node_ok_def)
  qed
next
  fix i n assume "map_option (node_of sid) (m i) = Some n"
  then obtain x where x: "m i = Some x" "n = node_of sid x" by auto
  then have ok: "node_ok m i x" by (simp add: builder_treeD(3) [OF bt])
  then show "node_id n = i" using x by (simp add: node_ok_def)
  show "1 \<le> i" using x builder_treeD(2) [OF bt, of i] by simp
  show "node_content_ok n" using ok x node_of_content_ok by (simp add: node_ok_def)
  assume "i \<noteq> 1"
  with ok obtain p pn s where "mn_parent_id x = Some p" "p < i" "m p = Some pn" "mn_kind pn = DIRECTORY"
    "mounts_as s (mn_mounted_name x)" by (rule node_ok_nonrootE)
  with x show "mounted_name_ok (node_mounted_name n)" "\<exists>p pn. node_parent_id n = Some p \<and>
      map_option (node_of sid) (m p) = Some pn \<and> node_kind pn = DIRECTORY"
    by (auto simp: mounted_name_ok_def)
next
  have "nat p < nat i" if m: "map_option (node_of sid) (m i) = Some n" and p: "node_parent_id n = Some p" for i n p
  proof -
    obtain x where x: "m i = Some x" "n = node_of sid x" using m by auto
    have "i \<noteq> 1" using x p builder_treeD(3) [OF bt, of 1] by (auto simp: node_ok_def)
    moreover have "node_ok m i x" "1 \<le> i" using x builder_treeD(2,3) [OF bt] by auto
    ultimately show ?thesis using x p by (auto elim!: node_ok_nonrootE)
  qed
  then show "\<exists>rank :: int \<Rightarrow> nat. \<forall>i n p. map_option (node_of sid) (m i) = Some n \<longrightarrow>
      node_parent_id n = Some p \<longrightarrow> rank p < rank i" by (intro exI [of _ nat]) blast
next
  fix i j n n'
  assume "map_option (node_of sid) (m i) = Some n" "map_option (node_of sid) (m j) = Some n'"
    and eq: "node_parent_id n = node_parent_id n'" "node_mounted_name n = node_mounted_name n'"
  then obtain x y where x: "m i = Some x" "n = node_of sid x" and y: "m j = Some y" "n' = node_of sid y"
    by auto
  show "i = j"
  proof (cases "mn_parent_id x")
    case None
    have "mn_parent_id y = None" using None eq x y by simp
    with None show ?thesis
      using node_ok_no_parent builder_treeD(3) [OF bt x(1)] builder_treeD(3) [OF bt y(1)] by metis
  next
    case (Some p)
    with x y eq have "ch p (mn_mounted_name x) = Some i" "ch p (mn_mounted_name x) = Some j"
      by (auto simp: builder_treeD(4) [OF bt])
    then show ?thesis by simp
  qed
qed

section \<open>The view of a finished store\<close>

text \<open>
  At every path a finished store shows the node that the builder's tree holds there, with its
  content status filled in.
\<close>

definition node_view :: "pystr \<Rightarrow> path_tree \<Rightarrow> bytes list \<Rightarrow> node option" where
  "node_view sid t path = map_option (node_of sid) (t path)"

lemma blank_node_of: "blank_node (node_of sid n) = node_of sid (blank n)"
  by (simp add: blank_node_def node_of_def blank_def content_values_def Let_def split: prod.split)

context snapshot_store begin

lemma finished_lookup:
  assumes s: "invar s" and nodes: "\<And>i. nodes_of s i = map_option (node_of sid) (m i)"
    and bt: "builder_tree m ch k" and p: "m p \<noteq> None"
  shows "lookup (obj s) p name = Inr (case ch p name of None \<Rightarrow> None | Some i \<Rightarrow> map_option (node_of sid) (m i))"
proof -
  have id: "mn_id x = i" if "m i = Some x" for i x
    using builder_treeD(3) [OF bt that] by (simp add: node_ok_def)
  have ch: "ch p name = Some i \<longleftrightarrow> (\<exists>n. m i = Some n \<and> mn_parent_id n = Some p \<and> mn_mounted_name n = name)" for i
    by (rule builder_treeD(4) [OF bt])
  have "nodes_of s p \<noteq> None" using p nodes by simp
  with lookup_law [OF s] obtain r where r: "lookup (obj s) p name = Inr r"
    "\<forall>n. r = Some n \<longleftrightarrow> nodes_of s (node_id n) = Some n \<and> node_parent_id n = Some p \<and>
       node_mounted_name n = name" by blast
  show ?thesis
  proof (cases "ch p name")
    case None
    have "r = None"
    proof (cases r)
      case (Some n)
      with r(2) have n: "nodes_of s (node_id n) = Some n" "node_parent_id n = Some p"
        "node_mounted_name n = name" by auto
      from n(1) have "map_option (node_of sid) (m (node_id n)) = Some n" by (simp only: nodes)
      then obtain z where z: "m (node_id n) = Some z" "n = node_of sid z"
        by (cases "m (node_id n)") (simp, blast)
      have "mn_parent_id z = Some p" "mn_mounted_name z = name"
        using n(2,3) unfolding z(2) by simp_all
      with z(1) ch [of "node_id n"] None show ?thesis by auto
    qed
    with r(1) None show ?thesis by simp
  next
    case (Some i)
    then obtain n where n: "m i = Some n" "mn_parent_id n = Some p" "mn_mounted_name n = name"
      using ch by blast
    with r(2) nodes [of i] id have "r = Some (node_of sid n)" by simp
    with r(1) Some n show ?thesis by simp
  qed
qed

lemma finished_resolve:
  assumes s: "invar s" and nodes: "\<And>i. nodes_of s i = map_option (node_of sid) (m i)"
    and bt: "builder_tree m ch k"
  shows "m p = Some n \<Longrightarrow> resolve (obj s) (node_of sid n) path =
      (case walk ch p path of None \<Rightarrow> None | Some i \<Rightarrow> map_option (node_of sid) (m i))"
proof (induction path arbitrary: p n)
  case Nil
  then show ?case by simp
next
  case (Cons name path)
  have id: "mn_id n = p" using builder_treeD(3) [OF bt Cons.prems] by (simp add: node_ok_def)
  have look: "lookup (obj s) p name = Inr (case ch p name of None \<Rightarrow> None
    | Some i \<Rightarrow> map_option (node_of sid) (m i))"
    using finished_lookup [OF s nodes bt] Cons.prems by simp
  show ?case
  proof (cases "ch p name")
    case None
    with look id show ?thesis by simp
  next
    case (Some i)
    then obtain c where c: "m i = Some c" by (rule child_parent [OF bt])
    with Some look id Cons.IH [OF c] show ?thesis by simp
  qed
qed

lemma finished_view:
  assumes s: "invar s" and nodes: "\<And>i. nodes_of s i = map_option (node_of sid) (m i)"
    and bt: "builder_tree m ch k" and root: "get_root (obj s) sid = get_node (obj s) 1"
  shows "store_view (obj s) sid = node_view sid (view m ch)"
proof
  fix path
  obtain r where r: "m 1 = Some r" by (rule builder_tree_root [OF bt])
  then have "get_node (obj s) 1 = Inr (node_of sid r)" using get_node_law [OF s] nodes by simp
  with root show "store_view (obj s) sid path = node_view sid (view m ch) path"
    using finished_resolve [OF s nodes bt r, of path]
    by (simp add: store_view_def node_view_def view_def blank_node_of option.map_comp
        comp_def split: option.splits)
qed

end

end
