(* ===== verification/Memory_Store.thy ===== *)
theory Memory_Store
  imports Finished_Tree
begin

text \<open>
  \<open>snapshotfs.store.memory\<close>: the builder with its dictionaries of nodes and children, and
  the store it finishes into. The builder refines the inode-level loop of \<open>Node\_Tree\<close>; the
  finished store is shown to meet the \<open>snapshot\_store\<close> contract.
\<close>

section \<open>store/memory/builder.py\<close>

record mem_builder =
  mb_snapshot :: snapshot
  mb_nodes :: "(int, mutable_node) dict"
  mb_children :: "(int, (bytes, int) dict) dict"
  mb_next_id :: int
  mb_finished :: bool

definition mem_init :: "snapshot \<Rightarrow> mem_builder" where
  "mem_init sn =
     \<lparr>mb_snapshot = sn, mb_nodes = [(1, new_mutable_node 1 None [] None DIRECTORY)],
      mb_children = [(1, [])], mb_next_id = 2, mb_finished = False\<rparr>"

text \<open>\<open>self.\_children.setdefault(parent\_id, \{\})\<close>: the dictionary, and the builder that holds it.\<close>

definition mem_setdefault :: "int \<Rightarrow> mem_builder \<Rightarrow> (bytes, int) dict \<times> mem_builder" where
  "mem_setdefault p b =
     (case dict_get (mb_children b) p of
        Some d \<Rightarrow> (d, b)
      | None \<Rightarrow> ([], b\<lparr>mb_children := dict_set p [] (mb_children b)\<rparr>))"

text \<open>One path component: the existing node of the right kind, or a fresh one.\<close>

definition mem_child ::
  "parsed_entry \<Rightarrow> nat \<Rightarrow> bytes \<Rightarrow> node_kind \<Rightarrow> int \<Rightarrow> mem_builder \<Rightarrow> (build_exn + mutable_node) \<times> mem_builder" where
  "mem_child e index name kind p b0 =
     (let (children, b) = mem_setdefault p b0
      in case dict_get children name of
           None \<Rightarrow>
             (let i = mb_next_id b;
                  node = new_mutable_node i (Some p) name
                    (Some (join [slash] (take (index + 1) (entry_path e)))) kind;
                  with_child = dict_set p (dict_set name i children) (mb_children b)
              in (Inr node,
                  b\<lparr>mb_next_id := i + 1, mb_nodes := dict_set i node (mb_nodes b),
                    mb_children := dict_set i [] with_child\<rparr>))
         | Some i \<Rightarrow>
             (case dict_get (mb_nodes b) i of
                None \<Rightarrow> (Inl (Raised (KeyErrorInt i)), b)
              | Some node \<Rightarrow>
                  if mn_kind node \<noteq> kind
                  then (Inl (Build_Error (conflict node e ''file/directory type conflict'')), b)
                  else (Inr node, b)))"

text \<open>The loop over the components; merging mutates the node inside the dictionary.\<close>

fun mem_add_loop ::
  "tzdb \<Rightarrow> parsed_entry \<Rightarrow> nat \<Rightarrow> bytes list \<Rightarrow> int \<Rightarrow> mem_builder \<Rightarrow> build_exn option \<times> mem_builder" where
  "mem_add_loop db e index [] p b = (None, b)"
| "mem_add_loop db e index (name # rest) p b =
     (let final = (rest = []);
          kind = (if final then entry_kind e else DIRECTORY)
      in case mem_child e index name kind p b of
           (Inl x, b') \<Rightarrow> (Some x, b')
         | (Inr node, b') \<Rightarrow>
             if final then
               (case merge db node e of
                  Inl d \<Rightarrow> (Some (Build_Error d), b')
                | Inr node' \<Rightarrow>
                    (None, b'\<lparr>mb_nodes := dict_set (mn_id node) node' (mb_nodes b')\<rparr>))
             else mem_add_loop db e (index + 1) rest (mn_id node) b')"

definition already_finished :: py_exn where
  "already_finished = RuntimeError [Txt ''builder is already finished'']"

definition mem_add :: "tzdb \<Rightarrow> parsed_entry \<Rightarrow> mem_builder \<Rightarrow> build_exn option \<times> mem_builder" where
  "mem_add db e b =
     (if mb_finished b then (Some (Raised already_finished), b)
      else case components e of
          Inl d \<Rightarrow> (Some (Build_Error d), b)
        | Inr names \<Rightarrow> mem_add_loop db e 0 names 1 b)"

record mem_store =
  ms_snapshot :: snapshot
  ms_nodes :: "(int, node) dict"
  ms_children :: "(int, (bytes, int) dict) dict"
  ms_diagnostics :: "diagnostic list"
  ms_diagnostic_count :: nat

text \<open>The name under which \<open>finish\<close> files a child.\<close>

definition mem_child_item :: "(int, mutable_node) dict \<Rightarrow> int \<Rightarrow> py_exn + (bytes \<times> int)" where
  "mem_child_item nodes i =
     (case dict_get nodes i of None \<Rightarrow> Inl (KeyErrorInt i) | Some n \<Rightarrow> Inr (mn_mounted_name n, i))"

fun mem_finish_loop ::
  "mem_builder \<Rightarrow> mutable_node list \<Rightarrow> (int, node) dict \<Rightarrow> (int, (bytes, int) dict) dict \<Rightarrow>
    py_exn + (int, node) dict \<times> (int, (bytes, int) dict) dict" where
  "mem_finish_loop b [] nodes exact = Inr (nodes, exact)"
| "mem_finish_loop b (n # ns) nodes exact =
     (case make_node (node_of (snapshot_id (mb_snapshot b)) n) of
        Inl x \<Rightarrow> Inl x
      | Inr node \<Rightarrow>
          (case map_result (mem_child_item (mb_nodes b))
                  (map snd (case dict_get (mb_children b) (mn_id n) of None \<Rightarrow> [] | Some d \<Rightarrow> d)) of
             Inl x \<Rightarrow> Inl x
           | Inr items \<Rightarrow>
               mem_finish_loop b ns (dict_set (mn_id n) node nodes)
                 (dict_set (mn_id n) (dict_of items) exact)))"

definition mem_finish ::
  "diagnostic list \<Rightarrow> nat option \<Rightarrow> mem_builder \<Rightarrow> (py_exn + mem_store) \<times> mem_builder" where
  "mem_finish ds count b =
     (if mb_finished b then (Inl already_finished, b)
      else (map_ok (\<lambda>(nodes, exact).
              \<lparr>ms_snapshot = mb_snapshot b, ms_nodes = nodes, ms_children = exact, ms_diagnostics = ds,
               ms_diagnostic_count = (case count of Some n \<Rightarrow> n | None \<Rightarrow> length ds)\<rparr>)
              (mem_finish_loop b (map snd (mb_nodes b)) [] []),
            b\<lparr>mb_finished := True\<rparr>))"

definition mem_abort :: "mem_builder \<Rightarrow> mem_builder" where
  "mem_abort b = b\<lparr>mb_finished := True\<rparr>"

section \<open>store/memory/store.py\<close>

definition mem_get_snapshot :: "mem_store \<Rightarrow> pystr \<Rightarrow> py_exn + snapshot" where
  "mem_get_snapshot s sid =
     (if sid \<noteq> snapshot_id (ms_snapshot s) then Inl (KeyErrorStr sid) else Inr (ms_snapshot s))"

definition mem_get_node :: "mem_store \<Rightarrow> int \<Rightarrow> py_exn + node" where
  "mem_get_node s i = (case dict_get (ms_nodes s) i of None \<Rightarrow> Inl (KeyErrorInt i) | Some n \<Rightarrow> Inr n)"

definition mem_get_root :: "mem_store \<Rightarrow> pystr \<Rightarrow> py_exn + node" where
  "mem_get_root s sid = (case mem_get_snapshot s sid of Inl x \<Rightarrow> Inl x | Inr _ \<Rightarrow> mem_get_node s 1)"

definition mem_lookup :: "mem_store \<Rightarrow> int \<Rightarrow> bytes \<Rightarrow> py_exn + node option" where
  "mem_lookup s p name =
     (case dict_get (ms_children s) p of
        None \<Rightarrow> Inl (KeyErrorInt p)
      | Some d \<Rightarrow>
          (case dict_get d name of None \<Rightarrow> Inr None | Some i \<Rightarrow> map_ok Some (mem_get_node s i)))"

text \<open>\<open>self.\_nodes[node\_ids[name]]\<close>; the names are keys of the dictionary.\<close>

definition mem_named_child :: "mem_store \<Rightarrow> (bytes, int) dict \<Rightarrow> bytes \<Rightarrow> py_exn + node" where
  "mem_named_child s d name = mem_get_node s (the (dict_get d name))"

definition mem_iter_children :: "mem_store \<Rightarrow> int \<Rightarrow> int \<Rightarrow> py_exn + node list" where
  "mem_iter_children s p off =
     (case dict_get (ms_children s) p of
        None \<Rightarrow> Inl (KeyErrorInt p)
      | Some d \<Rightarrow> map_result (mem_named_child s d) (slice_from (sort (map fst d)) off))"

definition mem_object :: "mem_store \<Rightarrow> store" where
  "mem_object s =
     \<lparr>diagnostics = Inr (ms_diagnostics s), diagnostic_count = Inr (int (ms_diagnostic_count s)),
      get_snapshot = mem_get_snapshot s, get_root = mem_get_root s, get_node = mem_get_node s,
      lookup = mem_lookup s, iter_children = mem_iter_children s,
      iter_nodes = Inr (map snd (ms_nodes s))\<rparr>"

section \<open>The builder's dictionaries and the abstract tree\<close>

definition mem_nodes :: "mem_builder \<Rightarrow> nodes" where
  "mem_nodes b = dict_get (mb_nodes b)"

definition mem_children :: "mem_builder \<Rightarrow> child_map" where
  "mem_children b p name =
     (case dict_get (mb_children b) p of None \<Rightarrow> None | Some d \<Rightarrow> dict_get d name)"

definition mem_tree :: "mem_builder \<Rightarrow> tree_state" where
  "mem_tree b = (mem_nodes b, mem_children b, mb_next_id b)"

text \<open>
  Both dictionaries list the inodes in the order of their allocation; the names in a
  directory are distinct.
\<close>

definition mem_dicts :: "mem_builder \<Rightarrow> bool" where
  "mem_dicts b \<longleftrightarrow> map fst (mb_nodes b) = [1..mb_next_id b - 1] \<and>
     map fst (mb_children b) = [1..mb_next_id b - 1] \<and>
     (\<forall>p d. dict_get (mb_children b) p = Some d \<longrightarrow> distinct (map fst d))"

definition mem_ok :: "mem_builder \<Rightarrow> bool" where
  "mem_ok b \<longleftrightarrow> mem_dicts b \<and> builder_tree (mem_nodes b) (mem_children b) (mb_next_id b)"

lemma mem_ok_init: "mem_ok (mem_init sn)"
proof -
  have "mem_nodes (mem_init sn) = [1 \<mapsto> root_node]" "mem_children (mem_init sn) = (\<lambda>_ _. None)"
    "mb_next_id (mem_init sn) = 2"
    by (auto simp: mem_nodes_def mem_children_def mem_init_def root_node_def fun_eq_iff)
  moreover have "mem_dicts (mem_init sn)" by (simp add: mem_dicts_def mem_init_def)
  ultimately show ?thesis by (simp add: mem_ok_def builder_tree_start)
qed

lemma mem_dicts_keys: "mem_dicts b \<Longrightarrow> p \<in> set (map fst (mb_children b)) \<longleftrightarrow> mem_nodes b p \<noteq> None"
  using dict_get_None_iff [of "mb_nodes b" p] by (simp add: mem_dicts_def mem_nodes_def)

lemma mem_children_known:
  assumes "mem_dicts b" "mem_nodes b p = Some n"
  obtains d where "dict_get (mb_children b) p = Some d" "mem_children b p = dict_get d"
    "mem_setdefault p b = (d, b)"
proof -
  from mem_dicts_keys [OF assms(1), of p] assms(2) obtain d where "dict_get (mb_children b) p = Some d"
    by (metis dict_get_None_iff not_None_eq)
  with that show thesis by (simp add: mem_children_def mem_setdefault_def fun_eq_iff)
qed

text \<open>Creating a node writes the abstract tree as \<open>insert\_child\<close> does.\<close>

lemma mem_create:
  assumes b: "mem_dicts b" "1 \<le> mb_next_id b" and p: "mem_nodes b p = Some pn"
    and d: "dict_get (mb_children b) p = Some d"
    and b': "b' = b\<lparr>mb_next_id := mb_next_id b + 1, mb_nodes := dict_set (mb_next_id b) node (mb_nodes b),
      mb_children := dict_set (mb_next_id b) [] (dict_set p (dict_set name (mb_next_id b) d) (mb_children b))\<rparr>"
  shows "mem_dicts b'"
    and "mem_tree b' = ((mem_nodes b)(mb_next_id b \<mapsto> node),
      insert_child (mem_children b) p name (mb_next_id b), mb_next_id b + 1)"
proof -
  let ?k = "mb_next_id b"
  have keys: "map fst (mb_nodes b) = [1..?k - 1]" "map fst (mb_children b) = [1..?k - 1]"
    using b(1) by (simp_all add: mem_dicts_def)
  have p_in: "p \<in> set (map fst (mb_children b))"
    using d dict_get_None_iff [of "mb_children b" p] by simp
  have fresh: "?k \<notin> set (map fst (mb_nodes b))" "?k \<notin> set (map fst (mb_children b))"
    unfolding keys by simp_all
  have new: "?k \<notin> set (map fst (dict_set p d' (mb_children b)))" for d'
    using fresh(2) p_in by (simp add: keys_dict_set del: list.set_map)
  have keys_p: "map fst (dict_set p d' (mb_children b)) = [1..?k - 1]" for d'
    using p_in keys(2) by (simp add: keys_dict_set del: list.set_map)
  have up: "[1..?k - 1] @ [?k] = [1..?k]" using b(2) by (simp add: upto_rec2)
  have "map fst (mb_nodes b') = [1..?k]" "map fst (mb_children b') = [1..?k]"
    using fresh new keys keys_p up
    by (simp_all add: b' dict_set_absent del: list.set_map)
  moreover have "distinct (map fst x)" if "dict_get (mb_children b') q = Some x" for q x
    using that b(1) d by (auto simp: b' mem_dicts_def split: if_splits)
  moreover have "mb_next_id b' = ?k + 1" by (simp add: b')
  ultimately show "mem_dicts b'" by (simp add: mem_dicts_def)
  have no_k: "dict_get (mb_children b) ?k = None"
    using fresh(2) by (simp add: dict_get_None_iff)
  have "mem_children b' q x = insert_child (mem_children b) p name ?k q x" for q x
    unfolding insert_child_apply using d no_k by (auto simp: b' mem_children_def)
  moreover have "mem_nodes b' = (mem_nodes b)(?k \<mapsto> node)" by (auto simp: b' mem_nodes_def)
  ultimately show "mem_tree b' = ((mem_nodes b)(?k \<mapsto> node), insert_child (mem_children b) p name ?k, ?k + 1)"
    by (auto simp: mem_tree_def b' fun_eq_iff)
qed

lemma mem_store_node:
  assumes "mem_dicts b" "mem_nodes b i = Some n"
  shows "mem_dicts (b\<lparr>mb_nodes := dict_set i n' (mb_nodes b)\<rparr>)"
    and "mem_tree (b\<lparr>mb_nodes := dict_set i n' (mb_nodes b)\<rparr>) =
      ((mem_nodes b)(i \<mapsto> n'), mem_children b, mb_next_id b)"
proof -
  have "i \<in> set (map fst (mb_nodes b))"
    using assms(2) dict_get_None_iff [of "mb_nodes b" i] by (simp add: mem_nodes_def)
  with assms(1) show "mem_dicts (b\<lparr>mb_nodes := dict_set i n' (mb_nodes b)\<rparr>)"
    by (simp add: mem_dicts_def keys_dict_set del: list.set_map)
  show "mem_tree (b\<lparr>mb_nodes := dict_set i n' (mb_nodes b)\<rparr>) =
      ((mem_nodes b)(i \<mapsto> n'), mem_children b, mb_next_id b)"
    by (auto simp: mem_tree_def mem_nodes_def mem_children_def fun_eq_iff)
qed

text \<open>
  The loop over dictionaries is the loop over the abstract maps: same error, same tree,
  and the order of the dictionaries is kept.
\<close>

definition mem_simulates :: "build_exn option \<times> mem_builder \<Rightarrow> mem_builder \<Rightarrow>
    diagnostic option \<times> tree_state \<Rightarrow> bool" where
  "mem_simulates r b0 spec \<longleftrightarrow> (case r of (err, b) \<Rightarrow>
     err = map_option Build_Error (fst spec) \<and> mem_tree b = snd spec \<and> mem_dicts b \<and>
     mb_snapshot b = mb_snapshot b0 \<and> mb_finished b = mb_finished b0)"

lemma mem_simulates_same:
  "mem_dicts b \<Longrightarrow> mem_simulates (map_option Build_Error d, b) b (d, mem_tree b)"
  by (simp add: mem_simulates_def)

lemma mem_simulates_from:
  "mem_simulates r b' spec \<Longrightarrow> mb_snapshot b' = mb_snapshot b \<Longrightarrow> mb_finished b' = mb_finished b \<Longrightarrow>
   mem_simulates r b spec"
  by (simp add: mem_simulates_def)

theorem mem_add_loop_simulates:
  "mem_dicts b \<Longrightarrow> at_parent (mem_tree b) e upper names p \<Longrightarrow>
   mem_simulates (mem_add_loop db e (length upper) names p b) b
     (tree_add_loop (\<lambda>n. n) db e (length upper) names p (mem_tree b))"
proof (induction names arbitrary: upper p b)
  case Nil
  then show ?case by (simp add: mem_simulates_def)
next
  case (Cons name rest)
  note dicts = Cons.prems(1) and ap = Cons.prems(2) [unfolded mem_tree_def]
  have bt: "builder_tree (mem_nodes b) (mem_children b) (mb_next_id b)"
    using ap by (simp add: at_parent_def)
  from ap obtain pn where pn: "mem_nodes b p = Some pn" by (auto simp: at_parent_def)
  from dicts pn obtain d where d: "dict_get (mb_children b) p = Some d"
    "mem_children b p = dict_get d" "mem_setdefault p b = (d, b)"
    by (rule mem_children_known)
  define kind where "kind = (if rest = [] then entry_kind e else DIRECTORY)"
  show ?case
  proof (cases "dict_get d name")
    case None
    define n where "n = new_mutable_node (mb_next_id b) (Some p) name
      (Some (join [slash] (take (length upper + 1) (entry_path e)))) kind"
    define b' where "b' = b\<lparr>mb_next_id := mb_next_id b + 1,
      mb_nodes := dict_set (mb_next_id b) n (mb_nodes b),
      mb_children := dict_set (mb_next_id b) [] (dict_set p (dict_set name (mb_next_id b) d) (mb_children b))\<rparr>"
    have "1 \<le> mb_next_id b" using builder_treeD(1) [OF bt] by simp
    note cr = mem_create [OF dicts this pn d(1) b'_def]
    have ch: "mem_child e (length upper) name kind p b = (Inr n, b')"
      using None d by (simp add: mem_child_def Let_def n_def b'_def)
    have free: "mem_children b p name = None" using None d by simp
    have same: "mb_snapshot b' = mb_snapshot b" "mb_finished b' = mb_finished b"
      by (simp_all add: b'_def)
    have id: "mn_id n = mb_next_id b" by (simp add: n_def)
    have node: "mem_nodes b' (mn_id n) = Some n" using id by (simp add: b'_def mem_nodes_def)
    show ?thesis
    proof (cases "rest = []")
      case True
      have t: "tree_add_loop (\<lambda>n. n) db e (length upper) [name] p (mem_tree b) =
          (case merge db n e of
             Inl x \<Rightarrow> (Some x, mem_tree b')
           | Inr n' \<Rightarrow> (None, (mem_nodes b')(mn_id n \<mapsto> n'), mem_children b', mb_next_id b'))"
        using free True cr(2) by (simp add: mem_tree_def Let_def n_def kind_def split: sum.split)
      show ?thesis
        using True ch mem_store_node [OF cr(1) node] cr(1) same
        by (auto simp: kind_def t mem_simulates_def Let_def split: sum.split)
    next
      case False
      then have k: "kind = DIRECTORY" by (simp add: kind_def)
      have "at_parent (mem_tree b') e (upper @ [name]) rest (mn_id n)"
        unfolding cr(2) id by (rule at_parent_create(4) [OF ap free n_def k])
      from Cons.IH [OF cr(1) this] same
      have IH: "mem_simulates (mem_add_loop db e (length (upper @ [name])) rest (mn_id n) b') b
          (tree_add_loop (\<lambda>n. n) db e (length (upper @ [name])) rest (mn_id n) (mem_tree b'))"
        by (rule mem_simulates_from)
      have "tree_add_loop (\<lambda>n. n) db e (length upper) (name # rest) p (mem_tree b) =
          tree_add_loop (\<lambda>n. n) db e (length (upper @ [name])) rest (mn_id n) (mem_tree b')"
        using free False cr(2) by (simp add: mem_tree_def Let_def n_def k del: fun_upd_apply)
      with IH ch [unfolded k] False show ?thesis by simp
    qed
  next
    case (Some i)
    then have ch_i: "mem_children b p name = Some i" using d by simp
    with bt obtain n where n: "mem_nodes b i = Some n" by (rule child_parent)
    have id: "mn_id n = i" using builder_treeD(3) [OF bt n] by (simp add: node_ok_def)
    show ?thesis
    proof (cases "mn_kind n = kind")
      case False
      have "mem_child e (length upper) name kind p b =
          (Inl (Build_Error (conflict n e ''file/directory type conflict'')), b)"
        using Some d n False by (simp add: mem_child_def mem_nodes_def)
      with False ch_i n dicts show ?thesis
        by (simp add: mem_simulates_def mem_tree_def Let_def kind_def)
    next
      case True
      have ch: "mem_child e (length upper) name kind p b = (Inr n, b)"
        using Some d n True by (simp add: mem_child_def mem_nodes_def)
      show ?thesis
      proof (cases "rest = []")
        case rest: True
        then show ?thesis using ch ch_i n True id mem_store_node [OF dicts n] dicts
          by (auto simp: mem_simulates_def mem_tree_def Let_def kind_def split: sum.split)
      next
        case rest: False
        with True at_parent_enter [OF ap ch_i n] have "at_parent (mem_tree b) e (upper @ [name]) rest i"
          by (simp add: kind_def mem_tree_def)
        from Cons.IH [OF dicts this] rest ch ch_i n True id show ?thesis
          by (simp add: mem_tree_def Let_def kind_def)
      qed
    qed
  qed
qed

section \<open>Adding an entry\<close>

definition mem_view :: "mem_builder \<Rightarrow> path_tree" where
  "mem_view b = view (mem_nodes b) (mem_children b)"

lemma mem_tree_inv: "tree_inv (mem_tree b) = builder_tree (mem_nodes b) (mem_children b) (mb_next_id b)"
  by (simp add: mem_tree_def)

lemma mem_add_ok:
  assumes "mem_ok b" "entry_ok e"
  shows "mem_ok (snd (mem_add db e b))"
proof (cases "mb_finished b")
  case True
  with assms show ?thesis by (simp add: mem_add_def)
next
  case False
  show ?thesis
  proof (cases "components e")
    case (Inl d)
    with assms show ?thesis by (simp add: mem_add_def)
  next
    case (Inr names)
    have ap: "at_parent (mem_tree b) e [] names 1"
      using assms(1) Inr unfolding mem_tree_def mem_ok_def by (blast intro: at_parent_start)
    obtain err b' where r: "mem_add_loop db e 0 names 1 b = (err, b')" by fastforce
    have "mem_simulates (err, b') b (tree_add_loop (\<lambda>n. n) db e 0 names 1 (mem_tree b))"
      using mem_add_loop_simulates [OF _ ap, of db] assms(1) r by (simp add: mem_ok_def)
    moreover have "tree_inv (snd (tree_add_loop (\<lambda>n. n) db e 0 names 1 (mem_tree b)))"
      using tree_add_loop_inv [OF stores_id assms(2) ap] by simp
    ultimately have "mem_dicts b'" "tree_inv (mem_tree b')" by (auto simp: mem_simulates_def)
    with Inr False r show ?thesis by (simp add: mem_add_def mem_ok_def mem_tree_inv)
  qed
qed

text \<open>
  An open builder adds an entry exactly when the specification does; it reports the
  specification's diagnostic, and otherwise holds the specified tree.
\<close>

lemma mem_add_spec:
  assumes "mem_ok b" "\<not> mb_finished b" "entry_ok e" "mem_add db e b = (err, b')"
  shows "case spec_add db e (mem_view b) of
           Inl d \<Rightarrow> err = Some (Build_Error d)
         | Inr t \<Rightarrow> err = None \<and> mem_view b' = t"
    and "mb_finished b' = mb_finished b" and "mb_snapshot b' = mb_snapshot b"
proof -
  consider (bad) d where "components e = Inl d" | (good) names where "components e = Inr names"
    by (cases "components e") auto
  then have "(case spec_add db e (mem_view b) of Inl d \<Rightarrow> err = Some (Build_Error d)
         | Inr t \<Rightarrow> err = None \<and> mem_view b' = t) \<and> mb_finished b' = mb_finished b \<and>
         mb_snapshot b' = mb_snapshot b"
  proof cases
    case bad
    with assms show ?thesis by (auto simp: mem_add_def spec_add_def)
  next
    case good
    have ap: "at_parent (mem_tree b) e [] names 1"
      using assms(1) good unfolding mem_tree_def mem_ok_def by (blast intro: at_parent_start)
    have sim: "mem_simulates (err, b') b (tree_add_loop (\<lambda>n. n) db e 0 names 1 (mem_tree b))"
      using mem_add_loop_simulates [OF _ ap, of db] assms good by (simp add: mem_ok_def mem_add_def)
    have "agrees (tree_add_loop (\<lambda>n. n) db e 0 names 1 (mem_tree b)) (spec_add db e (mem_view b))"
      using tree_add_refines [OF _ good] assms(1) by (simp add: mem_ok_def mem_tree_def mem_view_def)
    with sim show ?thesis
      by (auto simp: mem_simulates_def agrees_def mem_tree_def mem_view_def split: sum.splits prod.splits)
  qed
  then show "case spec_add db e (mem_view b) of
           Inl d \<Rightarrow> err = Some (Build_Error d)
         | Inr t \<Rightarrow> err = None \<and> mem_view b' = t"
    "mb_finished b' = mb_finished b" "mb_snapshot b' = mb_snapshot b" by simp_all
qed

lemma mem_view_init: "mem_view (mem_init sn) = [[] \<mapsto> blank root_node]"
proof
  fix path
  show "mem_view (mem_init sn) path = [[] \<mapsto> blank root_node] path"
    by (cases path)
      (simp_all add: mem_view_def view_def mem_nodes_def mem_children_def mem_init_def root_node_def)
qed

section \<open>The finished store\<close>

definition mem_store_nodes :: "mem_store \<Rightarrow> node_map" where
  "mem_store_nodes s = dict_get (ms_nodes s)"

definition mem_store_ok :: "mem_store \<Rightarrow> bool" where
  "mem_store_ok s \<longleftrightarrow> tree_ok (mem_store_nodes s) \<and>
     distinct (map fst (ms_nodes s)) \<and> (\<exists>r rest. ms_nodes s = (1, r) # rest) \<and>
     (\<forall>i n. mem_store_nodes s i = Some n \<longrightarrow> node_snapshot_id n = snapshot_id (ms_snapshot s)) \<and>
     map fst (ms_children s) = map fst (ms_nodes s) \<and>
     (\<forall>p d. dict_get (ms_children s) p = Some d \<longrightarrow> distinct (map fst d) \<and>
        (\<forall>name i. dict_get d name = Some i \<longleftrightarrow> (\<exists>n. mem_store_nodes s i = Some n \<and>
           node_parent_id n = Some p \<and> node_mounted_name n = name)))"

lemma mem_store_children:
  assumes "mem_store_ok s" "mem_store_nodes s p \<noteq> None"
  obtains d where "dict_get (ms_children s) p = Some d" "distinct (map fst d)"
    "\<And>name i. dict_get d name = Some i \<longleftrightarrow> (\<exists>n. mem_store_nodes s i = Some n \<and>
       node_parent_id n = Some p \<and> node_mounted_name n = name)"
proof -
  have "p \<in> set (map fst (ms_children s))"
    using assms dict_get_None_iff [of "ms_nodes s" p] by (simp add: mem_store_ok_def mem_store_nodes_def)
  then obtain d where "dict_get (ms_children s) p = Some d"
    by (metis dict_get_None_iff not_None_eq)
  with assms(1) that show thesis unfolding mem_store_ok_def by blast
qed

lemma mem_get_node_eq:
  "mem_get_node s i = (case mem_store_nodes s i of None \<Rightarrow> Inl (KeyErrorInt i) | Some n \<Rightarrow> Inr n)"
  by (simp add: mem_get_node_def mem_store_nodes_def)

lemma map_result_slice_from:
  assumes "\<And>x. x \<in> set xs \<Longrightarrow> f x = Inr (g x)"
  shows "map_result f (slice_from xs off) = Inr (slice_from (map g xs) off)"
proof -
  have "map_result f (slice_from xs off) = Inr (map g (slice_from xs off))"
    using assms by (intro map_result_Inr) (auto simp: slice_from_def dest: in_set_dropD)
  then show ?thesis by (simp add: slice_from_def drop_map)
qed

text \<open>Listing: the children by name, in the order of their names.\<close>

lemma mem_iter_children_ok:
  assumes "mem_store_ok s" "mem_store_nodes s p \<noteq> None"
  shows "\<exists>cs. children_of (mem_store_nodes s) p cs \<and>
    (\<forall>off. mem_iter_children s p off = Inr (slice_from cs off))"
proof -
  from assms obtain d where d: "dict_get (ms_children s) p = Some d" "distinct (map fst d)"
    "\<And>name i. dict_get d name = Some i \<longleftrightarrow> (\<exists>n. mem_store_nodes s i = Some n \<and>
       node_parent_id n = Some p \<and> node_mounted_name n = name)"
    by (rule mem_store_children) blast
  define child where "child = (\<lambda>name. the (mem_store_nodes s (the (dict_get d name))))"
  let ?names = "sort (map fst d)" and ?nodes = "mem_store_nodes s"
  have child: "\<exists>i. dict_get d name = Some i \<and> ?nodes i = Some (child name) \<and> node_id (child name) = i \<and>
      node_parent_id (child name) = Some p \<and> node_mounted_name (child name) = name"
    if "name \<in> set ?names" for name
  proof -
    from that have "name \<in> set (map fst d)" by simp
    then obtain i where i: "dict_get d name = Some i" by (metis dict_get_None_iff not_None_eq)
    then obtain n where n: "?nodes i = Some n" "node_parent_id n = Some p" "node_mounted_name n = name"
      by (auto simp: d(3))
    moreover have "child name = n" using i n by (simp add: child_def)
    moreover have "node_id n = i" using assms(1) n(1) by (auto simp: mem_store_ok_def intro: tree_ok_id)
    ultimately show ?thesis using i by simp
  qed
  have named: "mem_named_child s d name = Inr (child name)" if "name \<in> set ?names" for name
    using child [OF that] by (auto simp: mem_named_child_def mem_get_node_eq)
  have "map_result (mem_named_child s d) (slice_from ?names off) = Inr (slice_from (map child ?names) off)"
    for off using named by (rule map_result_slice_from)
  then have "mem_iter_children s p off = Inr (slice_from (map child ?names) off)" for off
    using d(1) by (simp add: mem_iter_children_def)
  moreover have "children_of ?nodes p (map child ?names)"
    unfolding children_of_def
  proof (intro conjI allI)
    have names: "map node_mounted_name (map child ?names) = ?names"
      using child by (auto intro!: map_idI simp del: set_sort)
    have "sorted_wrt (<) ?names" using d(2) by (simp add: strict_sorted_iff)
    then have "sorted_wrt (<) (map node_mounted_name (map child ?names))" using names by simp
    then show "sorted_wrt (\<lambda>a b. node_mounted_name a < node_mounted_name b) (map child ?names)"
      by (simp only: sorted_wrt_map)
  next
    fix n
    show "n \<in> set (map child ?names) \<longleftrightarrow> ?nodes (node_id n) = Some n \<and> node_parent_id n = Some p"
    proof
      assume "n \<in> set (map child ?names)"
      then show "?nodes (node_id n) = Some n \<and> node_parent_id n = Some p" using child by auto
    next
      assume n: "?nodes (node_id n) = Some n \<and> node_parent_id n = Some p"
      then have "dict_get d (node_mounted_name n) = Some (node_id n)" using d(3) by blast
      moreover from this have "node_mounted_name n \<in> set ?names" by (force dest!: dict_get_Some_in)
      ultimately show "n \<in> set (map child ?names)" using n
        by (auto simp: child_def intro!: image_eqI [where x = "node_mounted_name n"])
    qed
  qed
  ultimately show ?thesis by blast
qed

lemma mem_lookup_ok:
  assumes "mem_store_ok s" "mem_store_nodes s p \<noteq> None"
  shows "\<exists>r. mem_lookup s p name = Inr r \<and> (\<forall>n. r = Some n \<longleftrightarrow>
    mem_store_nodes s (node_id n) = Some n \<and> node_parent_id n = Some p \<and> node_mounted_name n = name)"
proof -
  from assms obtain d where d: "dict_get (ms_children s) p = Some d"
    "\<And>name i. dict_get d name = Some i \<longleftrightarrow> (\<exists>n. mem_store_nodes s i = Some n \<and>
       node_parent_id n = Some p \<and> node_mounted_name n = name)"
    by (rule mem_store_children) blast
  show ?thesis
  proof (cases "dict_get d name")
    case None
    then have "mem_store_nodes s i = Some n \<Longrightarrow> node_parent_id n = Some p \<Longrightarrow> node_mounted_name n \<noteq> name"
      for i n using d(2) [of name i] by auto
    with None d(1) show ?thesis by (auto simp: mem_lookup_def)
  next
    case (Some i)
    then obtain n where n: "mem_store_nodes s i = Some n" "node_parent_id n = Some p" "node_mounted_name n = name"
      by (auto simp: d(2))
    have "mem_lookup s p name = Inr (Some n)" using d(1) Some n by (simp add: mem_lookup_def mem_get_node_eq)
    moreover have "Some n = Some n' \<longleftrightarrow> mem_store_nodes s (node_id n') = Some n' \<and>
        node_parent_id n' = Some p \<and> node_mounted_name n' = name" for n'
    proof
      have "node_id n = i" using assms(1) n(1) by (auto simp: mem_store_ok_def intro: tree_ok_id)
      then show "mem_store_nodes s (node_id n') = Some n' \<and> node_parent_id n' = Some p \<and>
          node_mounted_name n' = name" if "Some n = Some n'" using that n by simp
      assume n': "mem_store_nodes s (node_id n') = Some n' \<and> node_parent_id n' = Some p \<and>
          node_mounted_name n' = name"
      then have "dict_get d name = Some (node_id n')" using d(2) by blast
      with Some n n' show "Some n = Some n'" by simp
    qed
    ultimately show ?thesis by blast
  qed
qed

text \<open>The in-memory store meets the contract of \<open>SnapshotStore\<close>.\<close>

interpretation mem: snapshot_store mem_object mem_store_nodes mem_store_ok
proof
  fix s :: mem_store and p i :: int and name :: bytes and n :: node
  assume ok: "mem_store_ok s"
  show "tree_ok (mem_store_nodes s)" using ok by (simp add: mem_store_ok_def)
  show "get_node (mem_object s) i = Inr n \<longleftrightarrow> mem_store_nodes s i = Some n"
    "mem_store_nodes s i = None \<Longrightarrow> get_node (mem_object s) i = Inl (KeyErrorInt i)"
    by (simp_all add: mem_object_def mem_get_node_eq split: option.split)
  show "\<exists>r. lookup (mem_object s) p name = Inr r \<and> (\<forall>n. r = Some n \<longleftrightarrow>
      mem_store_nodes s (node_id n) = Some n \<and> node_parent_id n = Some p \<and> node_mounted_name n = name)"
    if "mem_store_nodes s p \<noteq> None"
    using mem_lookup_ok [OF ok that] by (simp add: mem_object_def)
  show "\<exists>cs. children_of (mem_store_nodes s) p cs \<and>
      (\<forall>off. iter_children (mem_object s) p off = Inr (slice_from cs off))"
    if "mem_store_nodes s p \<noteq> None"
    using mem_iter_children_ok [OF ok that] by (simp add: mem_object_def)
  show "\<exists>ns. iter_nodes (mem_object s) = Inr ns \<and> ns \<noteq> [] \<and> mem_store_nodes s 1 = Some (hd ns) \<and>
      distinct ns \<and> set ns = {n. \<exists>i. mem_store_nodes s i = Some n}"
  proof -
    have dist: "distinct (map fst (ms_nodes s))" and t: "tree_ok (mem_store_nodes s)"
      using ok by (simp_all add: mem_store_ok_def)
    have ids: "node_id x = j" if "(j, x) \<in> set (ms_nodes s)" for j x
      using that dist t by (auto simp: mem_store_nodes_def intro: tree_ok_id)
    then have "map node_id (map snd (ms_nodes s)) = map fst (ms_nodes s)" by auto
    with dist have "distinct (map snd (ms_nodes s))" by (metis distinct_map)
    moreover from ok obtain r rest where "ms_nodes s = (1, r) # rest" by (auto simp: mem_store_ok_def)
    moreover have "set (map snd (ms_nodes s)) = {n. \<exists>i. mem_store_nodes s i = Some n}"
      using dist by (force simp: mem_store_nodes_def dict_get_iff_in)
    ultimately show ?thesis by (auto simp: mem_object_def mem_store_nodes_def)
  qed
  show "\<exists>sn. get_snapshot (mem_object s) (node_snapshot_id n) = Inr sn" if "mem_store_nodes s i = Some n"
    using ok that by (auto simp: mem_object_def mem_get_snapshot_def mem_store_ok_def)
qed

section \<open>Finishing\<close>

lemma mem_child_items:
  assumes b: "mem_ok b" and d: "dict_get (mb_children b) p = Some d"
  shows "map_result (mem_child_item (mb_nodes b)) (map snd d) = Inr d"
proof -
  have dist: "distinct (map fst d)" using assms by (simp add: mem_ok_def mem_dicts_def)
  have bt: "builder_tree (mem_nodes b) (mem_children b) (mb_next_id b)" using b by (simp add: mem_ok_def)
  have "mem_child_item (mb_nodes b) i = Inr (name, i)" if "(name, i) \<in> set d" for name i
  proof -
    have "mem_children b p name = Some i" using that d dist by (simp add: mem_children_def)
    then obtain n where "mem_nodes b i = Some n" "mn_mounted_name n = name"
      by (rule child_parent [OF bt]) blast
    then show ?thesis by (simp add: mem_child_item_def mem_nodes_def)
  qed
  then have "map_result (\<lambda>x. mem_child_item (mb_nodes b) (snd x)) d = Inr (map (\<lambda>x. x) d)"
    by (intro map_result_Inr) auto
  then show ?thesis by (simp add: map_result_map)
qed

lemma mem_finish_loop_ok:
  assumes b: "mem_ok b"
  shows "set ns \<subseteq> set (map snd (mb_nodes b)) \<Longrightarrow> distinct (map fst nodes @ map mn_id ns) \<Longrightarrow>
    distinct (map fst exact @ map mn_id ns) \<Longrightarrow>
    mem_finish_loop b ns nodes exact =
      Inr (nodes @ map (\<lambda>n. (mn_id n, node_of (snapshot_id (mb_snapshot b)) n)) ns,
           exact @ map (\<lambda>n. (mn_id n, the (dict_get (mb_children b) (mn_id n)))) ns)"
proof (induction ns arbitrary: nodes exact)
  case Nil
  then show ?case by simp
next
  case (Cons n ns)
  have bt: "builder_tree (mem_nodes b) (mem_children b) (mb_next_id b)"
    and dicts: "mem_dicts b" using b by (simp_all add: mem_ok_def)
  have "distinct (map fst (mb_nodes b))" using dicts by (simp add: mem_dicts_def)
  with Cons.prems(1) obtain i where n: "mem_nodes b i = Some n"
    by (auto simp: mem_nodes_def)
  then have ok: "mn_id n = i" "fields_ok n" using builder_treeD(3) [OF bt] by (auto simp: node_ok_def)
  from dicts n obtain d where d: "dict_get (mb_children b) i = Some d" by (rule mem_children_known)
  then have "dict_of d = d" using dicts by (simp add: mem_dicts_def)
  with Cons.IH [of "nodes @ [(i, node_of (snapshot_id (mb_snapshot b)) n)]" "exact @ [(i, d)]"] Cons.prems
  show ?case by (simp add: ok d make_node_of mem_child_items [OF b d] dict_set_absent)
qed

text \<open>
  Finishing an open builder is never rejected, whatever was added to it; the store holds
  the builder's tree and meets its invariant.
\<close>

lemma mem_ids: "mem_ok b \<Longrightarrow> map mn_id (map snd (mb_nodes b)) = map fst (mb_nodes b)"
proof -
  assume b: "mem_ok b"
  have "distinct (map fst (mb_nodes b))" using b by (simp add: mem_ok_def mem_dicts_def)
  then have "mn_id x = j" if "(j, x) \<in> set (mb_nodes b)" for j x
    using that b builder_treeD(3) [of "mem_nodes b" "mem_children b" "mb_next_id b" j x]
    by (simp add: mem_ok_def mem_nodes_def node_ok_def)
  then show ?thesis by auto
qed

lemma mem_finish_eq:
  assumes "mem_ok b" "\<not> mb_finished b"
  shows "mem_finish ds count b =
    (Inr \<lparr>ms_snapshot = mb_snapshot b,
          ms_nodes = map (\<lambda>(i, n). (i, node_of (snapshot_id (mb_snapshot b)) n)) (mb_nodes b),
          ms_children = map (\<lambda>(i, n). (i, the (dict_get (mb_children b) i))) (mb_nodes b),
          ms_diagnostics = ds,
          ms_diagnostic_count = (case count of Some n \<Rightarrow> n | None \<Rightarrow> length ds)\<rparr>,
     b\<lparr>mb_finished := True\<rparr>)"
proof -
  have ids: "map mn_id (map snd (mb_nodes b)) = map fst (mb_nodes b)" using assms(1) by (rule mem_ids)
  have dist: "distinct (map mn_id (map snd (mb_nodes b)))"
    unfolding ids using assms(1) by (simp add: mem_ok_def mem_dicts_def)
  have pairs: "map (\<lambda>n. (mn_id n, f n)) (map snd (mb_nodes b)) = map (\<lambda>(i, n). (i, f n)) (mb_nodes b)" for f :: "mutable_node \<Rightarrow> node"
    using ids by (auto simp: list_eq_iff_nth_eq split: prod.split)
  have pairs': "map (\<lambda>n. (mn_id n, g (mn_id n))) (map snd (mb_nodes b)) = map (\<lambda>(i, n). (i, g i)) (mb_nodes b)"
    for g :: "int \<Rightarrow> (bytes, int) dict"
    using ids by (auto simp: list_eq_iff_nth_eq split: prod.split)
  show ?thesis
    using mem_finish_loop_ok [OF assms(1), of "map snd (mb_nodes b)" "[]" "[]"] dist assms(2)
    by (simp add: mem_finish_def pairs pairs' [of "\<lambda>i. the (dict_get (mb_children b) i)"] del: map_map)
qed

lemma dict_get_map: "dict_get (map (\<lambda>(i, n). (i, f i n)) d) i = map_option (f i) (dict_get d i)"
  by (induction d) auto

lemma mem_finish_nodes:
  assumes "mem_ok b" "\<not> mb_finished b" "mem_finish ds count b = (Inr s, b')"
  shows "mem_store_nodes s i = map_option (node_of (snapshot_id (mb_snapshot b))) (mem_nodes b i)"
  using assms mem_finish_eq [OF assms(1,2), of ds count]
  by (auto simp: mem_store_nodes_def mem_nodes_def dict_get_map [where f = "\<lambda>i. node_of sid" for sid])

lemma mem_finish_ok:
  assumes b: "mem_ok b" "\<not> mb_finished b" "mem_finish ds count b = (Inr s, b')"
  shows "mem_store_ok s"
proof -
  note eq = mem_finish_eq [OF b(1,2), of ds count]
  let ?sid = "snapshot_id (mb_snapshot b)"
  have nodes: "mem_store_nodes s = (\<lambda>i. map_option (node_of ?sid) (mem_nodes b i))"
    using mem_finish_nodes [OF b] by (simp add: fun_eq_iff)
  have dicts: "mem_dicts b" and bt: "builder_tree (mem_nodes b) (mem_children b) (mb_next_id b)"
    using b(1) by (simp_all add: mem_ok_def)
  have fsts: "map fst (map (\<lambda>(i, n). (i, f i n)) xs) = map fst xs"
    for f :: "int \<Rightarrow> mutable_node \<Rightarrow> 'a" and xs by (induction xs) auto
  have keys: "map fst (ms_nodes s) = map fst (mb_nodes b)" "map fst (ms_children s) = map fst (mb_nodes b)"
    using eq b(3) fsts by auto
  have "2 \<le> mb_next_id b" by (rule builder_treeD(1) [OF bt])
  then have "map fst (mb_nodes b) = 1 # [2..mb_next_id b - 1]"
    using dicts by (simp add: mem_dicts_def upto_rec1)
  then have "\<exists>r rest. ms_nodes s = (1, r) # rest"
    using keys(1) by (cases "ms_nodes s") auto
  moreover have "distinct (map fst d) \<and> (\<forall>name i. dict_get d name = Some i \<longleftrightarrow>
      (\<exists>n. mem_store_nodes s i = Some n \<and> node_parent_id n = Some p \<and> node_mounted_name n = name))"
    if "dict_get (ms_children s) p = Some d" for p d
  proof -
    have "dict_get (mb_children b) p = Some d"
    proof -
      from that eq b(3) obtain n where n: "mem_nodes b p = Some n" "d = the (dict_get (mb_children b) p)"
        by (auto simp: dict_get_map [where f = "\<lambda>i _. the (dict_get (mb_children b) i)"] mem_nodes_def)
      from dicts n(1) obtain d' where "dict_get (mb_children b) p = Some d'" by (rule mem_children_known)
      with n(2) show ?thesis by simp
    qed
    then have "distinct (map fst d)" "mem_children b p = dict_get d"
      using dicts by (auto simp: mem_dicts_def mem_children_def)
    moreover have "(mem_children b p name = Some i) \<longleftrightarrow>
        (\<exists>n. mem_store_nodes s i = Some n \<and> node_parent_id n = Some p \<and> node_mounted_name n = name)"
      for name i unfolding builder_treeD(4) [OF bt] nodes by auto
    ultimately show ?thesis by simp
  qed
  moreover have "ms_snapshot s = mb_snapshot b" using eq b(3) by auto
  moreover have "tree_ok (mem_store_nodes s)" unfolding nodes using bt by (rule tree_ok_finished)
  moreover have "distinct (map fst (ms_nodes s))" using keys dicts by (simp add: mem_dicts_def)
  moreover have "node_snapshot_id n = ?sid" if "mem_store_nodes s i = Some n" for i n
    using that by (auto simp: nodes)
  ultimately show ?thesis
    unfolding mem_store_ok_def keys by (intro conjI allI impI) (simp_all del: map_of_eq_Some_iff)
qed


section \<open>The view of the finished store\<close>

lemma mem_finish_view:
  assumes b: "mem_ok b" "\<not> mb_finished b" "mem_finish ds count b = (Inr s, b')"
  shows "store_view (mem_object s) (snapshot_id (mb_snapshot b)) =
    node_view (snapshot_id (mb_snapshot b)) (mem_view b)"
  unfolding mem_view_def
proof (rule mem.finished_view [OF mem_finish_ok [OF b] mem_finish_nodes [OF b]])
  show "builder_tree (mem_nodes b) (mem_children b) (mb_next_id b)" using b(1) by (simp add: mem_ok_def)
  have "ms_snapshot s = mb_snapshot b" using mem_finish_eq [OF b(1,2), of ds count] b(3) by auto
  then show "get_root (mem_object s) (snapshot_id (mb_snapshot b)) = get_node (mem_object s) 1"
    by (simp add: mem_object_def mem_get_root_def mem_get_snapshot_def)
qed

end
