(* ===== verification/Import_Service.thy ===== *)
theory Import_Service
  imports Memory_Store
begin

text \<open>
  \<open>snapshotfs.import\_service\<close>: an import reads all entries of a parser into a builder and
  publishes a store only when neither the parser nor the builder reported an error. The
  contract of \<open>SnapshotBuilder\<close> is a locale, interpreted on the in-memory builder.
\<close>

section \<open>The protocols\<close>

record ('b, 's) builder_ops =
  bo_init :: "snapshot \<Rightarrow> py_exn + 'b"
  bo_add :: "parsed_entry \<Rightarrow> 'b \<Rightarrow> build_exn option \<times> 'b"
  bo_finish :: "diagnostic list \<Rightarrow> nat option \<Rightarrow> 'b \<Rightarrow> (py_exn + 's) \<times> 'b"
  bo_abort :: "'b \<Rightarrow> 'b"

text \<open>
  \<open>ParseResult\<close>: the single-pass stream of entries, the exception that ends it early if
  one does, and the collector as it is when the stream is exhausted.
\<close>

record parse_result =
  pr_entries :: "parsed_entry list"
  pr_error :: "py_exn option"
  pr_collector :: collector

record 'i source =
  source_uri :: pystr
  source_size :: "py_exn + int option"
  source_open :: "py_exn + 'i"

record 'i parser =
  parser_format_name :: pystr
  parser_source_metadata :: metadata
  parser_parse :: "'i \<Rightarrow> py_exn + parse_result"

datatype create_exn = Import_Failure import_failure | Import_Raised py_exn

section \<open>The import\<close>

text \<open>
  Entries after a build error are still read, so that all parse diagnostics are counted,
  but not added.
\<close>

fun import_entries ::
  "('b, 's) builder_ops \<Rightarrow> parsed_entry list \<Rightarrow> diagnostic option \<Rightarrow> 'b \<Rightarrow>
    py_exn option \<times> diagnostic option \<times> 'b" where
  "import_entries ops [] bd b = (None, bd, b)"
| "import_entries ops (e # es) bd b =
     (case bd of
        Some d \<Rightarrow> import_entries ops es (Some d) b
      | None \<Rightarrow>
          (case bo_add ops e b of
             (None, b') \<Rightarrow> import_entries ops es None b'
           | (Some (Build_Error d), b') \<Rightarrow> import_entries ops es (Some d) b'
           | (Some (Raised x), b') \<Rightarrow> (Some x, None, b')))"

text \<open>The last warning below an index, searched downwards.\<close>

fun last_warning_below :: "diagnostic list \<Rightarrow> nat \<Rightarrow> nat option" where
  "last_warning_below ds 0 = None"
| "last_warning_below ds (Suc i) =
     (if diag_severity (ds ! i) = WARNING then Some i else last_warning_below ds i)"

definition with_build_diagnostic :: "diagnostic \<Rightarrow> diagnostic list \<Rightarrow> diagnostic list" where
  "with_build_diagnostic d ds =
     (if length ds < MAX_DIAGNOSTICS then ds @ [d]
      else let r = (case last_warning_below ds (length ds) of Some i \<Rightarrow> i | None \<Rightarrow> length ds - 1)
           in take r ds @ [d] @ drop (r + 1) ds)"

text \<open>The body of the \<open>try\<close> block.\<close>

definition import_body ::
  "('b, 's) builder_ops \<Rightarrow> 'i source \<Rightarrow> 'i parser \<Rightarrow> 'b \<Rightarrow> (create_exn + 's) \<times> 'b" where
  "import_body ops src p b =
     (case source_open src of
        Inl x \<Rightarrow> (Inl (Import_Raised x), b)
      | Inr stream \<Rightarrow>
          (case parser_parse p stream of
             Inl x \<Rightarrow> (Inl (Import_Raised x), b)
           | Inr r \<Rightarrow>
               (case import_entries ops (pr_entries r) None b of
                  (Some x, _, b') \<Rightarrow> (Inl (Import_Raised x), b')
                | (None, bd, b') \<Rightarrow>
                    (case pr_error r of
                       Some x \<Rightarrow> (Inl (Import_Raised x), b')
                     | None \<Rightarrow>
                         (let c = pr_collector r;
                              ds = (case bd of None \<Rightarrow> coll_items c
                                    | Some d \<Rightarrow> with_build_diagnostic d (coll_items c));
                              n = (case bd of None \<Rightarrow> coll_total c | Some _ \<Rightarrow> coll_total c + 1)
                          in if coll_has_errors c \<or> bd \<noteq> None
                             then (Inl (Import_Failure (make_import_failure ds (Some n))), b')
                             else (case bo_finish ops ds (Some n) b' of
                                 (Inl x, b'') \<Rightarrow> (Inl (Import_Raised x), b'')
                               | (Inr s, b'') \<Rightarrow> (Inr s, b'')))))))"

text \<open>
  \<open>\_create\_store\<close>, with the fresh UUID and the clock as arguments. The builder's final
  state is returned to show that every failure aborts it.
\<close>

definition create_store ::
  "('b, 's) builder_ops \<Rightarrow> pystr \<Rightarrow> datetime \<Rightarrow> 'i source \<Rightarrow> 'i parser \<Rightarrow>
    (create_exn + 's) \<times> 'b option" where
  "create_store ops uuid now src p =
     (case make_snapshot \<lparr>snapshot_id = uuid, snapshot_source_uri = source_uri src,
              snapshot_source_format = parser_format_name p, snapshot_imported_at = now,
              snapshot_source_metadata = parser_source_metadata p\<rparr> of
        Inl x \<Rightarrow> (Inl (Import_Raised x), None)
      | Inr sn \<Rightarrow>
          (case bo_init ops sn of
             Inl x \<Rightarrow> (Inl (Import_Raised x), None)
           | Inr b \<Rightarrow>
               (case import_body ops src p b of
                  (Inl x, b') \<Rightarrow> (Inl x, Some (bo_abort ops b'))
                | (Inr s, b') \<Rightarrow> (Inr s, Some b'))))"

lemma make_snapshot_id: "make_snapshot sn = Inr sn' \<Longrightarrow> snapshot_id sn' = snapshot_id sn"
  by (auto simp: make_snapshot_def split: sum.splits)

section \<open>The diagnostics of a failed build\<close>

lemma last_warning_below_Some:
  "last_warning_below ds n = Some i \<Longrightarrow> i < n \<and> diag_severity (ds ! i) = WARNING"
  by (induction n) (auto split: if_splits)

lemma last_warning_below_None:
  "last_warning_below ds n = None \<Longrightarrow> i < n \<Longrightarrow> diag_severity (ds ! i) = ERROR"
  by (induction n) (auto split: if_splits simp: less_Suc_eq intro: severity.exhaust)

lemma with_build_diagnostic_length:
  "length ds \<le> MAX_DIAGNOSTICS \<Longrightarrow> length (with_build_diagnostic d ds) = min MAX_DIAGNOSTICS (length ds + 1)"
  using last_warning_below_Some [of ds "length ds"]
  by (auto simp: with_build_diagnostic_def Let_def MAX_DIAGNOSTICS_def split: option.split)

lemma with_build_diagnostic_in: "d \<in> set (with_build_diagnostic d ds)"
  by (simp add: with_build_diagnostic_def Let_def)

text \<open>
  An error gives way to the build diagnostic only when the list is full of errors, and
  then only the last one.
\<close>

lemma set_replace:
  assumes "x \<in> set xs" "i < length xs" "x \<noteq> xs ! i"
  shows "x \<in> set (take i xs @ [y] @ drop (i + 1) xs)"
proof -
  from assms(1) obtain j where j: "j < length xs" "xs ! j = x" by (auto simp: in_set_conv_nth)
  with assms(3) have "j \<noteq> i" by auto
  have "x \<in> set (take i xs)" if "j < i"
    using that j assms(2) by (metis in_set_conv_nth length_take min.absorb4 nth_take)
  moreover have "x \<in> set (drop (i + 1) xs)" if "i < j"
    using that j by (auto simp: in_set_conv_nth intro!: exI [of _ "j - (i + 1)"])
  ultimately show ?thesis using \<open>j \<noteq> i\<close> by (cases "j < i") auto
qed

lemma with_build_diagnostic_keeps:
  assumes e: "e \<in> set ds" "diag_severity e = ERROR"
    and w: "length ds < MAX_DIAGNOSTICS \<or> (\<exists>w \<in> set ds. diag_severity w = WARNING)"
  shows "e \<in> set (with_build_diagnostic d ds)"
proof (cases "length ds < MAX_DIAGNOSTICS")
  case True
  with e show ?thesis by (simp add: with_build_diagnostic_def)
next
  case False
  with w obtain k where k: "k < length ds" "diag_severity (ds ! k) = WARNING"
    by (auto simp: in_set_conv_nth)
  then obtain i where i: "last_warning_below ds (length ds) = Some i"
    using last_warning_below_None by (cases "last_warning_below ds (length ds)") fastforce+
  then have "i < length ds" "e \<noteq> ds ! i" using last_warning_below_Some e(2) by fastforce+
  with set_replace [OF e(1)] False i show ?thesis by (simp add: with_build_diagnostic_def)
qed

section \<open>The contract of a builder\<close>

text \<open>Adding a list of entries, as the specification of a single addition says.\<close>

fun spec_all :: "(parsed_entry \<Rightarrow> 'v \<Rightarrow> diagnostic + 'v) \<Rightarrow> parsed_entry list \<Rightarrow> 'v \<Rightarrow> diagnostic + 'v" where
  "spec_all spec [] v = Inr v"
| "spec_all spec (e # es) v = (case spec e v of Inl d \<Rightarrow> Inl d | Inr v' \<Rightarrow> spec_all spec es v')"

text \<open>
  A builder takes the entries it \<open>accepts\<close> while it has room for their \<open>cost\<close>, and finishing it
  fails only in the ways that \<open>unpublished\<close> says.
\<close>

locale snapshot_builder =
  fixes ops :: "('b, 's) builder_ops"
    and spec :: "parsed_entry \<Rightarrow> 'v \<Rightarrow> diagnostic + 'v"
    and start :: 'v
    and content :: "'b \<Rightarrow> 'v"
    and suitable :: "snapshot \<Rightarrow> bool"
    and capacity :: nat
    and accepts :: "parsed_entry \<Rightarrow> bool"
    and cost :: "parsed_entry \<Rightarrow> nat"
    and storable_report :: "diagnostic list \<Rightarrow> nat \<Rightarrow> bool"
    and usable :: "snapshot \<Rightarrow> nat \<Rightarrow> 'b \<Rightarrow> bool"
    and represents :: "snapshot \<Rightarrow> 'v \<Rightarrow> diagnostic list \<Rightarrow> nat \<Rightarrow> 's \<Rightarrow> bool"
    and unpublished :: "py_exn \<Rightarrow> bool"
  assumes init_law: "bo_init ops sn = Inr b \<Longrightarrow> suitable sn \<Longrightarrow> usable sn capacity b \<and> content b = start"
    and add_law: "usable sn room b \<Longrightarrow> accepts e \<Longrightarrow> cost e \<le> room \<Longrightarrow> bo_add ops e b = (err, b') \<Longrightarrow>
      usable sn (room - cost e) b' \<and>
      (case spec e (content b) of
         Inl d \<Rightarrow> err = Some (Build_Error d)
       | Inr v \<Rightarrow> err = None \<and> content b' = v)"
    and finish_law: "usable sn room b \<Longrightarrow> storable_report ds n \<Longrightarrow>
      \<exists>result b'. bo_finish ops ds (Some n) b = (result, b') \<and>
        (case result of Inl x \<Rightarrow> unpublished x | Inr s \<Rightarrow> represents sn (content b) ds n s)"
begin

lemma import_entries_failed: "import_entries ops es (Some d) b = (None, Some d, b)"
  by (induction es) auto

lemma import_entries_spec:
  "usable sn room b \<Longrightarrow> list_all accepts es \<Longrightarrow> sum_list (map cost es) \<le> room \<Longrightarrow>
   \<exists>room' b'. usable sn room' b' \<and> (case spec_all spec es (content b) of
      Inl d \<Rightarrow> import_entries ops es None b = (None, Some d, b')
    | Inr v \<Rightarrow> import_entries ops es None b = (None, None, b') \<and> content b' = v)"
proof (induction es arbitrary: b room)
  case Nil
  then show ?case by auto
next
  case (Cons e es)
  obtain err b1 where b1: "bo_add ops e b = (err, b1)" by fastforce
  have "cost e \<le> room" and room: "sum_list (map cost es) \<le> room - cost e" using Cons.prems(3) by simp_all
  with b1 Cons.prems add_law have u: "usable sn (room - cost e) b1" and sp: "case spec e (content b) of
      Inl d \<Rightarrow> err = Some (Build_Error d) | Inr v \<Rightarrow> err = None \<and> content b1 = v"
    by auto
  show ?case
  proof (cases "spec e (content b)")
    case (Inl d)
    with sp b1 u show ?thesis by (auto simp: import_entries_failed)
  next
    case (Inr v)
    with sp have "err = None" "content b1 = v" by simp_all
    then have step: "import_entries ops (e # es) None b = import_entries ops es None b1" using b1 by simp
    have "spec_all spec (e # es) (content b) = spec_all spec es (content b1)"
      using Inr \<open>content b1 = v\<close> by simp
    with Cons.IH [OF u _ room] Cons.prems(2) show ?thesis unfolding step by simp
  qed
qed

text \<open>
  An import succeeds exactly when the specification accepts every entry, the parser reported no
  error and the store can be published; the store then represents the specified content.
\<close>

lemma create_store_spec:
  assumes sn: "make_snapshot \<lparr>snapshot_id = uuid, snapshot_source_uri = source_uri src,
      snapshot_source_format = parser_format_name p, snapshot_imported_at = now,
      snapshot_source_metadata = parser_source_metadata p\<rparr> = Inr sn"
    and b: "bo_init ops sn = Inr b" "suitable sn"
    and r: "source_open src = Inr stream" "parser_parse p stream = Inr r" "pr_error r = None"
      "list_all accepts (pr_entries r)" "sum_list (map cost (pr_entries r)) \<le> capacity"
      "storable_report (coll_items (pr_collector r)) (coll_total (pr_collector r))"
  shows "case spec_all spec (pr_entries r) start of
      Inl d \<Rightarrow> fst (create_store ops uuid now src p) =
        Inl (Import_Failure (make_import_failure
          (with_build_diagnostic d (coll_items (pr_collector r))) (Some (coll_total (pr_collector r) + 1))))
    | Inr v \<Rightarrow>
        if coll_has_errors (pr_collector r)
        then fst (create_store ops uuid now src p) =
          Inl (Import_Failure (make_import_failure (coll_items (pr_collector r))
            (Some (coll_total (pr_collector r)))))
        else (\<exists>x. fst (create_store ops uuid now src p) = Inl (Import_Raised x) \<and> unpublished x) \<or>
          (\<exists>s. fst (create_store ops uuid now src p) = Inr s \<and>
            represents sn v (coll_items (pr_collector r)) (coll_total (pr_collector r)) s)"
proof -
  let ?c = "pr_collector r"
  from init_law [OF b] have u: "usable sn capacity b" "content b = start" by simp_all
  with import_entries_spec [OF u(1) r(4,5)] obtain room b' where b': "usable sn room b'"
    "case spec_all spec (pr_entries r) start of
      Inl d \<Rightarrow> import_entries ops (pr_entries r) None b = (None, Some d, b')
    | Inr v \<Rightarrow> import_entries ops (pr_entries r) None b = (None, None, b') \<and> content b' = v" by auto
  show ?thesis
  proof (cases "spec_all spec (pr_entries r) start")
    case (Inl d)
    with b' r sn b show ?thesis by (simp add: create_store_def import_body_def Let_def)
  next
    case (Inr v)
    from finish_law [OF b'(1) r(6)] obtain result b'' where
      "bo_finish ops (coll_items ?c) (Some (coll_total ?c)) b' = (result, b'')"
      "case result of Inl x \<Rightarrow> unpublished x
        | Inr s \<Rightarrow> represents sn (content b') (coll_items ?c) (coll_total ?c) s" by blast
    with Inr b' r sn b show ?thesis
      by (cases result) (simp_all add: create_store_def import_body_def Let_def)
  qed
qed

end

section \<open>The in-memory builder keeps the contract\<close>

definition memory_builder :: "tzdb \<Rightarrow> (mem_builder, mem_store) builder_ops" where
  "memory_builder db =
     \<lparr>bo_init = \<lambda>sn. Inr (mem_init sn), bo_add = mem_add db, bo_finish = mem_finish, bo_abort = mem_abort\<rparr>"

text \<open>\<open>create\_memory\_store\<close>.\<close>

definition create_memory_store ::
  "tzdb \<Rightarrow> pystr \<Rightarrow> datetime \<Rightarrow> 'i source \<Rightarrow> 'i parser \<Rightarrow> create_exn + mem_store" where
  "create_memory_store db uuid now src p = fst (create_store (memory_builder db) uuid now src p)"

definition mem_usable :: "snapshot \<Rightarrow> mem_builder \<Rightarrow> bool" where
  "mem_usable sn b \<longleftrightarrow> mem_ok b \<and> \<not> mb_finished b \<and> mb_snapshot b = sn"

definition start_tree :: path_tree where
  "start_tree = [[] \<mapsto> blank root_node]"

definition mem_represents :: "snapshot \<Rightarrow> path_tree \<Rightarrow> diagnostic list \<Rightarrow> nat \<Rightarrow> mem_store \<Rightarrow> bool" where
  "mem_represents sn t ds n s \<longleftrightarrow> mem_store_ok s \<and>
     store_view (mem_object s) (snapshot_id sn) = node_view (snapshot_id sn) t \<and>
     ms_snapshot s = sn \<and> ms_diagnostics s = ds \<and> ms_diagnostic_count s = n"

interpretation memory: snapshot_builder "memory_builder db" "spec_add db" start_tree mem_view "\<lambda>_. True" 0 entry_ok
    "\<lambda>_. 0" "\<lambda>_ _. True" "\<lambda>sn _. mem_usable sn" mem_represents "\<lambda>_. False"
  for db
proof
  fix sn :: snapshot and b b' :: mem_builder and e :: parsed_entry and err ds n
  show "mem_usable sn b \<and> mem_view b = start_tree" if "bo_init (memory_builder db) sn = Inr b"
    using that mem_view_init [of sn]
    by (auto simp: memory_builder_def mem_usable_def mem_ok_init start_tree_def) (auto simp: mem_init_def)
  show "mem_usable sn b' \<and> (case spec_add db e (mem_view b) of Inl d \<Rightarrow> err = Some (Build_Error d)
      | Inr v \<Rightarrow> err = None \<and> mem_view b' = v)"
    if "mem_usable sn b" "entry_ok e" "bo_add (memory_builder db) e b = (err, b')"
    using that mem_add_spec [of b e db err b'] mem_add_ok [of b e db]
    by (auto simp: memory_builder_def mem_usable_def)
  show "\<exists>result b'. bo_finish (memory_builder db) ds (Some n) b = (result, b') \<and>
      (case result of Inl x \<Rightarrow> False | Inr s \<Rightarrow> mem_represents sn (mem_view b) ds n s)" if "mem_usable sn b"
  proof -
    from that have b: "mem_ok b" "\<not> mb_finished b" "mb_snapshot b = sn" by (simp_all add: mem_usable_def)
    obtain s b'' where s: "mem_finish ds (Some n) b = (Inr s, b'')"
      using mem_finish_eq [OF b(1,2), of ds "Some n"] by blast
    moreover have "mem_represents sn (mem_view b) ds n s"
      using mem_finish_ok [OF b(1,2) s] mem_finish_view [OF b(1,2) s] b(3) s
        mem_finish_eq [OF b(1,2), of ds "Some n"] by (auto simp: mem_represents_def)
    ultimately show ?thesis by (auto simp: memory_builder_def)
  qed
qed

text \<open>An import into memory.\<close>

lemma create_memory_store_spec:
  assumes sn: "make_snapshot \<lparr>snapshot_id = uuid, snapshot_source_uri = source_uri src,
      snapshot_source_format = parser_format_name p, snapshot_imported_at = now,
      snapshot_source_metadata = parser_source_metadata p\<rparr> = Inr sn"
    and r: "source_open src = Inr stream" "parser_parse p stream = Inr r" "pr_error r = None"
      "list_all entry_ok (pr_entries r)"
  shows "case spec_all (spec_add db) (pr_entries r) start_tree of
      Inl d \<Rightarrow> create_memory_store db uuid now src p =
        Inl (Import_Failure (make_import_failure
          (with_build_diagnostic d (coll_items (pr_collector r))) (Some (coll_total (pr_collector r) + 1))))
    | Inr v \<Rightarrow>
        if coll_has_errors (pr_collector r)
        then create_memory_store db uuid now src p =
          Inl (Import_Failure (make_import_failure (coll_items (pr_collector r))
            (Some (coll_total (pr_collector r)))))
        else \<exists>s. create_memory_store db uuid now src p = Inr s \<and>
          mem_represents sn v (coll_items (pr_collector r)) (coll_total (pr_collector r)) s"
proof -
  have b: "bo_init (memory_builder db) sn = Inr (mem_init sn)" by (simp add: memory_builder_def)
  show ?thesis
    using memory.create_store_spec [OF sn b _ r]
    by (cases "spec_all (spec_add db) (pr_entries r) start_tree"; cases "coll_has_errors (pr_collector r)")
      (simp_all add: create_memory_store_def)
qed

end
