(* ===== verification/Dir_Parser.thy ===== *)
theory Dir_Parser
  imports Grammar Decoding Import_Service
begin

text \<open>
  \<open>snapshotfs.parser.windows\_dir.parser\<close> and \<open>state\<close>: the streaming state machine of a
  \<open>dir /s\<close> listing, one step per decoded line, and the checks after the last line.
\<close>

section \<open>state.py\<close>

text \<open>A section's path is kept as the raw text of its header.\<close>

record section_state =
  sec_path :: "pystr option"
  sec_line :: "int option"
  sec_files :: int
  sec_size :: int
  sec_file_summary :: bool
  sec_dir_summary :: bool
  sec_reported_files :: int
  sec_reported_size :: int
  sec_had_entries :: bool
  sec_file_not_found :: bool
  sec_mountable :: bool

definition new_section :: section_state where
  "new_section =
     \<lparr>sec_path = None, sec_line = None, sec_files = 0, sec_size = 0, sec_file_summary = False,
      sec_dir_summary = False, sec_reported_files = 0, sec_reported_size = 0,
      sec_had_entries = False, sec_file_not_found = False, sec_mountable = False\<rparr>"

definition section_start :: "pystr \<Rightarrow> int \<Rightarrow> bool \<Rightarrow> section_state \<Rightarrow> section_state" where
  "section_start path line mountable s =
     s\<lparr>sec_path := Some path, sec_line := Some line, sec_files := 0, sec_size := 0,
       sec_file_summary := False, sec_dir_summary := False, sec_reported_files := 0,
       sec_reported_size := 0, sec_had_entries := False, sec_file_not_found := False,
       sec_mountable := mountable\<rparr>"

definition section_close :: "section_state \<Rightarrow> collector \<Rightarrow> section_state \<times> collector" where
  "section_close s c =
     (if sec_path s = None then (s, c)
      else
        (let c1 = (if \<not> sec_file_summary s
                   then coll_error ''MISSING_SECTION_FILE_SUMMARY''
                     [Txt ''directory section is missing its File(s) summary''] (sec_line s) c
                   else c);
             c2 = (if \<not> sec_dir_summary s
                   then coll_error ''MISSING_SECTION_DIR_SUMMARY''
                     [Txt ''directory section is missing its Dir(s) summary''] (sec_line s) c1
                   else c1);
             c3 = (if sec_file_summary s \<and>
                     (sec_reported_files s, sec_reported_size s) \<noteq> (sec_files s, sec_size s)
                   then coll_error ''SECTION_FILE_TOTAL_MISMATCH''
                     [Txt ''section reports '', Num (sec_reported_files s), Txt '' files/'',
                      Num (sec_reported_size s), Txt '' bytes; parsed '', Num (sec_files s),
                      Txt '' files/'', Num (sec_size s), Txt '' bytes''] (sec_line s) c2
                   else c2)
         in (s\<lparr>sec_path := None\<rparr>, c3)))"

record aggregate_state =
  agg_active :: bool
  agg_file_summary :: bool
  agg_dir_summary :: bool

definition new_aggregate :: aggregate_state where
  "new_aggregate = \<lparr>agg_active = False, agg_file_summary = False, agg_dir_summary = False\<rparr>"

section \<open>parser.py\<close>

record dir_config =
  cfg_encoding :: pystr
  cfg_date_format :: date_format
  cfg_zone :: pystr
  cfg_ambiguous :: pystr

text \<open>\<open>WindowsDirParser(...)\<close>, with the text of the date format already converted.\<close>

definition make_config :: "tzdb \<Rightarrow> pystr \<Rightarrow> date_format \<Rightarrow> pystr \<Rightarrow> pystr \<Rightarrow> py_exn + dir_config" where
  "make_config db encoding fmt tz ambiguous =
     (case source_zone db tz of
        Inl x \<Rightarrow> Inl x
      | Inr key \<Rightarrow>
          if ambiguous \<notin> {lit ''reject'', lit ''earlier'', lit ''later''}
          then Inl (ValueError [Txt ''ambiguous_time must be reject, earlier, or later''])
          else Inr \<lparr>cfg_encoding = encoding, cfg_date_format = fmt, cfg_zone = key, cfg_ambiguous = ambiguous\<rparr>)"

record dir_state =
  ds_section :: section_state
  ds_aggregate :: aggregate_state
  ds_total_files :: int
  ds_total_size :: int
  ds_saw_section :: bool
  ds_diagnostics :: collector

definition new_dir_state :: dir_state where
  "new_dir_state =
     \<lparr>ds_section = new_section, ds_aggregate = new_aggregate, ds_total_files = 0, ds_total_size = 0,
      ds_saw_section = False, ds_diagnostics = new_collector MAX_DIAGNOSTICS\<rparr>"

definition ds_error :: "string \<Rightarrow> string \<Rightarrow> int \<Rightarrow> dir_state \<Rightarrow> dir_state" where
  "ds_error code message number st =
     st\<lparr>ds_diagnostics := coll_error code [Txt message] (Some number) (ds_diagnostics st)\<rparr>"

definition ds_error_if :: "bool \<Rightarrow> string \<Rightarrow> string \<Rightarrow> int \<Rightarrow> dir_state \<Rightarrow> dir_state" where
  "ds_error_if b code message number st = (if b then ds_error code message number st else st)"

definition ds_close_section :: "dir_state \<Rightarrow> dir_state" where
  "ds_close_section st =
     (let (s, c) = section_close (ds_section st) (ds_diagnostics st)
      in st\<lparr>ds_section := s, ds_diagnostics := c\<rparr>)"

text \<open>A message with interpolated text makes the diagnostic's constructor check it.\<close>

definition ds_error_text :: "string \<Rightarrow> message \<Rightarrow> int \<Rightarrow> dir_state \<Rightarrow> py_exn option \<times> dir_state" where
  "ds_error_text code message number st =
     (case make_diagnostic (error_diag code message (Some number)) of
        Inl x \<Rightarrow> (Some x, st)
      | Inr d \<Rightarrow> (None, st\<lparr>ds_diagnostics := add_diagnostic d (ds_diagnostics st)\<rparr>))"

subsection \<open>Header lines\<close>

definition section_entry :: "pystr \<Rightarrow> int \<Rightarrow> parsed_entry" where
  "section_entry raw number =
     \<lparr>entry_path = to_mounted_path raw [], entry_kind = DIRECTORY, entry_observation = SECTION_HEADER,
      entry_size = None, entry_modified_local = None, entry_source_line = Some number,
      entry_content = None, entry_source_metadata = EMPTY_METADATA\<rparr>"

definition header_step :: "pystr \<Rightarrow> int \<Rightarrow> dir_state \<Rightarrow> parsed_entry list \<times> dir_state" where
  "header_step raw number st =
     (if agg_active (ds_aggregate st)
      then ([], ds_error ''SECTION_AFTER_AGGREGATE'' ''directory section appears after aggregate footer'' number st)
      else
        (let st1 = ds_close_section st;
             valid_path = valid_section_path raw;
             unsafe_path = (0 \<in> set raw \<or> 47 \<in> set raw);
             st2 = (if unsafe_path
                    then ds_error ''INVALID_SECTION_PATH'' ''section path contains NUL or forward slash'' number st1
                    else if \<not> valid_path
                    then ds_error ''INVALID_SECTION_PATH''
                      (''section path contains an empty component or '' @ ''unsupported alternate data stream'') number st1
                    else st1);
             mountable = (valid_path \<and> \<not> unsafe_path);
             st3 = st2\<lparr>ds_section := section_start raw number mountable (ds_section st2), ds_saw_section := True\<rparr>
         in (if mountable then [section_entry raw number] else [], st3)))"

subsection \<open>Summary lines\<close>

definition footer_step :: "int \<Rightarrow> dir_state \<Rightarrow> dir_state" where
  "footer_step number st =
     (let st1 = ds_close_section st;
          st2 = ds_error_if (agg_active (ds_aggregate st1)) ''DUPLICATE_AGGREGATE_FOOTER''
            ''duplicate Total Files Listed footer'' number st1
      in st2\<lparr>ds_aggregate := (ds_aggregate st2)\<lparr>agg_active := True\<rparr>\<rparr>)"

definition file_summary_step :: "pystr \<times> pystr \<Rightarrow> int \<Rightarrow> dir_state \<Rightarrow> dir_state" where
  "file_summary_step texts number st =
     (case (parse_integer (fst texts), parse_integer (snd texts)) of
        (Some count, Some sz) \<Rightarrow>
          if agg_active (ds_aggregate st) then
            (let st1 = ds_error_if (agg_file_summary (ds_aggregate st)) ''DUPLICATE_AGGREGATE_FILE_SUMMARY''
                   ''duplicate aggregate File(s) summary'' number st;
                 st2 = st1\<lparr>ds_aggregate := (ds_aggregate st1)\<lparr>agg_file_summary := True\<rparr>\<rparr>;
                 st3 = ds_error_if (agg_dir_summary (ds_aggregate st2)) ''AGGREGATE_FILE_SUMMARY_AFTER_DIR_SUMMARY''
                   (''aggregate File(s) summary appears after '' @ ''Dir(s) summary'') number st2
             in if (count, sz) \<noteq> (ds_total_files st3, ds_total_size st3)
                then st3\<lparr>ds_diagnostics := coll_error ''AGGREGATE_FILE_TOTAL_MISMATCH''
                       [Txt ''aggregate reports '', Num count, Txt '' files/'', Num sz, Txt '' bytes; parsed '',
                        Num (ds_total_files st3), Txt '' files/'', Num (ds_total_size st3), Txt '' bytes'']
                       (Some number) (ds_diagnostics st3)\<rparr>
                else st3)
          else if sec_path (ds_section st) = None
          then ds_error ''SUMMARY_OUTSIDE_SECTION'' ''File(s) summary appears outside a section'' number st
          else
            (let st1 = ds_error_if (sec_file_summary (ds_section st)) ''DUPLICATE_SECTION_FILE_SUMMARY''
                   ''duplicate section File(s) summary'' number st
             in st1\<lparr>ds_section := (ds_section st1)\<lparr>sec_file_summary := True, sec_reported_files := count,
                    sec_reported_size := sz\<rparr>\<rparr>)
      | _ \<Rightarrow> ds_error ''INVALID_SUMMARY_NUMBER'' ''invalid summary number'' number st)"

definition dir_summary_step :: "pystr \<times> pystr \<Rightarrow> int \<Rightarrow> dir_state \<Rightarrow> dir_state" where
  "dir_summary_step texts number st =
     (if parse_integer (fst texts) = None \<or> parse_integer (snd texts) = None
      then ds_error ''INVALID_SUMMARY_NUMBER'' ''invalid summary number'' number st
      else if agg_active (ds_aggregate st) then
        (let st1 = ds_error_if (agg_dir_summary (ds_aggregate st)) ''DUPLICATE_AGGREGATE_DIR_SUMMARY''
               ''duplicate aggregate Dir(s) summary'' number st;
             st2 = st1\<lparr>ds_aggregate := (ds_aggregate st1)\<lparr>agg_dir_summary := True\<rparr>\<rparr>
         in ds_error_if (\<not> agg_file_summary (ds_aggregate st2)) ''AGGREGATE_DIR_SUMMARY_BEFORE_FILE_SUMMARY''
              (''aggregate Dir(s) summary appears before '' @ ''File(s) summary'') number st2)
      else if sec_path (ds_section st) = None
      then ds_error ''SUMMARY_OUTSIDE_SECTION'' ''Dir(s) summary appears outside a section'' number st
      else
        (let st1 = ds_error_if (sec_dir_summary (ds_section st)) ''DUPLICATE_SECTION_DIR_SUMMARY''
               ''duplicate section Dir(s) summary'' number st;
             st2 = ds_error_if (\<not> sec_file_summary (ds_section st1)) ''SECTION_DIR_SUMMARY_BEFORE_FILE_SUMMARY''
               ''section Dir(s) summary appears before File(s) summary'' number st1
         in st2\<lparr>ds_section := (ds_section st2)\<lparr>sec_dir_summary := True\<rparr>\<rparr>))"

definition file_not_found_step :: "int \<Rightarrow> dir_state \<Rightarrow> dir_state" where
  "file_not_found_step number st =
     (let s = ds_section st in
      if sec_path s = None \<or> agg_active (ds_aggregate st)
      then ds_error ''FILE_NOT_FOUND_OUTSIDE_SECTION'' ''File Not Found appears outside a section'' number st
      else if sec_file_summary s \<or> sec_dir_summary s
      then ds_error ''FILE_NOT_FOUND_AFTER_SUMMARY'' ''File Not Found appears after a section summary'' number st
      else if sec_had_entries s
      then ds_error ''FILE_NOT_FOUND_WITH_ENTRIES'' ''File Not Found cannot be mixed with directory entries'' number st
      else if sec_file_not_found s
      then ds_error ''DUPLICATE_FILE_NOT_FOUND'' ''duplicate File Not Found marker'' number st
      else st\<lparr>ds_section := s\<lparr>sec_file_not_found := True\<rparr>\<rparr>)"

subsection \<open>Entry lines\<close>

text \<open>The totals after an entry has been yielded.\<close>

definition count_entry :: "parsed_entry \<Rightarrow> dir_state \<Rightarrow> dir_state" where
  "count_entry e st =
     (if entry_kind e = FILE
      then (let sz = (case entry_size e of Some n \<Rightarrow> n | None \<Rightarrow> 0); s = ds_section st
            in st\<lparr>ds_section := s\<lparr>sec_files := sec_files s + 1, sec_size := sec_size s + sz\<rparr>,
                  ds_total_files := ds_total_files st + 1, ds_total_size := ds_total_size st + sz\<rparr>)
      else st)"

type_synonym step_result = "py_exn option \<times> parsed_entry list \<times> dir_state"

definition accept_entry :: "tzdb \<Rightarrow> dir_config \<Rightarrow> parsed_entry \<Rightarrow> int \<Rightarrow> dir_state \<Rightarrow> step_result" where
  "accept_entry db cfg e number st =
     (case entry_modified_local e of
        None \<Rightarrow> (None, [e], count_entry e st)
      | Some t \<Rightarrow>
          (case localize db t (cfg_zone cfg) (cfg_ambiguous cfg) of
             Inr t' \<Rightarrow> (let e' = e\<lparr>entry_modified_local := Some t'\<rparr> in (None, [e'], count_entry e' st))
           | Inl (ValueError m) \<Rightarrow>
               (case ds_error_text ''INVALID_LOCAL_TIME'' m number st of
                  (Some x, st1) \<Rightarrow> (Some x, [], st1)
                | (None, st1) \<Rightarrow> (None, [e], count_entry e st1))
           | Inl x \<Rightarrow> (Some x, [], st)))"

text \<open>The entry of a mountable section; \<open>None\<close> when the line is not an entry at all.\<close>

definition entry_step ::
  "tzdb \<Rightarrow> dir_config \<Rightarrow> pystr \<Rightarrow> pystr \<Rightarrow> int \<Rightarrow> dir_state \<Rightarrow> step_result option" where
  "entry_step db cfg path line number st =
     (case parse_entry path line number (cfg_date_format cfg) (ds_diagnostics st) of
        ((False, _), _) \<Rightarrow> None
      | ((True, e), c) \<Rightarrow>
          (let st1 = st\<lparr>ds_diagnostics := c\<rparr>; s = ds_section st1
           in Some
             (if sec_file_summary s \<or> sec_dir_summary s
              then (None, [], ds_error ''ENTRY_AFTER_SECTION_SUMMARY''
                     ''directory entry appears after a section summary'' number st1)
              else if sec_file_not_found s
              then (None, [], ds_error ''ENTRY_WITH_FILE_NOT_FOUND''
                     ''directory entry cannot be mixed with File Not Found'' number st1)
              else
                (let st2 = st1\<lparr>ds_section := s\<lparr>sec_had_entries := True\<rparr>\<rparr>
                 in case e of None \<Rightarrow> (None, [], st2) | Some e' \<Rightarrow> accept_entry db cfg e' number st2))))"

definition unknown_step :: "pystr \<Rightarrow> int \<Rightarrow> dir_state \<Rightarrow> dir_state" where
  "unknown_step line number st =
     ds_error (if resembles_entry line then ''MALFORMED_ENTRY'' else ''UNKNOWN_LINE'')
       (''unrecognized meaningful line; expected a directory header, '' @ ''entry, or English summary'') number st"

subsection \<open>One line\<close>

definition dir_step :: "tzdb \<Rightarrow> dir_config \<Rightarrow> decoded_line \<Rightarrow> dir_state \<Rightarrow> step_result" where
  "dir_step db cfg decoded st0 =
     (let line = line_text decoded; number = line_number decoded;
          st = st0\<lparr>ds_diagnostics := observe_line number line (ds_diagnostics st0)\<rparr>
      in if py_strip line = [] \<or> is_volume line then (None, [], st)
         else (case header_path line of
             Some raw \<Rightarrow> (None, header_step raw number st)
           | None \<Rightarrow>
               if py_strip line = lit ''Total Files Listed:'' then (None, [], footer_step number st)
               else (case file_summary line of
                   Some texts \<Rightarrow> (None, [], file_summary_step texts number st)
                 | None \<Rightarrow>
                     (case dir_summary line of
                        Some texts \<Rightarrow> (None, [], dir_summary_step texts number st)
                      | None \<Rightarrow>
                          if py_strip line = lit ''File Not Found'' then (None, [], file_not_found_step number st)
                          else (case (case sec_path (ds_section st) of
                                   Some path \<Rightarrow>
                                     if sec_mountable (ds_section st) \<and> \<not> agg_active (ds_aggregate st)
                                     then entry_step db cfg path line number st else None
                                 | None \<Rightarrow> None) of
                              Some r \<Rightarrow> r
                            | None \<Rightarrow> (None, [], unknown_step line number st))))))"

fun dir_lines :: "tzdb \<Rightarrow> dir_config \<Rightarrow> decoded_line list \<Rightarrow> dir_state \<Rightarrow> step_result" where
  "dir_lines db cfg [] st = (None, [], st)"
| "dir_lines db cfg (l # ls) st =
     (case dir_step db cfg l st of
        (Some x, es, st1) \<Rightarrow> (Some x, es, st1)
      | (None, es, st1) \<Rightarrow>
          (let (x, es', st2) = dir_lines db cfg ls st1 in (x, es @ es', st2)))"

subsection \<open>After the last line\<close>

definition final_error :: "bool \<Rightarrow> string \<Rightarrow> string \<Rightarrow> collector \<Rightarrow> collector" where
  "final_error b code message c = (if b then coll_error code [Txt message] None c else c)"

definition dir_finish :: "dir_state \<Rightarrow> collector" where
  "dir_finish st =
     (let st1 = ds_close_section st; a = ds_aggregate st1;
          c1 = final_error (\<not> ds_saw_section st1) ''MISSING_SECTION''
            ''listing contains no directory section'' (ds_diagnostics st1)
      in if \<not> agg_active a
         then final_error True ''MISSING_AGGREGATE_FOOTER'' ''missing Total Files Listed footer'' c1
         else final_error (\<not> agg_dir_summary a) ''MISSING_AGGREGATE_DIR_SUMMARY''
                ''aggregate footer is missing its Dir(s) summary''
                (final_error (\<not> agg_file_summary a) ''MISSING_AGGREGATE_FILE_SUMMARY''
                  ''aggregate footer is missing its File(s) summary'' c1))"

text \<open>
  The whole generator: the lines of the stream, the decoding error that may end them, and
  the final checks. An exception other than a \<open>DecodeError\<close> leaves the generator at once. Its
  state starts with an empty collector, whose limit is that of \<open>DiagnosticCollector()\<close>.
\<close>

definition dir_parse_from :: "dir_state \<Rightarrow> tzdb \<Rightarrow> dir_config \<Rightarrow> decoding \<Rightarrow> parse_result" where
  "dir_parse_from st0 db cfg decoding =
     (case dir_lines db cfg (fst decoding) st0 of
        (Some x, es, st) \<Rightarrow> \<lparr>pr_entries = es, pr_error = Some x, pr_collector = ds_diagnostics st\<rparr>
      | (None, es, st) \<Rightarrow>
          (case snd decoding of
             Read_Failed x \<Rightarrow> \<lparr>pr_entries = es, pr_error = Some x, pr_collector = ds_diagnostics st\<rparr>
           | End_Of_Input \<Rightarrow> \<lparr>pr_entries = es, pr_error = None, pr_collector = dir_finish st\<rparr>
           | Decode_Failed e \<Rightarrow>
               (case ds_error_text ''DECODE_ERROR'' (decode_error_text e) (derr_line_number e) st of
                  (Some x, st1) \<Rightarrow> \<lparr>pr_entries = es, pr_error = Some x, pr_collector = ds_diagnostics st1\<rparr>
                | (None, st1) \<Rightarrow> \<lparr>pr_entries = es, pr_error = None, pr_collector = dir_finish st1\<rparr>)))"

definition dir_parse_lines :: "tzdb \<Rightarrow> dir_config \<Rightarrow> decoding \<Rightarrow> parse_result" where
  "dir_parse_lines db cfg decoding = dir_parse_from new_dir_state db cfg decoding"

definition dir_parse :: "tzdb \<Rightarrow> codecs \<Rightarrow> dir_config \<Rightarrow> stream \<Rightarrow> parse_result" where
  "dir_parse db cs cfg s =
     dir_parse_lines db cfg (iter_decoded_lines cs s (cfg_encoding cfg) MAX_LINE_BYTES)"

definition windows_dir_parser :: "tzdb \<Rightarrow> codecs \<Rightarrow> dir_config \<Rightarrow> stream parser" where
  "windows_dir_parser db cs cfg =
     \<lparr>parser_format_name = lit ''windows-dir'',
      parser_source_metadata =
        [(PyStr (lit ''source_timezone''), PyStr (cfg_zone cfg)),
         (PyStr (lit ''ambiguous_time''), PyStr (cfg_ambiguous cfg))],
      parser_parse = \<lambda>s. Inr (dir_parse db cs cfg s)\<rparr>"

end
