(* ===== verification/Decoding_Chunks.thy ===== *)
theory Decoding_Chunks
  imports Decoding
begin

text \<open>
  The decoding loops against a specification on the whole input: the lines of the
  concatenated reads. How the reads cut the input, across a line end, a carriage return, a
  code unit or the byte-order mark, makes no difference.
\<close>

section \<open>Where the line ends are\<close>

definition line_feed :: "line_ending \<Rightarrow> bytes" where
  "line_feed k = (case k of Byte_LF \<Rightarrow> [10] | Utf16_LF Little \<Rightarrow> [10, 0] | Utf16_LF Big \<Rightarrow> [0, 10])"

definition newline_at :: "line_ending \<Rightarrow> bytes \<Rightarrow> nat \<Rightarrow> bool" where
  "newline_at k data i \<longleftrightarrow> ending_width k dvd i \<and> i + ending_width k \<le> length data \<and>
     take (ending_width k) (drop i data) = line_feed k"

text \<open>The first position with a property, from a start on.\<close>

definition first_from :: "(nat \<Rightarrow> bool) \<Rightarrow> nat \<Rightarrow> nat option \<Rightarrow> bool" where
  "first_from P start r \<longleftrightarrow>
     (case r of
        None \<Rightarrow> \<forall>i \<ge> start. \<not> P i
      | Some i \<Rightarrow> start \<le> i \<and> P i \<and> (\<forall>j. start \<le> j \<and> j < i \<longrightarrow> \<not> P j))"

lemma first_from_unique: "first_from P s r \<Longrightarrow> first_from P s r' \<Longrightarrow> r = r'"
  by (auto simp: first_from_def split: option.splits) (metis linorder_neqE_nat)

lemma first_from_later:
  assumes "first_from P s r" "\<And>i. t \<le> i \<Longrightarrow> i < s \<Longrightarrow> \<not> P i" "t \<le> s"
  shows "first_from P t r"
  using assms by (auto simp: first_from_def not_less split: option.splits) (meson le_trans not_le)+

lemma first_from_cong: "(\<And>i. s \<le> i \<Longrightarrow> P i \<longleftrightarrow> Q i) \<Longrightarrow> first_from P s r \<longleftrightarrow> first_from Q s r"
  by (auto simp: first_from_def split: option.splits)

lemma find_byte_first: "first_from (\<lambda>i. i < length xs \<and> xs ! i = x) 0 (find_byte x xs)"
proof (induction xs)
  case Nil
  then show ?case by (simp add: first_from_def)
next
  case (Cons y ys)
  show ?case
  proof (cases "find_byte x ys")
    case None
    with Cons show ?thesis by (auto simp: first_from_def nth_Cons split: nat.splits)
  next
    case (Some i)
    with Cons show ?thesis by (auto simp: first_from_def nth_Cons split: nat.splits)
  qed
qed

lemma find_pair_first: "first_from (\<lambda>i. i + 1 < length xs \<and> xs ! i = a \<and> xs ! (i + 1) = b) 0 (find_pair a b xs)"
proof (induction a b xs rule: find_pair.induct)
  case (1 a b x y zs)
  show ?case
  proof (cases "find_pair a b (y # zs)")
    case None
    with 1 show ?thesis by (auto simp: first_from_def nth_Cons split: nat.splits)
  next
    case (Some i)
    with 1 show ?thesis by (auto simp: first_from_def nth_Cons split: nat.splits)
  qed
qed (simp_all add: first_from_def)

lemma first_from_shift:
  assumes "first_from P 0 r"
  shows "first_from (\<lambda>i. start \<le> i \<and> P (i - start)) start (map_option ((+) start) r)"
  using assms by (auto simp: first_from_def split: option.splits)

lemma find_byte_from_first:
  "first_from (\<lambda>i. i < length data \<and> data ! i = x) start (find_byte_from x data start)"
  unfolding find_byte_from_def
  using first_from_shift [OF find_byte_first [of "drop start data" x], of start]
  by (rule first_from_cong [THEN iffD1, rotated]) auto

lemma find_pair_from_first:
  "first_from (\<lambda>i. i + 1 < length data \<and> data ! i = a \<and> data ! (i + 1) = b) start (find_pair_from a b data start)"
  unfolding find_pair_from_def
  using first_from_shift [OF find_pair_first [of "drop start data" a b], of start]
  by (rule first_from_cong [THEN iffD1, rotated]) auto

lemma find_aligned_first:
  "first_from (\<lambda>i. even i \<and> i + 1 < length data \<and> data ! i = a \<and> data ! (i + 1) = b) start
     (find_aligned a b data start)"
proof (induction a b data start rule: find_aligned.induct)
  case (1 a b data start)
  note f = find_pair_from_first [of data a b start]
  show ?case
  proof (cases "find_pair_from a b data start")
    case None
    with f show ?thesis by (subst find_aligned.simps) (auto simp: first_from_def)
  next
    case (Some i)
    show ?thesis
    proof (cases "odd i")
      case False
      with Some f show ?thesis by (subst find_aligned.simps) (auto simp: first_from_def)
    next
      case True
      have "first_from (\<lambda>i. even i \<and> i + 1 < length data \<and> data ! i = a \<and> data ! (i + 1) = b) start
          (find_aligned a b data (i + 1))"
        by (rule first_from_later [OF 1 [OF Some True]])
          (use f Some True in \<open>auto simp: first_from_def less_Suc_eq\<close>)
      with Some True show ?thesis by (subst find_aligned.simps) simp
    qed
  qed
qed

lemma take_1_drop: "i < length xs \<Longrightarrow> take (Suc 0) (drop i xs) = [xs ! i]"
  by (metis Cons_nth_drop_Suc take0 take_Suc_Cons)

lemma take_2_drop: "i + 1 < length xs \<Longrightarrow> take 2 (drop i xs) = [xs ! i, xs ! (i + 1)]"
proof -
  assume "i + 1 < length xs"
  then have "drop i xs = xs ! i # xs ! (i + 1) # drop (i + 2) xs"
    by (simp add: Cons_nth_drop_Suc [symmetric])
  then show ?thesis by simp
qed

lemma find_newline_first: "first_from (newline_at k data) start (find_newline k data start)"
proof -
  have 1: "newline_at Byte_LF data i \<longleftrightarrow> i < length data \<and> data ! i = 10" for i
    by (auto simp: newline_at_def ending_width_def line_feed_def take_1_drop)
  have 2: "newline_at (Utf16_LF o') data i \<longleftrightarrow> even i \<and> i + 1 < length data \<and>
      [data ! i, data ! (i + 1)] = line_feed (Utf16_LF o')" for o' i
    by (auto simp: newline_at_def ending_width_def take_2_drop)
  show ?thesis
  proof (cases k)
    case Byte_LF
    then show ?thesis
      using find_byte_from_first [of data 10 start]
      by (simp add: find_newline_def first_from_cong [OF 1])
  next
    case (Utf16_LF o')
    then show ?thesis
      using find_aligned_first [of data 10 0 start] find_aligned_first [of data 0 10 start]
      by (cases o') (simp_all add: find_newline_def first_from_cong [OF 2] line_feed_def conj_ac)
  qed
qed

lemma find_newline_iff: "find_newline k data start = r \<longleftrightarrow> first_from (newline_at k data) start r"
  using find_newline_first first_from_unique by blast

lemma find_newline_at: "find_newline k data start = Some i \<Longrightarrow> newline_at k data i"
  using find_newline_first [of k data start] by (simp add: first_from_def)

lemma newline_at_append:
  "i + ending_width k \<le> length xs \<Longrightarrow> newline_at k (xs @ ys) i \<longleftrightarrow> newline_at k xs i"
  by (auto simp: newline_at_def)

lemma newline_at_bound: "newline_at k xs i \<Longrightarrow> i + ending_width k \<le> length xs"
  by (simp add: newline_at_def)

lemma find_newline_append:
  assumes "find_newline k xs 0 = Some i"
  shows "find_newline k (xs @ ys) 0 = Some i"
proof -
  have f: "newline_at k xs i" "\<forall>j < i. \<not> newline_at k xs j"
    using find_newline_first [of k xs 0] assms by (auto simp: first_from_def)
  then have "i + ending_width k \<le> length xs" by (simp add: newline_at_bound)
  with f have "first_from (newline_at k (xs @ ys)) 0 (Some i)"
    by (auto simp: first_from_def newline_at_append)
  then show ?thesis by (simp add: find_newline_iff)
qed

definition complete_length :: "line_ending \<Rightarrow> bytes \<Rightarrow> nat" where
  "complete_length k xs = length xs - length xs mod ending_width k"

lemma ending_width_pos: "0 < ending_width k"
  by (simp add: ending_width_def split: line_ending.split)

lemma aligned_before_complete:
  assumes "ending_width k dvd i" "i < complete_length k xs"
  shows "i + ending_width k \<le> complete_length k xs"
proof -
  let ?w = "ending_width k"
  have "?w dvd complete_length k xs" by (simp add: complete_length_def dvd_minus_mod)
  then obtain q where q: "complete_length k xs = ?w * q" by (elim dvdE)
  from assms(1) obtain p where p: "i = ?w * p" by (elim dvdE)
  with assms(2) q have "p < q" by simp
  then have "?w * (p + 1) \<le> ?w * q" by (intro mult_le_mono) simp_all
  then show ?thesis unfolding p q by simp
qed

lemma complete_length_le: "complete_length k xs \<le> length xs"
  by (simp add: complete_length_def)

lemma no_newline_before_complete:
  assumes "find_newline k xs 0 = None" "i < complete_length k xs"
  shows "\<not> newline_at k (xs @ ys) i"
proof
  assume n: "newline_at k (xs @ ys) i"
  then have "ending_width k dvd i" by (simp add: newline_at_def)
  then have "i + ending_width k \<le> length xs"
    using aligned_before_complete [of k i xs] assms(2) complete_length_le [of k xs] by simp
  with n have "newline_at k xs i" by (simp add: newline_at_append)
  with assms(1) find_newline_first [of k xs 0] show False by (simp add: first_from_def)
qed

lemma find_newline_resume:
  assumes "find_newline k xs 0 = None"
  shows "find_newline k (xs @ ys) (complete_length k xs) = find_newline k (xs @ ys) 0"
proof -
  have "first_from (newline_at k (xs @ ys)) 0 (find_newline k (xs @ ys) (complete_length k xs))"
    by (rule first_from_later [OF find_newline_first])
      (use no_newline_before_complete [OF assms] in auto)
  then show ?thesis using find_newline_first first_from_unique by blast
qed

section \<open>The specification on the whole input\<close>

text \<open>
  The lines of \<open>data\<close> from the position described by the state, whose search position is
  not used. An unterminated rest that is already too long fails before the next read.
\<close>

definition possible_cr :: "line_ending \<Rightarrow> bytes \<Rightarrow> nat" where
  "possible_cr k xs = (if ends_with xs (carriage_return k) then ending_width k else 0)"

definition too_long :: "line_ending \<Rightarrow> nat \<Rightarrow> bytes \<Rightarrow> bool" where
  "too_long k limit xs \<longleftrightarrow>
     limit + possible_cr k (take (complete_length k xs) xs) < complete_length k xs"

definition next_state :: "line_ending \<Rightarrow> nat \<Rightarrow> line_state \<Rightarrow> line_state" where
  "next_state k nl st =
     \<lparr>ls_pending = drop (nl + ending_width k) (ls_pending st),
      ls_start = ls_start st + int nl + int (ending_width k),
      ls_number = ls_number st + 1, ls_first = False, ls_search = 0\<rparr>"

function line_spec ::
  "line_ending \<Rightarrow> pystr \<Rightarrow> nat \<Rightarrow> line_decoder \<Rightarrow> py_exn option \<Rightarrow> line_state \<Rightarrow> decoding" where
  "line_spec k encoding limit dec err st =
     (case find_newline k (ls_pending st) 0 of
        Some nl \<Rightarrow>
          (case take_line encoding limit dec (strip_cr k (take nl (ls_pending st))) (ls_start st)
                  (ls_number st) (ls_first st) of
             Inl e \<Rightarrow> ([], Decode_Failed e)
           | Inr line \<Rightarrow> prepend [line] (line_spec k encoding limit dec err (next_state k nl st)))
      | None \<Rightarrow>
          if too_long k limit (ls_pending st)
          then ([], Decode_Failed (limit_error encoding (ls_start st) (ls_number st) limit))
          else last_line encoding limit dec err st)"
  by pat_completeness auto

termination
  by (relation "measure (\<lambda>(k, encoding, limit, dec, err, st). length (ls_pending st))")
    (auto dest!: find_newline_bound simp: next_state_def ending_width_def split: line_ending.splits)

declare line_spec.simps [simp del]

lemma prepend_simps [simp]: "prepend [] r = r" "prepend xs (prepend ys r) = prepend (xs @ ys) r"
  "prepend xs (ys, e) = (xs @ ys, e)"
  by (simp_all add: prepend_def)

lemma line_spec_search [simp]:
  "line_spec k encoding limit dec err (st\<lparr>ls_search := n\<rparr>) = line_spec k encoding limit dec err st"
  by (subst (1 2) line_spec.simps)
    (simp add: last_line_def next_state_def cong: sum.case_cong option.case_cong)

lemma line_spec_Some:
  "find_newline k (ls_pending st) 0 = Some nl \<Longrightarrow>
   line_spec k encoding limit dec err st =
     (case take_line encoding limit dec (strip_cr k (take nl (ls_pending st))) (ls_start st)
             (ls_number st) (ls_first st) of
        Inl e \<Rightarrow> ([], Decode_Failed e)
      | Inr line \<Rightarrow> prepend [line] (line_spec k encoding limit dec err (next_state k nl st)))"
  by (subst line_spec.simps) simp

lemma line_spec_None:
  "find_newline k (ls_pending st) 0 = None \<Longrightarrow>
   line_spec k encoding limit dec err st =
     (if too_long k limit (ls_pending st)
      then ([], Decode_Failed (limit_error encoding (ls_start st) (ls_number st) limit))
      else last_line encoding limit dec err st)"
  by (subst line_spec.simps) simp

text \<open>The inner loop computes the specification's lines, whatever bytes follow.\<close>

definition feed :: "line_state \<Rightarrow> bytes \<Rightarrow> line_state" where
  "feed st ys = st\<lparr>ls_pending := ls_pending st @ ys\<rparr>"

lemma feed_sel [simp]:
  "ls_pending (feed st ys) = ls_pending st @ ys" "ls_start (feed st ys) = ls_start st"
  "ls_number (feed st ys) = ls_number st" "ls_first (feed st ys) = ls_first st"
  by (simp_all add: feed_def)

lemma next_state_feed:
  "nl + ending_width k \<le> length (ls_pending st) \<Longrightarrow> next_state k nl (feed st ys) = feed (next_state k nl st) ys"
  by (simp add: next_state_def feed_def)

lemma drain_spec:
  assumes "find_newline k (ls_pending st) (ls_search st) = find_newline k (ls_pending st) 0"
    and "drain k encoding limit dec st = (lines, r)"
  shows "case r of
      Inl e \<Rightarrow> line_spec k encoding limit dec err (feed st ys) = (lines, Decode_Failed e)
    | Inr st1 \<Rightarrow> find_newline k (ls_pending st1) 0 = None \<and>
        line_spec k encoding limit dec err (feed st ys) =
          prepend lines (line_spec k encoding limit dec err (feed st1 ys))"
  using assms
proof (induction k encoding limit dec st arbitrary: lines r rule: drain.induct)
  case (1 k encoding limit dec st)
  note step = "1.prems"(2) [unfolded drain.simps [of k encoding limit dec st] "1.prems"(1)]
  show ?case
  proof (cases "find_newline k (ls_pending st) 0")
    case None
    with step show ?thesis by auto
  next
    case (Some nl)
    then have nl: "find_newline k (ls_pending (feed st ys)) 0 = Some nl" "nl + ending_width k \<le> length (ls_pending st)"
      by (simp_all add: find_newline_append find_newline_bound)
    let ?line = "take_line encoding limit dec (strip_cr k (take nl (ls_pending st))) (ls_start st)
      (ls_number st) (ls_first st)"
    have spec: "line_spec k encoding limit dec err (feed st ys) = (case ?line of
        Inl e \<Rightarrow> ([], Decode_Failed e)
      | Inr line \<Rightarrow> prepend [line] (line_spec k encoding limit dec err (feed (next_state k nl st) ys)))"
      using line_spec_Some [OF nl(1), where encoding = encoding and limit = limit and dec = dec and err = err] nl(2)
      by (simp add: next_state_feed cong: sum.case_cong)
    show ?thesis
    proof (cases ?line)
      case (Inl e)
      with step Some spec show ?thesis by auto
    next
      case (Inr line)
      have nlen: "int (length (take nl (ls_pending st))) = int nl" using nl(2) by simp
      obtain lines' r' where d: "drain k encoding limit dec (next_state k nl st) = (lines', r')" by fastforce
      with step Some Inr nlen have res: "lines = line # lines'" "r = r'"
        by (simp_all add: Let_def next_state_def)
      have "find_newline k (ls_pending (next_state k nl st)) (ls_search (next_state k nl st)) =
          find_newline k (ls_pending (next_state k nl st)) 0"
        by (simp add: next_state_def)
      with "1.IH" [OF _ refl Inr, of lines' r'] Some "1.prems"(1) d nlen
      have "case r' of
          Inl e \<Rightarrow> line_spec k encoding limit dec err (feed (next_state k nl st) ys) = (lines', Decode_Failed e)
        | Inr st1 \<Rightarrow> find_newline k (ls_pending st1) 0 = None \<and>
            line_spec k encoding limit dec err (feed (next_state k nl st) ys) =
              prepend lines' (line_spec k encoding limit dec err (feed st1 ys))"
        by (simp add: next_state_def cong: sum.case_cong)
      with spec Inr res show ?thesis by (auto split: sum.splits)
    qed
  qed
qed

section \<open>A rest that is too long stays too long\<close>

lemma length_strip_cr: "length raw - ending_width k \<le> length (strip_cr k raw)"
  by (simp add: strip_cr_def)

lemma length_strip_cr_exact: "length (strip_cr k raw) = length raw - possible_cr k raw"
  by (auto simp: strip_cr_def possible_cr_def ends_with_def ending_width_def carriage_return_def
      split: line_ending.splits byte_order.splits)

lemma possible_cr_le: "possible_cr k xs \<le> ending_width k"
  by (simp add: possible_cr_def)

lemma complete_length_mono: "complete_length k xs \<le> complete_length k (xs @ ys)"
proof -
  let ?w = "ending_width k"
  have "complete_length k zs = ?w * (length zs div ?w)" for zs
    by (simp add: complete_length_def minus_mod_eq_mult_div)
  then show ?thesis by (simp add: div_le_mono)
qed

lemma complete_length_dvd: "ending_width k dvd complete_length k xs"
  by (simp add: complete_length_def dvd_minus_mod)

lemma dvd_less_step:
  assumes "(w::nat) dvd a" "w dvd b" "a < b"
  shows "a + w \<le> b"
proof -
  from assms obtain p q where pq: "a = w * p" "b = w * q" by (elim dvdE)
  with assms(3) have "p < q" by simp
  then have "w * (p + 1) \<le> w * q" by (intro mult_le_mono) simp_all
  then show ?thesis unfolding pq by simp
qed

text \<open>
  Any longer whole number of code units, less a carriage return, is over the limit too.
\<close>

lemma too_long_step:
  assumes "too_long k limit xs" "ending_width k dvd m" "complete_length k xs \<le> m"
    and "m = complete_length k xs \<Longrightarrow> cr = possible_cr k (take (complete_length k xs) xs)"
    and "cr \<le> ending_width k"
  shows "limit + cr < m"
proof (cases "m = complete_length k xs")
  case True
  with assms show ?thesis by (simp add: too_long_def)
next
  case False
  with assms(3) have "complete_length k xs < m" by simp
  with dvd_less_step [OF complete_length_dvd assms(2) this] assms(1,5) show ?thesis
    by (simp add: too_long_def)
qed

lemma line_spec_too_long:
  assumes none: "find_newline k (ls_pending st) 0 = None" and long: "too_long k limit (ls_pending st)"
  shows "line_spec k encoding limit dec err (feed st ys) =
    ([], Decode_Failed (limit_error encoding (ls_start st) (ls_number st) limit))"
proof -
  let ?xs = "ls_pending st"
  show ?thesis
  proof (cases "find_newline k (ls_pending (feed st ys)) 0")
    case None
    let ?m = "complete_length k (?xs @ ys)"
    have "limit + possible_cr k (take ?m (?xs @ ys)) < ?m"
    proof (rule too_long_step [OF long complete_length_dvd complete_length_mono])
      show "possible_cr k (take ?m (?xs @ ys)) = possible_cr k (take (complete_length k ?xs) ?xs)"
        if "?m = complete_length k ?xs"
        using that complete_length_le [of k ?xs] by simp
    qed (rule possible_cr_le)
    then have "too_long k limit (ls_pending (feed st ys))" by (simp add: too_long_def)
    with line_spec_None [OF None] show ?thesis by simp
  next
    case (Some nl)
    then have at: "newline_at k (?xs @ ys) nl" using find_newline_at by fastforce
    then have bound: "nl + ending_width k \<le> length (?xs @ ys)" and dvd: "ending_width k dvd nl"
      by (auto simp: newline_at_def)
    have le: "complete_length k ?xs \<le> nl"
      using no_newline_before_complete [OF none] at by (meson not_le)
    let ?raw = "take nl (?xs @ ys)"
    have "limit + possible_cr k ?raw < nl"
    proof (rule too_long_step [OF long dvd le])
      show "possible_cr k ?raw = possible_cr k (take (complete_length k ?xs) ?xs)"
        if "nl = complete_length k ?xs"
        using that complete_length_le [of k ?xs] by simp
    qed (rule possible_cr_le)
    then have "limit < length (strip_cr k ?raw)"
      using bound by (simp add: length_strip_cr_exact)
    with line_spec_Some [OF Some] show ?thesis by (simp add: take_line_def)
  qed
qed

section \<open>The loops over the reads\<close>

lemma feed_search [simp]: "feed (st\<lparr>ls_search := n\<rparr>) ys = (feed st ys)\<lparr>ls_search := n\<rparr>"
  by (simp add: feed_def)

lemma feed_feed: "feed (feed st xs) ys = feed st (xs @ ys)"
  by (simp add: feed_def)

lemma feed_Nil [simp]: "feed st [] = st"
  by (simp add: feed_def)

definition resumable :: "line_ending \<Rightarrow> line_state \<Rightarrow> bool" where
  "resumable k st \<longleftrightarrow> find_newline k (ls_pending st) 0 = None \<and>
     ls_search st = complete_length k (ls_pending st)"

lemma line_spec_last:
  assumes "find_newline k (ls_pending st) 0 = None" "\<not> too_long k limit (ls_pending st)"
  shows "line_spec k encoding limit dec err st = last_line encoding limit dec err st"
  using assms by (simp add: line_spec_None)

lemma complete_length_byte [simp]: "complete_length Byte_LF xs = length xs"
  by (simp add: complete_length_def ending_width_def)

lemma too_long_byte:
  "too_long Byte_LF limit xs \<longleftrightarrow> int (length xs) - (if ends_with xs [13] then 1 else 0) > int limit"
  by (auto simp: too_long_def possible_cr_def ending_width_def carriage_return_def ends_with_def)

text \<open>One read: its complete lines, and the check of the rest.\<close>

lemma read_step:
  assumes st: "resumable k st" and d: "drain k encoding limit dec (feed st chunk) = (lines, r)"
  shows "case r of
      Inl e \<Rightarrow> line_spec k encoding limit dec err (feed st (chunk @ ys)) = (lines, Decode_Failed e)
    | Inr st1 \<Rightarrow> resumable k (st1\<lparr>ls_search := complete_length k (ls_pending st1)\<rparr>) \<and>
        line_spec k encoding limit dec err (feed st (chunk @ ys)) =
          prepend lines (line_spec k encoding limit dec err (feed st1 ys))"
proof -
  have "find_newline k (ls_pending (feed st chunk)) (ls_search (feed st chunk)) =
      find_newline k (ls_pending (feed st chunk)) 0"
    using st find_newline_resume [of k "ls_pending st" chunk] by (simp add: resumable_def feed_def)
  from drain_spec [OF this d, of err ys] show ?thesis
    by (auto simp: feed_feed resumable_def split: sum.splits)
qed

lemma byte_chunks_spec:
  "resumable Byte_LF st \<Longrightarrow> \<not> too_long Byte_LF limit (ls_pending st) \<Longrightarrow> [] \<notin> set chunks \<Longrightarrow>
   byte_chunks encoding limit dec chunks err st =
     line_spec Byte_LF encoding limit dec err (feed st (concat chunks))"
proof (induction chunks arbitrary: st)
  case Nil
  then show ?case by (simp add: line_spec_last resumable_def)
next
  case (Cons chunk chunks)
  obtain lines r where d: "drain Byte_LF encoding limit dec (feed st chunk) = (lines, r)" by fastforce
  note step = read_step [OF Cons.prems(1) d, of err "concat chunks"]
  have nonempty: "chunk \<noteq> []" using Cons.prems(3) by auto
  show ?case
  proof (cases r)
    case (Inl e)
    with step d nonempty show ?thesis by (simp add: feed_def)
  next
    case (Inr st1)
    let ?st1 = "st1\<lparr>ls_search := complete_length Byte_LF (ls_pending st1)\<rparr>"
    from Inr step have res: "resumable Byte_LF ?st1"
      "line_spec Byte_LF encoding limit dec err (feed st (chunk @ concat chunks)) =
        prepend lines (line_spec Byte_LF encoding limit dec err (feed st1 (concat chunks)))" by simp_all
    show ?thesis
    proof (cases "too_long Byte_LF limit (ls_pending st1)")
      case True
      have "find_newline Byte_LF (ls_pending st1) 0 = None" using res(1) by (simp add: resumable_def)
      note tl = line_spec_too_long [OF this True, where encoding = encoding and dec = "dec" and err = err and
          ys = "concat chunks"]
      from res(2) [unfolded tl] d Inr nonempty show ?thesis
        using True [unfolded too_long_byte] by (simp add: feed_def Let_def)
    next
      case False
      with Cons.IH [OF res(1)] Cons.prems have
        "byte_chunks encoding limit dec chunks err ?st1 =
          line_spec Byte_LF encoding limit dec err (feed st1 (concat chunks))" by simp
      with False [unfolded too_long_byte] res(2) d Inr nonempty show ?thesis
        by (simp add: feed_def Let_def)
    qed
  qed
qed

text \<open>The UTF-16 loop once the byte order is known.\<close>

lemma too_long_utf16:
  "too_long (Utf16_LF o') limit xs \<longleftrightarrow>
     int (length xs - length xs mod 2) -
       (if ends_with (take (length xs - length xs mod 2) xs) (carriage_return (Utf16_LF o')) then 2 else 0) > int limit"
  by (cases o') (auto simp: too_long_def possible_cr_def complete_length_def ending_width_def
      carriage_return_def ends_with_def)

lemma complete_length_utf16: "complete_length (Utf16_LF o') xs = length xs - length xs mod 2"
  by (simp add: complete_length_def ending_width_def)

lemma utf16_chunks_known:
  "resumable (Utf16_LF o') st \<Longrightarrow> \<not> too_long (Utf16_LF o') limit (ls_pending st) \<Longrightarrow> [] \<notin> set chunks \<Longrightarrow>
   utf16_chunks encoding canonical limit dec chunks err (Some o') st =
     line_spec (Utf16_LF o') encoding limit (dec o') err (feed st (concat chunks))"
proof (induction chunks arbitrary: st)
  case Nil
  then show ?case by (simp add: line_spec_last resumable_def)
next
  case (Cons chunk chunks)
  obtain lines r where d: "drain (Utf16_LF o') encoding limit (dec o') (feed st chunk) = (lines, r)" by fastforce
  note step = read_step [OF Cons.prems(1) d, of err "concat chunks"]
  have nonempty: "chunk \<noteq> []" using Cons.prems(3) by auto
  show ?case
  proof (cases r)
    case (Inl e)
    with step d nonempty show ?thesis by (simp add: feed_def Let_def)
  next
    case (Inr st1)
    let ?st1 = "st1\<lparr>ls_search := complete_length (Utf16_LF o') (ls_pending st1)\<rparr>"
    from Inr step have res: "resumable (Utf16_LF o') ?st1"
      "line_spec (Utf16_LF o') encoding limit (dec o') err (feed st (chunk @ concat chunks)) =
        prepend lines (line_spec (Utf16_LF o') encoding limit (dec o') err (feed st1 (concat chunks)))" by simp_all
    show ?thesis
    proof (cases "too_long (Utf16_LF o') limit (ls_pending st1)")
      case True
      have "find_newline (Utf16_LF o') (ls_pending st1) 0 = None" using res(1) by (simp add: resumable_def)
      note tl = line_spec_too_long [OF this True, where encoding = encoding and dec = "(dec o')" and err = err and
          ys = "concat chunks"]
      from res(2) [unfolded tl] d Inr nonempty show ?thesis
        using True [unfolded too_long_utf16] by (simp add: feed_def Let_def)
    next
      case False
      with Cons.IH [OF res(1)] Cons.prems have
        "utf16_chunks encoding canonical limit dec chunks err (Some o') ?st1 =
          line_spec (Utf16_LF o') encoding limit (dec o') err (feed st1 (concat chunks))" by simp
      with False [unfolded too_long_utf16] res(2) d Inr nonempty show ?thesis
        by (simp add: feed_def Let_def complete_length_utf16)
    qed
  qed
qed

text \<open>
  The specification of a UTF-16 stream without a declared order: its first two bytes decide,
  and an input of fewer bytes is taken as little-endian.
\<close>

definition utf16_spec ::
  "pystr \<Rightarrow> pystr \<Rightarrow> nat \<Rightarrow> utf16_decoder \<Rightarrow> py_exn option \<Rightarrow> line_state \<Rightarrow> decoding" where
  "utf16_spec encoding canonical limit dec err st =
     (if length (ls_pending st) < 2 then last_line encoding limit (dec Little) err st
      else (case utf16_byte_order (ls_pending st) encoding canonical (ls_number st) of
          Inl e \<Rightarrow> ([], Decode_Failed e)
        | Inr o' \<Rightarrow> line_spec (Utf16_LF o') encoding limit (dec o') err st))"

lemma utf16_byte_order_append:
  "2 \<le> length xs \<Longrightarrow> utf16_byte_order (xs @ ys) encoding canonical n = utf16_byte_order xs encoding canonical n"
  by (simp add: utf16_byte_order_def)

lemma short_resumable:
  assumes "length (ls_pending st) < 2" "ls_search st = 0"
  shows "resumable (Utf16_LF o') st" "\<not> too_long (Utf16_LF o') limit (ls_pending st)"
proof -
  have "first_from (newline_at (Utf16_LF o') (ls_pending st)) 0 None"
    using assms(1) by (auto simp: first_from_def newline_at_def ending_width_def)
  then have "find_newline (Utf16_LF o') (ls_pending st) 0 = None" by (simp add: find_newline_iff)
  moreover have "complete_length (Utf16_LF o') (ls_pending st) = 0"
    using assms(1) by (simp add: complete_length_utf16)
  ultimately show "resumable (Utf16_LF o') st" "\<not> too_long (Utf16_LF o') limit (ls_pending st)"
    using assms(2) by (simp_all add: resumable_def too_long_def)
qed

lemma utf16_chunks_spec:
  "length (ls_pending st) < 2 \<Longrightarrow> ls_search st = 0 \<Longrightarrow> [] \<notin> set chunks \<Longrightarrow>
   utf16_chunks encoding canonical limit dec chunks err None st =
     utf16_spec encoding canonical limit dec err (feed st (concat chunks))"
proof (induction chunks arbitrary: st)
  case Nil
  then show ?case by (simp add: utf16_spec_def)
next
  case (Cons chunk chunks)
  have nonempty: "chunk \<noteq> []" using Cons.prems(3) by auto
  let ?st = "feed st chunk"
  show ?case
  proof (cases "length (ls_pending ?st) < 2")
    case True
    have eq: "utf16_chunks encoding canonical limit dec (chunk # chunks) err None st =
        utf16_chunks encoding canonical limit dec chunks err None ?st"
      using True nonempty by (simp add: Let_def feed_def)
    have "ls_search ?st = 0" using Cons.prems(2) by (simp add: feed_def)
    with Cons.IH [OF True] Cons.prems(3) show ?thesis unfolding eq by (simp add: feed_feed)
  next
    case False
    let ?o = "utf16_byte_order (ls_pending ?st) encoding canonical (ls_number st)"
    have app: "utf16_byte_order (ls_pending st @ chunk @ concat chunks) encoding canonical (ls_number st) = ?o"
      using False utf16_byte_order_append [of "ls_pending ?st" "concat chunks"] by simp
    show ?thesis
    proof (cases ?o)
      case (Inl e)
      with False nonempty app show ?thesis
        by (simp add: Let_def utf16_spec_def feed_def)
    next
      case (Inr o')
      have eq: "utf16_chunks encoding canonical limit dec (chunk # chunks) err None st =
          utf16_chunks encoding canonical limit dec (chunk # chunks) err (Some o') st"
        using False nonempty Inr by (simp add: Let_def feed_def)
      have "utf16_chunks encoding canonical limit dec (chunk # chunks) err (Some o') st =
          line_spec (Utf16_LF o') encoding limit (dec o') err (feed st (concat (chunk # chunks)))"
        by (rule utf16_chunks_known [OF short_resumable [OF Cons.prems(1,2)] Cons.prems(3)])
      with eq False app Inr show ?thesis by (simp add: utf16_spec_def)
    qed
  qed
qed

section \<open>The result of decoding is a function of the bytes\<close>

text \<open>
  The bytes of a stream and how it ends: an empty read is the end of the input, and nothing
  is read after it.
\<close>

definition stream_bytes :: "stream \<Rightarrow> bytes" where
  "stream_bytes s = concat (takeWhile (\<lambda>c. c \<noteq> []) (stream_chunks s))"

definition stream_end :: "stream \<Rightarrow> py_exn option" where
  "stream_end s = (if [] \<in> set (stream_chunks s) then None else stream_error s)"

lemma byte_chunks_eof:
  "byte_chunks encoding limit dec chunks err st =
     byte_chunks encoding limit dec (takeWhile (\<lambda>c. c \<noteq> []) chunks) (if [] \<in> set chunks then None else err) st"
proof (induction chunks arbitrary: st)
  case (Cons chunk chunks)
  show ?case
  proof (cases "chunk = []")
    case False
    then have "[] \<in> set (chunk # chunks) \<longleftrightarrow> [] \<in> set chunks" by auto
    with False show ?thesis unfolding byte_chunks.simps takeWhile.simps Cons.IH by simp
  qed simp
qed simp

lemma utf16_chunks_eof:
  "utf16_chunks encoding canonical limit dec chunks err order st =
     utf16_chunks encoding canonical limit dec (takeWhile (\<lambda>c. c \<noteq> []) chunks)
       (if [] \<in> set chunks then None else err) order st"
proof (induction chunks arbitrary: order st)
  case (Cons chunk chunks)
  show ?case
  proof (cases "chunk = []")
    case False
    then have "[] \<in> set (chunk # chunks) \<longleftrightarrow> [] \<in> set chunks" by auto
    with False show ?thesis unfolding utf16_chunks.simps takeWhile.simps Cons.IH by simp
  qed simp
qed simp

lemma initial_resumable: "resumable k initial_state" "\<not> too_long k limit (ls_pending initial_state)"
proof -
  have "first_from (newline_at k []) 0 None"
    using ending_width_pos [of k] by (auto simp: first_from_def newline_at_def)
  then have "find_newline k [] 0 = None" by (simp add: find_newline_iff)
  then show "resumable k initial_state" "\<not> too_long k limit (ls_pending initial_state)"
    by (simp_all add: resumable_def too_long_def complete_length_def initial_state_def)
qed

lemma nonempty_reads: "[] \<notin> set (takeWhile (\<lambda>c. c \<noteq> []) chunks)"
  using set_takeWhileD by fastforce

definition whole_input :: "stream \<Rightarrow> line_state" where
  "whole_input s = feed initial_state (stream_bytes s)"

lemma iter_byte_lines_spec:
  "iter_byte_lines cs s encoding canonical limit =
     line_spec Byte_LF encoding limit (decode_line cs encoding canonical) (stream_end s) (whole_input s)"
  unfolding iter_byte_lines_def byte_chunks_eof [of _ _ _ "stream_chunks s"] stream_end_def whole_input_def
    stream_bytes_def
  by (rule byte_chunks_spec [OF initial_resumable nonempty_reads])

definition utf16_decoder :: "codecs \<Rightarrow> pystr \<Rightarrow> pystr \<Rightarrow> utf16_decoder" where
  "utf16_decoder cs encoding canonical =
     (\<lambda>o' content start number first. decode_utf16_line cs encoding canonical o' content start number)"

lemma iter_utf16_lines_spec:
  "iter_utf16_lines cs s encoding canonical limit =
     (case declared_order canonical of
        None \<Rightarrow> utf16_spec encoding canonical limit (utf16_decoder cs encoding canonical) (stream_end s) (whole_input s)
      | Some o' \<Rightarrow> line_spec (Utf16_LF o') encoding limit (utf16_decoder cs encoding canonical o') (stream_end s)
          (whole_input s))"
proof -
  have short: "length (ls_pending initial_state) < 2" "ls_search initial_state = 0"
    by (simp_all add: initial_state_def)
  have eof: "iter_utf16_lines cs s encoding canonical limit =
      utf16_chunks encoding canonical limit (utf16_decoder cs encoding canonical)
        (takeWhile (\<lambda>c. c \<noteq> []) (stream_chunks s)) (stream_end s) (declared_order canonical) initial_state"
    unfolding iter_utf16_lines_def utf16_chunks_eof [of _ _ _ _ "stream_chunks s"] stream_end_def utf16_decoder_def ..
  show ?thesis
  proof (cases "declared_order canonical")
    case None
    then show ?thesis unfolding eof
      by (simp add: utf16_chunks_spec [OF short nonempty_reads] whole_input_def stream_bytes_def)
  next
    case (Some o')
    then show ?thesis unfolding eof
      by (simp add: utf16_chunks_known [OF initial_resumable nonempty_reads] whole_input_def stream_bytes_def)
  qed
qed

text \<open>Two streams with the same bytes and the same end decode to the same lines and end.\<close>

definition same_bytes :: "stream \<Rightarrow> stream \<Rightarrow> bool" where
  "same_bytes s s' \<longleftrightarrow> stream_bytes s = stream_bytes s' \<and> stream_end s = stream_end s'"

lemma iter_decoded_lines_same:
  assumes "same_bytes s s'"
  shows "iter_decoded_lines cs s encoding limit = iter_decoded_lines cs s' encoding limit"
proof -
  from assms have eq: "stream_end s = stream_end s'" "whole_input s = whole_input s'"
    by (simp_all add: same_bytes_def whole_input_def)
  show ?thesis unfolding iter_decoded_lines_def iter_byte_lines_spec iter_utf16_lines_spec eq ..
qed

section \<open>Line numbers\<close>

text \<open>The lines are numbered consecutively from one.\<close>

definition numbered_from :: "int \<Rightarrow> decoded_line list \<Rightarrow> bool" where
  "numbered_from n ls \<longleftrightarrow> (\<forall>i < length ls. line_number (ls ! i) = n + int i)"

lemma numbered_from_Nil [simp]: "numbered_from n []"
  by (simp add: numbered_from_def)

lemma numbered_from_Cons [simp]:
  "numbered_from n (l # ls) \<longleftrightarrow> line_number l = n \<and> numbered_from (n + 1) ls"
  by (auto simp: numbered_from_def nth_Cons algebra_simps split: nat.splits)

lemma take_line_number:
  "take_line encoding limit dec content start n first = Inr l \<Longrightarrow> line_number l = n"
  by (auto simp: take_line_def split: if_splits)

lemma last_line_numbered: "numbered_from (ls_number st) (fst (last_line encoding limit dec err st))"
  by (auto simp: last_line_def take_line_number split: option.split sum.split)

lemma line_spec_numbered: "numbered_from (ls_number st) (fst (line_spec k encoding limit dec err st))"
proof (induction k encoding limit dec err st rule: line_spec.induct)
  case (1 k encoding limit dec err st)
  show ?case
  proof (cases "find_newline k (ls_pending st) 0")
    case None
    then show ?thesis by (simp add: line_spec_None last_line_numbered)
  next
    case (Some nl)
    from 1 [OF Some] show ?thesis
      by (auto simp: line_spec_Some [OF Some] prepend_def next_state_def take_line_number split: sum.split)
  qed
qed

lemma whole_input_number [simp]: "ls_number (whole_input s) = 1"
  by (simp add: whole_input_def initial_state_def)

lemma iter_decoded_lines_numbered: "numbered_from 1 (fst (iter_decoded_lines cs s encoding limit))"
proof -
  note l = line_spec_numbered [of "whole_input s", simplified] last_line_numbered [of "whole_input s", simplified]
  show ?thesis
    by (auto simp: iter_decoded_lines_def iter_byte_lines_spec iter_utf16_lines_spec utf16_spec_def l
        split: option.split sum.split)
qed

end
