(* ===== verification/Dir_Invariants.thy ===== *)
theory Dir_Invariants
  imports Dir_Parser Decoding_Chunks
begin

text \<open>
  What every run of the listing parser guarantees: its entries are well formed and name
  safe paths, its running totals are those of the entries, its diagnostics are bounded, and
  a run without errors has read a footer that agrees with the entries.
\<close>

section \<open>Totals\<close>

definition file_entries :: "parsed_entry list \<Rightarrow> parsed_entry list" where
  "file_entries es = List.filter (\<lambda>e. entry_kind e = FILE) es"

definition entry_bytes :: "parsed_entry \<Rightarrow> int" where
  "entry_bytes e = (case entry_size e of Some n \<Rightarrow> n | None \<Rightarrow> 0)"

definition total_bytes :: "parsed_entry list \<Rightarrow> int" where
  "total_bytes es = sum_list (map entry_bytes (file_entries es))"

lemma file_entries_append [simp]: "file_entries (es @ es') = file_entries es @ file_entries es'"
  by (simp add: file_entries_def)

lemma file_entries_simps [simp]:
  "file_entries [] = []"
  "file_entries (e # es) = (if entry_kind e = FILE then e # file_entries es else file_entries es)"
  by (simp_all add: file_entries_def)

lemma total_bytes_append [simp]: "total_bytes (es @ es') = total_bytes es + total_bytes es'"
  by (simp add: total_bytes_def)

lemma total_bytes_simps [simp]:
  "total_bytes [] = 0"
  "total_bytes (e # es) = (if entry_kind e = FILE then entry_bytes e else 0) + total_bytes es"
  by (simp_all add: total_bytes_def)

text \<open>A \<open>File(s)\<close> line that states a number of files and of bytes.\<close>

definition states_totals :: "decoded_line \<Rightarrow> int \<Rightarrow> int \<Rightarrow> bool" where
  "states_totals l n b \<longleftrightarrow>
     (\<exists>x y. file_summary (line_text l) = Some (x, y) \<and> parse_integer x = Some n \<and> parse_integer y = Some b)"

text \<open>The time of an entry, if it has one, is in the zone.\<close>

definition time_in_zone :: "pystr \<Rightarrow> parsed_entry \<Rightarrow> bool" where
  "time_in_zone z e \<longleftrightarrow> (\<forall>t. entry_modified_local e = Some t \<longrightarrow> dt_tz t = Some (Zone z))"

section \<open>The parts of a step\<close>

abbreviation failed :: "dir_state \<Rightarrow> bool" where
  "failed st \<equiv> coll_has_errors (ds_diagnostics st)"

lemma ds_error_sel [simp]:
  "ds_section (ds_error code m n st) = ds_section st"
  "ds_aggregate (ds_error code m n st) = ds_aggregate st"
  "ds_total_files (ds_error code m n st) = ds_total_files st"
  "ds_total_size (ds_error code m n st) = ds_total_size st"
  "ds_saw_section (ds_error code m n st) = ds_saw_section st"
  "failed (ds_error code m n st)"
  by (simp_all add: ds_error_def)

lemma ds_error_if_sel [simp]:
  "ds_section (ds_error_if b code m n st) = ds_section st"
  "ds_aggregate (ds_error_if b code m n st) = ds_aggregate st"
  "ds_total_files (ds_error_if b code m n st) = ds_total_files st"
  "ds_total_size (ds_error_if b code m n st) = ds_total_size st"
  "ds_saw_section (ds_error_if b code m n st) = ds_saw_section st"
  "failed (ds_error_if b code m n st) \<longleftrightarrow> failed st \<or> b"
  by (simp_all add: ds_error_if_def)

text \<open>Collectors stay within their bound.\<close>

definition bounded :: "collector \<Rightarrow> bool" where
  "bounded c \<longleftrightarrow> collector_ok c \<and> coll_limit c = MAX_DIAGNOSTICS"

lemma bounded_intros [intro, simp]:
  "bounded c \<Longrightarrow> bounded (coll_error code m l c)"
  "bounded c \<Longrightarrow> bounded (add_diagnostic d c)"
  "bounded c \<Longrightarrow> bounded (observe_line n s c)"
  "bounded (new_collector MAX_DIAGNOSTICS)"
  by (auto simp: bounded_def) (simp_all add: new_collector_def)

lemma bounded_ds [simp]:
  "bounded (ds_diagnostics st) \<Longrightarrow> bounded (ds_diagnostics (ds_error code m n st))"
  "bounded (ds_diagnostics st) \<Longrightarrow> bounded (ds_diagnostics (ds_error_if b code m n st))"
  by (simp_all add: ds_error_def ds_error_if_def)

lemma ds_close_section_sel [simp]:
  "sec_path (ds_section (ds_close_section st)) = None"
  "ds_aggregate (ds_close_section st) = ds_aggregate st"
  "ds_total_files (ds_close_section st) = ds_total_files st"
  "ds_total_size (ds_close_section st) = ds_total_size st"
  "ds_saw_section (ds_close_section st) = ds_saw_section st"
  by (auto simp: ds_close_section_def section_close_def Let_def split: prod.split)

lemma ds_close_section_diagnostics:
  "failed st \<Longrightarrow> failed (ds_close_section st)"
  "bounded (ds_diagnostics st) \<Longrightarrow> bounded (ds_diagnostics (ds_close_section st))"
  by (auto simp: ds_close_section_def section_close_def Let_def split: prod.split)

section \<open>The invariant\<close>

definition section_valid :: "section_state \<Rightarrow> bool" where
  "section_valid s \<longleftrightarrow> (\<forall>p. sec_path s = Some p \<longrightarrow> sec_mountable s \<longrightarrow> section_ok p)"

definition footer_agrees :: "decoded_line list \<Rightarrow> dir_state \<Rightarrow> bool" where
  "footer_agrees ls st \<longleftrightarrow> (agg_file_summary (ds_aggregate st) \<longrightarrow>
     (\<exists>l \<in> set ls. states_totals l (ds_total_files st) (ds_total_size st)))"

definition dir_inv :: "pystr \<Rightarrow> decoded_line list \<Rightarrow> parsed_entry list \<Rightarrow> dir_state \<Rightarrow> bool" where
  "dir_inv z ls es st \<longleftrightarrow> bounded (ds_diagnostics st) \<and> section_valid (ds_section st) \<and>
     list_all emitted_ok es \<and>
     ds_total_files st = int (length (file_entries es)) \<and> ds_total_size st = total_bytes es \<and>
     (agg_file_summary (ds_aggregate st) \<longrightarrow> agg_active (ds_aggregate st)) \<and>
     (\<not> failed st \<longrightarrow> list_all (time_in_zone z) es \<and> footer_agrees ls st)"

lemma dir_inv_start: "dir_inv z [] [] new_dir_state"
  by (simp add: dir_inv_def new_dir_state_def section_valid_def new_section_def new_aggregate_def
      footer_agrees_def)

text \<open>A step that emits nothing keeps the invariant when it keeps what the invariant reads.\<close>

lemma dir_inv_quiet:
  assumes "dir_inv z ls es st" "bounded (ds_diagnostics st')" "section_valid (ds_section st')"
    and "ds_total_files st' = ds_total_files st" "ds_total_size st' = ds_total_size st"
    and "agg_file_summary (ds_aggregate st') \<Longrightarrow> agg_active (ds_aggregate st')"
    and "\<not> failed st' \<Longrightarrow> \<not> failed st \<and>
      (agg_file_summary (ds_aggregate st') \<longrightarrow> agg_file_summary (ds_aggregate st) \<or>
         states_totals l (ds_total_files st) (ds_total_size st))"
  shows "dir_inv z (ls @ [l]) es st'"
  using assms by (auto simp: dir_inv_def footer_agrees_def)

lemma dir_inv_error: "dir_inv z ls es st \<Longrightarrow> dir_inv z (ls @ [l]) es (ds_error code m n st)"
  by (rule dir_inv_quiet [where st = st]) (auto simp: dir_inv_def)

lemma dir_inv_skip: "dir_inv z ls es st \<Longrightarrow> dir_inv z (ls @ [l]) es st"
  by (rule dir_inv_quiet [where st = st]) (auto simp: dir_inv_def)

lemma dir_inv_observe:
  "dir_inv z ls es st \<Longrightarrow> dir_inv z ls es (st\<lparr>ds_diagnostics := observe_line n s (ds_diagnostics st)\<rparr>)"
  by (auto simp: dir_inv_def footer_agrees_def)

section \<open>Steps that emit nothing\<close>

lemma footer_step_inv: "dir_inv z ls es st \<Longrightarrow> dir_inv z (ls @ [l]) es (footer_step number st)"
  by (rule dir_inv_quiet [where st = st])
    (auto simp: dir_inv_def footer_step_def Let_def section_valid_def ds_close_section_diagnostics
      intro: ds_close_section_diagnostics)

lemma file_summary_step_inv:
  assumes "dir_inv z ls es st" "file_summary (line_text l) = Some texts"
  shows "dir_inv z (ls @ [l]) es (file_summary_step texts number st)"
  using assms
  by (cases texts, intro dir_inv_quiet [OF assms(1)])
    (auto simp: dir_inv_def file_summary_step_def Let_def section_valid_def states_totals_def
      split: option.splits if_splits)

lemma dir_summary_step_inv:
  "dir_inv z ls es st \<Longrightarrow> dir_inv z (ls @ [l]) es (dir_summary_step texts number st)"
  by (rule dir_inv_quiet [where st = st])
    (auto simp: dir_inv_def dir_summary_step_def Let_def section_valid_def split: if_splits)

lemma file_not_found_step_inv:
  "dir_inv z ls es st \<Longrightarrow> dir_inv z (ls @ [l]) es (file_not_found_step number st)"
  by (rule dir_inv_quiet [where st = st])
    (auto simp: dir_inv_def file_not_found_step_def Let_def section_valid_def split: if_splits)

lemma unknown_step_inv: "dir_inv z ls es st \<Longrightarrow> dir_inv z (ls @ [l]) es (unknown_step line number st)"
  unfolding unknown_step_def by (rule dir_inv_error)

section \<open>Headers and entries\<close>

lemma section_entry_ok: "section_ok raw \<Longrightarrow> 0 < number \<Longrightarrow> emitted_ok (section_entry raw number)"
  using to_mounted_path_ok [of raw "[]"] by (simp add: emitted_ok_def section_entry_def entry_ok_def)

lemma header_step_inv:
  assumes inv: "dir_inv z ls es st" and step: "header_step raw number st = (es', st')" and n: "0 < number"
  shows "dir_inv z (ls @ [l]) (es @ es') st'"
proof (cases "agg_active (ds_aggregate st)")
  case True
  with step have "es' = []" "\<exists>code m n. st' = ds_error code m n st" by (auto simp: header_step_def)
  then show ?thesis using dir_inv_error [OF inv] by auto
next
  case False
  define st1 where "st1 = ds_close_section st"
  define ok where "ok = section_ok raw"
  from step False obtain st2 where st2: "ds_aggregate st2 = ds_aggregate st" "ds_total_files st2 = ds_total_files st"
    "ds_total_size st2 = ds_total_size st" "bounded (ds_diagnostics st2)" "failed st \<Longrightarrow> failed st2"
    and st': "st' = st2\<lparr>ds_section := section_start raw number ok (ds_section st2), ds_saw_section := True\<rparr>"
    and es': "es' = (if ok then [section_entry raw number] else [])"
  proof -
    let ?st2 = "if 0 \<in> set raw \<or> 47 \<in> set raw
      then ds_error ''INVALID_SECTION_PATH'' ''section path contains NUL or forward slash'' number st1
      else if \<not> valid_section_path raw
      then ds_error ''INVALID_SECTION_PATH''
        (''section path contains an empty component or '' @ ''unsupported alternate data stream'') number st1
      else st1"
    have "ok \<longleftrightarrow> valid_section_path raw \<and> \<not> (0 \<in> set raw \<or> 47 \<in> set raw)"
      by (auto simp: ok_def section_ok_def)
    with step False have "st' = ?st2\<lparr>ds_section := section_start raw number ok (ds_section ?st2), ds_saw_section := True\<rparr>"
      "es' = (if ok then [section_entry raw number] else [])"
      by (simp_all add: header_step_def Let_def st1_def [symmetric])
    moreover have "bounded (ds_diagnostics st1)" "failed st \<Longrightarrow> failed st1"
      using inv by (auto simp: st1_def dir_inv_def ds_close_section_diagnostics)
    ultimately show thesis by (intro that [of ?st2]) (simp_all add: st1_def)
  qed
  have e: "list_all emitted_ok es'" "list_all (time_in_zone z) es'" "file_entries es' = []" "total_bytes es' = 0"
    using n by (auto simp: es' ok_def section_entry_ok) (simp_all add: time_in_zone_def section_entry_def)
  have "section_valid (ds_section st')" by (simp add: st' section_valid_def section_start_def ok_def)
  moreover have "failed st \<Longrightarrow> failed st'" using st2(5) by (simp add: st')
  ultimately show ?thesis
    using inv st2(1-4) e False by (auto simp: dir_inv_def footer_agrees_def st')
qed

lemma ds_error_text_sel:
  assumes "ds_error_text code m n st = (r, st')"
  shows "ds_section st' = ds_section st" "ds_aggregate st' = ds_aggregate st"
    "ds_total_files st' = ds_total_files st" "ds_total_size st' = ds_total_size st"
    "failed st \<Longrightarrow> failed st'" "bounded (ds_diagnostics st) \<Longrightarrow> bounded (ds_diagnostics st')"
    "r = None \<Longrightarrow> failed st'"
  using assms by (auto simp: ds_error_text_def make_diagnostic_iff error_diag_def split: sum.splits)

lemma localize_zone: "localize db v key a = Inr t \<Longrightarrow> dt_tz t = Some (Zone key)"
proof -
  have cand: "\<forall>t \<in> snd ` set c'. dt_tz t = Some (Zone key)"
    if "localize_candidate db v key f c = Inr c'" "\<forall>t \<in> snd ` set c. dt_tz t = Some (Zone key)" for f c c'
    using that set_dict_set_subset
    by (fastforce simp: localize_candidate_def Let_def split: sum.splits if_splits option.splits)
  assume "localize db v key a = Inr t"
  then obtain c0 c i where c: "localize_candidate db v key False [] = Inr c0" "localize_candidate db v key True c0 = Inr c"
    "dict_get c i = Some t"
    by (auto simp: localize_def Let_def split: sum.splits if_splits option.splits)
  have "\<forall>t \<in> snd ` set c. dt_tz t = Some (Zone key)" by (rule cand [OF c(2) cand [OF c(1)]]) simp
  moreover have "t \<in> snd ` set c" using c(3) by (force dest: map_of_SomeD)
  ultimately show ?thesis by blast
qed

lemma count_entry_sel:
  "ds_aggregate (count_entry e st) = ds_aggregate st"
  "ds_diagnostics (count_entry e st) = ds_diagnostics st"
  "sec_path (ds_section (count_entry e st)) = sec_path (ds_section st)"
  "sec_mountable (ds_section (count_entry e st)) = sec_mountable (ds_section st)"
  "ds_total_files (count_entry e st) = ds_total_files st + (if entry_kind e = FILE then 1 else 0)"
  "ds_total_size (count_entry e st) = ds_total_size st + (if entry_kind e = FILE then entry_bytes e else 0)"
  by (auto simp: count_entry_def Let_def entry_bytes_def)

text \<open>Counting an emitted entry; no footer has been read while entries are accepted.\<close>

lemma dir_inv_emit:
  assumes inv: "dir_inv z ls es st" and st': "ds_aggregate st' = ds_aggregate st"
    "ds_total_files st' = ds_total_files st" "ds_total_size st' = ds_total_size st"
    "bounded (ds_diagnostics st')" "section_valid (ds_section st')" "failed st \<Longrightarrow> failed st'"
    and e: "emitted_ok e" "\<not> failed st' \<Longrightarrow> time_in_zone z e" and open_section: "\<not> agg_active (ds_aggregate st)"
  shows "dir_inv z (ls @ [l]) (es @ [e]) (count_entry e st')"
  using assms by (auto simp: dir_inv_def footer_agrees_def count_entry_sel section_valid_def)

lemma accept_entry_inv:
  assumes inv: "dir_inv (cfg_zone cfg) ls es st" and e: "emitted_ok e" and open_section: "\<not> agg_active (ds_aggregate st)"
    and step: "accept_entry db cfg e number st = (r, es', st')"
  shows "dir_inv (cfg_zone cfg) (ls @ [l]) (es @ es') st'"
proof -
  have same: "dir_inv (cfg_zone cfg) (ls @ [l]) es st" using inv by (rule dir_inv_skip)
  have base: "bounded (ds_diagnostics st)" "section_valid (ds_section st)" using inv by (simp_all add: dir_inv_def)
  show ?thesis
  proof (cases "entry_modified_local e")
    case None
    have "dir_inv (cfg_zone cfg) (ls @ [l]) (es @ [e]) (count_entry e st)"
      by (rule dir_inv_emit [OF inv]) (use e None open_section base in \<open>simp_all add: time_in_zone_def\<close>)
    with step None show ?thesis by (simp add: accept_entry_def)
  next
    case (Some t)
    show ?thesis
    proof (cases "localize db t (cfg_zone cfg) (cfg_ambiguous cfg)")
      case (Inr t')
      let ?e = "e\<lparr>entry_modified_local := Some t'\<rparr>"
      have "emitted_ok ?e" using e Some
        by (auto simp: emitted_ok_def entry_ok_def split: observation.splits)
      moreover have "time_in_zone (cfg_zone cfg) ?e" using localize_zone [OF Inr] by (simp add: time_in_zone_def)
      ultimately have "dir_inv (cfg_zone cfg) (ls @ [l]) (es @ [?e]) (count_entry ?e st)"
        by (intro dir_inv_emit [OF inv]) (use open_section base in simp_all)
      with step Some Inr show ?thesis by (simp add: accept_entry_def Let_def)
    next
      case (Inl x)
      show ?thesis
      proof (cases "\<exists>m. x = ValueError m")
        case True
        then obtain m where m: "x = ValueError m" ..
        obtain r1 st1 where d: "ds_error_text ''INVALID_LOCAL_TIME'' m number st = (r1, st1)" by fastforce
        note sel = ds_error_text_sel [OF d]
        show ?thesis
        proof (cases r1)
          case None
          have "dir_inv (cfg_zone cfg) (ls @ [l]) (es @ [e]) (count_entry e st1)"
            by (rule dir_inv_emit [OF inv]) (use sel None e open_section base in simp_all)
          with step Some Inl m d None show ?thesis by (simp add: accept_entry_def)
        next
          case (Some y)
          have "dir_inv (cfg_zone cfg) (ls @ [l]) es st1"
            by (rule dir_inv_quiet [OF inv]) (use sel base inv in \<open>auto simp: dir_inv_def\<close>)
          with step \<open>entry_modified_local e = Some t\<close> Inl m d Some show ?thesis by (simp add: accept_entry_def)
        qed
      next
        case False
        with step Some Inl have "es' = []" "st' = st" by (auto simp: accept_entry_def split: py_exn.splits)
        with same show ?thesis by simp
      qed
    qed
  qed
qed

lemma parse_datetime_diagnostics:
  assumes "parse_datetime d t m fmt number c = (r, c')"
  shows "case r of None \<Rightarrow> \<exists>code msg. c' = coll_error code msg (Some number) c | Some _ \<Rightarrow> c' = c"
  using assms
  by (auto simp: parse_datetime_def Let_def split: if_splits sum.splits prod.splits option.splits)

lemma parse_entry_diagnostics:
  assumes "parse_entry raw line number fmt c = (r, c')"
  shows "c' = c \<or> (\<exists>code msg. c' = coll_error code msg (Some number) c)"
proof (cases "re_fullmatch entry_re line")
  case None
  with assms show ?thesis by (simp add: parse_entry_def)
next
  case (Some g)
  obtain modified c1 where p: "parse_datetime (case group g ''date'' of Some w \<Rightarrow> w | None \<Rightarrow> [])
      (case group g ''time'' of Some w \<Rightarrow> w | None \<Rightarrow> []) (group g ''meridiem'') fmt number c = (modified, c1)"
    by fastforce
  show ?thesis
  proof (cases modified)
    case None
    with assms Some p have "c' = c1" by (auto simp: parse_entry_def Let_def)
    with parse_datetime_diagnostics [OF p] None show ?thesis by auto
  next
    case (Some m)
    with parse_datetime_diagnostics [OF p] have "c1 = c" by simp
    with assms \<open>re_fullmatch entry_re line = Some g\<close> p Some show ?thesis
      by (auto simp: parse_entry_def Let_def split: if_splits option.splits)
  qed
qed

lemma entry_step_inv:
  assumes inv: "dir_inv (cfg_zone cfg) ls es st" and n: "0 < number"
    and sec: "section_ok path" "\<not> agg_active (ds_aggregate st)"
    and step: "entry_step db cfg path line number st = Some (r, es', st')"
  shows "dir_inv (cfg_zone cfg) (ls @ [l]) (es @ es') st'"
proof -
  obtain matched e c where p: "parse_entry path line number (cfg_date_format cfg) (ds_diagnostics st) = ((matched, e), c)"
    by (metis prod.exhaust)
  with step have matched by (cases matched) (auto simp: entry_step_def)
  define st1 where "st1 = st\<lparr>ds_diagnostics := c\<rparr>"
  define st2 where "st2 = st1\<lparr>ds_section := (ds_section st1)\<lparr>sec_had_entries := True\<rparr>\<rparr>"
  have c: "bounded c" "coll_has_errors (ds_diagnostics st) \<Longrightarrow> coll_has_errors c"
    using inv parse_entry_diagnostics [OF p] by (auto simp: dir_inv_def)
  have inv1: "dir_inv (cfg_zone cfg) ls es st1" and inv2: "dir_inv (cfg_zone cfg) ls es st2"
    using inv c by (auto simp: st1_def st2_def dir_inv_def footer_agrees_def section_valid_def)
  consider "es' = []" "\<exists>code m. st' = ds_error code m number st1" | "e = None" "es' = []" "st' = st2"
    | e' where "e = Some e'" "accept_entry db cfg e' number st2 = (r, es', st')"
    using step p \<open>matched\<close>
    by (auto simp: entry_step_def st1_def st2_def Let_def split: if_splits option.splits)
  then show ?thesis
  proof cases
    case 1
    with dir_inv_error [OF inv1] show ?thesis by auto
  next
    case 2
    with dir_inv_skip [OF inv2] show ?thesis by simp
  next
    case 3
    have "emitted_ok e'" using parse_entry_ok(1) [OF _ sec(1) n] p 3(1) by blast
    from accept_entry_inv [OF inv2 this _ 3(2)] sec(2) show ?thesis by (simp add: st2_def st1_def)
  qed
qed

section \<open>A whole listing\<close>

theorem dir_step_inv:
  assumes inv0: "dir_inv (cfg_zone cfg) ls es st0" and n: "0 < line_number l"
    and step: "dir_step db cfg l st0 = (r, es', st')"
  shows "dir_inv (cfg_zone cfg) (ls @ [l]) (es @ es') st'"
proof -
  let ?line = "line_text l" and ?n = "line_number l"
  define st where "st = st0\<lparr>ds_diagnostics := observe_line ?n ?line (ds_diagnostics st0)\<rparr>"
  have inv: "dir_inv (cfg_zone cfg) ls es st" unfolding st_def using inv0 by (rule dir_inv_observe)
  note step' = step [unfolded dir_step_def Let_def, folded st_def]
  consider "es' = []" "st' = st" | raw where "header_step raw ?n st = (es', st')"
    | "es' = []" "st' = footer_step ?n st"
    | texts where "file_summary ?line = Some texts" "es' = []" "st' = file_summary_step texts ?n st"
    | texts where "es' = []" "st' = dir_summary_step texts ?n st"
    | "es' = []" "st' = file_not_found_step ?n st"
    | path where "sec_path (ds_section st) = Some path" "sec_mountable (ds_section st)"
        "\<not> agg_active (ds_aggregate st)" "entry_step db cfg path ?line ?n st = Some (r, es', st')"
    | "es' = []" "st' = unknown_step ?line ?n st"
    using step' by (auto split: if_splits option.splits)
  then show ?thesis
  proof cases
    case 1 with dir_inv_skip [OF inv] show ?thesis by simp
  next
    case 2 with header_step_inv [OF inv _ n] show ?thesis by simp
  next
    case 3 with footer_step_inv [OF inv] show ?thesis by simp
  next
    case 4 with file_summary_step_inv [OF inv] show ?thesis by simp
  next
    case 5 with dir_summary_step_inv [OF inv] show ?thesis by simp
  next
    case 6 with file_not_found_step_inv [OF inv] show ?thesis by simp
  next
    case 7
    then have "section_ok path" using inv by (auto simp: dir_inv_def section_valid_def)
    with entry_step_inv [OF inv n] 7 show ?thesis by blast
  next
    case 8 with unknown_step_inv [OF inv] show ?thesis by simp
  qed
qed

lemma dir_lines_inv:
  "dir_inv (cfg_zone cfg) ls0 es0 st \<Longrightarrow> \<forall>l \<in> set ls. 0 < line_number l \<Longrightarrow> dir_lines db cfg ls st = (r, es, st') \<Longrightarrow>
   \<exists>ls1. set ls1 \<subseteq> set ls \<and> (r = None \<longrightarrow> ls1 = ls) \<and> dir_inv (cfg_zone cfg) (ls0 @ ls1) (es0 @ es) st'"
proof (induction ls arbitrary: ls0 es0 st es)
  case Nil
  then show ?case by auto
next
  case (Cons l ls)
  obtain x es1 st1 where s: "dir_step db cfg l st = (x, es1, st1)" by (metis prod.exhaust)
  have inv1: "dir_inv (cfg_zone cfg) (ls0 @ [l]) (es0 @ es1) st1"
    using Cons.prems(2) by (intro dir_step_inv [OF Cons.prems(1) _ s]) simp
  show ?case
  proof (cases x)
    case (Some y)
    with s Cons.prems(3) inv1 show ?thesis by (auto intro!: exI [of _ "[l]"])
  next
    case None
    obtain r2 es2 st2 where d: "dir_lines db cfg ls st1 = (r2, es2, st2)" by (metis prod.exhaust)
    with s None Cons.prems(3) have e: "r = r2" "es = es1 @ es2" "st' = st2" by auto
    from Cons.IH [OF inv1 _ d [folded e(1) e(3)]] Cons.prems(2) obtain ls1 where
      "set ls1 \<subseteq> set ls" "r = None \<longrightarrow> ls1 = ls" "dir_inv (cfg_zone cfg) ((ls0 @ [l]) @ ls1) ((es0 @ es1) @ es2) st'" by auto
    with e show ?thesis by (intro exI [of _ "l # ls1"]) auto
  qed
qed

text \<open>The closing checks only add errors.\<close>

lemma final_error_sel [simp]:
  "coll_has_errors (final_error b code m c) \<longleftrightarrow> coll_has_errors c \<or> b"
  "bounded c \<Longrightarrow> bounded (final_error b code m c)"
  by (auto simp: final_error_def)

lemma dir_finish_sel:
  "bounded (ds_diagnostics st) \<Longrightarrow> bounded (dir_finish st)"
  "\<not> coll_has_errors (dir_finish st) \<Longrightarrow> \<not> failed st \<and> ds_saw_section st \<and>
     agg_active (ds_aggregate st) \<and> agg_file_summary (ds_aggregate st) \<and> agg_dir_summary (ds_aggregate st)"
  using ds_close_section_diagnostics [of st]
  by (auto simp: dir_finish_def Let_def ds_close_section_diagnostics split: if_splits)

lemma positive_numbers: "\<forall>l \<in> set (fst (iter_decoded_lines cs s encoding limit)). 0 < line_number l"
  using iter_decoded_lines_numbered [of cs s encoding limit] by (auto simp: numbered_from_def in_set_conv_nth)

lemma dir_parse_facts:
  fixes db :: tzdb and cs :: codecs and s :: stream and cfg :: dir_config
  defines "r \<equiv> dir_parse db cs cfg s"
    and "ls \<equiv> fst (iter_decoded_lines cs s (cfg_encoding cfg) MAX_LINE_BYTES)"
  shows "list_all emitted_ok (pr_entries r)" and "bounded (pr_collector r)"
    and "pr_error r = None \<Longrightarrow> \<not> coll_has_errors (pr_collector r) \<Longrightarrow>
      list_all (time_in_zone (cfg_zone cfg)) (pr_entries r) \<and>
      (\<exists>l \<in> set ls. states_totals l (int (length (file_entries (pr_entries r)))) (total_bytes (pr_entries r)))"
proof -
  obtain x es st where d: "dir_lines db cfg ls new_dir_state = (x, es, st)" by (metis prod.exhaust)
  have "\<forall>l \<in> set ls. 0 < line_number l" using positive_numbers by (simp add: ls_def)
  from dir_lines_inv [OF dir_inv_start this d] obtain ls1 where
    sub: "set ls1 \<subseteq> set ls" and inv: "dir_inv (cfg_zone cfg) ls1 es st" by auto
  define e where "e = snd (iter_decoded_lines cs s (cfg_encoding cfg) MAX_LINE_BYTES)"
  have r: "r = dir_parse_lines db cfg (ls, e)" by (simp add: r_def dir_parse_def ls_def e_def)
  have es: "pr_entries r = es"
    using d by (auto simp: r dir_parse_lines_def dir_parse_from_def split: option.splits decode_end.splits prod.splits)
  have "bounded (pr_collector r) \<and> (pr_error r = None \<longrightarrow> \<not> coll_has_errors (pr_collector r) \<longrightarrow> \<not> failed st \<and>
      agg_file_summary (ds_aggregate st))"
  proof -
    have b: "bounded (ds_diagnostics st)" using inv by (simp add: dir_inv_def)
    consider (raised) y where "x = Some y" | (failed) y where "x = None" "e = Read_Failed y"
      | (ended) "x = None" "e = End_Of_Input" | (decode) de where "x = None" "e = Decode_Failed de"
      by (cases x; cases e) auto
    then show ?thesis
    proof cases
      case decode
      obtain r1 st1 where t: "ds_error_text ''DECODE_ERROR'' (decode_error_text de) (derr_line_number de) st = (r1, st1)"
        by fastforce
      note sel = ds_error_text_sel [OF t]
      show ?thesis
      proof (cases r1)
        case None
        have "failed st1" "bounded (ds_diagnostics st1)" using sel None b by simp_all
        with dir_finish_sel [of st1] d decode t None show ?thesis by (auto simp: r dir_parse_lines_def dir_parse_from_def)
      next
        case (Some y)
        with d decode t sel b show ?thesis by (simp add: r dir_parse_lines_def dir_parse_from_def)
      qed
    qed (use d b dir_finish_sel [of st] in \<open>auto simp: r dir_parse_lines_def dir_parse_from_def\<close>)
  qed
  then show "bounded (pr_collector r)"
    and "pr_error r = None \<Longrightarrow> \<not> coll_has_errors (pr_collector r) \<Longrightarrow>
      list_all (time_in_zone (cfg_zone cfg)) (pr_entries r) \<and>
      (\<exists>l \<in> set ls. states_totals l (int (length (file_entries (pr_entries r)))) (total_bytes (pr_entries r)))"
    using inv sub by (auto simp: dir_inv_def footer_agrees_def es)
  show "list_all emitted_ok (pr_entries r)" using inv by (simp add: es dir_inv_def)
qed

end
