(* ===== verification/Dir_Diagnostics.thy ===== *)
theory Dir_Diagnostics
  imports Dir_Invariants
begin

text \<open>
  The diagnostics of a listing. The parser never reads its collector, so two runs that differ in the
  limit of the collector alone report the same diagnostics; the one with the smaller limit keeps the
  first of them, and both remember that there was an error.
\<close>

section \<open>What a run does to its collector\<close>

definition view_state :: "(collector \<Rightarrow> collector) \<Rightarrow> dir_state \<Rightarrow> dir_state" where
  "view_state v st = st\<lparr>ds_diagnostics := v (ds_diagnostics st)\<rparr>"

lemma view_state_sel [simp]:
  "ds_section (view_state v st) = ds_section st" "ds_aggregate (view_state v st) = ds_aggregate st"
  "ds_total_files (view_state v st) = ds_total_files st" "ds_total_size (view_state v st) = ds_total_size st"
  "ds_saw_section (view_state v st) = ds_saw_section st" "ds_diagnostics (view_state v st) = v (ds_diagnostics st)"
  by (simp_all add: view_state_def)

lemma view_state_update:
  "(view_state v st)\<lparr>ds_section := s\<rparr> = view_state v (st\<lparr>ds_section := s\<rparr>)"
  "(view_state v st)\<lparr>ds_aggregate := a\<rparr> = view_state v (st\<lparr>ds_aggregate := a\<rparr>)"
  "(view_state v st)\<lparr>ds_saw_section := b\<rparr> = view_state v (st\<lparr>ds_saw_section := b\<rparr>)"
  "(view_state v st)\<lparr>ds_total_files := i\<rparr> = view_state v (st\<lparr>ds_total_files := i\<rparr>)"
  "(view_state v st)\<lparr>ds_diagnostics := v c\<rparr> = view_state v (st\<lparr>ds_diagnostics := c\<rparr>)"
  "(view_state v st)\<lparr>ds_total_size := i\<rparr> = view_state v (st\<lparr>ds_total_size := i\<rparr>)"
  by (simp_all add: view_state_def)

lemma view_state_if:
  "(if b then view_state v x else view_state v y) = view_state v (if b then x else y)"
  by simp

lemma update_diagnostics:
  "ds_diagnostics (st\<lparr>ds_section := s\<rparr>) = ds_diagnostics st" "ds_diagnostics (st\<lparr>ds_aggregate := a\<rparr>) = ds_diagnostics st"
  "ds_diagnostics (st\<lparr>ds_diagnostics := c\<rparr>) = c"
  by simp_all

lemmas view_rules = Let_def view_state_sel view_state_update view_state_if update_diagnostics if_cancel

text \<open>
  A view of collectors that adding a diagnostic and observing a line respect, on the collectors that
  satisfy an invariant; every operation of the parser then respects it.
\<close>

locale collector_view =
  fixes view :: "collector \<Rightarrow> collector" and kept :: "collector \<Rightarrow> bool"
  assumes add: "kept c \<Longrightarrow> add_diagnostic d (view c) = view (add_diagnostic d c)" "kept c \<Longrightarrow> kept (add_diagnostic d c)"
    and observe: "kept c \<Longrightarrow> observe_line n t (view c) = view (observe_line n t c)" "kept c \<Longrightarrow> kept (observe_line n t c)"
begin

lemma keeps_if: "kept (ds_diagnostics (if b then x else y)) \<longleftrightarrow> (if b then kept (ds_diagnostics x) else kept (ds_diagnostics y))"
  by simp

lemma error [simp]:
  "kept c \<Longrightarrow> coll_error code m l (view c) = view (coll_error code m l c)" "kept c \<Longrightarrow> kept (coll_error code m l c)"
  by (simp_all add: coll_error_def add)

lemma ds_error_view [simp]:
  "kept (ds_diagnostics st) \<Longrightarrow> ds_error code m n (view_state view st) = view_state view (ds_error code m n st)"
  "kept (ds_diagnostics st) \<Longrightarrow> kept (ds_diagnostics (ds_error code m n st))"
  by (simp_all add: ds_error_def view_state_def)

lemma ds_error_if_view [simp]:
  "kept (ds_diagnostics st) \<Longrightarrow> ds_error_if b code m n (view_state view st) = view_state view (ds_error_if b code m n st)"
  "kept (ds_diagnostics st) \<Longrightarrow> kept (ds_diagnostics (ds_error_if b code m n st))"
  by (simp_all add: ds_error_if_def)

lemma section_close_view:
  "kept c \<Longrightarrow> section_close s (view c) = apsnd view (section_close s c)" "kept c \<Longrightarrow> kept (snd (section_close s c))"
  by (auto simp: section_close_def Let_def)

lemma close_section [simp]:
  "kept (ds_diagnostics st) \<Longrightarrow> ds_close_section (view_state view st) = view_state view (ds_close_section st)"
  "kept (ds_diagnostics st) \<Longrightarrow> kept (ds_diagnostics (ds_close_section st))"
  by (simp_all add: ds_close_section_def section_close_view view_state_def split_beta)

lemma ds_error_text_view:
  "kept (ds_diagnostics st) \<Longrightarrow> ds_error_text code m n (view_state view st) = apsnd (view_state view) (ds_error_text code m n st)"
  "kept (ds_diagnostics st) \<Longrightarrow> kept (ds_diagnostics (snd (ds_error_text code m n st)))"
  by (simp_all add: ds_error_text_def add view_state_def split: sum.split)

lemma header_step_view:
  assumes "kept (ds_diagnostics st)"
  shows "header_step raw number (view_state view st) = apsnd (view_state view) (header_step raw number st)"
    and "kept (ds_diagnostics (snd (header_step raw number st)))"
  using assms by (auto simp: header_step_def Let_def view_state_update)

lemma footer_step_view:
  assumes "kept (ds_diagnostics st)"
  shows "footer_step number (view_state view st) = view_state view (footer_step number st)"
    and "kept (ds_diagnostics (footer_step number st))"
  using assms by (auto simp: footer_step_def Let_def view_state_update)

lemma file_summary_step_view:
  assumes "kept (ds_diagnostics st)"
  shows "file_summary_step texts number (view_state view st) = view_state view (file_summary_step texts number st)"
    and "kept (ds_diagnostics (file_summary_step texts number st))"
proof -
  note rules = assms file_summary_step_def prod.case option.case view_rules keeps_if error ds_error_view ds_error_if_view
    if_True if_False simp_thms
  have "file_summary_step texts number (view_state view st) = view_state view (file_summary_step texts number st) \<and>
      kept (ds_diagnostics (file_summary_step texts number st))"
  proof (cases "\<exists>a b. parse_integer (fst texts) = Some a \<and> parse_integer (snd texts) = Some b")
    case False
    then have "file_summary_step texts number st' =
        ds_error ''INVALID_SUMMARY_NUMBER'' ''invalid summary number'' number st'" for st'
      by (auto simp: file_summary_step_def split: option.split)
    then show ?thesis using assms by simp
  next
    case True
    then obtain a b where n: "parse_integer (fst texts) = Some a" "parse_integer (snd texts) = Some b" by blast
    then show ?thesis by (cases "agg_active (ds_aggregate st)") (simp_all only: rules)
  qed
  then show "file_summary_step texts number (view_state view st) = view_state view (file_summary_step texts number st)"
    "kept (ds_diagnostics (file_summary_step texts number st))" by blast+
qed

lemma dir_summary_step_view:
  assumes "kept (ds_diagnostics st)"
  shows "dir_summary_step texts number (view_state view st) = view_state view (dir_summary_step texts number st)"
    and "kept (ds_diagnostics (dir_summary_step texts number st))"
  by (simp_all only: assms dir_summary_step_def view_rules keeps_if ds_error_view ds_error_if_view)

lemma file_not_found_step_view:
  assumes "kept (ds_diagnostics st)"
  shows "file_not_found_step number (view_state view st) = view_state view (file_not_found_step number st)"
    and "kept (ds_diagnostics (file_not_found_step number st))"
  using assms by (auto simp: file_not_found_step_def Let_def view_state_update)

lemma count_entry_view:
  "count_entry e (view_state view st) = view_state view (count_entry e st)"
  "ds_diagnostics (count_entry e st) = ds_diagnostics st"
  by (simp_all add: count_entry_def Let_def view_state_def)

lemma accept_entry_view:
  assumes "kept (ds_diagnostics st)"
  shows "accept_entry db cfg e number (view_state view st) =
      apsnd (apsnd (view_state view)) (accept_entry db cfg e number st)"
    and "kept (ds_diagnostics (snd (snd (accept_entry db cfg e number st))))"
proof -
  have kept: "kept (ds_diagnostics st')" if "ds_error_text code m n st = (r, st')" for code m n r st'
    using ds_error_text_view(2) [OF assms, of code m n] that by simp
  show "accept_entry db cfg e number (view_state view st) =
      apsnd (apsnd (view_state view)) (accept_entry db cfg e number st)"
    "kept (ds_diagnostics (snd (snd (accept_entry db cfg e number st))))"
    using assms
    by (auto simp: accept_entry_def Let_def count_entry_view ds_error_text_view(1) split: option.splits sum.splits
        py_exn.splits prod.splits dest: kept)
qed

lemma parse_datetime_view:
  assumes "kept c"
  shows "parse_datetime d t m fmt number (view c) = apsnd view (parse_datetime d t m fmt number c)"
    and "kept (snd (parse_datetime d t m fmt number c))"
  using assms
  by (auto simp: parse_datetime_def Let_def split: option.split sum.split prod.split)

lemma parse_entry_view:
  assumes "kept c"
  shows "parse_entry path line number fmt (view c) = apsnd view (parse_entry path line number fmt c)"
    and "kept (snd (parse_entry path line number fmt c))"
proof -
  have "parse_entry path line number fmt (view c) = apsnd view (parse_entry path line number fmt c) \<and>
      kept (snd (parse_entry path line number fmt c))"
  proof (cases "re_fullmatch entry_re line")
    case None
    with assms show ?thesis by (simp add: parse_entry_def)
  next
    case (Some g)
    define p where "p = parse_datetime (case group g ''date'' of Some w \<Rightarrow> w | None \<Rightarrow> [])
      (case group g ''time'' of Some w \<Rightarrow> w | None \<Rightarrow> []) (group g ''meridiem'') fmt number"
    have p: "p (view c) = apsnd view (p c)" "kept (snd (p c))" unfolding p_def using assms by (rule parse_datetime_view)+
    show ?thesis
      using p by (cases "p c") (auto simp: parse_entry_def Some Let_def p_def [symmetric] split: option.split)
  qed
  then show "parse_entry path line number fmt (view c) = apsnd view (parse_entry path line number fmt c)"
    "kept (snd (parse_entry path line number fmt c))" by blast+
qed

lemma entry_step_view:
  assumes "kept (ds_diagnostics st)"
  shows "entry_step db cfg path line number (view_state view st) =
      map_option (apsnd (apsnd (view_state view))) (entry_step db cfg path line number st)"
    and "entry_step db cfg path line number st = Some r \<Longrightarrow> kept (ds_diagnostics (snd (snd r)))"
proof -
  obtain m e c where p: "parse_entry path line number (cfg_date_format cfg) (ds_diagnostics st) = ((m, e), c)"
    by (metis prod.exhaust)
  then have pv: "parse_entry path line number (cfg_date_format cfg) (view (ds_diagnostics st)) = ((m, e), view c)"
    and c: "kept c"
    using parse_entry_view [OF assms, of path line number "cfg_date_format cfg"] by simp_all
  define st2 where "st2 = st\<lparr>ds_diagnostics := c,
    ds_section := (ds_section st)\<lparr>sec_had_entries := True\<rparr>\<rparr>"
  have st2: "kept (ds_diagnostics st2)" "st\<lparr>ds_diagnostics := c\<rparr>\<lparr>ds_section := (ds_section st)\<lparr>sec_had_entries := True\<rparr>\<rparr> = st2"
    using c by (simp_all add: st2_def)
  have st1: "kept (ds_diagnostics (st\<lparr>ds_diagnostics := c\<rparr>))"
    using c by simp
  have "entry_step db cfg path line number (view_state view st) =
      map_option (apsnd (apsnd (view_state view))) (entry_step db cfg path line number st) \<and>
      (\<forall>r. entry_step db cfg path line number st = Some r \<longrightarrow> kept (ds_diagnostics (snd (snd r))))"
  proof (cases m)
    case False
    with p pv show ?thesis by (simp add: entry_step_def)
  next
    case True
    have step: "entry_step db cfg path line number st = Some
       (if sec_file_summary (ds_section st) \<or> sec_dir_summary (ds_section st)
        then (None, [], ds_error ''ENTRY_AFTER_SECTION_SUMMARY''
               ''directory entry appears after a section summary'' number (st\<lparr>ds_diagnostics := c\<rparr>))
        else if sec_file_not_found (ds_section st)
        then (None, [], ds_error ''ENTRY_WITH_FILE_NOT_FOUND''
               ''directory entry cannot be mixed with File Not Found'' number (st\<lparr>ds_diagnostics := c\<rparr>))
        else (case e of None \<Rightarrow> (None, [], st2) | Some e' \<Rightarrow> accept_entry db cfg e' number st2))"
      using p True st2(2) by (simp add: entry_step_def Let_def)
    have view: "entry_step db cfg path line number (view_state view st) = Some
       (if sec_file_summary (ds_section st) \<or> sec_dir_summary (ds_section st)
        then (None, [], ds_error ''ENTRY_AFTER_SECTION_SUMMARY''
               ''directory entry appears after a section summary'' number (view_state view (st\<lparr>ds_diagnostics := c\<rparr>)))
        else if sec_file_not_found (ds_section st)
        then (None, [], ds_error ''ENTRY_WITH_FILE_NOT_FOUND''
               ''directory entry cannot be mixed with File Not Found'' number (view_state view (st\<lparr>ds_diagnostics := c\<rparr>)))
        else (case e of None \<Rightarrow> (None, [], view_state view st2)
          | Some e' \<Rightarrow> accept_entry db cfg e' number (view_state view st2)))"
      using pv True st2(2) by (simp add: entry_step_def Let_def view_state_update)
    show ?thesis
      unfolding step view using accept_entry_view [OF st2(1)] st2(1) st1 by (auto split: option.split)
  qed
  then show "entry_step db cfg path line number (view_state view st) =
      map_option (apsnd (apsnd (view_state view))) (entry_step db cfg path line number st)"
    "entry_step db cfg path line number st = Some r \<Longrightarrow> kept (ds_diagnostics (snd (snd r)))" by blast+
qed

text \<open>One line, all lines, and the checks after the last one.\<close>

lemma dir_step_view:
  assumes "kept (ds_diagnostics st)"
  shows "dir_step db cfg l (view_state view st) = apsnd (apsnd (view_state view)) (dir_step db cfg l st)"
    and "kept (ds_diagnostics (snd (snd (dir_step db cfg l st))))"
proof -
  let ?n = "line_number l" and ?line = "line_text l"
  define st0 where "st0 = st\<lparr>ds_diagnostics := observe_line ?n ?line (ds_diagnostics st)\<rparr>"
  have k: "kept (ds_diagnostics st0)" using assms by (simp add: st0_def observe)
  have v: "(view_state view st)\<lparr>ds_diagnostics := observe_line ?n ?line (view (ds_diagnostics st))\<rparr> = view_state view st0"
    using assms by (simp add: st0_def observe view_state_def)
  note ops = header_step_view [OF k] footer_step_view [OF k] file_summary_step_view [OF k] dir_summary_step_view [OF k]
    file_not_found_step_view [OF k] entry_step_view(1) [OF k]
  have "dir_step db cfg l (view_state view st) = apsnd (apsnd (view_state view)) (dir_step db cfg l st) \<and>
      kept (ds_diagnostics (snd (snd (dir_step db cfg l st))))"
    unfolding dir_step_def Let_def view_state_sel v st0_def [symmetric]
    using ops k entry_step_view(2) [OF k]
    by (auto simp: unknown_step_def split: option.splits)
  then show "dir_step db cfg l (view_state view st) = apsnd (apsnd (view_state view)) (dir_step db cfg l st)"
    "kept (ds_diagnostics (snd (snd (dir_step db cfg l st))))" by blast+
qed

lemma dir_lines_view:
  assumes "kept (ds_diagnostics st)"
  shows "dir_lines db cfg ls (view_state view st) = apsnd (apsnd (view_state view)) (dir_lines db cfg ls st) \<and>
    kept (ds_diagnostics (snd (snd (dir_lines db cfg ls st))))"
  using assms
proof (induction ls arbitrary: st)
  case (Cons l ls)
  obtain x es st1 where s: "dir_step db cfg l st = (x, es, st1)" by (metis prod.exhaust)
  with dir_step_view [OF Cons.prems, of db cfg l] have v: "dir_step db cfg l (view_state view st) = (x, es, view_state view st1)"
    and k: "kept (ds_diagnostics st1)" by simp_all
  show ?case
    using s v k Cons.IH [OF k] by (cases x) (auto simp: split_beta)
qed simp

lemma dir_finish_view:
  assumes "kept (ds_diagnostics st)"
  shows "dir_finish (view_state view st) = view (dir_finish st)" and "kept (dir_finish st)"
  using assms by (auto simp: dir_finish_def Let_def final_error_def)

lemma dir_parse_from_view:
  assumes "kept (ds_diagnostics st)"
  shows "dir_parse_from (view_state view st) db cfg d =
      (dir_parse_from st db cfg d)\<lparr>pr_collector := view (pr_collector (dir_parse_from st db cfg d))\<rparr>"
    and "kept (pr_collector (dir_parse_from st db cfg d))"
proof -
  obtain x es st1 where s: "dir_lines db cfg (fst d) st = (x, es, st1)" by (metis prod.exhaust)
  with dir_lines_view [OF assms, of db cfg "fst d"] have v: "dir_lines db cfg (fst d) (view_state view st) = (x, es, view_state view st1)"
    and k: "kept (ds_diagnostics st1)" by simp_all
  have stopped: "kept (ds_diagnostics st2)" "dir_finish (view_state view st2) = view (dir_finish st2)" "kept (dir_finish st2)"
    if "ds_error_text code m n st1 = (r, st2)" for code m n r st2
    using ds_error_text_view(2) [OF k, of code m n] dir_finish_view [of st2] that by simp_all
  show "dir_parse_from (view_state view st) db cfg d =
      (dir_parse_from st db cfg d)\<lparr>pr_collector := view (pr_collector (dir_parse_from st db cfg d))\<rparr>"
    using s v dir_finish_view [OF k] ds_error_text_view(1) [OF k]
    by (auto simp: dir_parse_from_def stopped split: option.split decode_end.split prod.split)
  show "kept (pr_collector (dir_parse_from st db cfg d))"
    using s dir_finish_view [OF k] k
    by (auto simp: dir_parse_from_def stopped split: option.split decode_end.split prod.split)
qed

end

section \<open>Two limits\<close>

text \<open>What a collector with a smaller limit keeps of the same diagnostics.\<close>

definition first_items :: "nat \<Rightarrow> collector \<Rightarrow> collector" where
  "first_items k c = c\<lparr>coll_limit := k, coll_items := take k (coll_items c)\<rparr>"

interpretation truncated: collector_view "first_items k" "\<lambda>c. k \<le> coll_limit c" for k
  by unfold_locales
    (auto simp: first_items_def add_diagnostic_def with_context_def observe_line_def Let_def split: option.splits)

text \<open>A collector that was never full holds every diagnostic, and knows whether one is an error.\<close>

definition complete :: "collector \<Rightarrow> bool" where
  "complete c \<longleftrightarrow> (coll_total c \<le> coll_limit c \<longrightarrow> length (coll_items c) = coll_total c \<and>
     (coll_has_errors c \<longleftrightarrow> (\<exists>d \<in> set (coll_items c). diag_severity d = ERROR)))"

interpretation unbounded: collector_view "\<lambda>c. c" "\<lambda>c. coll_limit c = n \<and> complete c" for n
  by unfold_locales (auto simp: complete_def)

definition limited_state :: "nat \<Rightarrow> dir_state" where
  "limited_state n = new_dir_state\<lparr>ds_diagnostics := new_collector n\<rparr>"

text \<open>The parser with a collector of another limit.\<close>

definition dir_parse_limited :: "nat \<Rightarrow> tzdb \<Rightarrow> codecs \<Rightarrow> dir_config \<Rightarrow> stream \<Rightarrow> parse_result" where
  "dir_parse_limited n db cs cfg s =
     dir_parse_from (limited_state n) db cfg (iter_decoded_lines cs s (cfg_encoding cfg) MAX_LINE_BYTES)"

lemma dir_parse_as_limited: "dir_parse db cs cfg s = dir_parse_limited MAX_DIAGNOSTICS db cs cfg s"
  by (simp add: dir_parse_def dir_parse_lines_def dir_parse_limited_def limited_state_def new_dir_state_def)

lemma dir_parse_truncated:
  assumes "k \<le> n"
  shows "dir_parse_limited k db cs cfg s = (dir_parse_limited n db cs cfg s)
    \<lparr>pr_collector := first_items k (pr_collector (dir_parse_limited n db cs cfg s))\<rparr>"
proof -
  have start: "limited_state k = view_state (first_items k) (limited_state n)"
    by (simp add: limited_state_def new_dir_state_def view_state_def first_items_def new_collector_def)
  have "k \<le> coll_limit (ds_diagnostics (limited_state n))"
    using assms by (simp add: limited_state_def new_collector_def)
  from truncated.dir_parse_from_view(1) [OF this] show ?thesis
    unfolding dir_parse_limited_def start .
qed

lemma dir_parse_limited_complete:
  "coll_limit (pr_collector (dir_parse_limited n db cs cfg s)) = n"
  "complete (pr_collector (dir_parse_limited n db cs cfg s))"
proof -
  have "coll_limit (ds_diagnostics (limited_state n)) = n \<and> complete (ds_diagnostics (limited_state n))"
    by (simp add: limited_state_def new_collector_def complete_def)
  from unbounded.dir_parse_from_view(2) [OF this]
  show "coll_limit (pr_collector (dir_parse_limited n db cs cfg s)) = n"
    "complete (pr_collector (dir_parse_limited n db cs cfg s))"
    by (simp_all add: dir_parse_limited_def)
qed

text \<open>
  The collector of a parse against one that is large enough for every diagnostic of the same input.
\<close>

theorem retained_diagnostics:
  fixes db cs cfg s
  defines "c \<equiv> pr_collector (dir_parse db cs cfg s)"
  assumes "MAX_DIAGNOSTICS \<le> n" "coll_total c \<le> n"
  defines "ds \<equiv> coll_items (pr_collector (dir_parse_limited n db cs cfg s))"
  shows "coll_items c = take MAX_DIAGNOSTICS ds" and "coll_total c = length ds"
    and "coll_has_errors c \<longleftrightarrow> (\<exists>d \<in> set ds. diag_severity d = ERROR)"
proof -
  have c: "c = first_items MAX_DIAGNOSTICS (pr_collector (dir_parse_limited n db cs cfg s))"
    using dir_parse_truncated [OF assms(2), of db cs cfg s] by (simp add: c_def dir_parse_as_limited)
  then have "coll_total (pr_collector (dir_parse_limited n db cs cfg s)) \<le> n" using assms(3) by (simp add: first_items_def)
  with dir_parse_limited_complete [of n db cs cfg s] c
  show "coll_items c = take MAX_DIAGNOSTICS ds" "coll_total c = length ds"
    "coll_has_errors c \<longleftrightarrow> (\<exists>d \<in> set ds. diag_severity d = ERROR)"
    by (simp_all add: complete_def first_items_def ds_def)
qed

end
