(* ===== verification/Decoding_Text.thy ===== *)
theory Decoding_Text
  imports Decoding_Chunks "HOL-Library.Sublist"
begin

text \<open>
  The decoder against the way a text file is written: a UTF-8 text whose lines end in a line feed or in
  a carriage return and a line feed, the last of them possibly without an end, is read back line by
  line, without its byte-order mark.
\<close>

section \<open>UTF-8 texts and their bytes\<close>

definition utf8 :: "pystr \<Rightarrow> bytes" where
  "utf8 s = map word_of_nat (concat (map utf8_units s))"

lemma utf8_simps [simp]: "utf8 [] = []" "utf8 (c # s) = map word_of_nat (utf8_units c) @ utf8 s"
  "utf8 (s @ s') = utf8 s @ utf8 s'"
  by (simp_all add: utf8_def)

lemma utf8_encode_utf8: "utf8_encode s = Some b \<longleftrightarrow> list_all scalar s \<and> b = utf8 s"
  by (auto simp: utf8_encode_def utf8_def)

lemma utf8_decode_utf8: "list_all scalar s \<Longrightarrow> utf8_decode (utf8 s) = Inr s"
  by (rule utf8_decode_encode) (simp add: utf8_encode_utf8)

lemma utf8_unit_small:
  assumes "c < 0x110000" "u \<in> set (utf8_units c)" "(word_of_nat u :: byte) = word_of_nat k" "k < 128"
  shows "u = k \<and> c = k"
proof -
  have "u < 256" by (rule utf8_units_byte [OF assms(1,2)])
  then have "unat (word_of_nat u :: byte) = u" "unat (word_of_nat k :: byte) = k"
    using map_unat_word_of_nat [of "[u]"] map_unat_word_of_nat [of "[k]"] assms(4) by simp_all
  with assms(3) have u: "u = k" by metis
  have "c = u" using assms(2,4) unfolding u by (simp add: utf8_units_def split: if_splits)
  with u show ?thesis by simp
qed

lemma utf8_small_in:
  assumes "list_all scalar s" "k < 128"
  shows "(word_of_nat k :: byte) \<in> set (utf8 s) \<longleftrightarrow> k \<in> set s"
proof
  assume "(word_of_nat k :: byte) \<in> set (utf8 s)"
  then obtain c u where "c \<in> set s" "u \<in> set (utf8_units c)" "(word_of_nat u :: byte) = word_of_nat k"
    by (auto simp: utf8_def)
  with assms utf8_unit_small [of c u k] show "k \<in> set s" by (auto simp: list_all_iff scalar_def)
next
  assume "k \<in> set s"
  then show "(word_of_nat k :: byte) \<in> set (utf8 s)"
    using assms(2) by (force simp: utf8_def utf8_units_def)
qed

lemma utf8_last_small:
  assumes "list_all scalar s" "s \<noteq> []" "k < 128"
  shows "last (utf8 s) = (word_of_nat k :: byte) \<longleftrightarrow> last s = k"
proof -
  obtain s' c where s: "s = s' @ [c]" using assms(2) by (metis append_butlast_last_id)
  with assms(1) have c: "c < 0x110000" by (simp add: scalar_def)
  have "last (utf8 s) = (word_of_nat (last (utf8_units c)) :: byte)" by (simp add: s last_map)
  with utf8_unit_small [OF c, of "last (utf8_units c)" k] assms(3) show ?thesis
    by (auto simp: s utf8_units_def)
qed

text \<open>Decoding with \<open>utf-8-sig\<close> drops a byte-order mark.\<close>

definition unmarked :: "pystr \<Rightarrow> pystr" where
  "unmarked t = (case t of c # t' \<Rightarrow> if c = 0xFEFF then t' else t | [] \<Rightarrow> [])"

lemma utf8_sig_decode_utf8:
  assumes "list_all scalar s"
  shows "utf8_sig_decode (utf8 s) = Inr (unmarked s)"
proof (cases "take 3 (utf8 s) = [0xEF, 0xBB, 0xBF]")
  case True
  then obtain rest where rest: "utf8 s = [0xEF, 0xBB, 0xBF] @ rest" by (metis append_take_drop_id)
  with utf8_decode_utf8 [OF assms] obtain s' where s: "s = 0xFEFF # s'"
    by (auto simp: utf8_decode_def utf8_dec.simps second_ok_def cont_def shift6_def)
  with rest have "rest = utf8 s'" by (simp add: utf8_units_def)
  with True rest s utf8_decode_utf8 [of s'] assms show ?thesis
    by (simp add: utf8_sig_decode_def unmarked_def)
next
  case False
  have "s \<noteq> 0xFEFF # s'" for s' using False by (auto simp: utf8_units_def)
  with False utf8_decode_utf8 [OF assms] show ?thesis
    by (auto simp: utf8_sig_decode_def unmarked_def split: list.split)
qed

section \<open>Text files\<close>

text \<open>
  The lines of a text, each with whether it ends in a carriage return too, and a last line without an
  end, which is not there when it is empty.
\<close>

definition line_end :: "bool \<Rightarrow> pystr" where
  "line_end crlf = (if crlf then [13, 10] else [10])"

definition text_of :: "(pystr \<times> bool) list \<Rightarrow> pystr \<Rightarrow> pystr" where
  "text_of ls rest = concat (map (\<lambda>(t, crlf). t @ line_end crlf) ls) @ rest"

definition texts_of :: "(pystr \<times> bool) list \<Rightarrow> pystr \<Rightarrow> pystr list" where
  "texts_of ls rest = map fst ls @ (if rest = [] then [] else [rest])"

text \<open>A line that can be read back: no line feed in it, no more bytes than the limit, and before a line
  end no carriage return.\<close>

definition writable :: "nat \<Rightarrow> pystr \<Rightarrow> bool" where
  "writable limit t \<longleftrightarrow> 10 \<notin> set t \<and> (\<exists>b. utf8_encode t = Some b \<and> length b \<le> limit)"

definition writable_lines :: "nat \<Rightarrow> (pystr \<times> bool) list \<Rightarrow> pystr \<Rightarrow> bool" where
  "writable_lines limit ls rest \<longleftrightarrow>
     (\<forall>(t, crlf) \<in> set ls. writable limit t \<and> \<not> suffix [13] t) \<and> writable limit rest"

primrec number_lines :: "int \<Rightarrow> pystr list \<Rightarrow> decoded_line list" where
  "number_lines n [] = []"
| "number_lines n (t # ts) = \<lparr>line_number = n, line_text = t\<rparr> # number_lines (n + 1) ts"

definition unmarked_first :: "bool \<Rightarrow> pystr list \<Rightarrow> pystr list" where
  "unmarked_first first ts = (case ts of t # ts' \<Rightarrow> if first then unmarked t # ts' else ts | [] \<Rightarrow> [])"

lemma writableD:
  assumes "writable limit t"
  shows "list_all scalar t" "length (utf8 t) \<le> limit" "10 \<notin> set (utf8 t)"
  using assms utf8_small_in [of t 10] by (auto simp: writable_def utf8_encode_utf8)

lemma find_byte_Some: "x \<notin> set xs \<Longrightarrow> find_byte x (xs @ x # ys) = Some (length xs)"
  by (induction xs) auto

lemma find_byte_None: "x \<notin> set xs \<Longrightarrow> find_byte x xs = None"
  by (induction xs) auto

lemma decode_line_utf8:
  assumes "canonical \<in> {lit ''utf-8'', lit ''utf-8-sig''}" "list_all scalar t"
  shows "decode_line cs encoding canonical (utf8 t) start n first = Inr (if first then unmarked t else t)"
  using assms
  by (auto simp: decode_line_def Let_def strict_decode_def codec_decode_def utf8_sig_decode_utf8 utf8_decode_utf8 lit_def)

lemma strip_cr_line:
  assumes "list_all scalar t" "\<not> suffix [13] t"
  shows "strip_cr Byte_LF (utf8 t @ (if crlf then [13] else [])) = utf8 t"
proof -
  have "\<not> suffix [13] (utf8 t)"
  proof
    assume "suffix [13] (utf8 t)"
    then have "last (utf8 t) = word_of_nat 13" "t \<noteq> []" by (auto simp: suffix_def)
    with utf8_last_small [OF assms(1), of 13] have "last t = 13" by simp
    with \<open>t \<noteq> []\<close> assms(2) show False
      by (metis append_butlast_last_id suffixI)
  qed
  moreover have "ends_with xs [13] \<longleftrightarrow> suffix [13] xs" for xs
    by (auto simp: ends_with_def suffix_def) (metis append_take_drop_id)+
  ultimately show ?thesis
    by (simp add: strip_cr_def carriage_return_def ending_width_def)
qed

text \<open>The specification of the decoder on such a text.\<close>

lemma line_spec_text:
  assumes canonical: "canonical \<in> {lit ''utf-8'', lit ''utf-8-sig''}"
    and "writable_lines limit ls rest" "ls_pending st = utf8 (text_of ls rest)"
  shows "line_spec Byte_LF encoding limit (decode_line cs encoding canonical) None st =
    (number_lines (ls_number st) (unmarked_first (ls_first st) (texts_of ls rest)), End_Of_Input)"
  using assms(2,3)
proof (induction ls arbitrary: st)
  case Nil
  then have rest: "list_all scalar rest" "length (utf8 rest) \<le> limit" "10 \<notin> set (utf8 rest)"
    by (auto simp: writable_lines_def dest: writableD)
  from Nil have p: "ls_pending st = utf8 rest" by (simp add: text_of_def)
  have none: "find_newline Byte_LF (ls_pending st) 0 = None"
    using rest(3) by (simp add: find_newline_def find_byte_from_def p find_byte_None)
  have "\<not> too_long Byte_LF limit (ls_pending st)"
    using rest(2) by (simp add: too_long_def p complete_length_def)
  moreover have "utf8 rest = [] \<longleftrightarrow> rest = []" by (cases rest) simp_all
  ultimately show ?case
    using rest decode_line_utf8 [OF canonical rest(1)]
    by (simp add: line_spec_None [OF none] last_line_def p texts_of_def unmarked_first_def take_line_def)
next
  case (Cons l ls)
  obtain t crlf where l: "l = (t, crlf)" by fastforce
  with Cons.prems have t: "list_all scalar t" "length (utf8 t) \<le> limit" "10 \<notin> set (utf8 t)" "\<not> suffix [13] t"
    and ls: "writable_lines limit ls rest"
    by (auto simp: writable_lines_def dest: writableD)
  let ?raw = "utf8 t @ (if crlf then [13] else [])"
  have p: "ls_pending st = ?raw @ 10 # utf8 (text_of ls rest)"
    using Cons.prems(2) l by (simp add: text_of_def line_end_def utf8_units_def)
  have nl: "find_newline Byte_LF (ls_pending st) 0 = Some (length ?raw)"
    unfolding p using t(3) find_byte_Some [of 10 ?raw]
    by (simp add: find_newline_def find_byte_from_def)
  let ?st = "next_state Byte_LF (length ?raw) st"
  have "ls_pending ?st = utf8 (text_of ls rest)"
    unfolding next_state_def p by (simp add: ending_width_def)
  from Cons.IH [OF ls this] have tail: "line_spec Byte_LF encoding limit (decode_line cs encoding canonical) None ?st =
      (number_lines (ls_number st + 1) (texts_of ls rest), End_Of_Input)"
    by (simp add: next_state_def unmarked_first_def split: list.split)
  have "take (length ?raw) (ls_pending st) = ?raw" unfolding p by simp
  then show ?case
    using tail t decode_line_utf8 [OF canonical t(1)] l
    by (simp add: line_spec_Some [OF nl] strip_cr_line take_line_def texts_of_def unmarked_first_def)
qed

lemma utf8_text_lines:
  assumes "codec_name cs encoding = Some canonical" "canonical \<in> {lit ''utf-8'', lit ''utf-8-sig''}"
    and "writable_lines limit ls rest" "utf8_encode (text_of ls rest) = Some (stream_bytes s)" "stream_end s = None"
  shows "iter_decoded_lines cs s encoding limit =
    (number_lines 1 (unmarked_first True (texts_of ls rest)), End_Of_Input)"
proof -
  have "ls_pending (whole_input s) = utf8 (text_of ls rest)"
    using assms(4) by (simp add: whole_input_def initial_state_def utf8_encode_utf8)
  from line_spec_text [OF assms(2,3) this] assms(1,2,5) show ?thesis
    by (auto simp: iter_decoded_lines_def iter_byte_lines_spec whole_input_def feed_def initial_state_def)
qed

end
