(* ===== verification/Grammar_Print.thy ===== *)
theory Grammar_Print
  imports Grammar
begin

text \<open>
  The lines of a \<open>dir /s\<close> listing as Windows prints them, and the proof that the grammar
  reads each of them back: numbers with thousands separators, dates in the three formats,
  times in both styles, directory headers, entries and summaries.
\<close>

section \<open>Digits\<close>

lemma ascii_digit: "48 \<le> c \<Longrightarrow> c \<le> 57 \<Longrightarrow> digit c"
  by (simp add: py_isdecimal_def decimal_value_def)

lemma nat_str_digits: "list_all digit (nat_str n)"
  using nat_str_ascii_digits ascii_digit by (auto simp: list_all_iff)

lemma not_digit: "c < 48 \<Longrightarrow> \<not> digit c" "57 < c \<Longrightarrow> c < 1632 \<Longrightarrow> \<not> digit c"
  by (simp_all add: py_isdecimal_def decimal_not_ascii_punct)

lemma length_nat_str: "n < 10 ^ k \<Longrightarrow> 0 < k \<Longrightarrow> length (nat_str n) \<le> k"
proof (induction n arbitrary: k rule: nat_str.induct)
  case (1 n)
  show ?case
  proof (cases "n < 10")
    case True
    with 1(3) show ?thesis by (subst nat_str.simps) simp
  next
    case False
    obtain j where k: "k = Suc j" using 1(3) by (cases k) auto
    moreover have "0 < j" using k False 1(2) by (cases j) auto
    ultimately have j: "k = Suc j" "0 < j" .
    with 1(2) have "n div 10 < 10 ^ j" by (simp add: less_mult_imp_div_less mult.commute)
    with 1(1) [OF False this j(2)] False j show ?thesis by (subst nat_str.simps) simp
  qed
qed

lemma digits_value_zeros: "digits_value 0 (replicate k 48 @ s) = digits_value 0 s"
  by (induction k) (simp_all add: decimal_value_def)

lemma pad_str_digits: "list_all digit (pad_str k i)"
  using nat_str_digits ascii_digit by (auto simp: pad_str_def Let_def list_all_iff)

lemma length_pad_str: "0 \<le> i \<Longrightarrow> i < 10 ^ k \<Longrightarrow> 0 < k \<Longrightarrow> length (pad_str k i) = k"
proof -
  assume i: "0 \<le> i" "i < 10 ^ k" "0 < k"
  then have "nat i < 10 ^ k" by (simp add: nat_less_iff)
  then have "length (nat_str (nat i)) \<le> k" using i(3) by (rule length_nat_str)
  then show ?thesis by (simp add: pad_str_def Let_def)
qed

lemma token_int_pad_str: "0 \<le> i \<Longrightarrow> i < 10 ^ k \<Longrightarrow> 0 < k \<Longrightarrow> k \<le> 4300 \<Longrightarrow> token_int (pad_str k i) = i"
proof -
  assume i: "0 \<le> i" "i < 10 ^ k" "0 < k" "k \<le> 4300"
  have "digits_value 0 (pad_str k i) = Some (nat i)"
    by (simp add: pad_str_def Let_def digits_value_zeros digits_value_nat_str)
  moreover have "length (pad_str k i) = k" using i by (simp add: length_pad_str)
  ultimately show ?thesis using i by (auto simp: token_int_def py_int_def int_max_str_digits_def)
qed

section \<open>Numbers with separators\<close>

text \<open>\<open>1234567\<close> is printed as \<open>1,234,567\<close>.\<close>

function comma_groups :: "pystr \<Rightarrow> pystr" where
  "comma_groups s =
     (if length s \<le> 3 then s
      else comma_groups (take (length s - 3) s) @ 44 # drop (length s - 3) s)"
  by pat_completeness auto

termination by (relation "measure length") auto

declare comma_groups.simps [simp del]

definition comma_str :: "nat \<Rightarrow> pystr" where
  "comma_str n = comma_groups (nat_str n)"

lemma comma_groups_shape:
  assumes "s \<noteq> []" "list_all digit s"
  shows "\<exists>g gs. comma_groups s = g @ concat (map ((#) 44) gs) \<and> g \<noteq> [] \<and> length g \<le> 3 \<and> list_all digit g \<and>
    (\<forall>h \<in> set gs. length h = 3 \<and> list_all digit h) \<and> s = g @ concat gs"
  using assms
proof (induction s rule: comma_groups.induct)
  case (1 s)
  show ?case
  proof (cases "length s \<le> 3")
    case True
    then have "comma_groups s = s @ concat (map ((#) 44) [])" by (subst comma_groups.simps) simp
    with 1(2,3) True show ?thesis by (intro exI [of _ s] exI [of _ "[]"]) simp
  next
    case False
    let ?t = "take (length s - 3) s" and ?d = "drop (length s - 3) s"
    have "?t \<noteq> []" "list_all digit ?t" "list_all digit ?d" "length ?d = 3"
      using False 1(2,3) by (auto simp: list_all_iff dest: in_set_takeD in_set_dropD)
    with 1(1) [OF False] obtain g gs where g: "comma_groups ?t = g @ concat (map ((#) 44) gs)" "g \<noteq> []"
      "length g \<le> 3" "list_all digit g" "\<forall>h \<in> set gs. length h = 3 \<and> list_all digit h" "?t = g @ concat gs"
      by blast
    have "s = ?t @ ?d" by simp
    then have "s = g @ concat (gs @ [?d])" using g(6) by simp
    moreover have "comma_groups s = g @ concat (map ((#) 44) (gs @ [?d]))"
      using False g(1) by (subst comma_groups.simps) simp
    ultimately show ?thesis using g \<open>list_all digit ?d\<close> \<open>length ?d = 3\<close>
      by (intro exI [of _ g] exI [of _ "gs @ [?d]"]) auto
  qed
qed

lemma star_reads:
  assumes "\<And>w s c. w \<in> set ws \<Longrightarrow> (\<exists>others. f (w @ s) c = (s, c) # others)" "\<forall>w \<in> set ws. w \<noteq> []"
    and "\<And>c. f s c = []" "length (concat ws) \<le> k"
  shows "\<exists>others. star f k (concat ws @ s) c = (s, c) # others"
  using assms
proof (induction ws arbitrary: k)
  case Nil
  then show ?case by (cases k) auto
next
  case (Cons w ws)
  then have "w \<noteq> []" by simp
  with Cons.prems(4) obtain j where k: "k = Suc j" "length (concat ws) \<le> j"
    by (cases k) (auto simp: Suc_le_eq, metis (no_types) length_greater_0_conv less_Suc_eq_le less_add_same_cancel2 less_le_trans)
  obtain others where f: "f (w @ (concat ws @ s)) c = (concat ws @ s, c) # others"
    using Cons.prems(1) [of w "concat ws @ s" c] by auto
  have "\<exists>others. star f j (concat ws @ s) c = (s, c) # others"
    by (rule Cons.IH) (use Cons.prems k in auto)
  with f k \<open>w \<noteq> []\<close> show ?case by (auto simp: add.assoc)
qed

lemma comma_str_integer: "re_fullmatch integer_re (comma_str n) \<noteq> None"
proof -
  obtain g gs where g: "comma_str n = g @ concat (map ((#) 44) gs)" "g \<noteq> []" "length g \<le> 3" "list_all digit g"
    "\<forall>h \<in> set gs. length h = 3 \<and> list_all digit h"
    using comma_groups_shape [OF nat_str_nonempty nat_str_digits [of n]] by (auto simp: comma_str_def)
  let ?r = "RSeq (RWord (lit '','')) (RMany True 3 (Some 3) digit)"
  have comma: "lit '','' = [44]" by (simp add: lit_def)
  have one: "\<exists>others. run_re ?r (w @ s) c = (s, c) # others" if w: "w \<in> set (map ((#) 44) gs)" for w s c
  proof -
    from w obtain h where h: "w = 44 # h" "length h = 3" "list_all digit h" using g(5) by auto
    have "reads (RMany True 3 (Some 3) digit) h s c c" by (rule reads_many) (use h in auto)
    from reads_seq [OF _ this, of "RWord (lit '','')" "lit '',''" c] h(1) show ?thesis
      by (simp add: reads_def comma)
  qed
  have "\<exists>others. run_re (RStar ?r) (concat (map ((#) 44) gs)) c = ([], c) # others" for c
    using star_reads [of "map ((#) 44) gs" "run_re ?r" "[]" "length (concat (map ((#) 44) gs))" c] one
    by (auto simp: comma)
  then have "reads (RStar ?r) (concat (map ((#) 44) gs)) [] c c" for c by (auto simp: reads_def)
  moreover have "reads (RMany True 1 (Some 3) digit) g (concat (map ((#) 44) gs)) [] []"
  proof (rule reads_many)
    have "\<not> digit 44" by (rule not_digit) simp
    then show "(concat (map ((#) 44) gs) = [] \<or> \<not> digit (hd (concat (map ((#) 44) gs)))) \<or> Some 3 = Some (length g)"
      by (cases gs) auto
  qed (use g in \<open>auto simp: Suc_le_eq\<close>)
  ultimately have "reads integer_re (comma_str n) [] [] []"
    unfolding integer_re_def g(1) by (intro reads_left reads_seq) auto
  then show ?thesis by (simp add: reads_fullmatch)
qed

lemma filter_comma_digits: "list_all digit s \<Longrightarrow> List.filter (\<lambda>c. c \<noteq> 44) s = s"
  using not_digit(1) [of 44] by (auto simp: list_all_iff intro!: filter_True)

lemma comma_str_filter: "List.filter (\<lambda>c. c \<noteq> 44) (comma_str n) = nat_str n"
proof -
  obtain g gs where g: "comma_str n = g @ concat (map ((#) 44) gs)" "list_all digit g"
    "\<forall>h \<in> set gs. length h = 3 \<and> list_all digit h" "nat_str n = g @ concat gs"
    using comma_groups_shape [OF nat_str_nonempty nat_str_digits [of n]] by (auto simp: comma_str_def)
  have "List.filter (\<lambda>c. c \<noteq> 44) (concat (map ((#) 44) gs)) = concat gs"
    using g(3) by (induction gs) (auto simp: filter_comma_digits)
  with g show ?thesis by (simp add: filter_comma_digits)
qed

lemma parse_integer_comma_str:
  "length (nat_str n) \<le> int_max_str_digits \<Longrightarrow> parse_integer (comma_str n) = Some (int n)"
  using comma_str_integer [of n] by (simp add: parse_integer_def comma_str_filter py_int_nat_str)

definition number_char :: "nat \<Rightarrow> bool" where
  "number_char c \<longleftrightarrow> digit c \<or> one_of '','' c"

lemma comma_str_chars: "list_all number_char (comma_str n)" "comma_str n \<noteq> []"
proof -
  obtain g gs where g: "comma_str n = g @ concat (map ((#) 44) gs)" "g \<noteq> []" "list_all digit g"
    "\<forall>h \<in> set gs. length h = 3 \<and> list_all digit h"
    using comma_groups_shape [OF nat_str_nonempty nat_str_digits [of n]] by (auto simp: comma_str_def)
  then show "list_all number_char (comma_str n)" "comma_str n \<noteq> []"
    by (auto simp: list_all_iff number_char_def one_of_def lit_def)
qed

section \<open>Entry lines\<close>

definition print_date :: "date_format \<Rightarrow> nat \<Rightarrow> datetime \<Rightarrow> pystr" where
  "print_date fmt sep t =
     (let y = pad_str 4 (dt_year t); m = pad_str 2 (dt_month t); d = pad_str 2 (dt_day t)
      in case fmt of
           MDY \<Rightarrow> m @ sep # d @ sep # y
         | DMY \<Rightarrow> d @ sep # m @ sep # y
         | YMD \<Rightarrow> y @ sep # m @ sep # d)"

definition clock_hour :: "bool \<Rightarrow> int \<Rightarrow> int" where
  "clock_hour twelve h = (if twelve then (if h mod 12 = 0 then 12 else h mod 12) else h)"

definition print_time :: "bool \<Rightarrow> datetime \<Rightarrow> pystr" where
  "print_time twelve t = pad_str 2 (clock_hour twelve (dt_hour t)) @ 58 # pad_str 2 (dt_minute t)"

definition meridiem_text :: "int \<Rightarrow> pystr" where
  "meridiem_text h = (if h < 12 then lit ''AM'' else lit ''PM'')"

definition print_meridiem :: "bool \<Rightarrow> datetime \<Rightarrow> pystr" where
  "print_meridiem twelve t = (if twelve then 32 # meridiem_text (dt_hour t) else [])"

definition print_item :: "nat option \<Rightarrow> pystr" where
  "print_item item =
     (case item of None \<Rightarrow> lit ''<DIR>'' @ replicate 10 32 | Some n \<Rightarrow> comma_str n @ [32])"

text \<open>
  A directory (\<open>item = None\<close>) or a file of a size, with the date's separator, the clock's
  style, and the number of spaces that align the columns.
\<close>

definition print_entry ::
  "date_format \<Rightarrow> nat \<Rightarrow> bool \<Rightarrow> nat \<Rightarrow> datetime \<Rightarrow> nat option \<Rightarrow> pystr \<Rightarrow> pystr" where
  "print_entry fmt sep twelve k t item name =
     print_date fmt sep t @ [32, 32] @ print_time twelve t @ print_meridiem twelve t @
     replicate (Suc k) 32 @ print_item item @ name"

lemma date_reads:
  assumes "list_all digit a" "list_all digit b" "list_all digit d" "one_of ''/.-'' sep"
    and "a \<noteq> []" "length a \<le> 4" "b \<noteq> []" "length b \<le> 2" "d \<noteq> []" "length d \<le> 4"
    and "s = [] \<or> \<not> digit (hd s)"
  shows "reads date_re (a @ sep # b @ sep # d) s c
    ((''date'', a @ sep # b @ sep # d) # (''separator'', [sep]) # c)"
proof -
  have "sep = 47 \<or> sep = 46 \<or> sep = 45" using assms(4) by (auto simp: one_of_def lit_def)
  then have nd: "\<not> digit sep" using not_digit(1) [of sep] by auto
  let ?g = "(''separator'', [sep]) # c"
  have "reads (RMany True 1 (Some 4) digit) a (([sep] @ b @ [sep] @ d) @ s) c c"
    by (rule reads_many) (use assms nd in \<open>auto simp: Suc_le_eq\<close>)
  moreover have "reads (RGroup ''separator'' (RSet (one_of ''/.-''))) [sep] ((b @ [sep] @ d) @ s) c ?g"
    using assms(4) by (intro reads_group reads_set)
  moreover have "reads (RMany True 1 (Some 2) digit) b (([sep] @ d) @ s) ?g ?g"
    by (rule reads_many) (use assms nd in \<open>auto simp: Suc_le_eq\<close>)
  moreover have "reads (RRef ''separator'') [sep] (d @ s) ?g ?g"
    by (rule reads_ref) simp
  moreover have "reads (RMany True 1 (Some 4) digit) d s ?g ?g"
    by (rule reads_many) (use assms in \<open>auto simp: Suc_le_eq\<close>)
  ultimately have "reads (seq [RMany True 1 (Some 4) digit, RGroup ''separator'' (RSet (one_of ''/.-'')),
      RMany True 1 (Some 2) digit, RRef ''separator'', RMany True 1 (Some 4) digit])
      (a @ [sep] @ b @ [sep] @ d) s c ?g"
    unfolding seq.simps by (intro reads_seq)
  then show ?thesis unfolding date_re_def using reads_group by fastforce
qed

lemma print_date_reads:
  assumes "valid_datetime t" "one_of ''/.-'' sep" "s = [] \<or> \<not> digit (hd s)"
  shows "reads date_re (print_date fmt sep t) s c
    ((''date'', print_date fmt sep t) # (''separator'', [sep]) # c)"
proof -
  have b: "0 \<le> dt_year t" "dt_year t < 10 ^ 4" "0 \<le> dt_month t" "dt_month t < 10 ^ 2"
    "0 \<le> dt_day t" "dt_day t < 10 ^ 2"
    using assms(1) by (auto simp: valid_datetime_def valid_date_def days_in_month_def split: if_splits)
  then have l: "length (pad_str 4 (dt_year t)) = 4" "length (pad_str 2 (dt_month t)) = 2"
    "length (pad_str 2 (dt_day t)) = 2" by (simp_all add: length_pad_str)
  then have n: "pad_str 4 (dt_year t) \<noteq> []" "pad_str 2 (dt_month t) \<noteq> []" "pad_str 2 (dt_day t) \<noteq> []"
    by auto
  show ?thesis
    by (cases fmt) (simp_all add: print_date_def Let_def date_reads pad_str_digits assms l n)
qed

lemma time_reads:
  assumes "list_all digit a" "list_all digit b" "a \<noteq> []" "length a \<le> 2" "length b = 2"
  shows "reads time_re (a @ 58 # b) s c ((''time'', a @ 58 # b) # c)"
proof -
  have colon: "lit '':'' = [58]" by (simp add: lit_def)
  have nd: "\<not> digit 58" by (rule not_digit) simp_all
  have "reads (RMany True 1 (Some 2) digit) a (([58] @ b) @ s) c c"
    by (rule reads_many) (use assms nd in \<open>auto simp: Suc_le_eq\<close>)
  moreover have "reads (RWord (lit '':'')) [58] (b @ s) c c" unfolding colon by (rule reads_word)
  moreover have "reads (RMany True 2 (Some 2) digit) b s c c"
    by (rule reads_many) (use assms in auto)
  ultimately have "reads (seq [RMany True 1 (Some 2) digit, RWord (lit '':''), RMany True 2 (Some 2) digit])
      (a @ [58] @ b) s c c"
    unfolding seq.simps by (intro reads_seq)
  then show ?thesis unfolding time_re_def using reads_group by fastforce
qed

lemma spaces_reads: "s = [] \<or> \<not> space (hd s) \<Longrightarrow> 0 < k \<Longrightarrow> reads (RMany True 1 None space) (replicate k 32) s c c"
  by (rule reads_many) (auto simp: list_all_iff py_isspace_def)

text \<open>Spaces before something that is neither \<open>A\<close> nor \<open>P\<close>: no meridiem.\<close>

lemma meridiem_skip:
  assumes "s = x # s'" "\<not> space x" "x \<noteq> 65" "x \<noteq> 80"
  shows "reads meridiem_re [] (replicate k 32 @ s) c c"
  unfolding meridiem_re_def
proof (rule reads_opt_skip)
  have "takeWhile space (replicate k 32 @ s) = replicate k 32"
    using assms(1,2) by (induction k) (auto simp: py_isspace_def)
  then have run: "length (takeWhile space (replicate k 32 @ s)) = k" by simp
  have "run_re (RGroup ''meridiem'' (RSeq (RSet (one_of ''AP'')) (RWord (lit ''M'')))) s1 c1 = []"
    if r: "(s1, c1) \<in> set (run_re (RMany True 1 None space) (replicate k 32 @ s) c)" for s1 c1
  proof -
    from r [unfolded run_many run] obtain i where "i \<le> k" "s1 = drop i (replicate k 32 @ s)" by blast
    then have "s1 = replicate (k - i) 32 @ s" by simp
    then show ?thesis using assms by (cases "k - i") (auto simp: one_of_def lit_def)
  qed
  then show "run_re (RSeq (RMany True 1 None space)
      (RGroup ''meridiem'' (RSeq (RSet (one_of ''AP'')) (RWord (lit ''M''))))) (replicate k 32 @ s) c = []"
    by (auto simp del: run_re.simps(3,8))
qed

lemma meridiem_reads:
  "reads meridiem_re (32 # meridiem_text h) s c ((''meridiem'', meridiem_text h) # c)"
proof -
  obtain x where x: "meridiem_text h = [x] @ lit ''M''" "one_of ''AP'' x" "\<not> space x"
    by (cases "h < 12") (auto simp: meridiem_text_def one_of_def lit_def py_isspace_def)
  have "reads (RMany True 1 None space) (replicate 1 32) (([x] @ lit ''M'') @ s) c c"
    by (rule spaces_reads) (use x in auto)
  moreover have "reads (RGroup ''meridiem'' (RSeq (RSet (one_of ''AP'')) (RWord (lit ''M'')))) ([x] @ lit ''M'') s c
      ((''meridiem'', [x] @ lit ''M'') # c)"
    by (rule reads_group, rule reads_seq [OF reads_set [of "one_of ''AP''", OF x(2)] reads_word])
  ultimately have "reads (RSeq (RMany True 1 None space)
      (RGroup ''meridiem'' (RSeq (RSet (one_of ''AP'')) (RWord (lit ''M''))))) (replicate 1 32 @ [x] @ lit ''M'') s c
      ((''meridiem'', [x] @ lit ''M'') # c)"
    by (rule reads_seq)
  then show ?thesis unfolding meridiem_re_def x(1) by (intro reads_opt) simp
qed

lemma comma_str_hd: "48 \<le> hd (comma_str n) \<and> hd (comma_str n) \<le> 57"
proof -
  obtain g gs where g: "comma_str n = g @ concat (map ((#) 44) gs)" "g \<noteq> []" "nat_str n = g @ concat gs"
    using comma_groups_shape [OF nat_str_nonempty nat_str_digits [of n]] by (auto simp: comma_str_def)
  then have "hd (comma_str n) \<in> set (nat_str n)" by (cases g) auto
  then show ?thesis by (rule nat_str_ascii_digits)
qed

definition item_groups :: "nat option \<Rightarrow> groups" where
  "item_groups item =
     (case item of None \<Rightarrow> [(''directory'', lit ''<DIR>'')] | Some n \<Rightarrow> [(''size'', comma_str n)])"

lemma item_reads: "reads kind_re (print_item item) s c (item_groups item @ c)"
proof (cases item)
  case None
  have "reads (RGroup ''directory'' (RWord (lit ''<DIR>''))) (lit ''<DIR>'') (replicate 10 32 @ s) c
      ((''directory'', lit ''<DIR>'') # c)"
    by (intro reads_group reads_word)
  moreover have "reads (RMany True 10 (Some 10) (one_of '' '')) (replicate 10 32) s c' c'" for c'
    by (rule reads_many) (auto simp: list_all_iff one_of_def lit_def)
  ultimately show ?thesis
    unfolding kind_re_def print_item_def item_groups_def None option.case append_Cons append_Nil
    by (intro reads_left reads_seq)
next
  case (Some n)
  have sp: "lit '' '' = [32]" by (simp add: lit_def)
  obtain x xs where x: "comma_str n = x # xs" using comma_str_chars(2) [of n] by (cases "comma_str n") auto
  with comma_str_hd [of n] have "x \<noteq> 60" by simp
  then have dir: "run_re (RSeq (RGroup ''directory'' (RWord (lit ''<DIR>''))) (RMany True 10 (Some 10) (one_of '' '')))
      (print_item item @ s) c = []"
    using x by (simp add: print_item_def Some lit_def del: run_re.simps(3))
  have "\<not> digit 32" by (rule not_digit) simp
  then have "reads (RGroup ''size'' (RMany True 1 None (\<lambda>c. digit c \<or> one_of '','' c))) (comma_str n) ([32] @ s) c
      ((''size'', comma_str n) # c)"
    using comma_str_chars [of n]
    by (intro reads_group reads_many) (auto simp: number_char_def one_of_def lit_def Suc_le_eq list_all_iff)
  moreover have "reads (RWord (lit '' '')) [32] s c' c'" for c' unfolding sp by (rule reads_word)
  ultimately have "reads (RSeq (RGroup ''size'' (RMany True 1 None (\<lambda>c. digit c \<or> one_of '','' c))) (RWord (lit '' '')))
      (comma_str n @ [32]) s c ((''size'', comma_str n) # c)"
    by (rule reads_seq)
  then have "reads (RSeq (RGroup ''size'' (RMany True 1 None (\<lambda>c. digit c \<or> one_of '','' c))) (RWord (lit '' '')))
      (print_item item) s c (item_groups item @ c)"
    by (simp only: print_item_def item_groups_def Some option.case append_Cons append_Nil)
  with dir show ?thesis unfolding kind_re_def by (intro reads_right)
qed

definition entry_groups ::
  "date_format \<Rightarrow> nat \<Rightarrow> bool \<Rightarrow> datetime \<Rightarrow> nat option \<Rightarrow> pystr \<Rightarrow> groups" where
  "entry_groups fmt sep twelve t item name =
     [(''name'', name)] @ item_groups item @
     (if twelve then [(''meridiem'', meridiem_text (dt_hour t))] else []) @
     [(''time'', print_time twelve t), (''date'', print_date fmt sep t), (''separator'', [sep])]"

lemma print_time_reads:
  assumes "valid_datetime t"
  shows "reads time_re (print_time twelve t) s c ((''time'', print_time twelve t) # c)"
proof -
  have "0 \<le> clock_hour twelve (dt_hour t)" "clock_hour twelve (dt_hour t) < 10 ^ 2"
    "0 \<le> dt_minute t" "dt_minute t < 10 ^ 2"
    using assms by (auto simp: valid_datetime_def clock_hour_def)
  then have l: "length (pad_str 2 (clock_hour twelve (dt_hour t))) = 2" "length (pad_str 2 (dt_minute t)) = 2"
    by (simp_all add: length_pad_str)
  then have "pad_str 2 (clock_hour twelve (dt_hour t)) \<noteq> []" by auto
  then show ?thesis unfolding print_time_def
    by (intro time_reads) (simp_all add: pad_str_digits l)
qed

lemma ascii_not_space: "48 \<le> c \<Longrightarrow> c \<le> 57 \<Longrightarrow> \<not> space c"
  by (simp add: py_isspace_def)

lemma pad_str_Cons: "0 < k \<Longrightarrow> \<exists>x xs. pad_str k i @ s = x # xs \<and> 48 \<le> x \<and> x \<le> 57"
proof -
  assume "0 < k"
  then have "pad_str k i \<noteq> []" by (simp add: pad_str_def Let_def)
  then obtain x xs where "pad_str k i = x # xs" by (cases "pad_str k i") auto
  with pad_str_ascii [of x k i] show ?thesis by simp
qed

lemma print_date_Cons: "\<exists>x xs. print_date fmt sep t @ s = x # xs \<and> \<not> space x"
  using pad_str_Cons [of 2 "dt_month t"] pad_str_Cons [of 2 "dt_day t"] pad_str_Cons [of 4 "dt_year t"]
    ascii_not_space by (cases fmt) (fastforce simp: print_date_def Let_def)+

lemma print_item_Cons: "\<exists>x xs. print_item item @ s = x # xs \<and> \<not> space x \<and> x \<noteq> 65 \<and> x \<noteq> 80"
proof (cases item)
  case None
  then show ?thesis by (simp add: print_item_def lit_def py_isspace_def)
next
  case (Some n)
  with comma_str_hd [of n] comma_str_chars(2) [of n] ascii_not_space show ?thesis
    by (cases "comma_str n") (auto simp: print_item_def)
qed

lemma print_entry_match:
  assumes t: "valid_datetime t" and sep: "one_of ''/.-'' sep" and name: "name \<noteq> []" "10 \<notin> set name"
  shows "re_fullmatch entry_re (print_entry fmt sep twelve k t item name) =
    Some (entry_groups fmt sep twelve t item name)"
proof (rule reads_fullmatch)
  let ?c1 = "[(''date'', print_date fmt sep t), (''separator'', [sep])]"
  let ?c2 = "(''time'', print_time twelve t) # ?c1"
  let ?c3 = "(if twelve then [(''meridiem'', meridiem_text (dt_hour t))] else []) @ ?c2"
  let ?rest = "replicate (Suc k) 32 @ print_item item @ name @ []"
  have "reads (RMany True 0 None space) []
      ((print_date fmt sep t @ [32, 32] @ print_time twelve t @ print_meridiem twelve t @ ?rest) @ []) [] []"
  proof (rule reads_many)
    obtain x xs where "print_date fmt sep t @ [32, 32] @ print_time twelve t @ print_meridiem twelve t @ ?rest = x # xs"
      "\<not> space x" using print_date_Cons by blast
    then show "((print_date fmt sep t @ [32, 32] @ print_time twelve t @ print_meridiem twelve t @ ?rest) @ [] = [] \<or>
        \<not> space (hd ((print_date fmt sep t @ [32, 32] @ print_time twelve t @ print_meridiem twelve t @ ?rest) @ []))) \<or>
        None = Some (length [])" by simp
  qed simp_all
  moreover have "reads date_re (print_date fmt sep t)
      (([32, 32] @ print_time twelve t @ print_meridiem twelve t @ ?rest) @ []) [] ?c1"
    using not_digit(1) [of 32] by (intro print_date_reads [OF t sep]) simp
  moreover have "reads (RMany True 1 None space) [32, 32]
      ((print_time twelve t @ print_meridiem twelve t @ ?rest) @ []) ?c1 ?c1"
  proof -
    obtain x xs where "print_time twelve t @ print_meridiem twelve t @ ?rest = x # xs" "\<not> space x"
      unfolding print_time_def using pad_str_Cons ascii_not_space by (metis append_assoc zero_less_numeral)
    then show ?thesis using spaces_reads [of _ 2] by (simp add: numeral_2_eq_2)
  qed
  moreover have "reads time_re (print_time twelve t) ((print_meridiem twelve t @ ?rest) @ []) ?c1 ?c2"
    by (rule print_time_reads [OF t])
  moreover have "reads meridiem_re (print_meridiem twelve t) (?rest @ []) ?c2 ?c3"
  proof (cases twelve)
    case True
    then show ?thesis using meridiem_reads by (simp add: print_meridiem_def)
  next
    case False
    obtain x xs where "print_item item @ name = x # xs" "\<not> space x" "x \<noteq> 65" "x \<noteq> 80"
      using print_item_Cons by blast
    with False show ?thesis using meridiem_skip [of _ x xs "Suc k" ?c2] by (simp add: print_meridiem_def)
  qed
  moreover have "reads (RMany True 1 None space) (replicate (Suc k) 32) ((print_item item @ name @ []) @ []) ?c3 ?c3"
  proof (rule spaces_reads)
    obtain x xs where "print_item item @ name = x # xs" "\<not> space x" using print_item_Cons by blast
    then show "(print_item item @ name @ []) @ [] = [] \<or> \<not> space (hd ((print_item item @ name @ []) @ []))" by simp
  qed simp
  moreover have "reads kind_re (print_item item) ((name @ []) @ []) ?c3 (item_groups item @ ?c3)"
    by (rule item_reads)
  moreover have "reads (RGroup ''name'' (RMany True 1 None dot)) name ([] @ []) (item_groups item @ ?c3)
      ((''name'', name) # item_groups item @ ?c3)"
    using name by (intro reads_group reads_many) (auto simp: list_all_iff dot_def Suc_le_eq)
  moreover have "reads REnd [] [] c c" for c by (rule reads_end)
  ultimately have "reads entry_re ([] @ print_date fmt sep t @ [32, 32] @ print_time twelve t @
      print_meridiem twelve t @ ?rest) [] [] ((''name'', name) # item_groups item @ ?c3)"
    unfolding entry_re_def seq.simps by (intro reads_seq)
  then show "reads entry_re (print_entry fmt sep twelve k t item name) [] [] (entry_groups fmt sep twelve t item name)"
    by (simp add: print_entry_def entry_groups_def)
qed

section \<open>The values\<close>

lemma split_set_absent: "list_all (\<lambda>c. \<not> C c) s \<Longrightarrow> split_set C s = [s]"
  by (induction s) auto

lemma split_set_append: "list_all (\<lambda>c. \<not> C c) w \<Longrightarrow> C x \<Longrightarrow> split_set C (w @ x # s) = w # split_set C s"
  by (induction w) auto

lemma pad_str_no_sep: "list_all (\<lambda>c. \<not> one_of ''/.-'' c) (pad_str k i)"
  using pad_str_ascii by (fastforce simp: list_all_iff one_of_def lit_def)

lemma print_date_tokens:
  assumes "one_of ''/.-'' sep"
  shows "split_set (one_of ''/.-'') (print_date fmt sep t) =
    (let y = pad_str 4 (dt_year t); m = pad_str 2 (dt_month t); d = pad_str 2 (dt_day t)
     in case fmt of MDY \<Rightarrow> [m, d, y] | DMY \<Rightarrow> [d, m, y] | YMD \<Rightarrow> [y, m, d])"
  by (cases fmt) (simp_all add: print_date_def Let_def split_set_append split_set_absent pad_str_no_sep assms)

lemma print_time_tokens:
  "split_on 58 (print_time twelve t) =
     [pad_str 2 (clock_hour twelve (dt_hour t)), pad_str 2 (dt_minute t)]"
proof -
  have "58 \<notin> set (pad_str k i)" for k i using pad_str_ascii [of 58 k i] by auto
  then show ?thesis by (simp add: print_time_def split_on_append split_on_absent)
qed

lemma clock_hour_back:
  assumes "0 \<le> h" "h < 24"
  shows "1 \<le> clock_hour True h" "clock_hour True h \<le> 12"
    "clock_hour True h mod 12 + (if meridiem_text h = lit ''PM'' then 12 else 0) = h"
proof -
  have "h mod 12 = (if h < 12 then h else h - 12)"
  proof (cases "h < 12")
    case False
    have "(h - 12) mod 12 = h mod 12" by simp
    moreover have "(h - 12) mod 12 = h - 12" using False assms by (intro mod_pos_pos_trivial) auto
    ultimately show ?thesis using False by simp
  qed (use assms in simp)
  then show "1 \<le> clock_hour True h" "clock_hour True h \<le> 12"
    "clock_hour True h mod 12 + (if meridiem_text h = lit ''PM'' then 12 else 0) = h"
    using assms by (auto simp: clock_hour_def meridiem_text_def)
qed

text \<open>A listing shows minutes: a naive time with the seconds cut off.\<close>

definition listed_time :: "datetime \<Rightarrow> bool" where
  "listed_time t \<longleftrightarrow> valid_datetime t \<and> dt_second t = 0 \<and> dt_microsecond t = 0 \<and> dt_tz t = None \<and> \<not> dt_fold t"

lemma make_listed_time:
  "listed_time t \<Longrightarrow> make_datetime (dt_year t) (dt_month t) (dt_day t) (dt_hour t) (dt_minute t) = Inr t"
  by (cases t) (simp add: listed_time_def make_datetime_def valid_datetime_def valid_date_def)

lemma parse_datetime_print:
  assumes t: "listed_time t" and sep: "one_of ''/.-'' sep"
  shows "parse_datetime (print_date fmt sep t) (print_time twelve t)
      (if twelve then Some (meridiem_text (dt_hour t)) else None) fmt number c = (Some t, c)"
proof -
  have v: "valid_datetime t" using t by (simp add: listed_time_def)
  then have b: "0 \<le> dt_year t" "dt_year t < 10 ^ 4" "0 \<le> dt_month t" "dt_month t < 10 ^ 2"
    "0 \<le> dt_day t" "dt_day t < 10 ^ 2" "0 \<le> dt_hour t" "dt_hour t < 24" "0 \<le> dt_minute t" "dt_minute t < 10 ^ 2"
    by (auto simp: valid_datetime_def valid_date_def days_in_month_def split: if_splits)
  have ch: "0 \<le> clock_hour twelve (dt_hour t)" "clock_hour twelve (dt_hour t) < 10 ^ 2"
    using b clock_hour_back [of "dt_hour t"] by (cases twelve; simp add: clock_hour_def)+
  have vals: "token_int (pad_str 4 (dt_year t)) = dt_year t" "token_int (pad_str 2 (dt_month t)) = dt_month t"
    "token_int (pad_str 2 (dt_day t)) = dt_day t" "token_int (pad_str 2 (dt_minute t)) = dt_minute t"
    "token_int (pad_str 2 (clock_hour twelve (dt_hour t))) = clock_hour twelve (dt_hour t)"
    using b ch by (simp_all add: token_int_pad_str)
  have y4: "length (pad_str 4 (dt_year t)) = 4" using b by (simp add: length_pad_str)
  have mk: "make_datetime (dt_year t) (dt_month t) (dt_day t) (dt_hour t) (dt_minute t) = Inr t"
    using t by (rule make_listed_time)
  have hour: "clock_hour twelve (dt_hour t) mod 12 + (if meridiem_text (dt_hour t) = lit ''PM'' then 12 else 0) = dt_hour t"
    "1 \<le> clock_hour twelve (dt_hour t)" "clock_hour twelve (dt_hour t) \<le> 12" if twelve
    using that clock_hour_back [OF b(7,8)] by simp_all
  have hour24: "clock_hour twelve (dt_hour t) = dt_hour t" if "\<not> twelve" using that by (simp add: clock_hour_def)
  show ?thesis
    by (cases fmt; cases twelve)
      (use hour hour24 b vals(5) in \<open>simp_all add: parse_datetime_def print_date_tokens [OF sep] print_time_tokens vals y4 mk Let_def\<close>)
qed

text \<open>
  The printed entry parses to its time, kind, size and name, under the section's path, and
  leaves the diagnostics alone.
\<close>

definition printed_entry :: "pystr \<Rightarrow> int \<Rightarrow> datetime \<Rightarrow> nat option \<Rightarrow> pystr \<Rightarrow> parsed_entry" where
  "printed_entry section number t item name =
     \<lparr>entry_path = to_mounted_path section [name],
      entry_kind = (case item of None \<Rightarrow> DIRECTORY | Some _ \<Rightarrow> FILE),
      entry_observation = (case item of None \<Rightarrow> DIRECTORY_ENTRY | Some _ \<Rightarrow> FILE_ENTRY),
      entry_size = map_option int item, entry_modified_local = Some t, entry_source_line = Some number,
      entry_content = None, entry_source_metadata = EMPTY_METADATA\<rparr>"

lemma parse_entry_print:
  assumes t: "listed_time t" and sep: "one_of ''/.-'' sep" and name: "name_ok name" "10 \<notin> set name"
    and item: "case item of None \<Rightarrow> True | Some n \<Rightarrow> length (nat_str n) \<le> int_max_str_digits"
  shows "parse_entry section (print_entry fmt sep twelve k t item name) number fmt c =
    ((True, Some (printed_entry section number t item name)), c)"
proof -
  have v: "valid_datetime t" using t by (simp add: listed_time_def)
  have n: "name \<noteq> []" using name by (simp add: name_ok_def)
  let ?g = "entry_groups fmt sep twelve t item name"
  have g: "group ?g ''date'' = Some (print_date fmt sep t)" "group ?g ''time'' = Some (print_time twelve t)"
    "group ?g ''meridiem'' = (if twelve then Some (meridiem_text (dt_hour t)) else None)"
    "group ?g ''name'' = Some name"
    "group ?g ''directory'' = (case item of None \<Rightarrow> Some (lit ''<DIR>'') | Some _ \<Rightarrow> None)"
    "group ?g ''size'' = map_option comma_str item"
    by (cases item; simp add: group_def entry_groups_def item_groups_def)+
  have names: "name \<noteq> lit ''.''" "name \<noteq> lit ''..''" "0 \<notin> set name" "47 \<notin> set name" "92 \<notin> set name" "58 \<notin> set name"
    using name by (simp_all add: name_ok_def)
  show ?thesis
    using item g print_entry_match [OF v sep n name(2), of fmt twelve k item]
    by (cases item)
      (simp_all add: parse_entry_def parse_datetime_print [OF t sep] names printed_entry_def
        parse_integer_comma_str Let_def)
qed

end
