(* ===== verification/Read_Policy.thy ===== *)
theory Read_Policy
  imports Store_Interface
begin

text \<open>
  \<open>snapshotfs.fuse.policy\<close>: bounded reads of a node, with the error number of the raised
  \<open>ContentReadError\<close> as the \<open>Inl\<close> side. Error numbers are those of Linux.
\<close>

section \<open>Error numbers\<close>

definition ENOENT :: int where "ENOENT = 2"
definition EBADF :: int where "EBADF = 9"
definition ENOTDIR :: int where "ENOTDIR = 20"
definition EISDIR :: int where "EISDIR = 21"
definition EINVAL :: int where "EINVAL = 22"
definition EROFS :: int where "EROFS = 30"
definition ENODATA :: int where "ENODATA = 61"

lemmas errno_defs = ENOENT_def EBADF_def ENOTDIR_def EISDIR_def EINVAL_def EROFS_def ENODATA_def

section \<open>Reading\<close>

definition read_node :: "node \<Rightarrow> int \<Rightarrow> int \<Rightarrow> bool \<Rightarrow> int + bytes" where
  "read_node n offset sz simulate_missing =
     (if node_kind n = DIRECTORY then Inl EISDIR
      else if node_kind n \<noteq> FILE \<or> offset < 0 \<or> sz < 0 then Inl EINVAL
      else if sz = 0 then Inr []
      else if (case node_size n of Some s \<Rightarrow> offset \<ge> s | None \<Rightarrow> False) then Inr []
      else (case node_content n of
          Some c \<Rightarrow> Inr (slice c offset (offset + sz))
        | None \<Rightarrow>
            (case node_size n of
               Some s \<Rightarrow>
                 if simulate_missing \<and> node_content_status n = MISSING \<and> s \<ge> 0
                 then Inr (replicate (nat (min sz (s - offset))) 0)
                 else Inl ENODATA
             | None \<Rightarrow> Inl ENODATA)))"

text \<open>
  What a mounted file reads as: its content, zeros for a missing content whose size is
  known when simulation is on, and nothing otherwise.
\<close>

definition mounted_content :: "node \<Rightarrow> bool \<Rightarrow> bytes option" where
  "mounted_content n simulate =
     (case (node_content n, node_size n) of
        (Some c, _) \<Rightarrow> Some c
      | (None, Some s) \<Rightarrow>
          if simulate \<and> node_content_status n = MISSING then Some (replicate (nat s) 0) else None
      | (None, None) \<Rightarrow> None)"

lemma slice_beyond: "int (length xs) \<le> i \<Longrightarrow> 0 \<le> j \<Longrightarrow> slice xs i j = []"
  by (simp add: slice_def slice_start_def Let_def)

lemma slice_replicate:
  "0 \<le> i \<Longrightarrow> i < int k \<Longrightarrow> 0 \<le> n \<Longrightarrow>
   slice (replicate k x) i (i + n) = replicate (nat (min n (int k - i))) x"
  by (simp add: slice_nonneg take_replicate drop_replicate min_def)
    (auto intro!: arg_cong [where f = "\<lambda>k. replicate k x"])

text \<open>A read of a file with mounted content is the slice of it, at every offset and size.\<close>

lemma read_node_mounted:
  assumes n: "node_kind n = FILE" "node_content_ok n" and c: "mounted_content n simulate = Some c"
    and r: "0 \<le> offset" "0 \<le> sz"
  shows "read_node n offset sz simulate = Inr (slice c offset (offset + sz))"
proof (cases "node_content n")
  case (Some c')
  with n have "node_size n = Some (int (length c'))" by (simp add: content_ok_def)
  with Some n c r show ?thesis
    by (auto simp: read_node_def mounted_content_def slice_beyond slice_nonneg)
next
  case None
  with c obtain s where s: "node_size n = Some s" "simulate" "node_content_status n = MISSING"
    "c = replicate (nat s) 0"
    by (auto simp: mounted_content_def split: option.splits if_splits)
  have "0 \<le> s" using n s(1) by (simp add: content_ok_def)
  with s n None r show ?thesis
    using slice_replicate [of offset "nat s" sz 0]
    by (auto simp: read_node_def slice_beyond slice_nonneg)
qed

text \<open>Without mounted content, a read within the file is refused.\<close>

lemma read_node_unavailable:
  assumes "node_kind n = FILE" "mounted_content n simulate = None" "0 \<le> offset" "0 < sz"
    "\<And>s. node_size n = Some s \<Longrightarrow> 0 \<le> s \<and> offset < s"
  shows "read_node n offset sz simulate = Inl ENODATA"
  using assms by (auto simp: read_node_def mounted_content_def split: option.splits if_splits)

lemma slice_adjacent:
  "0 \<le> a \<Longrightarrow> a \<le> b \<Longrightarrow> b \<le> c \<Longrightarrow> slice xs a b @ slice xs b c = slice xs a c"
proof -
  assume "0 \<le> a" "a \<le> b" "b \<le> c"
  then obtain i j k where ijk: "nat a = i" "nat b = i + j" "nat c = i + j + k"
    by (metis le_Suc_ex nat_mono)
  have "drop i (take (i + j) xs) @ drop (i + j) (take (i + j + k) xs) = drop i (take (i + j + k) xs)"
    by (simp add: drop_take) (metis append_take_drop_id drop_drop take_add add.commute)
  with ijk \<open>0 \<le> a\<close> \<open>a \<le> b\<close> \<open>b \<le> c\<close> show ?thesis by (simp add: slice_nonneg)
qed

text \<open>Reads at consecutive offsets, as the kernel issues them: the concatenated results.\<close>

fun read_pages :: "node \<Rightarrow> bool \<Rightarrow> int \<Rightarrow> int list \<Rightarrow> int + bytes" where
  "read_pages n simulate offset [] = Inr []"
| "read_pages n simulate offset (sz # szs) =
     (case read_node n offset sz simulate of
        Inl e \<Rightarrow> Inl e
      | Inr b \<Rightarrow> map_ok ((@) b) (read_pages n simulate (offset + sz) szs))"

lemma read_pages_slice:
  assumes n: "node_kind n = FILE" "node_content_ok n" and c: "mounted_content n simulate = Some c"
  shows "0 \<le> offset \<Longrightarrow> \<forall>s \<in> set szs. 0 \<le> s \<Longrightarrow>
    read_pages n simulate offset szs = Inr (slice c offset (offset + sum_list szs))"
proof (induction szs arbitrary: offset)
  case Nil
  then show ?case by (simp add: slice_nonneg)
next
  case (Cons s szs)
  have "0 \<le> sum_list szs" using Cons.prems(2) by (simp add: sum_list_nonneg)
  with Cons show ?case
    using read_node_mounted [OF n c, of offset s] slice_adjacent [of offset "offset + s" "offset + s + sum_list szs" c]
    by (simp add: add.assoc)
qed

end
