(* ===== verification/Fuse_Operations.thy ===== *)
theory Fuse_Operations
  imports Read_Policy
begin

text \<open>
  \<open>snapshotfs.fuse.adapter\<close>: the read-only request handlers over a store, with their tables
  of open handles and kernel lookup counts. A handler returns \<open>Inl\<close> the raised error or
  \<open>Inr\<close> the reply, and the state after it. Handlers do not await, so each is one step.
\<close>

section \<open>Environment and state\<close>

datatype fuse_exn = FUSEError int | Fuse_Raised py_exn

text \<open>The process's user and group, the time zones, and pyfuse3's \<open>ENOATTR\<close>.\<close>

record fuse_env =
  env_tz :: tzdb
  env_uid :: int
  env_gid :: int
  env_ENOATTR :: int

record attributes =
  st_ino :: int
  attr_generation :: int
  attr_entry_timeout :: pyfloat
  attr_attr_timeout :: pyfloat
  st_mode :: int
  st_nlink :: int
  st_uid :: int
  st_gid :: int
  st_rdev :: int
  st_size :: int
  st_blksize :: int
  st_blocks :: int
  st_atime_ns :: int
  st_ctime_ns :: int
  st_mtime_ns :: int
  st_birthtime_ns :: int

record file_info =
  fi_fh :: int
  fi_keep_cache :: bool
  fi_direct_io :: bool

record fuse_ops =
  fo_store :: store
  fo_simulate :: bool
  fo_snapshot :: snapshot
  fo_files :: "(int, int) dict"
  fo_dirs :: "(int, int) dict"
  fo_lookups :: "(int, int) dict"
  fo_next :: int

definition CONTENT_STATUS_XATTR :: bytes where
  "CONTENT_STATUS_XATTR = blit ''user.snapshotfs.content_status''"

definition ATTRIBUTE_TIMEOUT :: pyfloat where
  "ATTRIBUTE_TIMEOUT = Finite 300 0"

text \<open>\<open>next(iter(store.iter\_nodes()))\<close> raises \<open>StopIteration\<close> on an empty store.\<close>

definition fuse_init :: "store \<Rightarrow> bool \<Rightarrow> py_exn + fuse_ops" where
  "fuse_init st simulate =
     (case iter_nodes st of
        Inl x \<Rightarrow> Inl x
      | Inr [] \<Rightarrow> Inl (StoreError ''StopIteration'' [])
      | Inr (root # _) \<Rightarrow>
          map_ok (\<lambda>sn. \<lparr>fo_store = st, fo_simulate = simulate, fo_snapshot = sn, fo_files = [],
              fo_dirs = [], fo_lookups = [], fo_next = 1\<rparr>)
            (get_snapshot st (node_snapshot_id root)))"

section \<open>Attributes\<close>

text \<open>
  \<open>datetime.timestamp\<close> and the scaling to nanoseconds compute with doubles. A quotient of
  integers is rounded to 53 significant bits, ties to even; the values here are far from
  the limits of the exponent.
\<close>

fun bit_length :: "nat \<Rightarrow> nat" where
  "bit_length n = (if n = 0 then 0 else Suc (bit_length (n div 2)))"

declare bit_length.simps [simp del]

definition round_half_even :: "int \<Rightarrow> int \<Rightarrow> int" where
  "round_half_even n d =
     (let q = n div d; r = n mod d
      in if 2 * r < d \<or> (2 * r = d \<and> even q) then q else q + 1)"

definition scaled_round :: "int \<Rightarrow> int \<Rightarrow> int \<Rightarrow> int" where
  "scaled_round a d e =
     (if e \<ge> 0 then round_half_even a (d * 2 ^ nat e) else round_half_even (a * 2 ^ nat (- e)) d)"

definition double_of :: "int \<Rightarrow> int \<Rightarrow> int \<times> int" where
  "double_of n d =
     (if n = 0 then (0, 0)
      else let a = \<bar>n\<bar>;
               k = int (bit_length (nat a)) - int (bit_length (nat d));
               top = (if (if k \<ge> 0 then a \<ge> d * 2 ^ nat k else a * 2 ^ nat (- k) \<ge> d) then k else k - 1);
               e = top - 52
           in (sgn n * scaled_round a d e, e))"

definition double_times :: "int \<times> int \<Rightarrow> int \<Rightarrow> int \<times> int" where
  "double_times x c =
     (case x of (m, e) \<Rightarrow>
        if e \<ge> 0 then double_of (m * c * 2 ^ nat e) 1 else double_of (m * c) (2 ^ nat (- e)))"

definition double_int :: "int \<times> int \<Rightarrow> int" where
  "double_int x =
     (case x of (m, e) \<Rightarrow>
        if e \<ge> 0 then m * 2 ^ nat e else sgn m * (\<bar>m\<bar> div 2 ^ nat (- e)))"

text \<open>Microseconds of the epoch 1970-01-01 on the wall clock's scale.\<close>

definition epoch_wall :: int where
  "epoch_wall = 719163 * 86400000000"

definition timestamp_ns :: "tzdb \<Rightarrow> datetime \<Rightarrow> int" where
  "timestamp_ns db t =
     (let off = (case dt_tz t of None \<Rightarrow> 0 | Some z \<Rightarrow> tz_offset db z (dt_wall t) (dt_fold t));
          us = dt_wall t - off - epoch_wall
      in double_int (double_times (double_of us 1000000) 1000000000))"

definition S_IFDIR :: int where "S_IFDIR = 0x4000"
definition S_IFREG :: int where "S_IFREG = 0x8000"

definition fuse_attributes :: "fuse_env \<Rightarrow> fuse_ops \<Rightarrow> node \<Rightarrow> attributes" where
  "fuse_attributes env ops n =
     (let permissions = (if node_kind n = DIRECTORY then 0x16D else 0x124);
          file_type = (if node_kind n = DIRECTORY then S_IFDIR else S_IFREG);
          sz = (case node_size n of Some s \<Rightarrow> s | None \<Rightarrow> 0);
          timestamp = (case node_modified_at n of
              Some t \<Rightarrow> t | None \<Rightarrow> snapshot_imported_at (fo_snapshot ops));
          ns = timestamp_ns (env_tz env) timestamp
      in \<lparr>st_ino = node_id n, attr_generation = 0, attr_entry_timeout = ATTRIBUTE_TIMEOUT,
          attr_attr_timeout = ATTRIBUTE_TIMEOUT, st_mode = file_type + permissions,
          st_nlink = (if node_kind n = DIRECTORY then 2 else 1), st_uid = env_uid env,
          st_gid = env_gid env, st_rdev = 0, st_size = sz, st_blksize = 4096,
          st_blocks = (sz + 511) div 512, st_atime_ns = ns, st_ctime_ns = ns, st_mtime_ns = ns,
          st_birthtime_ns = ns\<rparr>)"

section \<open>Helpers\<close>

definition fuse_node :: "fuse_ops \<Rightarrow> int \<Rightarrow> fuse_exn + node" where
  "fuse_node ops i =
     (case get_node (fo_store ops) i of
        Inr n \<Rightarrow> Inr n
      | Inl (KeyErrorInt _) \<Rightarrow> Inl (FUSEError ENOENT)
      | Inl (KeyErrorStr _) \<Rightarrow> Inl (FUSEError ENOENT)
      | Inl x \<Rightarrow> Inl (Fuse_Raised x))"

definition allocate_handle :: "fuse_ops \<Rightarrow> int \<times> fuse_ops" where
  "allocate_handle ops = (fo_next ops, ops\<lparr>fo_next := fo_next ops + 1\<rparr>)"

definition lookup_count :: "fuse_ops \<Rightarrow> int \<Rightarrow> int" where
  "lookup_count ops i = (case dict_get (fo_lookups ops) i of Some c \<Rightarrow> c | None \<Rightarrow> 0)"

definition increment_lookup :: "int \<Rightarrow> fuse_ops \<Rightarrow> fuse_ops" where
  "increment_lookup i ops = ops\<lparr>fo_lookups := dict_set i (lookup_count ops i + 1) (fo_lookups ops)\<rparr>"

definition file_handle :: "fuse_ops \<Rightarrow> int \<Rightarrow> fuse_exn + int" where
  "file_handle ops h = (case dict_get (fo_files ops) h of Some i \<Rightarrow> Inr i | None \<Rightarrow> Inl (FUSEError EBADF))"

definition directory_handle :: "fuse_ops \<Rightarrow> int \<Rightarrow> fuse_exn + int" where
  "directory_handle ops h = (case dict_get (fo_dirs ops) h of Some i \<Rightarrow> Inr i | None \<Rightarrow> Inl (FUSEError EBADF))"

section \<open>Handlers\<close>

definition lookup_node :: "fuse_ops \<Rightarrow> int \<Rightarrow> bytes \<Rightarrow> fuse_exn + node" where
  "lookup_node ops p name =
     (case fuse_node ops p of
        Inl x \<Rightarrow> Inl x
      | Inr parent \<Rightarrow>
          if node_kind parent \<noteq> DIRECTORY then Inl (FUSEError ENOTDIR)
          else if name = blit ''.'' then Inr parent
          else if name = blit ''..'' then
            (case node_parent_id parent of None \<Rightarrow> Inr parent | Some q \<Rightarrow> fuse_node ops q)
          else (case store.lookup (fo_store ops) p name of
              Inl x \<Rightarrow> Inl (Fuse_Raised x)
            | Inr None \<Rightarrow> Inl (FUSEError ENOENT)
            | Inr (Some n) \<Rightarrow> Inr n))"

definition fuse_lookup :: "fuse_env \<Rightarrow> int \<Rightarrow> bytes \<Rightarrow> fuse_ops \<Rightarrow> (fuse_exn + attributes) \<times> fuse_ops" where
  "fuse_lookup env p name ops =
     (case lookup_node ops p name of
        Inl x \<Rightarrow> (Inl x, ops)
      | Inr n \<Rightarrow> (Inr (fuse_attributes env ops n), increment_lookup (node_id n) ops))"

definition forget_one :: "int \<times> int \<Rightarrow> fuse_ops \<Rightarrow> fuse_ops" where
  "forget_one x ops =
     (case x of (inode, nlookup) \<Rightarrow>
        if nlookup \<le> 0 then ops
        else let remaining = max 0 (lookup_count ops inode - nlookup)
             in if remaining \<noteq> 0
                then ops\<lparr>fo_lookups := dict_set inode remaining (fo_lookups ops)\<rparr>
                else ops\<lparr>fo_lookups := dict_pop inode (fo_lookups ops)\<rparr>)"

definition fuse_forget :: "(int \<times> int) list \<Rightarrow> fuse_ops \<Rightarrow> (fuse_exn + unit) \<times> fuse_ops" where
  "fuse_forget inode_list ops = (Inr (), fold forget_one inode_list ops)"

definition fuse_getattr :: "fuse_env \<Rightarrow> int \<Rightarrow> fuse_ops \<Rightarrow> (fuse_exn + attributes) \<times> fuse_ops" where
  "fuse_getattr env i ops = (map_ok (fuse_attributes env ops) (fuse_node ops i), ops)"

definition fuse_opendir :: "int \<Rightarrow> fuse_ops \<Rightarrow> (fuse_exn + int) \<times> fuse_ops" where
  "fuse_opendir i ops =
     (case fuse_node ops i of
        Inl x \<Rightarrow> (Inl x, ops)
      | Inr n \<Rightarrow>
          if node_kind n \<noteq> DIRECTORY then (Inl (FUSEError ENOTDIR), ops)
          else (let (h, ops') = allocate_handle ops
                in (Inr h, ops'\<lparr>fo_dirs := dict_set h i (fo_dirs ops')\<rparr>)))"

text \<open>
  \<open>reply\<close> stands for \<open>pyfuse3.readdir\_reply\<close>: it says whether the entry fitted in the
  reply buffer, the token it updates.
\<close>

type_synonym 't readdir_reply = "'t \<Rightarrow> bytes \<Rightarrow> attributes \<Rightarrow> int \<Rightarrow> bool \<times> 't"

fun readdir_loop ::
  "fuse_env \<Rightarrow> 't readdir_reply \<Rightarrow> node list \<Rightarrow> int \<Rightarrow> 't \<Rightarrow> fuse_ops \<Rightarrow> 't \<times> fuse_ops" where
  "readdir_loop env reply [] next_id token ops = (token, ops)"
| "readdir_loop env reply (n # ns) next_id token ops =
     (case reply token (node_mounted_name n) (fuse_attributes env ops n) next_id of
        (False, token') \<Rightarrow> (token', ops)
      | (True, token') \<Rightarrow>
          readdir_loop env reply ns (next_id + 1) token' (increment_lookup (node_id n) ops))"

definition fuse_readdir ::
  "fuse_env \<Rightarrow> 't readdir_reply \<Rightarrow> int \<Rightarrow> int \<Rightarrow> 't \<Rightarrow> fuse_ops \<Rightarrow> (fuse_exn + unit) \<times> 't \<times> fuse_ops" where
  "fuse_readdir env reply fh start_id token ops =
     (case dict_get (fo_dirs ops) fh of
        None \<Rightarrow> (Inl (FUSEError EBADF), token, ops)
      | Some i \<Rightarrow>
          (case iter_children (fo_store ops) i start_id of
             Inl x \<Rightarrow> (Inl (Fuse_Raised x), token, ops)
           | Inr ns \<Rightarrow> (Inr (), readdir_loop env reply ns (start_id + 1) token ops)))"

definition fuse_releasedir :: "int \<Rightarrow> fuse_ops \<Rightarrow> (fuse_exn + unit) \<times> fuse_ops" where
  "fuse_releasedir fh ops =
     (if dict_get (fo_dirs ops) fh = None then (Inl (FUSEError EBADF), ops)
      else (Inr (), ops\<lparr>fo_dirs := dict_pop fh (fo_dirs ops)\<rparr>))"

definition fuse_fsyncdir :: "int \<Rightarrow> fuse_ops \<Rightarrow> (fuse_exn + unit) \<times> fuse_ops" where
  "fuse_fsyncdir fh ops = (map_ok (\<lambda>_. ()) (directory_handle ops fh), ops)"

text \<open>Bits of the open flags, as on Linux.\<close>

definition O_ACCMODE :: int where "O_ACCMODE = 3"
definition O_RDONLY :: int where "O_RDONLY = 0"
definition O_TRUNC :: int where "O_TRUNC = 0x200"
definition O_APPEND :: int where "O_APPEND = 0x400"
definition W_OK :: int where "W_OK = 2"

definition fuse_open :: "int \<Rightarrow> int \<Rightarrow> fuse_ops \<Rightarrow> (fuse_exn + file_info) \<times> fuse_ops" where
  "fuse_open i flags ops =
     (case fuse_node ops i of
        Inl x \<Rightarrow> (Inl x, ops)
      | Inr n \<Rightarrow>
          if node_kind n = DIRECTORY then (Inl (FUSEError EISDIR), ops)
          else if node_kind n \<noteq> FILE then (Inl (FUSEError EINVAL), ops)
          else if and flags O_ACCMODE \<noteq> O_RDONLY \<or> and flags (or O_APPEND O_TRUNC) \<noteq> 0
          then (Inl (FUSEError EROFS), ops)
          else (let (h, ops') = allocate_handle ops;
                    unavailable = (node_content n = None \<and> \<not> fo_simulate ops)
                in (Inr \<lparr>fi_fh = h, fi_keep_cache = \<not> unavailable, fi_direct_io = unavailable\<rparr>,
                    ops'\<lparr>fo_files := dict_set h i (fo_files ops')\<rparr>)))"

definition fuse_read :: "int \<Rightarrow> int \<Rightarrow> int \<Rightarrow> fuse_ops \<Rightarrow> (fuse_exn + bytes) \<times> fuse_ops" where
  "fuse_read fh off sz ops =
     (case file_handle ops fh of
        Inl x \<Rightarrow> (Inl x, ops)
      | Inr i \<Rightarrow>
          (case fuse_node ops i of
             Inl x \<Rightarrow> (Inl x, ops)
           | Inr n \<Rightarrow>
               (case read_node n off sz (fo_simulate ops) of
                  Inl e \<Rightarrow> (Inl (FUSEError e), ops)
                | Inr b \<Rightarrow> (Inr b, ops))))"

definition fuse_release :: "int \<Rightarrow> fuse_ops \<Rightarrow> (fuse_exn + unit) \<times> fuse_ops" where
  "fuse_release fh ops =
     (if dict_get (fo_files ops) fh = None then (Inl (FUSEError EBADF), ops)
      else (Inr (), ops\<lparr>fo_files := dict_pop fh (fo_files ops)\<rparr>))"

definition fuse_flush :: "int \<Rightarrow> fuse_ops \<Rightarrow> (fuse_exn + unit) \<times> fuse_ops" where
  "fuse_flush fh ops = (map_ok (\<lambda>_. ()) (file_handle ops fh), ops)"

definition fuse_fsync :: "int \<Rightarrow> fuse_ops \<Rightarrow> (fuse_exn + unit) \<times> fuse_ops" where
  "fuse_fsync fh ops = (map_ok (\<lambda>_. ()) (file_handle ops fh), ops)"

definition fuse_getxattr :: "fuse_env \<Rightarrow> int \<Rightarrow> bytes \<Rightarrow> fuse_ops \<Rightarrow> (fuse_exn + bytes) \<times> fuse_ops" where
  "fuse_getxattr env i name ops =
     (case fuse_node ops i of
        Inl x \<Rightarrow> (Inl x, ops)
      | Inr n \<Rightarrow>
          if name \<noteq> CONTENT_STATUS_XATTR then (Inl (FUSEError (env_ENOATTR env)), ops)
          else (Inr (map of_nat (content_status_value (node_content_status n))), ops))"

definition fuse_listxattr :: "int \<Rightarrow> fuse_ops \<Rightarrow> (fuse_exn + bytes list) \<times> fuse_ops" where
  "fuse_listxattr i ops = (map_ok (\<lambda>_. [CONTENT_STATUS_XATTR]) (fuse_node ops i), ops)"

definition fuse_access :: "int \<Rightarrow> int \<Rightarrow> fuse_ops \<Rightarrow> (fuse_exn + bool) \<times> fuse_ops" where
  "fuse_access i mode ops =
     (case fuse_node ops i of
        Inl x \<Rightarrow> (Inl x, ops)
      | Inr n \<Rightarrow> if and mode W_OK \<noteq> 0 then (Inl (FUSEError EROFS), ops) else (Inr True, ops))"

definition fuse_readlink :: "int \<Rightarrow> fuse_ops \<Rightarrow> (fuse_exn + bytes) \<times> fuse_ops" where
  "fuse_readlink i ops =
     (case fuse_node ops i of Inl x \<Rightarrow> (Inl x, ops) | Inr n \<Rightarrow> (Inl (FUSEError EINVAL), ops))"

section \<open>read\_only.py: the mutating handlers\<close>

datatype mutation =
    Setattr int | Mknod int bytes int int | Mkdir int bytes int | Unlink int bytes | Rmdir int bytes
  | Symlink int bytes bytes | Rename int bytes int bytes int | Link int int bytes
  | Create int bytes int int | Write int int bytes | Setxattr int bytes bytes | Removexattr int bytes

definition read_only :: "fuse_exn + 'a" where
  "read_only = Inl (FUSEError EROFS)"

fun fuse_mutate :: "mutation \<Rightarrow> fuse_ops \<Rightarrow> (fuse_exn + unit) \<times> fuse_ops" where
  "fuse_mutate (Write fh off buf) ops =
     (case file_handle ops fh of Inl x \<Rightarrow> (Inl x, ops) | Inr _ \<Rightarrow> (read_only, ops))"
| "fuse_mutate (Setattr i) ops = (read_only, ops)"
| "fuse_mutate (Mknod p name mode rdev) ops = (read_only, ops)"
| "fuse_mutate (Mkdir p name mode) ops = (read_only, ops)"
| "fuse_mutate (Unlink p name) ops = (read_only, ops)"
| "fuse_mutate (Rmdir p name) ops = (read_only, ops)"
| "fuse_mutate (Symlink p name target) ops = (read_only, ops)"
| "fuse_mutate (Rename p name p' name' flags) ops = (read_only, ops)"
| "fuse_mutate (Link i p name) ops = (read_only, ops)"
| "fuse_mutate (Create p name mode flags) ops = (read_only, ops)"
| "fuse_mutate (Setxattr i name v) ops = (read_only, ops)"
| "fuse_mutate (Removexattr i name) ops = (read_only, ops)"

section \<open>Steps and reachable states\<close>

text \<open>
  The kernel's requests, one rule per handler that can change the state; the token of a
  directory listing is taken to be the bytes of the reply buffer.
\<close>

inductive fuse_step :: "fuse_env \<Rightarrow> fuse_ops \<Rightarrow> fuse_ops \<Rightarrow> bool" for env where
  lookup_name: "fuse_step env ops (snd (fuse_lookup env p name ops))"
| forget: "fuse_step env ops (snd (fuse_forget inode_list ops))"
| opendir: "fuse_step env ops (snd (fuse_opendir i ops))"
| readdir: "fuse_step env ops
    (snd (snd (fuse_readdir env (reply :: bytes readdir_reply) fh start_id token ops)))"
| releasedir: "fuse_step env ops (snd (fuse_releasedir fh ops))"
| open_file: "fuse_step env ops (snd (fuse_open i flags ops))"
| release: "fuse_step env ops (snd (fuse_release fh ops))"
| mutate: "fuse_step env ops (snd (fuse_mutate m ops))"

inductive fuse_reachable :: "fuse_env \<Rightarrow> store \<Rightarrow> bool \<Rightarrow> fuse_ops \<Rightarrow> bool" for env st simulate where
  start: "fuse_init st simulate = Inr ops \<Longrightarrow> fuse_reachable env st simulate ops"
| step: "fuse_reachable env st simulate ops \<Longrightarrow> fuse_step env ops ops' \<Longrightarrow>
    fuse_reachable env st simulate ops'"

text \<open>
  The tables: handles are positive, below the next one and in at most one table; they are
  for files and for directories of the store; lookup counts are positive, for existing nodes.
\<close>

definition tables_ok :: "node_map \<Rightarrow> fuse_ops \<Rightarrow> bool" where
  "tables_ok m ops \<longleftrightarrow> 1 \<le> fo_next ops \<and>
     (\<forall>h i. dict_get (fo_files ops) h = Some i \<longrightarrow> 1 \<le> h \<and> h < fo_next ops \<and>
        dict_get (fo_dirs ops) h = None \<and> (\<exists>n. m i = Some n \<and> node_kind n = FILE)) \<and>
     (\<forall>h i. dict_get (fo_dirs ops) h = Some i \<longrightarrow> 1 \<le> h \<and> h < fo_next ops \<and>
        dict_get (fo_files ops) h = None \<and> (\<exists>n. m i = Some n \<and> node_kind n = DIRECTORY)) \<and>
     (\<forall>i c. dict_get (fo_lookups ops) i = Some c \<longrightarrow> 0 < c \<and> m i \<noteq> None)"

lemma tables_okD:
  assumes "tables_ok m ops"
  shows "1 \<le> fo_next ops"
    and "dict_get (fo_files ops) h = Some i \<Longrightarrow> 1 \<le> h \<and> h < fo_next ops \<and>
      dict_get (fo_dirs ops) h = None \<and> (\<exists>n. m i = Some n \<and> node_kind n = FILE)"
    and "dict_get (fo_dirs ops) h = Some i \<Longrightarrow> 1 \<le> h \<and> h < fo_next ops \<and>
      dict_get (fo_files ops) h = None \<and> (\<exists>n. m i = Some n \<and> node_kind n = DIRECTORY)"
    and "dict_get (fo_lookups ops) i = Some c \<Longrightarrow> 0 < c \<and> m i \<noteq> None"
  using assms by (auto simp: tables_ok_def)

lemma fresh_handle:
  assumes "tables_ok m ops"
  shows "dict_get (fo_files ops) (fo_next ops) = None" "dict_get (fo_dirs ops) (fo_next ops) = None"
  using tables_okD(2,3) [OF assms, of "fo_next ops"] by (metis less_irrefl not_None_eq)+

lemma tables_okI:
  assumes "1 \<le> fo_next ops"
    and "\<And>h i. dict_get (fo_files ops) h = Some i \<Longrightarrow> 1 \<le> h \<and> h < fo_next ops \<and>
      dict_get (fo_dirs ops) h = None \<and> (\<exists>n. m i = Some n \<and> node_kind n = FILE)"
    and "\<And>h i. dict_get (fo_dirs ops) h = Some i \<Longrightarrow> 1 \<le> h \<and> h < fo_next ops \<and>
      dict_get (fo_files ops) h = None \<and> (\<exists>n. m i = Some n \<and> node_kind n = DIRECTORY)"
    and "\<And>i c. dict_get (fo_lookups ops) i = Some c \<Longrightarrow> 0 < c \<and> m i \<noteq> None"
  shows "tables_ok m ops"
  using assms by (simp add: tables_ok_def)

lemma tables_ok_open_dir:
  assumes "tables_ok m ops" "m i = Some n" "node_kind n = DIRECTORY"
  shows "tables_ok m (ops\<lparr>fo_next := fo_next ops + 1, fo_dirs := dict_set (fo_next ops) i (fo_dirs ops)\<rparr>)"
proof (rule tables_okI)
  note t = tables_okD [OF assms(1)] and f = fresh_handle [OF assms(1)]
  let ?ops = "ops\<lparr>fo_next := fo_next ops + 1, fo_dirs := dict_set (fo_next ops) i (fo_dirs ops)\<rparr>"
  fix h j
  show "1 \<le> fo_next ?ops" using t(1) by simp
  show "1 \<le> h \<and> h < fo_next ?ops \<and> dict_get (fo_dirs ?ops) h = None \<and>
      (\<exists>n. m j = Some n \<and> node_kind n = FILE)" if "dict_get (fo_files ?ops) h = Some j"
    using that t(2) [of h j] by auto
  show "1 \<le> h \<and> h < fo_next ?ops \<and> dict_get (fo_files ?ops) h = None \<and>
      (\<exists>n. m j = Some n \<and> node_kind n = DIRECTORY)" if "dict_get (fo_dirs ?ops) h = Some j"
    using that t(1) t(3) [of h j] f assms(2,3) by (cases "h = fo_next ops") auto
  show "0 < c \<and> m j \<noteq> None" if "dict_get (fo_lookups ?ops) j = Some c" for c
    using that t(4) [of j c] by simp
qed

lemma tables_ok_open_file:
  assumes "tables_ok m ops" "m i = Some n" "node_kind n = FILE"
  shows "tables_ok m (ops\<lparr>fo_next := fo_next ops + 1, fo_files := dict_set (fo_next ops) i (fo_files ops)\<rparr>)"
proof (rule tables_okI)
  note t = tables_okD [OF assms(1)] and f = fresh_handle [OF assms(1)]
  let ?ops = "ops\<lparr>fo_next := fo_next ops + 1, fo_files := dict_set (fo_next ops) i (fo_files ops)\<rparr>"
  fix h j
  show "1 \<le> fo_next ?ops" using t(1) by simp
  show "1 \<le> h \<and> h < fo_next ?ops \<and> dict_get (fo_dirs ?ops) h = None \<and>
      (\<exists>n. m j = Some n \<and> node_kind n = FILE)" if "dict_get (fo_files ?ops) h = Some j"
    using that t(1) t(2) [of h j] f assms(2,3) by (cases "h = fo_next ops") auto
  show "1 \<le> h \<and> h < fo_next ?ops \<and> dict_get (fo_files ?ops) h = None \<and>
      (\<exists>n. m j = Some n \<and> node_kind n = DIRECTORY)" if "dict_get (fo_dirs ?ops) h = Some j"
    using that t(3) [of h j] by auto
  show "0 < c \<and> m j \<noteq> None" if "dict_get (fo_lookups ?ops) j = Some c" for c
    using that t(4) [of j c] by simp
qed

lemma lookup_count_nonneg: "tables_ok m ops \<Longrightarrow> 0 \<le> lookup_count ops i"
  using tables_okD(4) [of m ops i] by (auto simp: lookup_count_def split: option.split intro: less_imp_le)

lemma tables_ok_increment: "tables_ok m ops \<Longrightarrow> m i \<noteq> None \<Longrightarrow> tables_ok m (increment_lookup i ops)"
  using lookup_count_nonneg [of m ops i] by (auto simp: tables_ok_def increment_lookup_def split: if_splits)

lemma tables_ok_lookups:
  assumes "tables_ok m ops" "\<And>i c. dict_get lk i = Some c \<Longrightarrow> 0 < c \<and> m i \<noteq> None"
  shows "tables_ok m (ops\<lparr>fo_lookups := lk\<rparr>)"
  using assms unfolding tables_ok_def by simp

lemma tables_ok_forget_one:
  assumes ok: "tables_ok m ops"
  shows "tables_ok m (forget_one x ops)"
proof -
  obtain i k where x: "x = (i, k)" by fastforce
  define r where "r = max 0 (lookup_count ops i - k)"
  have known: "m i \<noteq> None" if "0 < lookup_count ops i"
    using that tables_okD(4) [OF ok] by (auto simp: lookup_count_def split: option.splits)
  have "tables_ok m (ops\<lparr>fo_lookups := dict_set i r (fo_lookups ops)\<rparr>)" if "r \<noteq> 0" "0 < k"
  proof (rule tables_ok_lookups [OF ok])
    have "0 < r" "0 < lookup_count ops i" using that by (auto simp: r_def max_def split: if_splits)
    then show "0 < c \<and> m j \<noteq> None" if "dict_get (dict_set i r (fo_lookups ops)) j = Some c" for j c
      using that known tables_okD(4) [OF ok, of j c] by (auto split: if_splits)
  qed
  moreover have "tables_ok m (ops\<lparr>fo_lookups := dict_pop i (fo_lookups ops)\<rparr>)"
    by (rule tables_ok_lookups [OF ok]) (use tables_okD(4) [OF ok] in \<open>auto split: if_splits\<close>)
  ultimately show ?thesis using ok by (simp add: forget_one_def x Let_def r_def)
qed

lemma tables_ok_forget: "tables_ok m ops \<Longrightarrow> tables_ok m (fold forget_one xs ops)"
  by (induction xs arbitrary: ops) (auto intro: tables_ok_forget_one)

lemma forget_one_store [simp]:
  "fo_store (forget_one x ops) = fo_store ops" "fo_simulate (forget_one x ops) = fo_simulate ops"
  "fo_snapshot (forget_one x ops) = fo_snapshot ops" "fo_files (forget_one x ops) = fo_files ops"
  "fo_dirs (forget_one x ops) = fo_dirs ops"
  by (auto simp: forget_one_def Let_def split: prod.split)

lemma forget_all_store [simp]:
  "fo_store (fold forget_one xs ops) = fo_store ops" "fo_simulate (fold forget_one xs ops) = fo_simulate ops"
  "fo_snapshot (fold forget_one xs ops) = fo_snapshot ops" "fo_files (fold forget_one xs ops) = fo_files ops"
  "fo_dirs (fold forget_one xs ops) = fo_dirs ops"
  by (induction xs arbitrary: ops) auto

lemma increment_store [simp]:
  "fo_store (increment_lookup i ops) = fo_store ops" "fo_simulate (increment_lookup i ops) = fo_simulate ops"
  "fo_snapshot (increment_lookup i ops) = fo_snapshot ops" "fo_files (increment_lookup i ops) = fo_files ops"
  "fo_dirs (increment_lookup i ops) = fo_dirs ops"
  by (simp_all add: increment_lookup_def)

lemma fuse_mutate_state: "snd (fuse_mutate m ops) = ops"
  by (cases m) (auto split: sum.split)

lemma readdir_loop_inv:
  assumes "readdir_loop env reply ns next_id token ops = (token', ops')" "tables_ok m ops"
    and "\<And>n. n \<in> set ns \<Longrightarrow> m (node_id n) \<noteq> None"
  shows "tables_ok m ops' \<and> fo_store ops' = fo_store ops \<and> fo_simulate ops' = fo_simulate ops \<and>
    fo_snapshot ops' = fo_snapshot ops"
  using assms
proof (induction ns arbitrary: next_id token ops)
  case Nil
  then show ?case by simp
next
  case (Cons n ns)
  obtain ok token1 where r: "reply token (node_mounted_name n) (fuse_attributes env ops n) next_id = (ok, token1)"
    by fastforce
  show ?case
  proof (cases ok)
    case False
    with Cons.prems r show ?thesis by simp
  next
    case True
    with Cons.prems(1) r have
      "readdir_loop env reply ns (next_id + 1) token1 (increment_lookup (node_id n) ops) = (token', ops')"
      by simp
    from Cons.IH [OF this] Cons.prems(2,3) tables_ok_increment [of m ops "node_id n"] show ?thesis by simp
  qed
qed

section \<open>Lookup counts\<close>

lemma lookup_count_increment [simp]:
  "lookup_count (increment_lookup i ops) j = lookup_count ops j + (if j = i then 1 else 0)"
  by (auto simp: lookup_count_def increment_lookup_def)

lemma lookup_count_forget_one:
  "0 \<le> lookup_count ops j \<Longrightarrow> lookup_count (forget_one (i, k) ops) j =
     (if i = j then max 0 (lookup_count ops j - max 0 k) else lookup_count ops j)"
  by (auto simp: lookup_count_def forget_one_def Let_def split: option.split)

text \<open>What a \<open>forget\<close> request takes away from an inode.\<close>

definition forgotten :: "int \<Rightarrow> (int \<times> int) list \<Rightarrow> int" where
  "forgotten j xs = sum_list (map (\<lambda>(i, k). if i = j then max 0 k else 0) xs)"

lemma lookup_count_forget:
  "0 \<le> lookup_count ops j \<Longrightarrow>
   lookup_count (fold forget_one xs ops) j = max 0 (lookup_count ops j - forgotten j xs)"
proof (induction xs arbitrary: ops)
  case Nil
  then show ?case by (simp add: forgotten_def)
next
  case (Cons x xs)
  have "0 \<le> forgotten j xs" unfolding forgotten_def by (intro sum_list_nonneg) auto
  moreover obtain i k where x: "x = (i, k)" by fastforce
  moreover have "forgotten j ((i, k) # xs) = (if i = j then max 0 k else 0) + forgotten j xs"
    by (simp add: forgotten_def)
  ultimately show ?case using Cons.IH [of "forget_one x ops"] Cons.prems
    by (auto simp: lookup_count_forget_one max_def)
qed

section \<open>Listing a directory page by page\<close>

text \<open>
  A reply buffer with room for a number of entries, and a reader that asks again, from the
  identifier after the last entry it got, as often as it has buffers.
\<close>

type_synonym entries = "(bytes \<times> attributes \<times> int) list"

definition page_reply :: "(nat \<times> entries) readdir_reply" where
  "page_reply token name attr next_id =
     (case token of (room, got) \<Rightarrow>
        if room = 0 then (False, token) else (True, (room - 1, got @ [(name, attr, next_id)])))"

fun list_pages :: "fuse_env \<Rightarrow> int \<Rightarrow> nat list \<Rightarrow> int \<Rightarrow> fuse_ops \<Rightarrow> (fuse_exn + entries) \<times> fuse_ops" where
  "list_pages env fh [] start_id ops = (Inr [], ops)"
| "list_pages env fh (room # rooms) start_id ops =
     (case fuse_readdir env page_reply fh start_id (room, []) ops of
        (Inl x, _, ops') \<Rightarrow> (Inl x, ops')
      | (Inr _, (_, got), ops') \<Rightarrow>
          (let next_id = (if got = [] then start_id else snd (snd (last got)))
           in case list_pages env fh rooms next_id ops' of
                (Inl x, ops'') \<Rightarrow> (Inl x, ops'')
              | (Inr later, ops'') \<Rightarrow> (Inr (got @ later), ops'')))"

definition listed :: "fuse_env \<Rightarrow> fuse_ops \<Rightarrow> node list \<Rightarrow> int \<Rightarrow> entries" where
  "listed env ops ns next_id =
     map (\<lambda>(n, i). (node_mounted_name n, fuse_attributes env ops n, i)) (zip ns (map ((+) next_id \<circ> int) [0..<length ns]))"

lemma listed_Nil [simp]: "listed env ops [] k = []"
  by (simp add: listed_def)

lemma listed_Cons [simp]:
  "listed env ops (n # ns) k = (node_mounted_name n, fuse_attributes env ops n, k) # listed env ops ns (k + 1)"
proof -
  have "map ((+) k \<circ> int) [0..<length (n # ns)] = k # map ((+) (k + 1) \<circ> int) [0..<length ns]"
    by (simp add: upt_rec [of 0] map_Suc_upt [symmetric] o_def add.assoc del: upt_Suc)
  then show ?thesis by (simp add: listed_def del: upt_Suc)
qed

lemma length_listed [simp]: "length (listed env ops ns k) = length ns"
  by (induction ns arbitrary: k) auto

lemma listed_append:
  "listed env ops (ns @ ms) k = listed env ops ns k @ listed env ops ms (k + int (length ns))"
  by (induction ns arbitrary: k) (auto simp: algebra_simps)

lemma listed_eq_Nil [simp]: "listed env ops ns k = [] \<longleftrightarrow> ns = []"
  by (cases ns) simp_all

lemma last_listed: "ns \<noteq> [] \<Longrightarrow> snd (snd (last (listed env ops ns k))) = k + int (length ns) - 1"
proof (induction ns arbitrary: k)
  case (Cons n ns)
  then show ?case using Cons.IH [of "k + 1"] by (cases "ns = []") simp_all
qed simp

lemma map_fst_listed: "map fst (listed env ops ns k) = map node_mounted_name ns"
  by (induction ns arbitrary: k) auto

text \<open>The effect of listing nodes: one lookup each.\<close>

definition count_lookups :: "node list \<Rightarrow> fuse_ops \<Rightarrow> fuse_ops" where
  "count_lookups ns ops = fold (\<lambda>n. increment_lookup (node_id n)) ns ops"

lemma count_lookups_simps [simp]:
  "count_lookups [] ops = ops"
  "count_lookups (n # ns) ops = count_lookups ns (increment_lookup (node_id n) ops)"
  by (simp_all add: count_lookups_def)

lemma count_lookups_append: "count_lookups (ns @ ms) ops = count_lookups ms (count_lookups ns ops)"
  by (simp add: count_lookups_def)

lemma count_lookups_store [simp]:
  "fo_store (count_lookups ns ops) = fo_store ops" "fo_dirs (count_lookups ns ops) = fo_dirs ops"
  "fo_snapshot (count_lookups ns ops) = fo_snapshot ops"
  by (induction ns arbitrary: ops) auto

lemma lookup_count_listing:
  "lookup_count (count_lookups ns ops) i = lookup_count ops i + int (length (List.filter (\<lambda>n. node_id n = i) ns))"
  by (induction ns arbitrary: ops) auto

lemma attributes_same: "fo_snapshot ops' = fo_snapshot ops \<Longrightarrow> fuse_attributes env ops' = fuse_attributes env ops"
  by (auto simp: fuse_attributes_def fun_eq_iff Let_def split: option.split)

lemma listed_same: "fo_snapshot ops' = fo_snapshot ops \<Longrightarrow> listed env ops' = listed env ops"
  by (simp add: listed_def fun_eq_iff attributes_same [of ops' ops env])

lemma readdir_loop_page:
  "readdir_loop env page_reply ns k (room, got) ops =
     ((room - length ns, got @ listed env ops (take room ns) k), count_lookups (take room ns) ops)"
proof (induction ns arbitrary: k room got ops)
  case Nil
  then show ?case by simp
next
  case (Cons n ns)
  then show ?case
    by (cases room) (auto simp: page_reply_def listed_same [of "increment_lookup (node_id n) ops" ops])
qed

lemma list_pages_all:
  assumes dir: "dict_get (fo_dirs ops) fh = Some i"
    and cs: "\<And>off. iter_children (fo_store ops) i off = Inr (slice_from cs off)"
  shows "list_pages env fh rooms (int start) ops =
    (Inr (listed env ops (take (sum_list rooms) (drop start cs)) (int start + 1)),
     count_lookups (take (sum_list rooms) (drop start cs)) ops)"
  using assms
proof (induction rooms arbitrary: start ops)
  case Nil
  then show ?case by simp
next
  case (Cons room rooms)
  let ?page = "take room (drop start cs)"
  have step: "fuse_readdir env page_reply fh (int start) (room, []) ops =
      (Inr (), (room - length (drop start cs), listed env ops ?page (int start + 1)), count_lookups ?page ops)"
    using Cons.prems by (simp add: fuse_readdir_def readdir_loop_page slice_from_def slice_start_def)
  have nxt: "(if listed env ops ?page (int start + 1) = [] then int start
      else snd (snd (last (listed env ops ?page (int start + 1))))) = int (start + length ?page)"
    using last_listed [of ?page env ops "int start + 1"] by (cases "?page = []") auto
  have IH: "list_pages env fh rooms (int (start + length ?page)) (count_lookups ?page ops) =
      (Inr (listed env (count_lookups ?page ops) (take (sum_list rooms) (drop (start + length ?page) cs))
        (int (start + length ?page) + 1)),
       count_lookups (take (sum_list rooms) (drop (start + length ?page) cs)) (count_lookups ?page ops))"
    by (rule Cons.IH) (use Cons.prems in simp_all)
  have split: "take (sum_list (room # rooms)) (drop start cs) =
      ?page @ take (sum_list rooms) (drop (start + length ?page) cs)"
  proof (cases "room \<le> length (drop start cs)")
    case True
    then have "length ?page = room" by simp
    then show ?thesis by (simp add: take_add add.commute)
  next
    case False
    then show ?thesis by simp
  qed
  show ?case
    unfolding split count_lookups_append listed_append list_pages.simps step prod.case sum.case Let_def nxt IH
    by (simp add: listed_same [of "count_lookups ?page ops" ops] add.assoc add.commute)
qed

section \<open>Handlers over a store that keeps its contract\<close>

locale mounted_store = snapshot_store obj nodes_of invar
  for obj :: "'s \<Rightarrow> store" and nodes_of :: "'s \<Rightarrow> node_map" and invar :: "'s \<Rightarrow> bool"
begin

text \<open>The adapter's invariant over a store: its tables refer to the store's nodes.\<close>

definition serves :: "'s \<Rightarrow> bool \<Rightarrow> fuse_ops \<Rightarrow> bool" where
  "serves s simulate ops \<longleftrightarrow> fo_store ops = obj s \<and> fo_simulate ops = simulate \<and>
     tables_ok (nodes_of s) ops"

lemma init_serves:
  assumes "invar s"
  shows "\<exists>ops. fuse_init (obj s) simulate = Inr ops \<and> serves s simulate ops"
proof -
  from iter_nodes_law [OF assms] obtain r ns where
    r: "iter_nodes (obj s) = Inr (r # ns)" "nodes_of s 1 = Some r"
    by (metis list.collapse)
  with get_snapshot_law [OF assms] obtain sn where "get_snapshot (obj s) (node_snapshot_id r) = Inr sn"
    by blast
  with r show ?thesis by (simp add: fuse_init_def serves_def tables_ok_def)
qed

lemma fuse_node_iff:
  "invar s \<Longrightarrow> fo_store ops = obj s \<Longrightarrow> fuse_node ops i = Inr n \<longleftrightarrow> nodes_of s i = Some n"
  using get_node_law [of s i n] by (auto simp: fuse_node_def split: sum.split py_exn.split)

lemma fuse_node_missing:
  "invar s \<Longrightarrow> fo_store ops = obj s \<Longrightarrow> int64 i \<Longrightarrow> nodes_of s i = None \<Longrightarrow>
   fuse_node ops i = Inl (FUSEError ENOENT)"
  by (simp add: fuse_node_def get_node_missing)

lemma lookup_node_known:
  assumes "invar s" "fo_store ops = obj s" "lookup_node ops p name = Inr n"
  shows "nodes_of s (node_id n) = Some n"
proof -
  have id: "nodes_of s i = Some x \<Longrightarrow> node_id x = i" for i x
    using tree [OF assms(1)] by (rule tree_ok_id)
  from assms obtain q where q: "nodes_of s p = Some q" "node_kind q = DIRECTORY"
    by (auto simp: lookup_node_def fuse_node_iff split: sum.splits if_splits)
  consider "n = q" | r where "nodes_of s r = Some n" | "store.lookup (obj s) p name = Inr (Some n)"
    using assms q by (auto simp: lookup_node_def fuse_node_iff split: sum.splits option.splits if_splits)
  then show ?thesis
  proof cases
    case 3
    with lookup_law [OF assms(1), of p name] q(1) show ?thesis by auto
  qed (use q id in auto)
qed

lemma step_serves:
  assumes inv: "invar s" and step: "fuse_step env ops ops'" and ok: "serves s simulate ops"
  shows "serves s simulate ops'"
  using step
proof cases
  case (lookup_name p name)
  have "serves s simulate (increment_lookup (node_id n) ops)" if "lookup_node ops p name = Inr n" for n
    using lookup_node_known [OF inv _ that] ok tables_ok_increment by (auto simp: serves_def)
  with lookup_name ok show ?thesis by (auto simp: fuse_lookup_def split: sum.split)
next
  case (forget xs)
  with ok show ?thesis by (simp add: fuse_forget_def serves_def tables_ok_forget)
next
  case (opendir i)
  with ok inv tables_ok_open_dir [of "nodes_of s" ops i] show ?thesis
    by (auto simp: fuse_opendir_def fuse_node_iff serves_def allocate_handle_def split: sum.split)
next
  case (readdir reply fh start_id token)
  show ?thesis
  proof (cases "dict_get (fo_dirs ops) fh")
    case None
    with readdir ok show ?thesis by (simp add: fuse_readdir_def)
  next
    case (Some i)
    then have "nodes_of s i \<noteq> None" using ok tables_okD(3) [of "nodes_of s" ops fh i] by (auto simp: serves_def)
    then obtain cs where cs: "iter_children (obj s) i start_id = Inr (slice_from cs start_id)"
      "children_of (nodes_of s) i cs"
      using iter_children_law [OF inv] by blast
    have known: "nodes_of s (node_id n) \<noteq> None" if "n \<in> set (slice_from cs start_id)" for n
      using that cs(2) by (auto simp: children_of_def slice_from_def dest: in_set_dropD)
    obtain token' where r: "readdir_loop env reply (slice_from cs start_id) (start_id + 1) token ops = (token', ops')"
      using readdir Some cs(1) ok by (cases "readdir_loop env reply (slice_from cs start_id) (start_id + 1) token ops")
        (auto simp: fuse_readdir_def serves_def)
    have "tables_ok (nodes_of s) ops" using ok by (simp add: serves_def)
    from readdir_loop_inv [OF r this known] ok show ?thesis by (simp add: serves_def)
  qed
next
  case (releasedir fh)
  with ok show ?thesis
    by (auto simp: fuse_releasedir_def serves_def tables_ok_def split: if_splits)
next
  case (open_file i flags)
  with ok inv tables_ok_open_file [of "nodes_of s" ops i] show ?thesis
    by (auto simp: fuse_open_def fuse_node_iff serves_def allocate_handle_def split: sum.split)
next
  case (release fh)
  with ok show ?thesis
    by (auto simp: fuse_release_def serves_def tables_ok_def split: if_splits)
next
  case (mutate m)
  with ok show ?thesis by (simp add: fuse_mutate_state)
qed

lemma reachable_serves:
  "invar s \<Longrightarrow> fuse_reachable env (obj s) simulate ops \<Longrightarrow> serves s simulate ops"
proof (rotate_tac 1, induction rule: fuse_reachable.induct)
  case (start ops)
  with init_serves [of s simulate] show ?case by auto
next
  case (step ops ops')
  then show ?case by (blast intro: step_serves)
qed

end

end
