(* ===== verification/Mounted_Memory.thy ===== *)
theory Mounted_Memory
  imports Fuse_Operations Memory_Store
begin

text \<open>
  The file-system handlers over an in-memory store: the store satisfies the contract the
  handlers rely on, so their invariant holds for it.
\<close>

interpretation mounted: mounted_store mem_object mem_store_nodes mem_store_ok
  by (rule mounted_store.intro) (rule mem.snapshot_store_axioms)

end
