(* ===== verification/Examples.thy ===== *)
theory Examples
  imports Mounted_Memory Import_Service
begin

text \<open>
  Concrete inputs on which the properties of the root theory are exercised: a time zone
  database with UTC and a zone one hour behind it, a snapshot, two entries, and the builder,
  store and file-system state they lead to.
\<close>

section \<open>Time zones\<close>

definition utc_db :: tzdb where
  "utc_db = \<lparr>has_zone = (\<lambda>k. k \<in> {lit ''UTC'', lit ''Azores''}),
     utcoffset = (\<lambda>k w f. if k = lit ''Azores'' then -3600000000 else 0),
     fromutc = (\<lambda>k i. if k = lit ''Azores'' then i - 3600000000 else i)\<rparr>"

definition noon :: datetime where
  "noon = \<lparr>dt_year = 2024, dt_month = 2, dt_day = 29, dt_hour = 12, dt_minute = 30, dt_second = 0,
     dt_microsecond = 0, dt_tz = None, dt_fold = False\<rparr>"

definition last_minute :: datetime where
  "last_minute = \<lparr>dt_year = 9999, dt_month = 12, dt_day = 31, dt_hour = 23, dt_minute = 59,
     dt_second = 0, dt_microsecond = 0, dt_tz = None, dt_fold = False\<rparr>"

section \<open>A snapshot with one file\<close>

definition example_snapshot :: snapshot where
  "example_snapshot = \<lparr>snapshot_id = lit ''id'', snapshot_source_uri = lit ''uri'',
     snapshot_source_format = lit ''test'', snapshot_imported_at = noon, snapshot_source_metadata = []\<rparr>"

definition example_entry :: parsed_entry where
  "example_entry = \<lparr>entry_path = [lit ''C'', lit ''a''], entry_kind = FILE, entry_observation = FILE_ENTRY,
     entry_size = Some 3, entry_modified_local = Some noon, entry_source_line = Some 4,
     entry_content = Some [120, 121, 122], entry_source_metadata = EMPTY_METADATA\<rparr>"

definition example_header :: parsed_entry where
  "example_header = \<lparr>entry_path = [lit ''C''], entry_kind = DIRECTORY, entry_observation = SECTION_HEADER,
     entry_size = None, entry_modified_local = None, entry_source_line = Some 2,
     entry_content = None, entry_source_metadata = EMPTY_METADATA\<rparr>"

lemma example_entries_ok [simp]: "entry_ok example_entry" "entry_ok example_header"
  by (simp_all add: entry_ok_def example_entry_def example_header_def)

definition example_builder :: mem_builder where
  "example_builder = snd (mem_add utc_db example_entry (mem_init example_snapshot))"

definition example_store :: mem_store where
  "example_store = (case fst (mem_finish [] None example_builder) of
     Inr s \<Rightarrow> s
   | Inl _ \<Rightarrow> \<lparr>ms_snapshot = example_snapshot, ms_nodes = [], ms_children = [], ms_diagnostics = [],
       ms_diagnostic_count = 0\<rparr>)"

lemma example_builder_ok: "mem_ok example_builder" "\<not> mb_finished example_builder"
proof -
  show "mem_ok example_builder"
    unfolding example_builder_def by (rule mem_add_ok [OF mem_ok_init]) simp
  show "\<not> mb_finished example_builder"
    using mem_add_spec(2) [OF mem_ok_init [of example_snapshot], of example_entry utc_db _ example_builder]
    by (simp add: example_builder_def mem_init_def prod_eq_iff)
qed

lemma example_store_ok: "mem_store_ok example_store"
proof -
  obtain s b where f: "mem_finish [] None example_builder = (Inr s, b)"
    using mem_finish_eq [OF example_builder_ok, of "[]" None] by blast
  from mem_finish_ok [OF example_builder_ok f] f show ?thesis by (simp add: example_store_def)
qed

lemmas utf8_eval = lit_def utf8_encode_def scalar_def surrogate_def utf8_units_def

lemma example_components: "components example_entry = Inr [[67], [97]]"
  by (simp add: components_def example_entry_def utf8_eval slash_def MAX_MOUNTED_NAME_BYTES_def)

definition example_directory :: mutable_node where
  "example_directory = new_mutable_node 2 (Some 1) [67] (Some [67]) DIRECTORY"

definition example_file :: mutable_node where
  "example_file = apply_entry (new_mutable_node 3 (Some 2) [97] (Some [67, 47, 97]) FILE) example_entry"

lemma example_add:
  "mem_add utc_db example_entry (mem_init example_snapshot) = (None, example_builder)"
  "mb_nodes example_builder = [(1, root_node), (2, example_directory), (3, example_file)]"
  "mb_children example_builder = [(1, [([67], 2)]), (2, [([97], 3)]), (3, [])]"
  by (simp_all add: example_builder_def mem_add_def example_components mem_init_def mem_child_def
      mem_setdefault_def merge_def root_node_def example_directory_def example_file_def Let_def)
    (simp_all add: example_entry_def utf8_eval slash_def)

lemma example_builder_nodes:
  "mem_nodes example_builder 1 = Some root_node"
  "mem_nodes example_builder 2 = Some example_directory"
  "mem_nodes example_builder 3 = Some example_file"
  by (simp_all add: mem_nodes_def example_add)

lemma example_finish: "\<exists>b. mem_finish [] None example_builder = (Inr example_store, b)"
  using mem_finish_eq [OF example_builder_ok, of "[]" None] by (simp add: example_store_def)

lemma example_store_nodes:
  "mem_store_nodes example_store i = map_option (node_of (lit ''id'')) (mem_nodes example_builder i)"
proof -
  from example_finish obtain b where "mem_finish [] None example_builder = (Inr example_store, b)" ..
  then have "mem_store_nodes example_store i =
      map_option (node_of (snapshot_id (mb_snapshot example_builder))) (mem_nodes example_builder i)"
    by (rule mem_finish_nodes [OF example_builder_ok])
  moreover have "mb_snapshot example_builder = example_snapshot"
    using mem_add_spec(3) [OF mem_ok_init [of example_snapshot] _ _ example_add(1)] by (simp add: mem_init_def)
  ultimately show ?thesis by (simp add: example_snapshot_def)
qed

section \<open>An import\<close>

definition example_source :: "unit source" where
  "example_source = \<lparr>source_uri = lit ''uri'', source_size = Inr None, source_open = Inr ()\<rparr>"

definition example_result :: parse_result where
  "example_result = \<lparr>pr_entries = [example_header, example_entry], pr_error = None,
     pr_collector = new_collector MAX_DIAGNOSTICS\<rparr>"

definition example_parser :: "unit parser" where
  "example_parser = \<lparr>parser_format_name = lit ''test'', parser_source_metadata = [],
     parser_parse = \<lambda>_. Inr example_result\<rparr>"

lemma example_make_snapshot:
  "make_snapshot \<lparr>snapshot_id = lit ''id'', snapshot_source_uri = source_uri example_source,
     snapshot_source_format = parser_format_name example_parser, snapshot_imported_at = noon,
     snapshot_source_metadata = parser_source_metadata example_parser\<rparr> = Inr example_snapshot"
  by (simp add: make_snapshot_def require_unicode_def example_source_def example_parser_def
      example_snapshot_def utf8_eval freeze_metadata_def)

lemma example_header_components: "components example_header = Inr [[67]]"
  by (simp add: components_def example_header_def utf8_eval slash_def MAX_MOUNTED_NAME_BYTES_def)

lemma example_spec_all: "\<exists>t. spec_all (spec_add utc_db) [example_header, example_entry] start_tree = Inr t"
  by (simp add: spec_add_def example_components example_header_components merge_def start_tree_def Let_def)
    (simp add: example_header_def example_entry_def conflict_def)

section \<open>A mounted file system\<close>

definition example_env :: fuse_env where
  "example_env = \<lparr>env_tz = utc_db, env_uid = 0, env_gid = 0, env_ENOATTR = 61\<rparr>"

definition example_mount :: fuse_ops where
  "example_mount = \<lparr>fo_store = mem_object example_store, fo_simulate = False,
     fo_snapshot = example_snapshot, fo_files = [], fo_dirs = [], fo_lookups = [], fo_next = 1\<rparr>"

lemma example_snapshot_store: "ms_snapshot example_store = example_snapshot"
  using mem_finish_eq [OF example_builder_ok, of "[]" None]
    mem_add_spec(3) [OF mem_ok_init [of example_snapshot], of example_entry utc_db _ example_builder]
  by (simp add: example_store_def example_builder_def mem_init_def prod_eq_iff)

lemma example_mount_init: "fuse_init (mem_object example_store) False = Inr example_mount"
proof -
  obtain r rest where "ms_nodes example_store = (1, r) # rest"
    using example_store_ok by (auto simp: mem_store_ok_def)
  moreover from this have "mem_store_nodes example_store 1 = Some r" by (simp add: mem_store_nodes_def)
  then have "node_snapshot_id r = snapshot_id example_snapshot"
    using example_store_ok example_snapshot_store unfolding mem_store_ok_def by metis
  ultimately show ?thesis
    by (simp add: fuse_init_def mem_object_def mem_get_snapshot_def example_mount_def example_snapshot_store)
qed

lemma example_reachable: "fuse_reachable example_env (mem_object example_store) False example_mount"
  by (rule fuse_reachable.start) (rule example_mount_init)

end
