(* ===== verification/Listing_Import.thy ===== *)
theory Listing_Import
  imports Import_Service Dir_Invariants
begin

text \<open>
  The composition of the directory-listing parser with the import into memory: a store that is
  published shows exactly the entries of a listing that parsed without an error.
\<close>

lemma emitted_entries_ok: "list_all entry_ok (pr_entries (dir_parse db cs cfg s))"
  using dir_parse_facts(1) [of db cs cfg s] by (auto simp: emitted_ok_def list_all_iff)

lemma created_store:
  assumes "create_memory_store db uuid now src p = Inr s"
  obtains sn stream r where
    "make_snapshot \<lparr>snapshot_id = uuid, snapshot_source_uri = source_uri src,
       snapshot_source_format = parser_format_name p, snapshot_imported_at = now,
       snapshot_source_metadata = parser_source_metadata p\<rparr> = Inr sn"
    "source_open src = Inr stream" "parser_parse p stream = Inr r" "pr_error r = None"
    "\<not> coll_has_errors (pr_collector r)"
  using assms
  by (auto simp: create_memory_store_def create_store_def memory_builder_def import_body_def Let_def
      split: sum.splits prod.splits option.splits if_splits)

lemma parse_windows_dir [simp]: "parser_parse (windows_dir_parser db cs cfg) s = Inr (dir_parse db cs cfg s)"
  by (simp add: windows_dir_parser_def)

lemma listing_import:
  assumes "create_memory_store db uuid now src (windows_dir_parser db cs cfg) = Inr s"
  shows "\<exists>stream t. source_open src = Inr stream \<and> pr_error (dir_parse db cs cfg stream) = None \<and>
    \<not> coll_has_errors (pr_collector (dir_parse db cs cfg stream)) \<and>
    spec_all (spec_add db) (pr_entries (dir_parse db cs cfg stream)) start_tree = Inr t \<and>
    mem_store_ok s \<and> store_view (mem_object s) uuid = node_view uuid t"
proof -
  obtain sn stream r where c:
    "make_snapshot \<lparr>snapshot_id = uuid, snapshot_source_uri = source_uri src,
       snapshot_source_format = parser_format_name (windows_dir_parser db cs cfg), snapshot_imported_at = now,
       snapshot_source_metadata = parser_source_metadata (windows_dir_parser db cs cfg)\<rparr> = Inr sn"
    "source_open src = Inr stream" "parser_parse (windows_dir_parser db cs cfg) stream = Inr r"
    "pr_error r = None" "\<not> coll_has_errors (pr_collector r)"
    using created_store [OF assms] by metis
  have r: "r = dir_parse db cs cfg stream" using c(3) by simp
  have ok: "list_all entry_ok (pr_entries r)" unfolding r by (rule emitted_entries_ok)
  note spec = create_memory_store_spec [OF c(1,2,3,4) ok, of db]
  from make_snapshot_id [OF c(1)] have sid: "snapshot_id sn = uuid" by simp
  show ?thesis
  proof (cases "spec_all (spec_add db) (pr_entries r) start_tree")
    case (Inl d)
    with spec assms show ?thesis by simp
  next
    case (Inr t)
    with spec assms c(5) have "mem_represents sn t (coll_items (pr_collector r)) (coll_total (pr_collector r)) s"
      by simp
    with Inr c r sid show ?thesis by (auto simp: mem_represents_def)
  qed
qed

section \<open>A time that cannot be converted\<close>

text \<open>
  The line is an entry of the section that is open: it is nothing else that a listing can contain, the
  section can be mounted and has no summary yet, and the grammar gives the entry \<open>e\<close>.
\<close>

definition reads_entry :: "dir_config \<Rightarrow> dir_state \<Rightarrow> decoded_line \<Rightarrow> parsed_entry \<Rightarrow> bool" where
  "reads_entry cfg st l e \<longleftrightarrow>
     (let line = line_text l; s = ds_section st
      in py_strip line \<noteq> [] \<and> \<not> is_volume line \<and> header_path line = None \<and>
         py_strip line \<noteq> lit ''Total Files Listed:'' \<and> file_summary line = None \<and> dir_summary line = None \<and>
         py_strip line \<noteq> lit ''File Not Found'' \<and> \<not> agg_active (ds_aggregate st) \<and> sec_mountable s \<and>
         \<not> sec_file_summary s \<and> \<not> sec_dir_summary s \<and> \<not> sec_file_not_found s \<and>
         (\<exists>path. sec_path s = Some path \<and>
            (\<forall>c. fst (parse_entry path line (line_number l) (cfg_date_format cfg) c) = (True, Some e))))"

lemma overflow_step:
  assumes e: "reads_entry cfg st l e" "entry_modified_local e = Some t"
    and t: "\<not> in_range (candidate_instant db (cfg_zone cfg) t False)"
  shows "\<exists>st'. dir_step db cfg l st = (Some date_out_of_range, [], st')"
proof -
  define st0 where "st0 = st\<lparr>ds_diagnostics := observe_line (line_number l) (line_text l) (ds_diagnostics st)\<rparr>"
  have sel: "ds_section st0 = ds_section st" "ds_aggregate st0 = ds_aggregate st" by (simp_all add: st0_def)
  from e(1) obtain path where path: "sec_path (ds_section st) = Some path"
    "fst (parse_entry path (line_text l) (line_number l) (cfg_date_format cfg) (ds_diagnostics st0)) = (True, Some e)"
    unfolding reads_entry_def Let_def by blast
  then obtain c where "parse_entry path (line_text l) (line_number l) (cfg_date_format cfg) (ds_diagnostics st0) =
      ((True, Some e), c)" by (metis prod.collapse)
  then have "\<exists>st'. entry_step db cfg path (line_text l) (line_number l) st0 = Some (Some date_out_of_range, [], st')"
    using e t localize_overflow [OF t]
    by (simp add: entry_step_def accept_entry_def Let_def sel reads_entry_def date_out_of_range_def)
  then show ?thesis
    using e(1) path(1) unfolding dir_step_def Let_def st0_def [symmetric] sel reads_entry_def by auto
qed

lemma dir_lines_stop:
  assumes "dir_lines db cfg ls st0 = (None, es, st)" "dir_step db cfg l st = (Some x, es', st')"
  shows "dir_lines db cfg (ls @ l # ls') st0 = (Some x, es @ es', st')"
  using assms(1)
proof (induction ls arbitrary: st0 es)
  case Nil
  with assms(2) show ?case by simp
next
  case (Cons k ls)
  obtain y es1 st1 where s: "dir_step db cfg k st0 = (y, es1, st1)" by (metis prod.exhaust)
  obtain z es2 st2 where d: "dir_lines db cfg ls st1 = (z, es2, st2)" by (metis prod.exhaust)
  from Cons.prems s d have "y = None" "z = None" "es = es1 @ es2" "st2 = st" by (auto split: option.splits)
  with Cons.IH [of st1 es2] d s show ?case by simp
qed

text \<open>An exception of the parser ends the import, once the entries before it have been added.\<close>

lemma parser_error_ends_import:
  assumes sn: "make_snapshot \<lparr>snapshot_id = uuid, snapshot_source_uri = source_uri src,
      snapshot_source_format = parser_format_name p, snapshot_imported_at = now,
      snapshot_source_metadata = parser_source_metadata p\<rparr> = Inr sn"
    and r: "source_open src = Inr stream" "parser_parse p stream = Inr r" "pr_error r = Some x"
      "list_all entry_ok (pr_entries r)"
  shows "create_memory_store db uuid now src p = Inl (Import_Raised x)"
proof -
  have b: "bo_init (memory_builder db) sn = Inr (mem_init sn)" by (simp add: memory_builder_def)
  have u: "mem_usable sn (mem_init sn)" using memory.init_law [OF b] by simp
  have "\<exists>bd b'. import_entries (memory_builder db) (pr_entries r) None (mem_init sn) = (None, bd, b')"
    using memory.import_entries_spec [where db = db, OF u r(4)]
    by (cases "spec_all (spec_add db) (pr_entries r) (mem_view (mem_init sn))") auto
  then show ?thesis
    using sn b r by (auto simp: create_memory_store_def create_store_def import_body_def)
qed

lemma overflow_ends_import:
  assumes sn: "make_snapshot \<lparr>snapshot_id = uuid, snapshot_source_uri = source_uri src,
      snapshot_source_format = lit ''windows-dir'', snapshot_imported_at = now,
      snapshot_source_metadata = parser_source_metadata (windows_dir_parser db cs cfg)\<rparr> = Inr sn"
    and src: "source_open src = Inr stream"
    and lines: "fst (iter_decoded_lines cs stream (cfg_encoding cfg) MAX_LINE_BYTES) = ls @ l # ls'"
    and before: "dir_lines db cfg ls new_dir_state = (None, es, st)"
    and entry: "reads_entry cfg st l e" "entry_modified_local e = Some t"
      "\<not> in_range (candidate_instant db (cfg_zone cfg) t False)"
  shows "pr_entries (dir_parse db cs cfg stream) = es" "pr_error (dir_parse db cs cfg stream) = Some date_out_of_range"
    "create_memory_store db uuid now src (windows_dir_parser db cs cfg) = Inl (Import_Raised date_out_of_range)"
proof -
  obtain st' where "dir_step db cfg l st = (Some date_out_of_range, [], st')" using overflow_step [OF entry] by blast
  from dir_lines_stop [OF before this, of ls'] lines
  have parse: "pr_entries (dir_parse db cs cfg stream) = es" "pr_error (dir_parse db cs cfg stream) = Some date_out_of_range"
    by (simp_all add: dir_parse_def dir_parse_lines_def dir_parse_from_def)
  then show "pr_entries (dir_parse db cs cfg stream) = es" "pr_error (dir_parse db cs cfg stream) = Some date_out_of_range"
    by simp_all
  have "parser_format_name (windows_dir_parser db cs cfg) = lit ''windows-dir''" by (simp add: windows_dir_parser_def)
  with sn show "create_memory_store db uuid now src (windows_dir_parser db cs cfg) = Inl (Import_Raised date_out_of_range)"
    by (intro parser_error_ends_import [OF _ src parse_windows_dir parse(2) emitted_entries_ok]) simp
qed

end
