(* ===== verification/Listing_Example.thy ===== *)
theory Listing_Example
  imports Examples Listing_Import
begin

text \<open>
  A complete listing with one file, evaluated in the kernel: its bytes, the lines they decode
  to, and the clean result of the parser. It shows that the properties of listings that parse
  without an error are not vacuous.
\<close>

section \<open>The listing\<close>

definition example_lines :: "pystr list" where
  "example_lines =
     [lit ''Directory of C:'' @ [92], lit ''01/02/2024  10:30 AM 5 a'', lit ''1 File(s) 5 bytes'',
      lit ''0 Dir(s) 9 bytes free'', lit ''Total Files Listed:'', lit ''1 File(s) 5 bytes'',
      lit ''0 Dir(s) 9 bytes free'']"

definition numbered :: "pystr list \<Rightarrow> decoded_line list" where
  "numbered ls = map (\<lambda>(n, l). \<lparr>line_number = n, line_text = l\<rparr>) (zip [1..int (length ls)] ls)"

definition listing_config :: dir_config where
  "listing_config = \<lparr>cfg_encoding = lit ''ascii'', cfg_date_format = MDY, cfg_zone = lit ''UTC'',
     cfg_ambiguous = lit ''reject''\<rparr>"

lemma listing_config_sel [simp]: "cfg_encoding listing_config = lit ''ascii''"
  by (simp add: listing_config_def)

section \<open>Evaluation of the grammar\<close>

lemmas regex_eval = re_fullmatch_def run_re.simps many_def star.simps group_def dot_def one_of_def
  hex_or_dash_def py_isspace_def py_isdecimal_def decimal_value_def ascii_letter_def Let_def

lemmas pattern_eval = header_path_def header_re_def file_summary_def dir_summary_def summary_def
  file_summary_re_def dir_summary_re_def number_re_def is_volume_def volume_re_def entry_re_def date_re_def
  time_re_def meridiem_re_def kind_re_def integer_re_def drive_path_re_def

lemmas number_eval = parse_integer_def py_int_def py_strip_def py_lstrip_def int_max_str_digits_def

lemmas time_eval = parse_datetime_def token_int_def make_datetime_def days_in_month_def is_leap_def

lemmas path_eval = valid_section_path_def to_mounted_path_def ascii_upper_def windows_parts_def

lemma example_header_line:
  "is_volume (lit ''Directory of C:'' @ [92]) = False"
  "header_path (lit ''Directory of C:'' @ [92]) = Some [67, 58, 92]"
  "valid_section_path [67, 58, 92]" "to_mounted_path [67, 58, 92] [] = [[67]]"
  by (simp_all add: pattern_eval regex_eval path_eval lit_def)

definition listed_at :: datetime where
  "listed_at = \<lparr>dt_year = 2024, dt_month = 1, dt_day = 2, dt_hour = 10, dt_minute = 30, dt_second = 0,
     dt_microsecond = 0, dt_tz = None, dt_fold = False\<rparr>"

definition listed_file :: parsed_entry where
  "listed_file = \<lparr>entry_path = [[67], [97]], entry_kind = FILE, entry_observation = FILE_ENTRY,
     entry_size = Some 5, entry_modified_local = Some listed_at, entry_source_line = Some 2,
     entry_content = None, entry_source_metadata = EMPTY_METADATA\<rparr>"

abbreviation entry_line :: pystr where
  "entry_line \<equiv> lit ''01/02/2024  10:30 AM 5 a''"

lemma example_entry_line:
  "is_volume entry_line = False" "header_path entry_line = None" "file_summary entry_line = None"
  "dir_summary entry_line = None"
  by (simp_all add: pattern_eval regex_eval lit_def)

lemma example_entry_parses:
  "parse_entry [67, 58, 92] entry_line 2 MDY c = ((True, Some listed_file), c)"
  by (simp add: parse_entry_def pattern_eval regex_eval number_eval time_eval path_eval lit_def
      listed_file_def listed_at_def)

abbreviation file_line :: pystr where
  "file_line \<equiv> lit ''1 File(s) 5 bytes''"

abbreviation dir_line :: pystr where
  "dir_line \<equiv> lit ''0 Dir(s) 9 bytes free''"

abbreviation total_line :: pystr where
  "total_line \<equiv> lit ''Total Files Listed:''"

lemma example_summary_lines:
  "is_volume file_line = False" "header_path file_line = None" "file_summary file_line = Some ([49], [53])"
  "is_volume dir_line = False" "header_path dir_line = None" "file_summary dir_line = None"
  "dir_summary dir_line = Some ([48], [57])" "is_volume total_line = False" "header_path total_line = None"
  by (simp_all add: pattern_eval regex_eval lit_def)

lemma example_numbers:
  "parse_integer [49] = Some 1" "parse_integer [53] = Some 5" "parse_integer [48] = Some 0"
  "parse_integer [57] = Some 9"
  by (simp_all add: pattern_eval regex_eval number_eval)

lemma example_stripped:
  "py_strip (lit ''Directory of C:'' @ [92]) = lit ''Directory of C:'' @ [92]"
  "py_strip entry_line = entry_line" "py_strip file_line = file_line" "py_strip dir_line = dir_line"
  "py_strip total_line = total_line"
  by (simp_all add: py_strip_def py_lstrip_def py_isspace_def lit_def)

lemma listed_at_local: "localize utc_db listed_at (lit ''UTC'') (lit ''reject'') =
    Inr (listed_at\<lparr>dt_tz := Some (Zone (lit ''UTC''))\<rparr>)"
  by (simp add: localize_def localize_candidate_def to_utc_def from_utc_def in_range_def utc_db_def
      listed_at_def dt_wall_def ymd_ordinal_def days_before_year_def days_before_month_def days_in_month_def
      is_leap_def min_wall_def max_wall_def eval_nat_numeral)

section \<open>The parser on the lines\<close>

lemmas step_eval = dir_step_def header_step_def footer_step_def file_summary_step_def dir_summary_step_def
  entry_step_def accept_entry_def count_entry_def ds_error_if_def ds_close_section_def section_close_def
  section_start_def dir_finish_def final_error_def new_dir_state_def new_section_def new_aggregate_def

lemma example_numbered:
  "numbered example_lines =
     [\<lparr>line_number = 1, line_text = lit ''Directory of C:'' @ [92]\<rparr>, \<lparr>line_number = 2, line_text = entry_line\<rparr>,
      \<lparr>line_number = 3, line_text = file_line\<rparr>, \<lparr>line_number = 4, line_text = dir_line\<rparr>,
      \<lparr>line_number = 5, line_text = total_line\<rparr>, \<lparr>line_number = 6, line_text = file_line\<rparr>,
      \<lparr>line_number = 7, line_text = dir_line\<rparr>]"
  by (simp add: numbered_def example_lines_def upto.simps)

definition listing_entries :: "parsed_entry list" where
  "listing_entries = [section_entry [67, 58, 92] 1,
     listed_file\<lparr>entry_modified_local := Some (listed_at\<lparr>dt_tz := Some (Zone (lit ''UTC''))\<rparr>)\<rparr>]"

lemma listed_file_sel [simp]:
  "entry_kind listed_file = FILE" "entry_size listed_file = Some 5"
  "entry_modified_local listed_file = Some listed_at"
  by (simp_all add: listed_file_def)

text \<open>The states between the lines.\<close>

definition in_section :: "int \<Rightarrow> int \<Rightarrow> bool \<Rightarrow> bool \<Rightarrow> section_state" where
  "in_section files bytes file_seen dir_seen =
     \<lparr>sec_path = Some [67, 58, 92], sec_line = Some 1, sec_files = files, sec_size = bytes,
      sec_file_summary = file_seen, sec_dir_summary = dir_seen,
      sec_reported_files = (if file_seen then files else 0),
      sec_reported_size = (if file_seen then bytes else 0),
      sec_had_entries = (0 < files), sec_file_not_found = False, sec_mountable = True\<rparr>"

definition listing_state :: "section_state \<Rightarrow> aggregate_state \<Rightarrow> int \<Rightarrow> int \<Rightarrow> collector \<Rightarrow> dir_state" where
  "listing_state sec agg n b c =
     \<lparr>ds_section = sec, ds_aggregate = agg, ds_total_files = n, ds_total_size = b, ds_saw_section = True,
      ds_diagnostics = c\<rparr>"

lemmas state_eval = in_section_def listing_state_def

lemma example_step_1:
  "dir_step utc_db listing_config \<lparr>line_number = 1, line_text = lit ''Directory of C:'' @ [92]\<rparr> new_dir_state =
     (None, [section_entry [67, 58, 92] 1],
      listing_state (in_section 0 0 False False) new_aggregate 0 0
        (observe_line 1 (lit ''Directory of C:'' @ [92]) (new_collector MAX_DIAGNOSTICS)))"
  by (simp add: step_eval example_header_line example_stripped state_eval)

lemma example_step_2:
  "dir_step utc_db listing_config \<lparr>line_number = 2, line_text = entry_line\<rparr>
       (listing_state (in_section 0 0 False False) new_aggregate 0 0 c) =
     (None, [listed_file\<lparr>entry_modified_local := Some (listed_at\<lparr>dt_tz := Some (Zone (lit ''UTC''))\<rparr>)\<rparr>],
      listing_state (in_section 1 5 False False) new_aggregate 1 5 (observe_line 2 entry_line c))"
  by (simp add: step_eval example_entry_line example_entry_parses example_stripped state_eval
      listed_at_local listing_config_def Let_def example_summary_lines)

lemma example_step_3:
  "dir_step utc_db listing_config \<lparr>line_number = 3, line_text = file_line\<rparr>
       (listing_state (in_section 1 5 False False) new_aggregate 1 5 c) =
     (None, [], listing_state (in_section 1 5 True False) new_aggregate 1 5 (observe_line 3 file_line c))"
  by (simp add: step_eval example_summary_lines example_numbers example_stripped state_eval)

lemma example_step_4:
  "dir_step utc_db listing_config \<lparr>line_number = 4, line_text = dir_line\<rparr>
       (listing_state (in_section 1 5 True False) new_aggregate 1 5 c) =
     (None, [], listing_state (in_section 1 5 True True) new_aggregate 1 5 (observe_line 4 dir_line c))"
  by (simp add: step_eval example_summary_lines example_numbers example_stripped state_eval)

lemma example_step_5:
  "dir_step utc_db listing_config \<lparr>line_number = 5, line_text = total_line\<rparr>
       (listing_state (in_section 1 5 True True) new_aggregate 1 5 c) =
     (None, [], listing_state ((in_section 1 5 True True)\<lparr>sec_path := None\<rparr>) (new_aggregate\<lparr>agg_active := True\<rparr>) 1 5
        (observe_line 5 total_line c))"
  by (simp add: step_eval example_summary_lines example_numbers example_stripped state_eval)

lemma example_step_6:
  "dir_step utc_db listing_config \<lparr>line_number = 6, line_text = file_line\<rparr>
       (listing_state sec (new_aggregate\<lparr>agg_active := True\<rparr>) 1 5 c) =
     (None, [], listing_state sec (new_aggregate\<lparr>agg_active := True, agg_file_summary := True\<rparr>) 1 5
        (observe_line 6 file_line c))"
  by (simp add: step_eval example_summary_lines example_numbers example_stripped state_eval)

lemma example_step_7:
  "dir_step utc_db listing_config \<lparr>line_number = 7, line_text = dir_line\<rparr>
       (listing_state sec (new_aggregate\<lparr>agg_active := True, agg_file_summary := True\<rparr>) 1 5 c) =
     (None, [], listing_state sec (new_aggregate\<lparr>agg_active := True, agg_file_summary := True, agg_dir_summary := True\<rparr>) 1 5
        (observe_line 7 dir_line c))"
  by (simp add: step_eval example_summary_lines example_numbers example_stripped state_eval)

lemma example_listing_lines:
  "\<exists>st. dir_lines utc_db listing_config (numbered example_lines) new_dir_state = (None, listing_entries, st) \<and>
     \<not> coll_has_errors (dir_finish st)"
  unfolding example_numbered
  by (simp add: example_step_1 example_step_2 example_step_3 example_step_4 example_step_5 example_step_6
      example_step_7 listing_entries_def)
    (simp add: step_eval state_eval new_collector_def)

section \<open>The bytes of the listing\<close>

definition ascii_codecs :: codecs where
  "ascii_codecs = \<lparr>codec_name = Some, codec_charmap = \<lambda>_ _. None\<rparr>"

definition example_bytes :: bytes where
  "example_bytes = concat (map (\<lambda>l. map of_nat l @ [13, 10]) example_lines)"

definition example_stream :: stream where
  "example_stream = Stream [example_bytes] None"

lemma example_decoded:
  "iter_decoded_lines ascii_codecs example_stream (lit ''ascii'') MAX_LINE_BYTES =
     (numbered example_lines, End_Of_Input)"
proof -
  have b: "example_bytes = map of_nat (concat (map (\<lambda>l. l @ [13, 10]) example_lines))"
    by (simp add: example_bytes_def map_concat comp_def)
  have ascii: "codec_name ascii_codecs (lit ''ascii'') = Some (lit ''ascii'')" by (simp add: ascii_codecs_def)
  show ?thesis
    unfolding iter_decoded_lines_def ascii iter_byte_lines_spec whole_input_def stream_bytes_def
      example_stream_def stream_end_def b example_lines_def
    by (simp add: lit_def single_byte_encodings_def feed_def initial_state_def line_spec_Some line_spec_None
        find_newline_def find_byte_from_def find_byte.simps take_line_def strip_cr_def ends_with_def next_state_def
        carriage_return_def ending_width_def decode_line_def strict_decode_def codec_decode_def ascii_decode_def
        MAX_LINE_BYTES_def last_line_def too_long_byte numbered_def upto.simps)
qed

lemma example_parse:
  "pr_entries (dir_parse utc_db ascii_codecs listing_config example_stream) = listing_entries"
  "pr_error (dir_parse utc_db ascii_codecs listing_config example_stream) = None"
  "\<not> coll_has_errors (pr_collector (dir_parse utc_db ascii_codecs listing_config example_stream))"
proof -
  obtain st where "dir_lines utc_db listing_config (numbered example_lines) new_dir_state =
      (None, listing_entries, st)" "\<not> coll_has_errors (dir_finish st)"
    using example_listing_lines by blast
  then show
    "pr_entries (dir_parse utc_db ascii_codecs listing_config example_stream) = listing_entries"
    "pr_error (dir_parse utc_db ascii_codecs listing_config example_stream) = None"
    "\<not> coll_has_errors (pr_collector (dir_parse utc_db ascii_codecs listing_config example_stream))"
    by (simp_all add: dir_parse_def dir_parse_lines_def dir_parse_from_def example_decoded)
qed

section \<open>The import of the listing\<close>

definition listing_source :: "stream source" where
  "listing_source = \<lparr>source_uri = lit ''uri'', source_size = Inr None, source_open = Inr example_stream\<rparr>"

lemma listing_components:
  "components (section_entry [67, 58, 92] 1) = Inr [[67]]"
  "components (listed_file\<lparr>entry_modified_local := t\<rparr>) = Inr [[67], [97]]"
  by (simp_all add: components_def section_entry_def example_header_line(4) listed_file_def utf8_eval slash_def
      MAX_MOUNTED_NAME_BYTES_def)

lemma listing_spec: "\<exists>t. spec_all (spec_add utc_db) listing_entries start_tree = Inr t"
  by (simp add: listing_entries_def spec_add_def listing_components merge_def start_tree_def Let_def)
    (simp add: section_entry_def example_header_line(4) listed_file_def)

lemma listing_created_from:
  assumes src: "source_open src = Inr example_stream" "utf8_encode (source_uri src) \<noteq> None"
  shows "\<exists>s. create_memory_store utc_db (lit ''id'') noon src
     (windows_dir_parser utc_db ascii_codecs listing_config) = Inr s"
proof -
  let ?p = "windows_dir_parser utc_db ascii_codecs listing_config"
  let ?sn = "\<lparr>snapshot_id = lit ''id'', snapshot_source_uri = source_uri src,
    snapshot_source_format = parser_format_name ?p, snapshot_imported_at = noon,
    snapshot_source_metadata = parser_source_metadata ?p\<rparr>"
  have "utf8_encode (lit ''id'') \<noteq> None" by (simp add: utf8_eval)
  then have sn: "make_snapshot ?sn = Inr ?sn"
    using src(2) by (simp add: make_snapshot_def require_unicode_def windows_dir_parser_def listing_config_def freeze_metadata_def)
      (simp add: utf8_eval)
  from listing_spec obtain t where t: "spec_all (spec_add utc_db) listing_entries start_tree = Inr t" ..
  from create_memory_store_spec [OF sn src(1) parse_windows_dir example_parse(2) emitted_entries_ok, of utc_db] t
  show ?thesis using example_parse(3) unfolding example_parse(1) by auto
qed

lemma listing_created:
  "\<exists>s. create_memory_store utc_db (lit ''id'') noon listing_source
     (windows_dir_parser utc_db ascii_codecs listing_config) = Inr s"
  by (rule listing_created_from) (simp_all add: listing_source_def utf8_eval)

section \<open>A time beyond the calendar\<close>

text \<open>The last minute of the year 9999 in a zone west of Greenwich is in the year 10000 in UTC.\<close>

abbreviation late_line :: pystr where
  "late_line \<equiv> lit ''12/31/9999  11:59 PM 5 a''"

definition late_lines :: "decoded_line list" where
  "late_lines = [\<lparr>line_number = 1, line_text = lit ''Directory of C:'' @ [92]\<rparr>, \<lparr>line_number = 2, line_text = late_line\<rparr>]"

definition late_config :: dir_config where
  "late_config = \<lparr>cfg_encoding = lit ''ascii'', cfg_date_format = MDY, cfg_zone = lit ''Azores'',
     cfg_ambiguous = lit ''reject''\<rparr>"

definition late_stream :: "stream" where
  "late_stream = Stream [map of_nat (lit ''Directory of C:'' @ [92, 13, 10] @ late_line @ [13, 10])] None"

definition late_file :: parsed_entry where
  "late_file = listed_file\<lparr>entry_modified_local := Some last_minute\<rparr>"

lemma late_decoded: "iter_decoded_lines ascii_codecs late_stream (lit ''ascii'') MAX_LINE_BYTES = (late_lines, End_Of_Input)"
proof -
  have ascii: "codec_name ascii_codecs (lit ''ascii'') = Some (lit ''ascii'')" by (simp add: ascii_codecs_def)
  show ?thesis
    unfolding iter_decoded_lines_def ascii iter_byte_lines_spec whole_input_def stream_bytes_def
      late_stream_def stream_end_def late_lines_def
    by (simp add: lit_def single_byte_encodings_def feed_def initial_state_def line_spec_Some line_spec_None
        find_newline_def find_byte_from_def find_byte.simps take_line_def strip_cr_def ends_with_def next_state_def
        carriage_return_def ending_width_def decode_line_def strict_decode_def codec_decode_def ascii_decode_def
        MAX_LINE_BYTES_def last_line_def too_long_byte)
qed

lemma late_line_kinds:
  "is_volume late_line = False" "header_path late_line = None" "file_summary late_line = None"
  "dir_summary late_line = None"
  by (simp_all add: pattern_eval regex_eval lit_def)

lemma late_line_stripped: "py_strip late_line = late_line"
  by (simp add: py_strip_def py_lstrip_def py_isspace_def lit_def)

lemma late_line_parses: "parse_entry [67, 58, 92] late_line 2 MDY c = ((True, Some late_file), c)"
  by (simp add: parse_entry_def pattern_eval regex_eval number_eval time_eval path_eval lit_def
      late_file_def listed_file_def last_minute_def)

lemma late_section:
  "dir_lines utc_db late_config [hd late_lines] new_dir_state = (None, [section_entry [67, 58, 92] 1],
      listing_state (in_section 0 0 False False) new_aggregate 0 0
        (observe_line 1 (lit ''Directory of C:'' @ [92]) (new_collector MAX_DIAGNOSTICS)))"
  by (simp add: late_lines_def step_eval example_header_line example_stripped state_eval)

lemma late_entry:
  "reads_entry late_config (listing_state (in_section 0 0 False False) new_aggregate 0 0 c)
     \<lparr>line_number = 2, line_text = late_line\<rparr> late_file"
  by (simp add: reads_entry_def late_line_kinds late_line_stripped late_line_parses state_eval new_aggregate_def late_config_def Let_def)

lemma late_time: "\<not> in_range (candidate_instant utc_db (cfg_zone late_config) last_minute False)"
  by (simp add: candidate_instant_def in_range_def utc_db_def last_minute_def dt_wall_def late_config_def
      ymd_ordinal_def days_before_year_def days_before_month_def days_in_month_def is_leap_def
      min_wall_def max_wall_def eval_nat_numeral)

end
