(* ===== verification/Sqlite_Schema.thy ===== *)
theory Sqlite_Schema
  imports Model
begin

text \<open>
  The tables of an artifact: the cells and rows of \<open>snapshotfs.store.sqlite.schema\<close>, what the
  engine's catalogue says about a database file, and the exact schema contract of
  \<open>snapshotfs.store.sqlite.contract\<close>.
\<close>

section \<open>Cells and rows\<close>

datatype sql_value = SqlNull | SqlInt int | SqlReal pyfloat | SqlText pystr | SqlBlob bytes

record node_row =
  nr_id :: sql_value
  nr_snapshot_id :: sql_value
  nr_parent_id :: sql_value
  nr_mounted_name :: sql_value
  nr_original_path :: sql_value
  nr_kind :: sql_value
  nr_size :: sql_value
  nr_modified_at :: sql_value
  nr_content :: sql_value
  nr_content_status :: sql_value
  nr_content_ref :: sql_value
  nr_source_line :: sql_value
  nr_observation :: sql_value
  nr_metadata_json :: sql_value

record snapshot_row =
  sr_id :: sql_value
  sr_source_uri :: sql_value
  sr_source_format :: sql_value
  sr_imported_at :: sql_value
  sr_metadata_json :: sql_value
  sr_diagnostic_count :: sql_value

record diagnostic_row =
  dr_position :: sql_value
  dr_severity :: sql_value
  dr_code :: sql_value
  dr_message :: sql_value
  dr_line_number :: sql_value

section \<open>The catalogue\<close>

text \<open>A row of \<open>pragma\_table\_list\<close>, \<open>pragma\_table\_xinfo\<close>, \<open>pragma\_foreign\_key\_list\<close>,
  \<open>pragma\_index\_list\<close> and \<open>pragma\_index\_xinfo\<close>, each with the selected columns.\<close>

record table_info =
  ti_name :: pystr
  ti_type :: pystr
  ti_wr :: int
  ti_strict :: int

record column_info =
  ci_name :: pystr
  ci_type :: pystr
  ci_notnull :: int
  ci_default :: "pystr option"
  ci_pk :: int
  ci_hidden :: int

type_synonym foreign_key = "pystr \<times> pystr \<times> pystr option \<times> pystr \<times> pystr \<times> pystr"

record index_info =
  ii_name :: pystr
  ii_unique :: int
  ii_origin :: pystr
  ii_partial :: int

type_synonym index_column = "pystr option \<times> pystr \<times> int"

record catalogue =
  cat_tables :: "table_info list"
  cat_columns :: "pystr \<Rightarrow> column_info list"
  cat_foreign_keys :: "pystr \<Rightarrow> foreign_key list"
  cat_sql :: "pystr \<Rightarrow> pystr option"
  cat_indexes :: "pystr \<Rightarrow> index_info list"
  cat_index_keys :: "pystr \<Rightarrow> index_column list"

record database =
  db_application_id :: int
  db_user_version :: int
  db_quick_check :: bool
  db_catalogue :: catalogue
  db_snapshots :: "snapshot_row list"
  db_nodes :: "node_row list"
  db_diagnostics :: "diagnostic_row list"

section \<open>The required schema\<close>

definition SCHEMA_VERSION :: int where "SCHEMA_VERSION = 4"
definition APPLICATION_ID :: int where "APPLICATION_ID = 0x534E4653"

definition column :: "string \<Rightarrow> string \<Rightarrow> int \<Rightarrow> int \<Rightarrow> column_info" where
  "column name type notnull pk =
     \<lparr>ci_name = lit name, ci_type = lit type, ci_notnull = notnull, ci_default = None, ci_pk = pk,
      ci_hidden = 0\<rparr>"

definition TABLES :: "(pystr \<times> column_info list) list" where
  "TABLES =
     [(lit ''snapshot'',
        [column ''id'' ''TEXT'' 1 1, column ''source_uri'' ''TEXT'' 1 0, column ''source_format'' ''TEXT'' 1 0,
         column ''imported_at'' ''TEXT'' 1 0, column ''metadata_json'' ''TEXT'' 1 0,
         column ''diagnostic_count'' ''INTEGER'' 1 0]),
      (lit ''nodes'',
        [column ''id'' ''INTEGER'' 0 1, column ''snapshot_id'' ''TEXT'' 1 0, column ''parent_id'' ''INTEGER'' 0 0,
         column ''mounted_name'' ''BLOB'' 1 0, column ''original_path'' ''TEXT'' 0 0, column ''kind'' ''TEXT'' 1 0,
         column ''size'' ''INTEGER'' 0 0, column ''modified_at'' ''TEXT'' 0 0, column ''content'' ''BLOB'' 0 0,
         column ''content_status'' ''TEXT'' 1 0, column ''content_ref'' ''TEXT'' 0 0,
         column ''source_line'' ''INTEGER'' 0 0, column ''observation'' ''TEXT'' 0 0,
         column ''metadata_json'' ''TEXT'' 1 0]),
      (lit ''diagnostics'',
        [column ''position'' ''INTEGER'' 0 1, column ''severity'' ''TEXT'' 1 0, column ''code'' ''TEXT'' 1 0,
         column ''message'' ''TEXT'' 1 0, column ''line_number'' ''INTEGER'' 0 0])]"

definition FOREIGN_KEYS :: "foreign_key set" where
  "FOREIGN_KEYS =
     {(lit ''nodes'', lit ''parent_id'', Some (lit ''id''), lit ''NO ACTION'', lit ''NO ACTION'', lit ''NONE''),
      (lit ''snapshot'', lit ''snapshot_id'', Some (lit ''id''), lit ''NO ACTION'', lit ''NO ACTION'', lit ''NONE'')}"

definition UNIQUE_SIBLING_KEYS :: "index_column list set" where
  "UNIQUE_SIBLING_KEYS =
     {[(Some (lit ''parent_id''), lit ''BINARY'', 0), (Some (lit ''mounted_name''), lit ''BINARY'', 0)]}"

definition REQUIRED_INDEXES :: "(pystr \<times> index_column list) list" where
  "REQUIRED_INDEXES =
     [(lit ''nodes_snapshot_id'', [(Some (lit ''snapshot_id''), lit ''BINARY'', 0)]),
      (lit ''nodes_parent_name'',
        [(Some (lit ''parent_id''), lit ''BINARY'', 0), (Some (lit ''mounted_name''), lit ''BINARY'', 0)])]"

text \<open>The declarations that the search in \<open>SCHEMA\<close> finds, up to \<open>\_normalize\_sql\<close>'s white space.\<close>

definition table_declaration :: "pystr \<Rightarrow> string" where
  "table_declaration t =
     (if t = lit ''snapshot'' then
        ''CREATE TABLE snapshot ( id TEXT PRIMARY KEY, source_uri TEXT NOT NULL, source_format TEXT NOT NULL, '' @
        ''imported_at TEXT NOT NULL, metadata_json TEXT NOT NULL, '' @
        ''diagnostic_count INTEGER NOT NULL CHECK (diagnostic_count >= 0) ) STRICT;''
      else if t = lit ''nodes'' then
        ''CREATE TABLE nodes ( id INTEGER PRIMARY KEY CHECK (id > 0), '' @
        ''snapshot_id TEXT NOT NULL REFERENCES snapshot(id), parent_id INTEGER REFERENCES nodes(id), '' @
        ''mounted_name BLOB NOT NULL, original_path TEXT, kind TEXT NOT NULL, '' @
        ''size INTEGER CHECK (size IS NULL OR size >= 0), modified_at TEXT, content BLOB, '' @
        ''content_status TEXT NOT NULL, content_ref TEXT, '' @
        ''source_line INTEGER CHECK (source_line IS NULL OR source_line > 0), observation TEXT, '' @
        ''metadata_json TEXT NOT NULL, UNIQUE(parent_id, mounted_name) ) STRICT;''
      else
        ''CREATE TABLE diagnostics ( position INTEGER PRIMARY KEY CHECK (position >= 0), '' @
        ''severity TEXT NOT NULL, code TEXT NOT NULL, message TEXT NOT NULL, '' @
        ''line_number INTEGER CHECK (line_number IS NULL OR line_number > 0) ) STRICT;'')"

end
