(* ===== verification/Sqlite_Contract.thy ===== *)
theory Sqlite_Contract
  imports Sqlite_Schema Py_Text
begin

text \<open>
  \<open>snapshotfs.store.sqlite.contract\<close>: an artifact must have exactly the required tables,
  columns, foreign keys, indexes and declarations. The catalogue is what the engine's pragmas
  report; \<open>str.lower\<close> is a parameter, since only its ASCII part matters here.
\<close>

section \<open>Failures\<close>

definition schema_error :: "message \<Rightarrow> py_exn" where
  "schema_error m = StoreError ''SQLiteSchemaError'' m"

definition contract_fail :: "message \<Rightarrow> py_exn + unit" where
  "contract_fail m = Inl (schema_error m)"

text \<open>A sequence of checks that stops at the first failure.\<close>

fun all_pass :: "(py_exn + unit) list \<Rightarrow> py_exn + unit" where
  "all_pass [] = Inr ()"
| "all_pass (c # cs) = (case c of Inl x \<Rightarrow> Inl x | Inr _ \<Rightarrow> all_pass cs)"

lemma all_pass_iff: "all_pass cs = Inr () \<longleftrightarrow> (\<forall>c \<in> set cs. c = Inr ())"
  by (induction cs) (auto split: sum.splits)

definition require :: "bool \<Rightarrow> message \<Rightarrow> py_exn + unit" where
  "require b m = (if b then Inr () else contract_fail m)"

lemma require_pass [simp]: "require b m = Inr () \<longleftrightarrow> b"
  by (simp add: require_def contract_fail_def)

lemma require_True [simp]: "require True m = Inr ()"
  by simp

section \<open>Declarations\<close>

text \<open>\<open>" ".join(statement.rstrip("; ").lower().split())\<close>.\<close>

definition split_words :: "pystr \<Rightarrow> pystr list" where
  "split_words s =
     List.filter (\<lambda>w. w \<noteq> [])
       (foldr (\<lambda>c ws. if py_isspace c then [] # ws else (case ws of [] \<Rightarrow> [[c]] | w # ws' \<Rightarrow> (c # w) # ws'))
          s [[]])"

definition normalize_sql :: "(pystr \<Rightarrow> pystr) \<Rightarrow> pystr \<Rightarrow> pystr" where
  "normalize_sql lower statement =
     join [32] (split_words (lower (rev (dropWhile (\<lambda>c. c = 59 \<or> c = 32) (rev statement)))))"

definition validate_table_declaration ::
  "(pystr \<Rightarrow> pystr) \<Rightarrow> catalogue \<Rightarrow> pystr \<Rightarrow> py_exn + unit" where
  "validate_table_declaration lower cat t =
     (case cat_sql cat t of
        None \<Rightarrow> contract_fail [Txt ''table '', Str t, Txt '' has no schema declaration'']
      | Some sql \<Rightarrow>
          require (normalize_sql lower sql = normalize_sql lower (lit (table_declaration t)))
            [Txt ''table '', Str t, Txt '' has an invalid schema declaration''])"

section \<open>Foreign keys and indexes\<close>

definition validate_foreign_keys :: "catalogue \<Rightarrow> py_exn + unit" where
  "validate_foreign_keys cat =
     (let rows = cat_foreign_keys cat (lit ''nodes'')
      in all_pass
        (require (length rows = card FOREIGN_KEYS \<and> set rows = FOREIGN_KEYS)
           [Txt ''nodes has an invalid foreign-key contract''] #
         map (\<lambda>t. require (cat_foreign_keys cat t = [])
             [Txt ''table '', Str t, Txt '' has an unexpected foreign key''])
           [lit ''snapshot'', lit ''diagnostics'']))"

definition index_named :: "index_info list \<Rightarrow> pystr \<Rightarrow> (int \<times> pystr \<times> int) option" where
  "index_named rows name =
     map_of (rev (map (\<lambda>r. (ii_name r, (ii_unique r, ii_origin r, ii_partial r))) rows)) name"

definition validate_indexes :: "catalogue \<Rightarrow> py_exn + unit" where
  "validate_indexes cat =
     (let rows = cat_indexes cat (lit ''nodes'');
          unique_rows = List.filter (\<lambda>r. ii_unique r = 1 \<and> ii_origin r = lit ''u'' \<and> ii_partial r = 0) rows;
          unique_keys = (\<lambda>r. cat_index_keys cat (ii_name r)) ` set unique_rows
      in all_pass
        (require (length unique_rows = 1 \<and> unique_keys = UNIQUE_SIBLING_KEYS)
           [Txt ''nodes has invalid unique sibling constraints''] #
         concat (map (\<lambda>(name, expected).
             [require (index_named rows name = Some (0, lit ''c'', 0))
                [Txt ''required index '', Str name, Txt '' is missing or invalid''],
              require (cat_index_keys cat name = expected)
                [Txt ''required index '', Str name, Txt '' has invalid columns'']])
           REQUIRED_INDEXES)))"

section \<open>The whole contract\<close>

text \<open>\<open>name NOT LIKE 'sqlite\_%'\<close>: \<open>LIKE\<close> ignores the case of ASCII letters and \<open>\_\<close> matches any character.\<close>

definition ascii_lower :: "nat \<Rightarrow> nat" where
  "ascii_lower c = (if 65 \<le> c \<and> c \<le> 90 then c + 32 else c)"

definition internal_name :: "pystr \<Rightarrow> bool" where
  "internal_name name \<longleftrightarrow> map ascii_lower (take 6 name) = lit ''sqlite'' \<and> 7 \<le> length name"

definition validate_schema_contract :: "(pystr \<Rightarrow> pystr) \<Rightarrow> catalogue \<Rightarrow> py_exn + unit" where
  "validate_schema_contract lower cat =
     (let table_rows = List.filter (\<lambda>r. \<not> internal_name (ti_name r)) (cat_tables cat)
      in all_pass
        ([require (ti_name ` set table_rows = fst ` set TABLES)
            [Txt ''artifact does not contain the exact required tables''],
          require (list_all (\<lambda>r. ti_type r = lit ''table'' \<and> ti_wr r = 0 \<and> ti_strict r = 1) table_rows)
            [Txt ''artifact tables must be ordinary STRICT rowid tables'']] @
         map (\<lambda>(t, expected). require (cat_columns cat t = expected)
             [Txt ''table '', Str t, Txt '' has an invalid column contract'']) TABLES @
         [validate_foreign_keys cat, validate_indexes cat] @
         map (\<lambda>(t, _). validate_table_declaration lower cat t) TABLES))"

section \<open>The created schema satisfies the contract\<close>

text \<open>What the engine reports for a database created with \<open>SCHEMA\<close>.\<close>

definition created_catalogue :: catalogue where
  "created_catalogue =
     \<lparr>cat_tables = map (\<lambda>t. \<lparr>ti_name = t, ti_type = lit ''table'', ti_wr = 0, ti_strict = 1\<rparr>)
        [lit ''diagnostics'', lit ''nodes'', lit ''snapshot''] @
        [\<lparr>ti_name = lit ''sqlite_schema'', ti_type = lit ''table'', ti_wr = 0, ti_strict = 0\<rparr>],
      cat_columns = (\<lambda>t. case map_of TABLES t of Some cs \<Rightarrow> cs | None \<Rightarrow> []),
      cat_foreign_keys = (\<lambda>t. if t = lit ''nodes''
        then [(lit ''nodes'', lit ''parent_id'', Some (lit ''id''), lit ''NO ACTION'', lit ''NO ACTION'', lit ''NONE''),
              (lit ''snapshot'', lit ''snapshot_id'', Some (lit ''id''), lit ''NO ACTION'', lit ''NO ACTION'', lit ''NONE'')]
        else []),
      cat_sql = (\<lambda>t. if t \<in> fst ` set TABLES then Some (butlast (lit (table_declaration t))) else None),
      cat_indexes = (\<lambda>t. if t = lit ''nodes''
        then [\<lparr>ii_name = lit ''nodes_parent_name'', ii_unique = 0, ii_origin = lit ''c'', ii_partial = 0\<rparr>,
              \<lparr>ii_name = lit ''nodes_snapshot_id'', ii_unique = 0, ii_origin = lit ''c'', ii_partial = 0\<rparr>,
              \<lparr>ii_name = lit ''sqlite_autoindex_nodes_1'', ii_unique = 1, ii_origin = lit ''u'', ii_partial = 0\<rparr>]
        else []),
      cat_index_keys = (\<lambda>name. if name = lit ''nodes_snapshot_id''
        then [(Some (lit ''snapshot_id''), lit ''BINARY'', 0)]
        else [(Some (lit ''parent_id''), lit ''BINARY'', 0), (Some (lit ''mounted_name''), lit ''BINARY'', 0)])\<rparr>"

lemma table_names: "fst ` set TABLES = {lit ''snapshot'', lit ''nodes'', lit ''diagnostics''}"
  by (auto simp: TABLES_def)

lemma declaration_ends: "lit (table_declaration t) = butlast (lit (table_declaration t)) @ [59]"
  by (simp add: table_declaration_def lit_def)

lemma normalize_sql_semicolon: "normalize_sql lower (s @ [59]) = normalize_sql lower s"
  by (simp add: normalize_sql_def)

lemma created_catalogue_valid: "validate_schema_contract lower created_catalogue = Inr ()"
proof -
  have decl: "validate_table_declaration lower created_catalogue t = Inr ()" if "t \<in> fst ` set TABLES" for t
  proof -
    have "normalize_sql lower (butlast (lit (table_declaration t))) = normalize_sql lower (lit (table_declaration t))"
      by (subst (2) declaration_ends) (simp add: normalize_sql_semicolon)
    with that show ?thesis by (simp add: validate_table_declaration_def created_catalogue_def)
  qed
  have keys: "validate_foreign_keys created_catalogue = Inr ()"
    by (simp add: validate_foreign_keys_def created_catalogue_def FOREIGN_KEYS_def)
  have ind: "validate_indexes created_catalogue = Inr ()"
    by (simp add: validate_indexes_def created_catalogue_def UNIQUE_SIBLING_KEYS_def
        REQUIRED_INDEXES_def index_named_def Let_def del: set_filter)
  have cols: "cat_columns created_catalogue t = cs" if "(t, cs) \<in> set TABLES" for t cs
    using that by (auto simp: created_catalogue_def TABLES_def)
  have tabs: "ti_name ` set (List.filter (\<lambda>r. \<not> internal_name (ti_name r)) (cat_tables created_catalogue)) =
      fst ` set TABLES"
    "list_all (\<lambda>r. ti_type r = lit ''table'' \<and> ti_wr r = 0 \<and> ti_strict r = 1)
      (List.filter (\<lambda>r. \<not> internal_name (ti_name r)) (cat_tables created_catalogue))"
    by (auto simp: created_catalogue_def table_names internal_name_def ascii_lower_def lit_def)
  have conts: "\<forall>c \<in> set (map (\<lambda>(t, expected). require (cat_columns created_catalogue t = expected)
             [Txt ''table '', Str t, Txt '' has an invalid column contract'']) TABLES). c = Inr ()"
    using cols by auto
  have decls: "\<forall>c \<in> set (map (\<lambda>(t, _). validate_table_declaration lower created_catalogue t) TABLES). c = Inr ()"
    using decl by force
  show ?thesis
    unfolding validate_schema_contract_def Let_def all_pass_iff set_append ball_Un
    using tabs keys ind conts decls by simp
qed

end
