(* ===== verification/Sqlite_Codec.thy ===== *)
theory Sqlite_Codec
  imports Sqlite_Schema
begin

text \<open>
  \<open>snapshotfs.store.sqlite.codec\<close>: date-times as ISO 8601 text and metadata as JSON text.
  \<open>datetime.fromisoformat\<close>, \<open>json.loads\<close> and \<open>json.dumps\<close> are fields of \<open>text_codecs\<close>, with
  the compact, key-sorting arguments the code passes; \<open>str.lower\<close> and the rendering of a
  message, which needs the printable characters of \<open>repr\<close>, are fields as well.
\<close>

record text_codecs =
  from_isoformat :: "pystr \<Rightarrow> py_exn + datetime"
  json_loads :: "pystr \<Rightarrow> py_exn + pyval"
  json_dumps :: "pyval \<Rightarrow> py_exn + pystr"
  str_lower :: "pystr \<Rightarrow> pystr"
  render :: "message \<Rightarrow> pystr"

section \<open>Date-times\<close>

definition encode_datetime :: "tzdb \<Rightarrow> datetime option \<Rightarrow> sql_value" where
  "encode_datetime db value = (case value of None \<Rightarrow> SqlNull | Some t \<Rightarrow> SqlText (isoformat db t))"

definition decode_datetime :: "text_codecs \<Rightarrow> sql_value \<Rightarrow> py_exn + datetime option" where
  "decode_datetime L value =
     (case value of
        SqlNull \<Rightarrow> Inr None
      | SqlText s \<Rightarrow> map_ok Some (from_isoformat L s)
      | _ \<Rightarrow> Inl (TypeError [Txt ''fromisoformat: argument must be str'']))"

section \<open>Metadata\<close>

definition too_deep :: py_exn where
  "too_deep = ValueError [Txt ''metadata nesting is too deep'']"

definition is_str :: "pyval \<Rightarrow> bool" where
  "is_str v \<longleftrightarrow> (case v of PyStr _ \<Rightarrow> True | _ \<Rightarrow> False)"

fun validate_json :: "pyval \<Rightarrow> py_exn + unit"
  and validate_json_list :: "pyval list \<Rightarrow> py_exn + unit"
  and validate_json_items :: "(pyval \<times> pyval) list \<Rightarrow> py_exn + unit" where
  "validate_json PyNone = Inr ()"
| "validate_json (PyStr s) = Inr ()"
| "validate_json (PyBool b) = Inr ()"
| "validate_json (PyInt i) = Inr ()"
| "validate_json (PyFloat f) =
     (case f of
        Finite m e \<Rightarrow> Inr ()
      | _ \<Rightarrow> Inl (ValueError [Txt ''metadata contains a non-finite number'']))"
| "validate_json (PyList xs) = validate_json_list xs"
| "validate_json (PyMap items) =
     (if list_all (\<lambda>i. is_str (fst i)) items then validate_json_items items
      else Inl (TypeError [Txt ''metadata object keys must be strings'']))"
| "validate_json (PyFrozenList xs) = Inl (TypeError [Txt ''unsupported metadata value FrozenList''])"
| "validate_json (PyOther name) = Inl (TypeError [Txt ''unsupported metadata value '', Txt name])"
| "validate_json_list [] = Inr ()"
| "validate_json_list (x # xs) = (case validate_json x of Inl e \<Rightarrow> Inl e | Inr _ \<Rightarrow> validate_json_list xs)"
| "validate_json_items [] = Inr ()"
| "validate_json_items ((k, v) # items) =
     (case validate_json v of Inl e \<Rightarrow> Inl e | Inr _ \<Rightarrow> validate_json_items items)"

definition encode_metadata :: "text_codecs \<Rightarrow> metadata \<Rightarrow> py_exn + pystr" where
  "encode_metadata L m =
     (let v = PyMap (thaw_metadata m)
      in case validate_json v of
           Inl e \<Rightarrow> Inl e
         | Inr _ \<Rightarrow> (case json_dumps L v of Inl RecursionError \<Rightarrow> Inl too_deep | r \<Rightarrow> r))"

definition decode_metadata :: "text_codecs \<Rightarrow> sql_value \<Rightarrow> py_exn + metadata" where
  "decode_metadata L value =
     (case value of
        SqlText s \<Rightarrow>
          (case json_loads L s of
             Inl RecursionError \<Rightarrow> Inl too_deep
           | Inl x \<Rightarrow> Inl x
           | Inr (PyMap items) \<Rightarrow>
               if list_all (\<lambda>i. is_str (fst i)) items then Inr items
               else Inl (ValueError [Txt ''metadata must be a JSON object with string keys''])
           | Inr _ \<Rightarrow> Inl (ValueError [Txt ''metadata must be a JSON object with string keys'']))
      | _ \<Rightarrow> Inl (TypeError [Txt ''metadata JSON must be text'']))"

section \<open>The text of an exception\<close>

definition exn_text :: "py_exn \<Rightarrow> message" where
  "exn_text x =
     (case x of
        ValueError m \<Rightarrow> m | TypeError m \<Rightarrow> m | RuntimeError m \<Rightarrow> m | OverflowError m \<Rightarrow> m | OSError m \<Rightarrow> m
      | KeyErrorInt i \<Rightarrow> [Num i] | KeyErrorStr s \<Rightarrow> [Repr s] | StoreError _ m \<Rightarrow> m | RecursionError \<Rightarrow> [Txt ''maximum recursion depth exceeded''])"

text \<open>\<open>except (TypeError, ValueError)\<close>.\<close>

definition type_or_value_error :: "py_exn \<Rightarrow> bool" where
  "type_or_value_error x = (case x of ValueError _ \<Rightarrow> True | TypeError _ \<Rightarrow> True | _ \<Rightarrow> False)"

end
