(* ===== verification/Sqlite_Query.thy ===== *)
theory Sqlite_Query
  imports Main
begin

text \<open>
  The recursive queries of the validation: \<open>WITH RECURSIVE \<dots> UNION ALL\<close> extracts the rows of a
  queue one by one, appends the rows that the recursive select gives for each, and keeps
  duplicates, so that it does not end on a cycle.
\<close>

partial_function (option) recursive_query :: "('a \<Rightarrow> 'a list) \<Rightarrow> 'a list \<Rightarrow> 'a list option" where
  "recursive_query step queue =
     (case queue of
        [] \<Rightarrow> Some []
      | v # vs \<Rightarrow> Option.bind (recursive_query step (vs @ step v)) (\<lambda>rs. Some (v # rs)))"

lemma recursive_query_simps [simp]:
  "recursive_query step [] = Some []"
  "recursive_query step (v # vs) = map_option ((#) v) (recursive_query step (vs @ step v))"
  by (subst recursive_query.simps, simp)+ (cases "recursive_query step (vs @ step v)"; simp)

declare recursive_query_simps(2) [simp del]

text \<open>A cycle of two rows is never left.\<close>

lemma recursive_query_cycle:
  assumes "step a = [b]" "step b = [a]"
  shows "recursive_query step [a] = None"
proof (cases "recursive_query step [a]")
  case (Some rs)
  then obtain rs' where b: "recursive_query step [b] = Some rs'" "rs = a # rs'"
    using assms(1) by (auto simp: recursive_query_simps)
  with Some assms(2) have "recursive_query step [a] = Some (tl rs')" "rs' = b # tl rs'"
    by (auto simp: recursive_query_simps)
  with Some b have "length rs = length rs - 2" "2 \<le> length rs" by (cases rs'; auto)+
  then show ?thesis by simp
qed simp

text \<open>
  Rows that have one parent at most and start from a row without one are extracted once each,
  so the query ends within any finite set closed under the step.
\<close>

inductive_set descendants :: "('a \<Rightarrow> 'a list) \<Rightarrow> 'a \<Rightarrow> 'a set" for step r where
  root: "r \<in> descendants step r"
| child: "p \<in> descendants step r \<Longrightarrow> i \<in> set (step p) \<Longrightarrow> i \<in> descendants step r"

definition forest_step :: "('a \<Rightarrow> 'a list) \<Rightarrow> bool" where
  "forest_step step \<longleftrightarrow> (\<forall>p. distinct (step p)) \<and> (\<forall>p q i. i \<in> set (step p) \<longrightarrow> i \<in> set (step q) \<longrightarrow> p = q)"

text \<open>The rows extracted so far and the queue: no repetition, and closed under the step.\<close>

definition query_inv :: "('a \<Rightarrow> 'a list) \<Rightarrow> 'a \<Rightarrow> 'a list \<Rightarrow> 'a list \<Rightarrow> bool" where
  "query_inv step r seen queue \<longleftrightarrow>
     distinct (seen @ queue) \<and> r \<in> set (seen @ queue) \<and> set (seen @ queue) \<subseteq> descendants step r \<and>
     (\<forall>i \<in> set (seen @ queue). i = r \<or> (\<exists>p \<in> set seen. i \<in> set (step p))) \<and>
     (\<forall>p \<in> set seen. set (step p) \<subseteq> set (seen @ queue))"

lemma query_inv_start: "query_inv step r [] [r]"
  by (simp add: query_inv_def descendants.root)

lemma query_inv_step:
  assumes inv: "query_inv step r seen (v # vs)" and f: "forest_step step" and r: "\<And>p. r \<notin> set (step p)"
  shows "query_inv step r (seen @ [v]) (vs @ step v)"
proof -
  have new: "i \<notin> set (seen @ v # vs)" if "i \<in> set (step v)" for i
  proof
    assume "i \<in> set (seen @ v # vs)"
    moreover have "i \<noteq> r" using r that by blast
    ultimately obtain p where "p \<in> set seen" "i \<in> set (step p)"
      using inv unfolding query_inv_def by blast
    with f that have "p = v" by (auto simp: forest_step_def)
    with \<open>p \<in> set seen\<close> inv show False by (auto simp: query_inv_def)
  qed
  have v: "v \<in> descendants step r" using inv by (auto simp: query_inv_def)
  have "distinct (step v)" using f by (simp add: forest_step_def)
  with inv new v show ?thesis
    unfolding query_inv_def by (auto intro: descendants.child)
qed

lemma query_inv_end: "query_inv step r seen [] \<Longrightarrow> set seen = descendants step r"
proof -
  assume inv: "query_inv step r seen []"
  have "i \<in> descendants step r \<Longrightarrow> i \<in> set seen" for i
    by (induction rule: descendants.induct) (use inv in \<open>auto simp: query_inv_def\<close>)
  with inv show ?thesis by (auto simp: query_inv_def)
qed

lemma recursive_query_run:
  assumes f: "forest_step step" "\<And>p. r \<notin> set (step p)" and fin: "finite (descendants step r)"
  shows "query_inv step r seen queue \<Longrightarrow> \<exists>rs. recursive_query step queue = Some rs \<and>
    distinct (seen @ rs) \<and> set (seen @ rs) = descendants step r"
proof (induction "card (descendants step r) - length seen" arbitrary: seen queue rule: less_induct)
  case less
  show ?case
  proof (cases queue)
    case Nil
    with less.prems have inv: "query_inv step r seen []" by simp
    show ?thesis
    proof (intro exI conjI)
      show "recursive_query step queue = Some []" using Nil by simp
      show "distinct (seen @ [])" using inv unfolding query_inv_def by simp
      show "set (seen @ []) = descendants step r" using query_inv_end [OF inv] by simp
    qed
  next
    case (Cons v vs)
    from less.prems Cons have "distinct (seen @ [v])" "set (seen @ [v]) \<subseteq> descendants step r"
      by (auto simp: query_inv_def)
    then have "length (seen @ [v]) \<le> card (descendants step r)"
      using fin by (metis card_mono distinct_card)
    then have lt: "card (descendants step r) - length (seen @ [v]) < card (descendants step r) - length seen"
      by simp
    from less.hyps [OF lt query_inv_step [OF less.prems [unfolded Cons] f]] obtain rs where
      rs: "recursive_query step (vs @ step v) = Some rs" "distinct ((seen @ [v]) @ rs)"
      "set ((seen @ [v]) @ rs) = descendants step r" by (elim exE conjE)
    show ?thesis by (rule exI [of _ "v # rs"]) (use rs Cons in \<open>simp add: recursive_query_simps\<close>)
  qed
qed

theorem recursive_query_ends:
  assumes "forest_step step" "\<And>p. r \<notin> set (step p)" "finite (descendants step r)"
  obtains rs where "recursive_query step [r] = Some rs" "distinct rs" "set rs = descendants step r"
  using recursive_query_run [OF assms query_inv_start] by auto

text \<open>The rows of a forest below a root lie in generations, so a row comes after its parent.\<close>

primrec generation :: "('a \<Rightarrow> 'a list) \<Rightarrow> 'a \<Rightarrow> nat \<Rightarrow> 'a set" where
  "generation step r 0 = {r}"
| "generation step r (Suc k) = (\<Union>p \<in> generation step r k. set (step p))"

lemma descendants_generation: "i \<in> descendants step r \<Longrightarrow> \<exists>k. i \<in> generation step r k"
proof (induction rule: descendants.induct)
  case root
  have "r \<in> generation step r 0" by simp
  then show ?case ..
next
  case (child p i)
  then obtain k where "i \<in> generation step r (Suc k)" by auto
  then show ?case ..
qed

lemma forest_rank:
  assumes f: "forest_step step" and r: "\<And>p. r \<notin> set (step p)"
  obtains rank :: "'a \<Rightarrow> nat" where
    "\<And>p i. p \<in> descendants step r \<Longrightarrow> i \<in> set (step p) \<Longrightarrow> rank p < rank i"
proof
  fix p i assume p: "p \<in> descendants step r" and i: "i \<in> set (step p)"
  let ?rank = "\<lambda>i. LEAST k. i \<in> generation step r k"
  have "i \<in> descendants step r" using p i by (rule descendants.child)
  then have "i \<in> generation step r (?rank i)"
    by (rule LeastI_ex [OF descendants_generation])
  moreover have "i \<noteq> r" using r i by blast
  ultimately obtain k q where k: "?rank i = Suc k" "q \<in> generation step r k" "i \<in> set (step q)"
    by (cases "?rank i") auto
  from f i k(3) have "q = p" by (auto simp: forest_step_def)
  with k(2) have "?rank p \<le> k" by (auto intro: Least_le)
  with k(1) show "?rank p < ?rank i" by simp
qed

text \<open>A query whose rows carry more than another's ends when the other does, with matching rows.\<close>

lemma recursive_query_project:
  assumes step: "\<And>x. map f (step' x) = step (f x)"
  shows "recursive_query step (map f queue) = Some rs \<Longrightarrow>
    \<exists>rs'. recursive_query step' queue = Some rs' \<and> map f rs' = rs"
proof (induction rs arbitrary: queue)
  case Nil
  then have "queue = []" by (cases queue) (auto simp: recursive_query_simps)
  then show ?case by simp
next
  case (Cons v rs)
  then obtain x xs where queue: "queue = x # xs" by (cases queue) auto
  with Cons.prems have v: "v = f x" "recursive_query step (map f (xs @ step' x)) = Some rs"
    by (auto simp: recursive_query_simps step)
  from Cons.IH [OF v(2)] obtain rs' where "recursive_query step' (xs @ step' x) = Some rs'" "map f rs' = rs"
    by blast
  with queue v show ?case by (auto simp: recursive_query_simps)
qed

end
