(* ===== verification/Sqlite_Validation.thy ===== *)
theory Sqlite_Validation
  imports Sqlite_Contract Sqlite_Codec Sqlite_Query Building
begin

text \<open>
  \<open>snapshotfs.store.sqlite.validation\<close> and \<open>SQLiteSnapshotStore.\_validate\<close>: the checks that
  opening an artifact makes, in order. A \<open>WHERE\<close> condition is modelled by the predicate that
  holds of a row when SQL's three-valued condition is true. A query that does not return makes
  the whole validation \<open>None\<close>.
\<close>

section \<open>SQL conditions\<close>

definition is_int :: "sql_value \<Rightarrow> bool" where "is_int v = (case v of SqlInt _ \<Rightarrow> True | _ \<Rightarrow> False)"
definition is_text :: "sql_value \<Rightarrow> bool" where "is_text v = (case v of SqlText _ \<Rightarrow> True | _ \<Rightarrow> False)"
definition is_blob :: "sql_value \<Rightarrow> bool" where "is_blob v = (case v of SqlBlob _ \<Rightarrow> True | _ \<Rightarrow> False)"

abbreviation is_null :: "sql_value \<Rightarrow> bool" where "is_null v \<equiv> v = SqlNull"

definition negative :: "sql_value \<Rightarrow> bool" where
  "negative v =
     (case v of
        SqlInt i \<Rightarrow> i < 0
      | SqlReal f \<Rightarrow> (case f of Finite m e \<Rightarrow> m < 0 | NegInfinity \<Rightarrow> True | _ \<Rightarrow> False)
      | _ \<Rightarrow> False)"

definition not_positive :: "sql_value \<Rightarrow> bool" where
  "not_positive v =
     (case v of
        SqlInt i \<Rightarrow> i \<le> 0
      | SqlReal f \<Rightarrow> (case f of Finite m e \<Rightarrow> m \<le> 0 | NegInfinity \<Rightarrow> True | _ \<Rightarrow> False)
      | _ \<Rightarrow> False)"

definition sql_eq :: "sql_value \<Rightarrow> sql_value \<Rightarrow> bool" where
  "sql_eq a b \<longleftrightarrow> a \<noteq> SqlNull \<and> b \<noteq> SqlNull \<and> a = b"

definition sql_ne :: "sql_value \<Rightarrow> sql_value \<Rightarrow> bool" where
  "sql_ne a b \<longleftrightarrow> a \<noteq> SqlNull \<and> b \<noteq> SqlNull \<and> a \<noteq> b"

definition sql_text :: "string \<Rightarrow> sql_value" where
  "sql_text s = SqlText (lit s)"

definition in_texts :: "sql_value \<Rightarrow> pystr list \<Rightarrow> bool" where
  "in_texts v ts \<longleftrightarrow> v \<in> SqlText ` set ts"

definition not_in_texts :: "sql_value \<Rightarrow> pystr list \<Rightarrow> bool" where
  "not_in_texts v ts \<longleftrightarrow> v \<noteq> SqlNull \<and> v \<notin> SqlText ` set ts"

definition sql_length :: "sql_value \<Rightarrow> sql_value" where
  "sql_length v =
     (case v of SqlBlob b \<Rightarrow> SqlInt (int (length b)) | SqlText s \<Rightarrow> SqlInt (int (length s)) | _ \<Rightarrow> SqlNull)"

definition longer_than :: "sql_value \<Rightarrow> nat \<Rightarrow> bool" where
  "longer_than v n = (case sql_length v of SqlInt l \<Rightarrow> int n < l | _ \<Rightarrow> False)"

text \<open>\<open>if SELECT 1 FROM rows WHERE bad LIMIT 1: fail\<close>.\<close>

definition no_row :: "('r \<Rightarrow> bool) \<Rightarrow> 'r list \<Rightarrow> message \<Rightarrow> py_exn + unit" where
  "no_row bad rows m = require (\<not> list_ex bad rows) m"

lemma no_row_pass [simp]: "no_row bad rows m = Inr () \<longleftrightarrow> (\<forall>r \<in> set rows. \<not> bad r)"
  by (simp add: no_row_def list_ex_iff)

section \<open>Storage classes\<close>

definition snapshot_class_bad :: "snapshot_row \<Rightarrow> bool" where
  "snapshot_class_bad r \<longleftrightarrow> \<not> is_text (sr_id r) \<or> \<not> is_text (sr_source_uri r) \<or> \<not> is_text (sr_source_format r) \<or>
     \<not> is_text (sr_imported_at r) \<or> \<not> is_text (sr_metadata_json r) \<or> \<not> is_int (sr_diagnostic_count r)"

definition node_class_bad :: "node_row \<Rightarrow> bool" where
  "node_class_bad r \<longleftrightarrow> \<not> is_int (nr_id r) \<or> \<not> is_text (nr_snapshot_id r) \<or>
     \<not> (is_null (nr_parent_id r) \<or> is_int (nr_parent_id r)) \<or> \<not> is_blob (nr_mounted_name r) \<or>
     \<not> (is_null (nr_original_path r) \<or> is_text (nr_original_path r)) \<or> \<not> is_text (nr_kind r) \<or>
     \<not> (is_null (nr_size r) \<or> is_int (nr_size r)) \<or> \<not> (is_null (nr_modified_at r) \<or> is_text (nr_modified_at r)) \<or>
     \<not> (is_null (nr_content r) \<or> is_blob (nr_content r)) \<or> \<not> is_text (nr_content_status r) \<or>
     \<not> (is_null (nr_content_ref r) \<or> is_text (nr_content_ref r)) \<or>
     \<not> (is_null (nr_source_line r) \<or> is_int (nr_source_line r)) \<or>
     \<not> (is_null (nr_observation r) \<or> is_text (nr_observation r)) \<or> \<not> is_text (nr_metadata_json r)"

definition diagnostic_class_bad :: "diagnostic_row \<Rightarrow> bool" where
  "diagnostic_class_bad r \<longleftrightarrow> \<not> is_int (dr_position r) \<or> \<not> is_text (dr_severity r) \<or> \<not> is_text (dr_code r) \<or>
     \<not> is_text (dr_message r) \<or> \<not> (is_null (dr_line_number r) \<or> is_int (dr_line_number r))"

definition bad_class :: "string \<Rightarrow> message" where
  "bad_class t = [Txt t, Txt '' contains an invalid SQLite storage class'']"

definition require_storage_classes :: "database \<Rightarrow> py_exn + unit" where
  "require_storage_classes d = all_pass
     [no_row snapshot_class_bad (db_snapshots d) (bad_class ''snapshot''),
      no_row node_class_bad (db_nodes d) (bad_class ''nodes''),
      no_row diagnostic_class_bad (db_diagnostics d) (bad_class ''diagnostics'')]"

section \<open>Ranges and domain values\<close>

definition kind_values :: "pystr list" where
  "kind_values = map node_kind_value [DIRECTORY, FILE, SYMLINK, SPECIAL, UNKNOWN]"

definition status_values :: "pystr list" where
  "status_values = map content_status_value [NOT_APPLICABLE, MISSING, PRESENT, REMOTE, FAILED, REDACTED]"

definition observation_values :: "pystr list" where
  "observation_values = map observation_value [SECTION_HEADER, DIRECTORY_ENTRY, FILE_ENTRY]"

definition severity_values :: "pystr list" where
  "severity_values = map severity_value [WARNING, ERROR]"

definition node_range_bad :: "node_row \<Rightarrow> bool" where
  "node_range_bad r \<longleftrightarrow> not_positive (nr_id r) \<or> (\<not> is_null (nr_parent_id r) \<and> not_positive (nr_parent_id r)) \<or>
     negative (nr_size r) \<or> not_positive (nr_source_line r) \<or> not_in_texts (nr_kind r) kind_values \<or>
     not_in_texts (nr_content_status r) status_values \<or>
     (\<not> is_null (nr_observation r) \<and> not_in_texts (nr_observation r) observation_values)"

definition diagnostic_range_bad :: "diagnostic_row \<Rightarrow> bool" where
  "diagnostic_range_bad r \<longleftrightarrow> negative (dr_position r) \<or> not_positive (dr_line_number r) \<or>
     not_in_texts (dr_severity r) severity_values"

definition int_value :: "sql_value \<Rightarrow> int" where
  "int_value v = (case v of SqlInt i \<Rightarrow> i | _ \<Rightarrow> 0)"

definition positions_contiguous :: "diagnostic_row list \<Rightarrow> bool" where
  "positions_contiguous rows \<longleftrightarrow>
     (let ps = map (int_value \<circ> dr_position) rows
      in rows = [] \<or> (Min (set ps) = 0 \<and> Max (set ps) = int (length rows) - 1))"

definition directory_content_bad :: "node_row \<Rightarrow> bool" where
  "directory_content_bad r \<longleftrightarrow> \<not> is_null (nr_size r) \<or> \<not> is_null (nr_content r) \<or> \<not> is_null (nr_content_ref r) \<or>
     sql_ne (nr_content_status r) (sql_text ''not_applicable'')"

definition file_content_bad :: "node_row \<Rightarrow> bool" where
  "file_content_bad r \<longleftrightarrow>
     sql_eq (nr_content_status r) (sql_text ''not_applicable'') \<or>
     (sql_eq (nr_size r) (SqlInt 0) \<and>
        (is_null (nr_content r) \<or> sql_ne (sql_length (nr_content r)) (SqlInt 0) \<or>
         sql_ne (nr_content_status r) (sql_text ''present'') \<or> \<not> is_null (nr_content_ref r))) \<or>
     (\<not> is_null (nr_content r) \<and>
        (is_null (nr_size r) \<or> sql_ne (sql_length (nr_content r)) (nr_size r) \<or>
         sql_ne (nr_content_status r) (sql_text ''present'') \<or> \<not> is_null (nr_content_ref r))) \<or>
     (is_null (nr_content r) \<and> in_texts (nr_content_status r) [lit ''present'', lit ''remote''] \<and>
        (is_null (nr_content_ref r) \<or> sql_eq (nr_content_ref r) (SqlText []))) \<or>
     (is_null (nr_content r) \<and> not_in_texts (nr_content_status r) [lit ''present'', lit ''remote''] \<and>
        \<not> is_null (nr_content_ref r))"

definition content_bad :: "node_row \<Rightarrow> bool" where
  "content_bad r \<longleftrightarrow> (sql_eq (nr_kind r) (sql_text ''directory'') \<and> directory_content_bad r) \<or>
     (sql_eq (nr_kind r) (sql_text ''file'') \<and> file_content_bad r)"

definition invalid_value :: "string \<Rightarrow> message" where
  "invalid_value t = [Txt t, Txt '' contains an invalid value'']"

definition require_ranges :: "database \<Rightarrow> py_exn + unit" where
  "require_ranges d = all_pass
     [no_row (\<lambda>r. negative (sr_diagnostic_count r)) (db_snapshots d) (invalid_value ''snapshot''),
      no_row node_range_bad (db_nodes d) (invalid_value ''nodes''),
      no_row diagnostic_range_bad (db_diagnostics d) (invalid_value ''diagnostics''),
      require (positions_contiguous (db_diagnostics d)) [Txt ''diagnostic positions are not contiguous''],
      no_row content_bad (db_nodes d) [Txt ''nodes contain invalid content metadata'']]"

section \<open>The graph\<close>

definition children_ids :: "node_row list \<Rightarrow> sql_value \<Rightarrow> sql_value list" where
  "children_ids ns v = map nr_id (List.filter (\<lambda>r. sql_eq (nr_parent_id r) v) ns)"

definition parent_bad :: "node_row list \<Rightarrow> node_row \<Rightarrow> bool" where
  "parent_bad ns r \<longleftrightarrow> (\<exists>q \<in> set ns. sql_eq (nr_id q) (nr_parent_id r) \<and> sql_ne (nr_kind q) (sql_text ''directory''))"

definition and_then :: "py_exn + unit \<Rightarrow> (py_exn + unit) option \<Rightarrow> (py_exn + unit) option" where
  "and_then c r = (case c of Inl x \<Rightarrow> Some (Inl x) | Inr _ \<Rightarrow> r)"

lemma and_then_ok [simp]:
  "and_then c r = Some (Inr ()) \<longleftrightarrow> c = Inr () \<and> r = Some (Inr ())"
  "and_then c r = None \<longleftrightarrow> c = Inr () \<and> r = None"
  "and_then (Inr ()) r = r"
  by (auto simp: and_then_def split: sum.split)

definition require_graph :: "database \<Rightarrow> (py_exn + unit) option" where
  "require_graph d =
     and_then (no_row (parent_bad (db_nodes d)) (db_nodes d) [Txt ''a node parent is not a directory''])
       (case recursive_query (children_ids (db_nodes d)) [SqlInt 1] of
          None \<Rightarrow> None
        | Some reachable \<Rightarrow>
            Some (require (length reachable = length (db_nodes d))
              [Txt ''filesystem graph contains a cycle or disconnected node'']))"

section \<open>Names and serialised values\<close>

definition decode_values :: "text_codecs \<Rightarrow> message \<Rightarrow> sql_value \<Rightarrow> sql_value \<Rightarrow> bool \<Rightarrow> py_exn + unit" where
  "decode_values L context timestamp metadata_json required =
     (let r = (case decode_datetime L timestamp of
                 Inl x \<Rightarrow> Inl x
               | Inr t \<Rightarrow>
                   if required \<and> t = None then Inl (ValueError [Txt ''timestamp is required''])
                   else map_ok (\<lambda>_. ()) (decode_metadata L metadata_json))
      in case r of
           Inr _ \<Rightarrow> Inr ()
         | Inl x \<Rightarrow>
             if type_or_value_error x
             then contract_fail (context @ [Txt '' has invalid serialized data: ''] @ exn_text x)
             else Inl x)"

definition inode :: "node_row \<Rightarrow> message" where
  "inode r = [Txt ''inode '', Num (int_value (nr_id r))]"

definition reserved_name :: "pystr \<Rightarrow> bool" where
  "reserved_name name \<longleftrightarrow> name = lit ''.'' \<or> name = lit ''..'' \<or> 0 \<in> set name \<or> 47 \<in> set name"

definition name_check :: "text_codecs \<Rightarrow> node_row \<Rightarrow> py_exn + unit" where
  "name_check L r =
     (case nr_mounted_name r of
        SqlBlob raw \<Rightarrow>
          (case utf8_decode raw of
             Inl (Decode_Failure start reason) \<Rightarrow>
               contract_fail (inode r @ [Txt '' mounted name is not valid UTF-8: '', Txt reason])
           | Inr name \<Rightarrow>
               if nr_id r = SqlInt 1 \<and> raw \<noteq> [] then contract_fail [Txt ''inode 1 has an invalid root name'']
               else if nr_id r \<noteq> SqlInt 1 \<and> (raw = [] \<or> reserved_name name)
               then contract_fail (inode r @ [Txt '' has an invalid mounted name''])
               else decode_values L (inode r) (nr_modified_at r) (nr_metadata_json r) False)
      | _ \<Rightarrow> contract_fail (inode r @ [Txt '' mounted name is not a BLOB'']))"

definition root_row :: "database \<Rightarrow> node_row option" where
  "root_row d = find (\<lambda>r. nr_id r = SqlInt 1) (db_nodes d)"

definition virtual_root :: "node_row \<Rightarrow> bool" where
  "virtual_root r \<longleftrightarrow> nr_original_path r = SqlNull \<and> nr_modified_at r = SqlNull \<and> nr_source_line r = SqlNull \<and>
     nr_observation r = SqlNull \<and> nr_metadata_json r = sql_text ''{}''"

text \<open>\<open>CAST(mounted\_name AS TEXT)\<close> of a name that has been checked to be UTF-8.\<close>

definition cast_text :: "sql_value \<Rightarrow> pystr" where
  "cast_text v =
     (case v of SqlBlob b \<Rightarrow> (case utf8_decode b of Inr s \<Rightarrow> s | Inl _ \<Rightarrow> []) | SqlText s \<Rightarrow> s | _ \<Rightarrow> [])"

definition relative_path :: "pystr \<Rightarrow> pystr \<Rightarrow> pystr" where
  "relative_path upper name = (if upper = [] then name else upper @ [slash] @ name)"

definition child_paths :: "node_row list \<Rightarrow> sql_value \<times> pystr \<Rightarrow> (sql_value \<times> pystr) list" where
  "child_paths ns x =
     map (\<lambda>r. (nr_id r, relative_path (snd x) (cast_text (nr_mounted_name r))))
       (List.filter (\<lambda>r. sql_eq (nr_parent_id r) (fst x)) ns)"

definition path_bad :: "node_row list \<Rightarrow> sql_value \<times> pystr \<Rightarrow> bool" where
  "path_bad ns x \<longleftrightarrow>
     (\<exists>r \<in> set ns. sql_eq (nr_id r) (fst x) \<and> nr_id r \<noteq> SqlInt 1 \<and>
        (is_null (nr_original_path r) \<or> sql_ne (nr_original_path r) (SqlText (snd x))))"

definition validate_names :: "text_codecs \<Rightarrow> database \<Rightarrow> (py_exn + unit) option" where
  "validate_names L d =
     and_then (all_pass
        ([case root_row d of
            Some r \<Rightarrow> require (virtual_root r) [Txt ''inode 1 has invalid virtual-root metadata'']
          | None \<Rightarrow> Inr (),
          no_row (\<lambda>r. longer_than (nr_mounted_name r) MAX_MOUNTED_NAME_BYTES) (db_nodes d)
            [Txt ''mounted name exceeds the FUSE-compatible 255-byte limit'']] @
         map (name_check L) (db_nodes d)))
       (case recursive_query (child_paths (db_nodes d)) [(SqlInt 1, [])] of
          None \<Rightarrow> None
        | Some paths \<Rightarrow>
            Some (all_pass
              (require (\<not> list_ex (path_bad (db_nodes d)) paths)
                 [Txt ''node has an invalid derived relative path''] #
               (case db_snapshots d of
                  [] \<Rightarrow> []
                | s # _ \<Rightarrow> [decode_values L [Txt ''snapshot''] (sr_imported_at s) (sr_metadata_json s) True]))))"

definition validate_records :: "text_codecs \<Rightarrow> database \<Rightarrow> (py_exn + unit) option" where
  "validate_records L d =
     and_then (require_storage_classes d)
       (and_then (require_ranges d)
         (case require_graph d of
            None \<Rightarrow> None
          | Some c \<Rightarrow> and_then c (validate_names L d)))"

section \<open>Opening an artifact\<close>

text \<open>\<open>PRAGMA foreign\_key\_check\<close>: a reference that is not null names no row.\<close>

definition foreign_keys_ok :: "database \<Rightarrow> bool" where
  "foreign_keys_ok d \<longleftrightarrow>
     list_all (\<lambda>r. (is_null (nr_snapshot_id r) \<or> nr_snapshot_id r \<in> sr_id ` set (db_snapshots d)) \<and>
       (is_null (nr_parent_id r) \<or> nr_parent_id r \<in> nr_id ` set (db_nodes d))) (db_nodes d)"

definition one_snapshot_and_root :: "database \<Rightarrow> bool" where
  "one_snapshot_and_root d \<longleftrightarrow> length (db_snapshots d) = 1 \<and> root_row d \<noteq> None \<and>
     length (List.filter (\<lambda>r. is_null (nr_parent_id r)) (db_nodes d)) = 1"

definition root_valid :: "database \<Rightarrow> bool" where
  "root_valid d \<longleftrightarrow> (case root_row d of
     Some r \<Rightarrow> is_null (nr_parent_id r) \<and> nr_kind r = sql_text ''directory'' | None \<Rightarrow> False)"

definition counts_ok :: "database \<Rightarrow> bool" where
  "counts_ok d \<longleftrightarrow> (case db_snapshots d of
     s # _ \<Rightarrow> int (length (db_diagnostics d)) \<le> int_value (sr_diagnostic_count s) | [] \<Rightarrow> True)"

definition validate_artifact :: "text_codecs \<Rightarrow> database \<Rightarrow> (py_exn + unit) option" where
  "validate_artifact L d =
     and_then (all_pass
        [require (db_application_id d = APPLICATION_ID) [Txt ''file is not a SnapshotFS artifact''],
         require (db_user_version d = SCHEMA_VERSION)
           [Txt ''unsupported schema version '', Num (db_user_version d), Txt ''; expected '', Num SCHEMA_VERSION],
         require (db_quick_check d) [Txt ''SQLite integrity check failed''],
         validate_schema_contract (str_lower L) (db_catalogue d),
         require (foreign_keys_ok d) [Txt ''artifact has invalid foreign keys''],
         require (one_snapshot_and_root d) [Txt ''artifact must contain one snapshot and root'']])
       (case validate_records L d of
          None \<Rightarrow> None
        | Some c \<Rightarrow>
            Some (all_pass
              [c,
               require (root_valid d) [Txt ''inode 1 is not a valid root directory''],
               require (counts_ok d) [Txt ''diagnostic count is smaller than retained diagnostics'']]))"

end
