(* ===== verification/Sqlite_Store.thy ===== *)
theory Sqlite_Store
  imports Sqlite_Validation Finished_Tree
begin

text \<open>
  \<open>snapshotfs.store.sqlite.store\<close>: opening an artifact and the read methods over its tables. The
  engine is modelled by what the statements of the code select from the rows; reading the file
  itself is assumed to succeed. A Python integer outside 64 bits cannot be bound to a statement,
  and neither can a string that has no UTF-8 form.
\<close>

section \<open>Errors\<close>

definition sqlite_error :: "message \<Rightarrow> py_exn" where
  "sqlite_error m = StoreError ''SQLiteStoreError'' m"

definition store_closed :: py_exn where
  "store_closed = StoreError ''SQLiteStoreClosedError'' [Txt ''snapshot store is closed'']"

text \<open>\<open>except (ValueError, TypeError, KeyError) as exc: raise SQLiteSchemaError(\<dots>)\<close>.\<close>

definition key_error :: "py_exn \<Rightarrow> bool" where
  "key_error x = (case x of KeyErrorInt _ \<Rightarrow> True | KeyErrorStr _ \<Rightarrow> True | _ \<Rightarrow> False)"

definition invalid_record :: "(py_exn \<Rightarrow> bool) \<Rightarrow> string \<Rightarrow> py_exn + 'a \<Rightarrow> py_exn + 'a" where
  "invalid_record caught what r =
     (case r of
        Inl x \<Rightarrow> Inl (if caught x then schema_error (Txt what # exn_text x) else x)
      | Inr y \<Rightarrow> Inr y)"

lemma invalid_record_Inr [simp]: "invalid_record caught what r = Inr y \<longleftrightarrow> r = Inr y"
  by (simp add: invalid_record_def split: sum.split)

section \<open>Opening\<close>

text \<open>What is found at the path: nothing, a directory, a file the engine refuses, or a database.\<close>

datatype artifact_file = No_File | Not_Regular | Not_Database pystr | Database database

record sqlite_store =
  ss_open :: bool
  ss_codecs :: text_codecs
  ss_database :: database

definition open_sqlite_store :: "text_codecs \<Rightarrow> artifact_file \<Rightarrow> (py_exn + sqlite_store) option" where
  "open_sqlite_store L f =
     (case f of
        No_File \<Rightarrow> Some (Inl (sqlite_error [Txt ''snapshot artifact does not exist'']))
      | Not_Regular \<Rightarrow> Some (Inl (sqlite_error [Txt ''snapshot artifact is not a regular file'']))
      | Not_Database e \<Rightarrow> Some (Inl (schema_error [Txt ''invalid SQLite artifact: '', Str e]))
      | Database d \<Rightarrow>
          map_option
            (\<lambda>r. map_ok (\<lambda>_. \<lparr>ss_open = True, ss_codecs = L, ss_database = d\<rparr>)
              (invalid_record (\<lambda>x. key_error x \<or> (type_or_value_error x \<and> (\<nexists>m. x = TypeError m)))
                ''invalid SQLite artifact: '' r))
            (validate_artifact L d))"

definition sqlite_close :: "sqlite_store \<Rightarrow> sqlite_store" where
  "sqlite_close s = s\<lparr>ss_open := False\<rparr>"

section \<open>Statements\<close>

definition require_open :: "sqlite_store \<Rightarrow> py_exn + database" where
  "require_open s = (if ss_open s then Inr (ss_database s) else Inl store_closed)"

definition bind_int :: "int \<Rightarrow> py_exn + unit" where
  "bind_int i =
     (if int64 i then Inr () else Inl (OverflowError [Txt ''Python int too large to convert to SQLite INTEGER'']))"

definition bind_text :: "pystr \<Rightarrow> py_exn + unit" where
  "bind_text s =
     (if utf8_encode s = None then Inl (ValueError [Txt ''surrogates not allowed'']) else Inr ())"

definition query_all :: "sqlite_store \<Rightarrow> py_exn + unit \<Rightarrow> (database \<Rightarrow> 'r list) \<Rightarrow> py_exn + 'r list" where
  "query_all s parameters select =
     (case require_open s of
        Inl x \<Rightarrow> Inl x
      | Inr d \<Rightarrow> (case parameters of Inl x \<Rightarrow> Inl x | Inr _ \<Rightarrow> Inr (select d)))"

definition query_one ::
  "sqlite_store \<Rightarrow> py_exn + unit \<Rightarrow> (database \<Rightarrow> 'r list) \<Rightarrow> py_exn + 'r option" where
  "query_one s parameters select =
     map_ok (\<lambda>rows. case rows of [] \<Rightarrow> None | r # _ \<Rightarrow> Some r) (query_all s parameters select)"

section \<open>Records from rows\<close>

text \<open>
  The value of a cell of a class that opening has checked. A cell of another class is not read
  through these functions.
\<close>

definition text_value :: "sql_value \<Rightarrow> pystr" where
  "text_value v = (case v of SqlText s \<Rightarrow> s | _ \<Rightarrow> [])"

definition optional :: "(sql_value \<Rightarrow> 'a) \<Rightarrow> sql_value \<Rightarrow> 'a option" where
  "optional f v = (if is_null v then None else Some (f v))"

definition blob_value :: "sql_value \<Rightarrow> bytes" where
  "blob_value v = (case v of SqlBlob b \<Rightarrow> b | _ \<Rightarrow> [])"

definition enum_of :: "('a \<Rightarrow> pystr) \<Rightarrow> 'a list \<Rightarrow> string \<Rightarrow> sql_value \<Rightarrow> py_exn + 'a" where
  "enum_of val members name v =
     (case find (\<lambda>x. v = SqlText (val x)) members of
        Some x \<Rightarrow> Inr x
      | None \<Rightarrow> Inl (ValueError [Repr (text_value v), Txt '' is not a valid '', Txt name]))"

definition kind_of :: "sql_value \<Rightarrow> py_exn + node_kind" where
  "kind_of = enum_of node_kind_value [DIRECTORY, FILE, SYMLINK, SPECIAL, UNKNOWN] ''NodeKind''"

definition status_of :: "sql_value \<Rightarrow> py_exn + content_status" where
  "status_of = enum_of content_status_value [NOT_APPLICABLE, MISSING, PRESENT, REMOTE, FAILED, REDACTED]
     ''ContentStatus''"

definition observation_of :: "sql_value \<Rightarrow> py_exn + observation" where
  "observation_of = enum_of observation_value [SECTION_HEADER, DIRECTORY_ENTRY, FILE_ENTRY] ''Observation''"

definition severity_of :: "sql_value \<Rightarrow> py_exn + severity" where
  "severity_of = enum_of severity_value [WARNING, ERROR] ''Severity''"

definition row_node :: "text_codecs \<Rightarrow> node_row \<Rightarrow> py_exn + node" where
  "row_node L r =
     invalid_record (\<lambda>x. type_or_value_error x \<or> key_error x) ''invalid node record: ''
      (if \<not> is_blob (nr_mounted_name r) then Inl (TypeError [Txt ''mounted_name is not a BLOB''])
       else if \<not> is_null (nr_content r) \<and> \<not> is_blob (nr_content r)
       then Inl (TypeError [Txt ''content is not a BLOB''])
       else (case decode_metadata L (nr_metadata_json r) of Inl x \<Rightarrow> Inl x | Inr m \<Rightarrow>
        (case kind_of (nr_kind r) of Inl x \<Rightarrow> Inl x | Inr kind \<Rightarrow>
         (case decode_datetime L (nr_modified_at r) of Inl x \<Rightarrow> Inl x | Inr t \<Rightarrow>
          (case status_of (nr_content_status r) of Inl x \<Rightarrow> Inl x | Inr status \<Rightarrow>
             make_node
               \<lparr>node_id = int_value (nr_id r), node_snapshot_id = text_value (nr_snapshot_id r),
                node_parent_id = optional int_value (nr_parent_id r),
                node_mounted_name = blob_value (nr_mounted_name r),
                node_original_path = optional text_value (nr_original_path r), node_kind = kind,
                node_size = optional int_value (nr_size r), node_modified_at = t,
                node_content = optional blob_value (nr_content r), node_content_status = status,
                node_content_ref = optional text_value (nr_content_ref r),
                node_source_line = optional int_value (nr_source_line r),
                node_source_metadata = m\<rparr>)))))"

definition row_snapshot :: "text_codecs \<Rightarrow> snapshot_row \<Rightarrow> py_exn + snapshot" where
  "row_snapshot L r =
     invalid_record type_or_value_error ''invalid snapshot record: ''
      (case decode_datetime L (sr_imported_at r) of
         Inl x \<Rightarrow> Inl x
       | Inr None \<Rightarrow> Inl (ValueError [Txt ''imported_at must not be null''])
       | Inr (Some t) \<Rightarrow>
           (case decode_metadata L (sr_metadata_json r) of Inl x \<Rightarrow> Inl x | Inr m \<Rightarrow>
              make_snapshot
                \<lparr>snapshot_id = text_value (sr_id r), snapshot_source_uri = text_value (sr_source_uri r),
                 snapshot_source_format = text_value (sr_source_format r), snapshot_imported_at = t,
                 snapshot_source_metadata = m\<rparr>))"

definition row_diagnostic :: "diagnostic_row \<Rightarrow> py_exn + diagnostic" where
  "row_diagnostic r =
     (case severity_of (dr_severity r) of
        Inl x \<Rightarrow> Inl x
      | Inr sev \<Rightarrow>
          make_diagnostic
            \<lparr>diag_severity = sev, diag_code = text_value (dr_code r),
             diag_message = [Str (text_value (dr_message r))],
             diag_line_number = optional int_value (dr_line_number r)\<rparr>)"

section \<open>The methods of the store\<close>

definition sqlite_get_snapshot :: "sqlite_store \<Rightarrow> pystr \<Rightarrow> py_exn + snapshot" where
  "sqlite_get_snapshot s sid =
     (case query_one s (bind_text sid)
          (\<lambda>d. List.filter (\<lambda>r. sql_eq (sr_id r) (SqlText sid)) (db_snapshots d)) of
        Inl x \<Rightarrow> Inl x
      | Inr None \<Rightarrow> Inl (KeyErrorStr sid)
      | Inr (Some r) \<Rightarrow> row_snapshot (ss_codecs s) r)"

definition sqlite_get_node :: "sqlite_store \<Rightarrow> int \<Rightarrow> py_exn + node" where
  "sqlite_get_node s i =
     (case query_one s (bind_int i)
          (\<lambda>d. List.filter (\<lambda>r. sql_eq (nr_id r) (SqlInt i)) (db_nodes d)) of
        Inl x \<Rightarrow> Inl x
      | Inr None \<Rightarrow> Inl (KeyErrorInt i)
      | Inr (Some r) \<Rightarrow> row_node (ss_codecs s) r)"

definition sqlite_get_root :: "sqlite_store \<Rightarrow> pystr \<Rightarrow> py_exn + node" where
  "sqlite_get_root s sid =
     (case sqlite_get_snapshot s sid of Inl x \<Rightarrow> Inl x | Inr _ \<Rightarrow> sqlite_get_node s 1)"

definition child_rows :: "int \<Rightarrow> database \<Rightarrow> node_row list" where
  "child_rows p d = List.filter (\<lambda>r. sql_eq (nr_parent_id r) (SqlInt p)) (db_nodes d)"

definition sqlite_lookup :: "sqlite_store \<Rightarrow> int \<Rightarrow> bytes \<Rightarrow> py_exn + node option" where
  "sqlite_lookup s p name =
     (case sqlite_get_node s p of
        Inl x \<Rightarrow> Inl x
      | Inr _ \<Rightarrow>
          (case query_one s (bind_int p)
               (\<lambda>d. List.filter (\<lambda>r. sql_eq (nr_mounted_name r) (SqlBlob name)) (child_rows p d)) of
             Inl x \<Rightarrow> Inl x
           | Inr None \<Rightarrow> Inr None
           | Inr (Some r) \<Rightarrow> map_ok Some (row_node (ss_codecs s) r)))"

definition sqlite_iter_children :: "sqlite_store \<Rightarrow> int \<Rightarrow> int \<Rightarrow> py_exn + node list" where
  "sqlite_iter_children s p off =
     (case sqlite_get_node s p of
        Inl x \<Rightarrow> Inl x
      | Inr _ \<Rightarrow>
          (case query_all s (bind_int p) (child_rows p) of
             Inl x \<Rightarrow> Inl x
           | Inr counted \<Rightarrow>
               (let n = int (length counted);
                    off' = (if off < 0 then max 0 (n + off) else off)
                in if 0 \<le> off \<and> n \<le> off then Inr []
                   else (case query_all s (all_pass [bind_int p, bind_int off'])
                       (\<lambda>d. drop (nat off') (sort_key (blob_value \<circ> nr_mounted_name) (child_rows p d))) of
                     Inl x \<Rightarrow> Inl x
                   | Inr rows \<Rightarrow> map_result (row_node (ss_codecs s)) rows))))"

definition sqlite_iter_nodes :: "sqlite_store \<Rightarrow> py_exn + node list" where
  "sqlite_iter_nodes s =
     (case query_all s (Inr ()) (\<lambda>d. sort_key (int_value \<circ> nr_id) (db_nodes d)) of
        Inl x \<Rightarrow> Inl x
      | Inr rows \<Rightarrow> map_result (row_node (ss_codecs s)) rows)"

definition sqlite_diagnostics :: "sqlite_store \<Rightarrow> py_exn + diagnostic list" where
  "sqlite_diagnostics s =
     (case query_all s (Inr ()) (\<lambda>d. sort_key (int_value \<circ> dr_position) (db_diagnostics d)) of
        Inl x \<Rightarrow> Inl x
      | Inr rows \<Rightarrow>
          invalid_record type_or_value_error ''invalid diagnostic record: '' (map_result row_diagnostic rows))"

definition sqlite_diagnostic_count :: "sqlite_store \<Rightarrow> py_exn + int" where
  "sqlite_diagnostic_count s =
     (case query_one s (Inr ()) (map sr_diagnostic_count \<circ> db_snapshots) of
        Inl x \<Rightarrow> Inl x
      | Inr (Some (SqlInt n)) \<Rightarrow>
          if n < 0 then Inl (schema_error [Txt ''invalid diagnostic count'']) else Inr n
      | Inr _ \<Rightarrow> Inl (schema_error [Txt ''invalid diagnostic count'']))"

definition sqlite_object :: "sqlite_store \<Rightarrow> store" where
  "sqlite_object s =
     \<lparr>diagnostics = sqlite_diagnostics s, diagnostic_count = sqlite_diagnostic_count s,
      get_snapshot = sqlite_get_snapshot s, get_root = sqlite_get_root s, get_node = sqlite_get_node s,
      lookup = sqlite_lookup s, iter_children = sqlite_iter_children s, iter_nodes = sqlite_iter_nodes s\<rparr>"

section \<open>A closed store\<close>

lemma closed_queries [simp]:
  "\<not> ss_open s \<Longrightarrow> query_all s ps select = Inl store_closed"
  "\<not> ss_open s \<Longrightarrow> query_one s ps select' = Inl store_closed"
  by (simp_all add: query_all_def query_one_def require_open_def)

lemma sqlite_closed:
  assumes "\<not> ss_open s"
  shows "sqlite_get_snapshot s sid = Inl store_closed" "sqlite_get_root s sid = Inl store_closed"
    "sqlite_get_node s i = Inl store_closed" "sqlite_lookup s i name = Inl store_closed"
    "sqlite_iter_children s i off = Inl store_closed" "sqlite_iter_nodes s = Inl store_closed"
    "sqlite_diagnostics s = Inl store_closed" "sqlite_diagnostic_count s = Inl store_closed"
  using assms
  by (simp_all add: sqlite_get_snapshot_def sqlite_get_root_def sqlite_get_node_def sqlite_lookup_def
      sqlite_iter_children_def sqlite_iter_nodes_def sqlite_diagnostics_def sqlite_diagnostic_count_def)

end
