(* ===== verification/Sqlite_Soundness.thy ===== *)
theory Sqlite_Soundness
  imports Sqlite_Store
begin

text \<open>
  What opening an artifact guarantees. The engine keeps the keys of the tables unique and its
  texts decodable (\<open>engine_ok\<close>); the validation does the rest: every row is a node and the
  nodes are a tree, so that the store meets the contract of \<open>SnapshotStore\<close>. The validation ends
  when inode 1 has no parent.
\<close>

section \<open>What is relied on\<close>

definition engine_ok :: "database \<Rightarrow> bool" where
  "engine_ok d \<longleftrightarrow> distinct (map nr_id (db_nodes d)) \<and>
     (\<forall>r \<in> set (db_nodes d). \<forall>r' \<in> set (db_nodes d). sql_eq (nr_parent_id r) (nr_parent_id r') \<longrightarrow>
        nr_mounted_name r = nr_mounted_name r' \<longrightarrow> r = r') \<and>
     (\<forall>r \<in> set (db_snapshots d). \<forall>v \<in> {sr_id r, sr_source_uri r, sr_source_format r}.
        list_all scalar (text_value v)) \<and>
     (\<forall>r \<in> set (db_nodes d). \<forall>i. nr_id r = SqlInt i \<longrightarrow> int64 i)"

text \<open>
  The metadata can be frozen. The validation only decodes it, and \<open>json.loads\<close> accepts
  \<open>NaN\<close>, infinities and lone surrogates that a node's constructor then rejects.
\<close>

definition readable :: "text_codecs \<Rightarrow> sql_value \<Rightarrow> bool" where
  "readable L v \<longleftrightarrow> (\<forall>m. decode_metadata L v = Inr m \<longrightarrow> (\<exists>m'. freeze_metadata m = Inr m'))"

definition all_readable :: "text_codecs \<Rightarrow> database \<Rightarrow> bool" where
  "all_readable L d \<longleftrightarrow> (\<forall>r \<in> set (db_nodes d). readable L (nr_metadata_json r)) \<and>
     (\<forall>r \<in> set (db_snapshots d). readable L (sr_metadata_json r))"

definition artifact_ok :: "text_codecs \<Rightarrow> database \<Rightarrow> bool" where
  "artifact_ok L d \<longleftrightarrow> validate_artifact L d = Some (Inr ()) \<and> engine_ok d \<and> all_readable L d"

section \<open>The checks that a valid artifact has passed\<close>

lemma Some_all_pass: "Some (all_pass cs) = Some (Inr ()) \<longleftrightarrow> (\<forall>c \<in> set cs. c = Inr ())"
  by (simp add: all_pass_iff)

lemma option_case_Some_Inr:
  "(case x of None \<Rightarrow> None | Some c \<Rightarrow> f c) = Some y \<longleftrightarrow> (\<exists>c. x = Some c \<and> f c = Some y)"
  by (simp split: option.split)

lemma artifact_checks:
  assumes "validate_artifact L d = Some (Inr ())"
  shows "foreign_keys_ok d" "one_snapshot_and_root d" "root_valid d"
    "require_storage_classes d = Inr ()" "require_ranges d = Inr ()" "require_graph d = Some (Inr ())"
    "validate_names L d = Some (Inr ())"
proof -
  from assms have v: "foreign_keys_ok d" "one_snapshot_and_root d" "root_valid d"
    "validate_records L d = Some (Inr ())"
    by (auto simp: validate_artifact_def option_case_Some_Inr all_pass_iff simp del: all_pass.simps)
  then show "foreign_keys_ok d" "one_snapshot_and_root d" "root_valid d" by simp_all
  from v(4) show "require_storage_classes d = Inr ()" "require_ranges d = Inr ()"
    "require_graph d = Some (Inr ())" "validate_names L d = Some (Inr ())"
    by (auto simp: validate_records_def option_case_Some_Inr)
qed

lemma graph_checks:
  assumes "require_graph d = Some (Inr ())"
  shows "\<forall>r \<in> set (db_nodes d). \<not> parent_bad (db_nodes d) r"
    and "\<exists>rs. recursive_query (children_ids (db_nodes d)) [SqlInt 1] = Some rs \<and>
      length rs = length (db_nodes d)"
  using assms by (auto simp: require_graph_def option_case_Some_Inr)

lemma node_checks:
  assumes "validate_artifact L d = Some (Inr ())" "r \<in> set (db_nodes d)"
  shows "\<not> node_class_bad r" "\<not> node_range_bad r" "\<not> content_bad r"
    "\<not> longer_than (nr_mounted_name r) MAX_MOUNTED_NAME_BYTES" "name_check L r = Inr ()"
  using artifact_checks(4,5,7) [OF assms(1)] assms(2)
  by (auto simp: require_storage_classes_def require_ranges_def validate_names_def all_pass_iff
      simp del: all_pass.simps)

lemma snapshot_checks:
  assumes "validate_artifact L d = Some (Inr ())"
  obtains r where "db_snapshots d = [r]" "\<not> snapshot_class_bad r"
    "decode_values L [Txt ''snapshot''] (sr_imported_at r) (sr_metadata_json r) True = Inr ()"
proof -
  from artifact_checks(2) [OF assms] obtain r where r: "db_snapshots d = [r]"
    by (auto simp: one_snapshot_and_root_def length_Suc_conv)
  with artifact_checks(4,7) [OF assms] have "\<not> snapshot_class_bad r"
    "decode_values L [Txt ''snapshot''] (sr_imported_at r) (sr_metadata_json r) True = Inr ()"
    by (auto simp: require_storage_classes_def validate_names_def all_pass_iff option_case_Some_Inr
        simp del: all_pass.simps)
  with r that show thesis by blast
qed

section \<open>A row is a node\<close>

text \<open>What a node read from a row takes over from it.\<close>

definition row_fields :: "node_row \<Rightarrow> node \<Rightarrow> bool" where
  "row_fields r n \<longleftrightarrow> node_id n = int_value (nr_id r) \<and> node_snapshot_id n = text_value (nr_snapshot_id r) \<and>
     node_parent_id n = optional int_value (nr_parent_id r) \<and>
     node_mounted_name n = blob_value (nr_mounted_name r) \<and>
     nr_kind r = SqlText (node_kind_value (node_kind n)) \<and> node_content_ok n"

lemma enum_of_Inr: "enum_of val members name v = Inr x \<Longrightarrow> x \<in> set members \<and> v = SqlText (val x)"
  by (auto simp: enum_of_def find_Some_iff split: option.splits)

lemma enum_of_member:
  "v \<in> SqlText ` set (map val members) \<Longrightarrow> \<exists>x. enum_of val members name v = Inr x"
  by (force simp: enum_of_def find_None_iff split: option.split)

lemma row_node_fields:
  assumes "row_node L r = Inr n"
  shows "row_fields r n"
proof -
  from assms obtain x where x: "make_node x = Inr n" "node_id x = int_value (nr_id r)"
    "node_snapshot_id x = text_value (nr_snapshot_id r)" "node_parent_id x = optional int_value (nr_parent_id r)"
    "node_mounted_name x = blob_value (nr_mounted_name r)" "kind_of (nr_kind r) = Inr (node_kind x)"
    by (fastforce simp: row_node_def split: if_splits sum.splits)
  then obtain m where "n = x\<lparr>node_source_metadata := m\<rparr>" using make_node_fields by blast
  with x make_node_content_ok [OF x(1)] show ?thesis
    by (auto simp: row_fields_def kind_of_def dest: enum_of_Inr)
qed

text \<open>The conditions on content are the invariants of the constructor.\<close>

lemma kind_eq_iff [simp]: "node_kind_value k = node_kind_value k' \<longleftrightarrow> k = k'"
  by (cases k; cases k') simp_all

lemma status_eq_iff [simp]: "content_status_value k = content_status_value k' \<longleftrightarrow> k = k'"
  by (cases k; cases k') simp_all

lemma class_iff:
  "is_int v \<longleftrightarrow> (\<exists>i. v = SqlInt i)" "is_text v \<longleftrightarrow> (\<exists>s. v = SqlText s)" "is_blob v \<longleftrightarrow> (\<exists>b. v = SqlBlob b)"
  by (simp_all add: is_int_def is_text_def is_blob_def split: sql_value.split)

lemma row_content_ok:
  assumes cls: "\<not> node_class_bad r" and range: "\<not> node_range_bad r" and content: "\<not> content_bad r"
    and kind: "nr_kind r = SqlText (node_kind_value k)"
    and status: "nr_content_status r = SqlText (content_status_value st)"
  shows "content_ok k (optional int_value (nr_size r)) (optional blob_value (nr_content r)) st
    (optional text_value (nr_content_ref r))"
proof -
  note cell_defs = sql_eq_def sql_ne_def sql_text_def in_texts_def not_in_texts_def sql_length_def
    optional_def int_value_def blob_value_def text_value_def is_int_def is_text_def is_blob_def
  have cells: "nr_size r = SqlNull \<or> (\<exists>i. nr_size r = SqlInt i \<and> 0 \<le> i)"
    "nr_content r = SqlNull \<or> (\<exists>b. nr_content r = SqlBlob b)"
    "nr_content_ref r = SqlNull \<or> (\<exists>s. nr_content_ref r = SqlText s)"
  proof -
    have "is_null (nr_size r) \<or> is_int (nr_size r)" "is_null (nr_content r) \<or> is_blob (nr_content r)"
      "is_null (nr_content_ref r) \<or> is_text (nr_content_ref r)" "\<not> negative (nr_size r)"
      using cls range by (simp_all add: node_class_bad_def node_range_bad_def)
    then show "nr_size r = SqlNull \<or> (\<exists>i. nr_size r = SqlInt i \<and> 0 \<le> i)"
      "nr_content r = SqlNull \<or> (\<exists>b. nr_content r = SqlBlob b)"
      "nr_content_ref r = SqlNull \<or> (\<exists>s. nr_content_ref r = SqlText s)"
      by (auto simp: class_iff negative_def)
  qed
  show ?thesis
  proof (cases "k = DIRECTORY \<or> k = FILE")
    case False
    then show ?thesis by (simp add: content_ok_def)
  next
    case True
    then consider "k = DIRECTORY" | "k = FILE" by blast
    then show ?thesis
    proof cases
      case 1
      with content kind have "\<not> directory_content_bad r" by (simp add: content_bad_def cell_defs)
      with 1 status show ?thesis
        by (cases st) (simp_all add: directory_content_bad_def content_ok_def cell_defs)
    next
      case 2
      with content kind have "\<not> file_content_bad r" by (simp add: content_bad_def cell_defs)
      with 2 status show ?thesis using cells
        by (elim disjE exE conjE; cases st) (simp_all add: file_content_bad_def content_ok_def cell_defs)
    qed
  qed
qed

lemma row_node_total:
  assumes "validate_artifact L d = Some (Inr ())" "r \<in> set (db_nodes d)" "readable L (nr_metadata_json r)"
  shows "\<exists>n. row_node L r = Inr n"
proof -
  note ok = node_checks [OF assms(1,2)]
  have blobs: "is_blob (nr_mounted_name r)" "is_null (nr_content r) \<or> is_blob (nr_content r)"
    "is_text (nr_kind r)" "is_text (nr_content_status r)"
    using ok(1) by (auto simp: node_class_bad_def)
  have "nr_kind r \<in> SqlText ` set kind_values" "nr_content_status r \<in> SqlText ` set status_values"
    using ok(2) blobs(3,4) by (auto simp: node_range_bad_def not_in_texts_def is_text_def)
  then obtain k st where k: "kind_of (nr_kind r) = Inr k" and st: "status_of (nr_content_status r) = Inr st"
    unfolding kind_values_def status_values_def kind_of_def status_of_def
    using enum_of_member by metis
  obtain raw where raw: "nr_mounted_name r = SqlBlob raw"
    using blobs(1) by (auto simp: is_blob_def split: sql_value.splits)
  have "decode_values L (inode r) (nr_modified_at r) (nr_metadata_json r) False = Inr ()"
    using ok(5) by (auto simp: name_check_def raw contract_fail_def split: sum.splits if_splits decode_failure.splits)
  then obtain t m where t: "decode_datetime L (nr_modified_at r) = Inr t"
    "decode_metadata L (nr_metadata_json r) = Inr m"
    by (auto simp: decode_values_def contract_fail_def Let_def split: sum.splits if_splits)
  with assms(3) obtain m' where "freeze_metadata m = Inr m'" by (auto simp: readable_def)
  moreover have "content_ok k (optional int_value (nr_size r)) (optional blob_value (nr_content r)) st
    (optional text_value (nr_content_ref r))"
    using row_content_ok [OF ok(1-3)] k st by (auto simp: kind_of_def status_of_def dest: enum_of_Inr)
  ultimately show ?thesis
    using blobs k st t make_node_iff by (auto simp: row_node_def)
qed

section \<open>The graph\<close>

lemma engine_ids:
  assumes "engine_ok d"
  shows "distinct (map nr_id (db_nodes d))" and "distinct (db_nodes d)"
    and "r \<in> set (db_nodes d) \<Longrightarrow> r' \<in> set (db_nodes d) \<Longrightarrow> nr_id r = nr_id r' \<Longrightarrow> r = r'"
proof -
  show "distinct (map nr_id (db_nodes d))" using assms by (simp add: engine_ok_def)
  then show "distinct (db_nodes d)" "r \<in> set (db_nodes d) \<Longrightarrow> r' \<in> set (db_nodes d) \<Longrightarrow>
      nr_id r = nr_id r' \<Longrightarrow> r = r'"
    by (auto simp: distinct_map dest: inj_onD)
qed

lemma children_ids_iff:
  "i \<in> set (children_ids ns p) \<longleftrightarrow> (\<exists>r \<in> set ns. nr_id r = i \<and> nr_parent_id r = p \<and> p \<noteq> SqlNull)"
  by (auto simp: children_ids_def sql_eq_def)

lemma children_ids_forest:
  assumes "engine_ok d"
  shows "forest_step (children_ids (db_nodes d))"
proof -
  have "distinct (children_ids (db_nodes d) p)" for p
    using engine_ids(1) [OF assms] by (simp add: children_ids_def distinct_map_filter)
  moreover have "p = q" if "i \<in> set (children_ids (db_nodes d) p)" "i \<in> set (children_ids (db_nodes d) q)"
    for i p q
    using that engine_ids(3) [OF assms] unfolding children_ids_iff by metis
  ultimately show ?thesis by (auto simp: forest_step_def)
qed

lemma root_row_unique:
  assumes "engine_ok d" "root_row d = Some r"
  shows "r \<in> set (db_nodes d)" and "nr_id r = SqlInt 1"
    and "r' \<in> set (db_nodes d) \<Longrightarrow> nr_id r' = SqlInt 1 \<Longrightarrow> r' = r"
proof -
  from assms(2) show r: "r \<in> set (db_nodes d)" "nr_id r = SqlInt 1"
    by (auto simp: root_row_def find_Some_iff)
  show "r' \<in> set (db_nodes d) \<Longrightarrow> nr_id r' = SqlInt 1 \<Longrightarrow> r' = r"
    using r engine_ids(3) [OF assms(1)] by metis
qed

text \<open>From a root without a parent the query ends: each row is extracted once.\<close>

lemma graph_query_ends:
  assumes "engine_ok d" "root_row d = Some r" "nr_parent_id r = SqlNull"
  obtains rs where "recursive_query (children_ids (db_nodes d)) [SqlInt 1] = Some rs" "distinct rs"
    "set rs = descendants (children_ids (db_nodes d)) (SqlInt 1)" "set rs \<subseteq> nr_id ` set (db_nodes d)"
    "\<And>p. SqlInt 1 \<notin> set (children_ids (db_nodes d) p)"
proof -
  let ?step = "children_ids (db_nodes d)"
  have r: "SqlInt 1 \<notin> set (?step p)" for p
    using root_row_unique(3) [OF assms(1,2)] assms(3) by (auto simp: children_ids_iff)
  have "i \<in> nr_id ` set (db_nodes d)" if "i \<in> descendants ?step (SqlInt 1)" for i
    using that
  proof cases
    case root
    with root_row_unique(1,2) [OF assms(1,2)] show ?thesis by force
  qed (auto simp: children_ids_iff)
  then have sub: "descendants ?step (SqlInt 1) \<subseteq> nr_id ` set (db_nodes d)" by blast
  then have "finite (descendants ?step (SqlInt 1))" by (rule finite_subset) simp
  with recursive_query_ends [OF children_ids_forest [OF assms(1)] r] r sub that show thesis by metis
qed

text \<open>Every row hangs below the root of a valid artifact.\<close>

lemma valid_root:
  assumes "validate_artifact L d = Some (Inr ())"
  obtains r where "root_row d = Some r" "nr_parent_id r = SqlNull" "nr_kind r = sql_text ''directory''"
  using artifact_checks(3) [OF assms] that by (auto simp: root_valid_def split: option.splits)

lemma valid_descendants:
  assumes "validate_artifact L d = Some (Inr ())" "engine_ok d"
  shows "nr_id ` set (db_nodes d) = descendants (children_ids (db_nodes d)) (SqlInt 1)"
proof -
  obtain r where r: "root_row d = Some r" "nr_parent_id r = SqlNull" by (rule valid_root [OF assms(1)])
  obtain rs where rs: "recursive_query (children_ids (db_nodes d)) [SqlInt 1] = Some rs" "distinct rs"
    "set rs = descendants (children_ids (db_nodes d)) (SqlInt 1)" "set rs \<subseteq> nr_id ` set (db_nodes d)"
    using graph_query_ends [OF assms(2) r] by metis
  have "card (set rs) = length (db_nodes d)"
    using graph_checks(2) [OF artifact_checks(6) [OF assms(1)]] rs(1) distinct_card [OF rs(2)] by simp
  moreover have "card (nr_id ` set (db_nodes d)) = length (db_nodes d)"
    using engine_ids(1) [OF assms(2)] by (metis distinct_card length_map list.set_map)
  ultimately have "set rs = nr_id ` set (db_nodes d)"
    using rs(4) by (intro card_subset_eq) simp_all
  with rs(3) show ?thesis by simp
qed

section \<open>The tree of an artifact\<close>

definition artifact_nodes :: "text_codecs \<Rightarrow> database \<Rightarrow> node_map" where
  "artifact_nodes L d i =
     (case find (\<lambda>r. nr_id r = SqlInt i) (db_nodes d) of
        None \<Rightarrow> None
      | Some r \<Rightarrow> (case row_node L r of Inl _ \<Rightarrow> None | Inr n \<Rightarrow> Some n))"

lemma artifact_okD:
  assumes "artifact_ok L d"
  shows "validate_artifact L d = Some (Inr ())" and "engine_ok d"
    and "r \<in> set (db_nodes d) \<Longrightarrow> readable L (nr_metadata_json r)"
  using assms by (simp_all add: artifact_ok_def all_readable_def)

text \<open>Every row gives a node, which has its number and its parent's.\<close>

lemma valid_row:
  assumes ok: "artifact_ok L d" and r: "r \<in> set (db_nodes d)"
  obtains i n where "nr_id r = SqlInt i" "1 \<le> i" "int64 i" "row_node L r = Inr n" "row_fields r n" "node_id n = i"
    "\<And>p. node_parent_id n = Some p \<longleftrightarrow> nr_parent_id r = SqlInt p"
    "nr_mounted_name r = SqlBlob (node_mounted_name n)"
proof -
  note v = artifact_okD [OF ok]
  note checks = node_checks [OF v(1) r]
  from checks(1,2) obtain i where i: "nr_id r = SqlInt i" "1 \<le> i"
    by (auto simp: node_class_bad_def node_range_bad_def is_int_def not_positive_def split: sql_value.splits)
  obtain n where n: "row_node L r = Inr n" using row_node_total [OF v(1) r v(3) [OF r]] by blast
  then have f: "row_fields r n" by (rule row_node_fields)
  with i have "node_id n = i" by (simp add: row_fields_def int_value_def)
  moreover have "int64 i" using v(2) r i by (simp add: engine_ok_def)
  moreover have "node_parent_id n = Some p \<longleftrightarrow> nr_parent_id r = SqlInt p" for p
    using f checks(1) by (auto simp: row_fields_def optional_def int_value_def node_class_bad_def is_int_def
        split: sql_value.splits)
  moreover have "nr_mounted_name r = SqlBlob (node_mounted_name n)"
    using f checks(1) by (auto simp: row_fields_def blob_value_def node_class_bad_def is_blob_def
        split: sql_value.splits)
  ultimately show thesis using i n f that by blast
qed

lemma artifact_nodes_iff:
  assumes ok: "artifact_ok L d"
  shows "artifact_nodes L d i = Some n \<longleftrightarrow> (\<exists>r \<in> set (db_nodes d). nr_id r = SqlInt i \<and> row_node L r = Inr n)"
proof (cases "find (\<lambda>r. nr_id r = SqlInt i) (db_nodes d)")
  case None
  then have "nr_id r \<noteq> SqlInt i" if "r \<in> set (db_nodes d)" for r using that by (auto simp: find_None_iff)
  with None show ?thesis by (auto simp: artifact_nodes_def)
next
  case (Some r)
  then have r: "r \<in> set (db_nodes d)" "nr_id r = SqlInt i" by (auto simp: find_Some_iff)
  then have "(\<exists>r' \<in> set (db_nodes d). nr_id r' = SqlInt i \<and> row_node L r' = Inr n) \<longleftrightarrow> row_node L r = Inr n"
    using engine_ids(3) [OF artifact_okD(2) [OF ok]] by metis
  with Some show ?thesis by (simp add: artifact_nodes_def split: sum.splits)
qed

lemma artifact_nodes_row:
  assumes ok: "artifact_ok L d" and "artifact_nodes L d i = Some n"
  obtains r where "r \<in> set (db_nodes d)" "nr_id r = SqlInt i" "row_node L r = Inr n" "1 \<le> i" "int64 i" "node_id n = i"
    "row_fields r n" "\<And>p. node_parent_id n = Some p \<longleftrightarrow> nr_parent_id r = SqlInt p"
    "nr_mounted_name r = SqlBlob (node_mounted_name n)"
proof -
  from assms obtain r where r: "r \<in> set (db_nodes d)" "nr_id r = SqlInt i" "row_node L r = Inr n"
    by (auto simp: artifact_nodes_iff)
  show thesis
    by (rule valid_row [OF ok r(1)]) (use r that in auto)
qed

text \<open>A mounted name that passed the checks can be mounted.\<close>

lemma checked_name:
  assumes "name_check L r = Inr ()" "\<not> longer_than (nr_mounted_name r) MAX_MOUNTED_NAME_BYTES"
    "nr_mounted_name r = SqlBlob raw" "nr_id r \<noteq> SqlInt 1"
  shows "mounted_name_ok raw"
proof -
  from assms obtain name where name: "utf8_decode raw = Inr name" "raw \<noteq> []" "\<not> reserved_name name"
    by (auto simp: name_check_def contract_fail_def split: sum.splits decode_failure.splits if_splits)
  then have "utf8_encode name = Some raw" by (simp add: utf8_encode_decode)
  moreover from this have "list_all scalar name" "name \<noteq> []"
    using name(2) utf8_encode_None_iff [of name] by (auto simp: list_all_iff)
  moreover have "length raw \<le> MAX_MOUNTED_NAME_BYTES"
    using assms(2,3) by (simp add: longer_than_def sql_length_def)
  ultimately have "mounts_as name raw"
    using name(3) by (simp add: mounts_as_def safe_component_def reserved_name_def slash_def)
  then show ?thesis by (auto simp: mounted_name_ok_def)
qed

lemma artifact_root:
  assumes ok: "artifact_ok L d"
  obtains n where "artifact_nodes L d 1 = Some n" "node_kind n = DIRECTORY" "node_parent_id n = None"
    "node_mounted_name n = []"
proof -
  note v = artifact_okD [OF ok]
  obtain r where r: "root_row d = Some r" "nr_parent_id r = SqlNull" "nr_kind r = sql_text ''directory''"
    by (rule valid_root [OF v(1)])
  note row = root_row_unique [OF v(2) r(1)]
  obtain i n where n: "row_node L r = Inr n" "row_fields r n" "\<And>p. node_parent_id n = Some p \<longleftrightarrow> nr_parent_id r = SqlInt p"
    "nr_mounted_name r = SqlBlob (node_mounted_name n)"
    using valid_row [OF ok row(1)] by metis
  have "node_kind_value (node_kind n) = node_kind_value DIRECTORY"
    using r(3) n(2) by (simp add: row_fields_def sql_text_def)
  then have "node_kind n = DIRECTORY" by (simp only: kind_eq_iff)
  moreover have "node_parent_id n = None" using n(3) r(2) by (cases "node_parent_id n") auto
  moreover have "node_mounted_name n = []"
    using node_checks(5) [OF v(1) row(1)] n(4) row(2)
    by (auto simp: name_check_def contract_fail_def split: sum.splits if_splits decode_failure.splits)
  moreover have "artifact_nodes L d 1 = Some n" using row(1,2) n(1) by (auto simp: artifact_nodes_iff [OF ok])
  ultimately show thesis using that by simp
qed

lemma optional_int_eq:
  assumes "is_null a \<or> is_int a" "is_null b \<or> is_int b" "optional int_value a = optional int_value b"
  shows "a = b"
  using assms by (auto simp: optional_def int_value_def is_int_def split: if_splits sql_value.splits)

text \<open>The parent of a row that is not the root.\<close>

lemma valid_parent:
  assumes ok: "artifact_ok L d" and n: "artifact_nodes L d i = Some n" "i \<noteq> 1"
  obtains p pn where "node_parent_id n = Some p" "artifact_nodes L d p = Some pn" "node_kind pn = DIRECTORY"
    "SqlInt i \<in> set (children_ids (db_nodes d) (SqlInt p))"
proof -
  note v = artifact_okD [OF ok]
  obtain r where r: "r \<in> set (db_nodes d)" "nr_id r = SqlInt i"
    "\<And>p. node_parent_id n = Some p \<longleftrightarrow> nr_parent_id r = SqlInt p"
    using artifact_nodes_row [OF ok n(1)] by metis
  have "SqlInt i \<in> descendants (children_ids (db_nodes d)) (SqlInt 1)"
    using valid_descendants [OF v(1,2)] r(1,2) by force
  then obtain q where q: "q \<in> descendants (children_ids (db_nodes d)) (SqlInt 1)"
    "SqlInt i \<in> set (children_ids (db_nodes d) q)"
    using n(2) by (cases rule: descendants.cases) auto
  then obtain pr where pr: "pr \<in> set (db_nodes d)" "nr_id pr = q"
    using valid_descendants [OF v(1,2)] by force
  obtain r' where "r' \<in> set (db_nodes d)" "nr_id r' = SqlInt i" "nr_parent_id r' = q"
    using q(2) by (auto simp: children_ids_iff)
  with r(1,2) have up: "nr_parent_id r = q" using engine_ids(3) [OF v(2)] by metis
  obtain p pn where p: "nr_id pr = SqlInt p" "row_node L pr = Inr pn" "row_fields pr pn"
    using valid_row [OF ok pr(1)] by metis
  have "\<not> parent_bad (db_nodes d) r" using graph_checks(1) [OF artifact_checks(6) [OF v(1)]] r(1) by blast
  then have "nr_kind pr = sql_text ''directory''"
    using pr up p(1,3) by (auto simp: parent_bad_def sql_eq_def sql_ne_def row_fields_def sql_text_def)
  then have "node_kind_value (node_kind pn) = node_kind_value DIRECTORY"
    using p(3) by (simp add: row_fields_def sql_text_def)
  then have "node_kind pn = DIRECTORY" by (simp only: kind_eq_iff)
  moreover have "artifact_nodes L d p = Some pn" using pr(1) p by (auto simp: artifact_nodes_iff [OF ok])
  moreover have "node_parent_id n = Some p" using r(3) up pr(2) p(1) by simp
  ultimately show thesis using q(2) pr(2) p(1) that by simp
qed

theorem artifact_tree_ok:
  assumes ok: "artifact_ok L d"
  shows "tree_ok (artifact_nodes L d)"
  unfolding tree_ok_def
proof (intro conjI allI impI)
  note v = artifact_okD [OF ok]
  show "\<exists>r. artifact_nodes L d 1 = Some r \<and> node_kind r = DIRECTORY \<and> node_parent_id r = None \<and>
      node_mounted_name r = []"
    using artifact_root [OF ok] by metis
  have root: "node_parent_id n = None" if "artifact_nodes L d 1 = Some n" for n
    using artifact_root [OF ok] that by (metis option.inject)
  obtain rr where rr: "root_row d = Some rr" "nr_parent_id rr = SqlNull" by (rule valid_root [OF v(1)])
  have start: "SqlInt 1 \<notin> set (children_ids (db_nodes d) p)" for p
    using graph_query_ends [OF v(2) rr] by metis
  obtain rank where rank: "\<And>p i. p \<in> descendants (children_ids (db_nodes d)) (SqlInt 1) \<Longrightarrow>
      i \<in> set (children_ids (db_nodes d) p) \<Longrightarrow> rank p < (rank i :: nat)"
    using forest_rank [OF children_ids_forest [OF v(2)] start] by metis
  have "rank (SqlInt p) < rank (SqlInt i)" if n: "artifact_nodes L d i = Some n" "node_parent_id n = Some p" for i n p
  proof -
    have "i \<noteq> 1" using root [of n] n by auto
    from valid_parent [OF ok n(1) this] n(2) obtain pn where
      p: "artifact_nodes L d p = Some pn" "SqlInt i \<in> set (children_ids (db_nodes d) (SqlInt p))"
      by (metis option.inject)
    then have "SqlInt p \<in> nr_id ` set (db_nodes d)" using artifact_nodes_row [OF ok p(1)] by (metis image_eqI)
    then show ?thesis using rank p(2) valid_descendants [OF v(1,2)] by simp
  qed
  then show "\<exists>rank :: int \<Rightarrow> nat. \<forall>i n p. artifact_nodes L d i = Some n \<longrightarrow> node_parent_id n = Some p \<longrightarrow>
      rank p < rank i" by (intro exI [of _ "\<lambda>i. rank (SqlInt i)"]) blast
next
  fix i n assume n: "artifact_nodes L d i = Some n"
  then obtain r where r: "r \<in> set (db_nodes d)" "nr_id r = SqlInt i" "1 \<le> i" "node_id n = i" "row_fields r n"
    "nr_mounted_name r = SqlBlob (node_mounted_name n)"
    using artifact_nodes_row [OF ok n] by metis
  from r show "node_id n = i" "1 \<le> i" "node_content_ok n" by (simp_all add: row_fields_def)
  assume i: "i \<noteq> 1"
  show "mounted_name_ok (node_mounted_name n)"
    using checked_name [OF node_checks(5,4) [OF artifact_okD(1) [OF ok] r(1)] r(6)] r(2) i by simp
  show "\<exists>p pn. node_parent_id n = Some p \<and> artifact_nodes L d p = Some pn \<and> node_kind pn = DIRECTORY"
    using valid_parent [OF ok n i] by metis
next
  fix i j n n'
  assume n: "artifact_nodes L d i = Some n" "artifact_nodes L d j = Some n'"
    "node_parent_id n = node_parent_id n'" "node_mounted_name n = node_mounted_name n'"
  show "i = j"
  proof (cases "i = 1 \<or> j = 1")
    case True
    with n show ?thesis using artifact_root [OF ok] valid_parent [OF ok] by (metis option.inject option.distinct(1))
  next
    case False
    obtain r where r: "r \<in> set (db_nodes d)" "nr_id r = SqlInt i"
      "\<And>p. node_parent_id n = Some p \<longleftrightarrow> nr_parent_id r = SqlInt p"
      "nr_mounted_name r = SqlBlob (node_mounted_name n)"
      using artifact_nodes_row [OF ok n(1)] by metis
    obtain r' where r': "r' \<in> set (db_nodes d)" "nr_id r' = SqlInt j"
      "\<And>p. node_parent_id n' = Some p \<longleftrightarrow> nr_parent_id r' = SqlInt p"
      "nr_mounted_name r' = SqlBlob (node_mounted_name n')"
      using artifact_nodes_row [OF ok n(2)] by metis
    obtain p where "node_parent_id n = Some p" using valid_parent [OF ok n(1)] False by metis
    with n(3) r(3) [of p] r'(3) [of p] have "nr_parent_id r = SqlInt p" "nr_parent_id r' = SqlInt p" by simp_all
    then have "sql_eq (nr_parent_id r) (nr_parent_id r')" by (simp add: sql_eq_def)
    with r r' n(4) artifact_okD(2) [OF ok] have "r = r'" by (simp add: engine_ok_def)
    with r(2) r'(2) show ?thesis by simp
  qed
qed

section \<open>The store meets the contract\<close>

definition sqlite_nodes :: "sqlite_store \<Rightarrow> node_map" where
  "sqlite_nodes s = artifact_nodes (ss_codecs s) (ss_database s)"

definition sqlite_store_ok :: "sqlite_store \<Rightarrow> bool" where
  "sqlite_store_ok s \<longleftrightarrow> ss_open s \<and> artifact_ok (ss_codecs s) (ss_database s)"

lemma open_queries:
  "ss_open s \<Longrightarrow> query_all s (Inr ()) select = Inr (select (ss_database s))"
  "ss_open s \<Longrightarrow> query_one s (Inr ()) select' =
     Inr (case select' (ss_database s) of [] \<Rightarrow> None | r # _ \<Rightarrow> Some r)"
  by (simp_all add: query_one_def query_all_def require_open_def)

lemma bind_int_ok: "int64 i \<Longrightarrow> bind_int i = Inr ()"
  by (simp add: bind_int_def)

text \<open>A list whose elements all equal a member of it.\<close>

lemma first_of_unique:
  assumes "r \<in> set rs" "\<And>r'. r' \<in> set rs \<Longrightarrow> r' = r"
  shows "(case rs of [] \<Rightarrow> None | x # _ \<Rightarrow> Some x) = Some r"
  using assms(1) assms(2) [of "hd rs"] by (cases rs) simp_all

lemma sqlite_get_node_found:
  assumes s: "sqlite_store_ok s" and n: "sqlite_nodes s i = Some n"
  shows "sqlite_get_node s i = Inr n"
proof -
  have ok: "artifact_ok (ss_codecs s) (ss_database s)" using s by (simp add: sqlite_store_ok_def)
  obtain r where r: "r \<in> set (db_nodes (ss_database s))" "nr_id r = SqlInt i" "row_node (ss_codecs s) r = Inr n" "int64 i"
    using artifact_nodes_row [OF ok n [unfolded sqlite_nodes_def]] by metis
  have "(case List.filter (\<lambda>r. sql_eq (nr_id r) (SqlInt i)) (db_nodes (ss_database s)) of [] \<Rightarrow> None | x # _ \<Rightarrow> Some x) =
      Some r"
    by (rule first_of_unique) (use r engine_ids(3) [OF artifact_okD(2) [OF ok]] in \<open>auto simp: sql_eq_def\<close>)
  with s r show ?thesis
    by (simp add: sqlite_get_node_def bind_int_ok open_queries sqlite_store_ok_def)
qed

lemma sqlite_get_node_unknown:
  assumes s: "sqlite_store_ok s" and n: "sqlite_nodes s i = None"
  shows "sqlite_get_node s i = (if int64 i then Inl (KeyErrorInt i)
    else Inl (OverflowError [Txt ''Python int too large to convert to SQLite INTEGER'']))"
proof -
  have ok: "artifact_ok (ss_codecs s) (ss_database s)" using s by (simp add: sqlite_store_ok_def)
  have "nr_id r \<noteq> SqlInt i" if r: "r \<in> set (db_nodes (ss_database s))" for r
  proof
    assume "nr_id r = SqlInt i"
    moreover obtain n where "row_node (ss_codecs s) r = Inr n" using valid_row [OF ok r] by metis
    ultimately show False using r n artifact_nodes_iff [OF ok, of i n] by (auto simp: sqlite_nodes_def)
  qed
  then have "List.filter (\<lambda>r. sql_eq (nr_id r) (SqlInt i)) (db_nodes (ss_database s)) = []"
    by (auto simp: filter_empty_conv sql_eq_def)
  with s show ?thesis
    by (simp add: sqlite_get_node_def bind_int_def open_queries sqlite_store_ok_def)
      (simp add: query_one_def query_all_def require_open_def)
qed

text \<open>The rows of a directory's children and the nodes they stand for.\<close>

definition row_the_node :: "sqlite_store \<Rightarrow> node_row \<Rightarrow> node" where
  "row_the_node s r = (case row_node (ss_codecs s) r of Inr n \<Rightarrow> n | Inl _ \<Rightarrow> undefined)"

lemma store_rows:
  assumes s: "sqlite_store_ok s" and r: "r \<in> set (db_nodes (ss_database s))"
  shows "row_node (ss_codecs s) r = Inr (row_the_node s r)"
    and "nr_id r = SqlInt (node_id (row_the_node s r))"
    and "sqlite_nodes s (node_id (row_the_node s r)) = Some (row_the_node s r)"
    and "node_parent_id (row_the_node s r) = Some p \<longleftrightarrow> nr_parent_id r = SqlInt p"
    and "nr_mounted_name r = SqlBlob (node_mounted_name (row_the_node s r))"
proof -
  have ok: "artifact_ok (ss_codecs s) (ss_database s)" using s by (simp add: sqlite_store_ok_def)
  obtain i n where n: "nr_id r = SqlInt i" "row_node (ss_codecs s) r = Inr n" "node_id n = i"
    "\<And>p. node_parent_id n = Some p \<longleftrightarrow> nr_parent_id r = SqlInt p"
    "nr_mounted_name r = SqlBlob (node_mounted_name n)"
    using valid_row [OF ok r] by metis
  then have "row_the_node s r = n" by (simp add: row_the_node_def)
  with n r show "row_node (ss_codecs s) r = Inr (row_the_node s r)"
    "nr_id r = SqlInt (node_id (row_the_node s r))"
    "sqlite_nodes s (node_id (row_the_node s r)) = Some (row_the_node s r)"
    "node_parent_id (row_the_node s r) = Some p \<longleftrightarrow> nr_parent_id r = SqlInt p"
    "nr_mounted_name r = SqlBlob (node_mounted_name (row_the_node s r))"
    by (auto simp: sqlite_nodes_def artifact_nodes_iff [OF ok])
qed

lemma store_node_row:
  assumes s: "sqlite_store_ok s" and n: "sqlite_nodes s i = Some n"
  obtains r where "r \<in> set (db_nodes (ss_database s))" "row_the_node s r = n" "node_id n = i" "int64 i"
proof -
  have ok: "artifact_ok (ss_codecs s) (ss_database s)" using s by (simp add: sqlite_store_ok_def)
  obtain r where r: "r \<in> set (db_nodes (ss_database s))" "row_node (ss_codecs s) r = Inr n" "node_id n = i" "int64 i"
    using artifact_nodes_row [OF ok n [unfolded sqlite_nodes_def]] by metis
  with that show thesis by (simp add: row_the_node_def)
qed

lemma child_rows_nodes:
  assumes s: "sqlite_store_ok s"
  shows "n \<in> row_the_node s ` set (child_rows p (ss_database s)) \<longleftrightarrow>
    sqlite_nodes s (node_id n) = Some n \<and> node_parent_id n = Some p"
proof
  assume "n \<in> row_the_node s ` set (child_rows p (ss_database s))"
  then show "sqlite_nodes s (node_id n) = Some n \<and> node_parent_id n = Some p"
    using store_rows(3,4) [OF s] by (auto simp: child_rows_def sql_eq_def)
next
  assume n: "sqlite_nodes s (node_id n) = Some n \<and> node_parent_id n = Some p"
  then obtain r where "r \<in> set (db_nodes (ss_database s))" "row_the_node s r = n"
    using store_node_row [OF s] by metis
  with n store_rows(4) [OF s] show "n \<in> row_the_node s ` set (child_rows p (ss_database s))"
    by (auto simp: child_rows_def sql_eq_def)
qed

lemma child_rows_names:
  assumes s: "sqlite_store_ok s"
  shows "distinct (map (blob_value \<circ> nr_mounted_name) (child_rows p (ss_database s)))"
proof -
  have ok: "engine_ok (ss_database s)" using s artifact_okD(2) by (auto simp: sqlite_store_ok_def)
  have "r = r'" if "r \<in> set (child_rows p (ss_database s))" "r' \<in> set (child_rows p (ss_database s))"
    "blob_value (nr_mounted_name r) = blob_value (nr_mounted_name r')" for r r'
  proof -
    have r: "r \<in> set (db_nodes (ss_database s))" "r' \<in> set (db_nodes (ss_database s))"
      "sql_eq (nr_parent_id r) (nr_parent_id r')"
      using that by (auto simp: child_rows_def sql_eq_def)
    moreover have "nr_mounted_name r = nr_mounted_name r'"
      using store_rows(5) [OF s r(1)] store_rows(5) [OF s r(2)] that(3) by (simp add: blob_value_def)
    ultimately show ?thesis using ok unfolding engine_ok_def by blast
  qed
  moreover have "distinct (child_rows p (ss_database s))"
    using engine_ids(2) [OF ok] by (simp add: child_rows_def)
  ultimately show ?thesis by (auto simp: distinct_map intro!: inj_onI)
qed

text \<open>A table has fewer rows than there are positive row identifiers.\<close>

lemma child_rows_few:
  assumes s: "sqlite_store_ok s"
  shows "int (length (child_rows p (ss_database s))) < 2 ^ 63"
proof -
  let ?rows = "db_nodes (ss_database s)"
  have ok: "artifact_ok (ss_codecs s) (ss_database s)" using s by (simp add: sqlite_store_ok_def)
  have "nr_id r \<in> SqlInt ` {1..<2 ^ 63}" if "r \<in> set ?rows" for r
    using valid_row [OF ok that] by (metis atLeastLessThan_iff image_eqI int64_def)
  then have "nr_id ` set ?rows \<subseteq> SqlInt ` {1..<2 ^ 63}" by blast
  then have "card (nr_id ` set ?rows) \<le> card (SqlInt ` {1..<2 ^ 63 :: int})" by (intro card_mono) simp_all
  also have "\<dots> \<le> card {1..<2 ^ 63 :: int}" by (rule card_image_le) simp
  finally have "length ?rows \<le> nat (2 ^ 63 - 1)"
    using engine_ids(1) [OF artifact_okD(2) [OF ok]] by (metis card_atLeastLessThan_int distinct_card length_map list.set_map)
  moreover have "length (child_rows p (ss_database s)) \<le> length ?rows" by (simp add: child_rows_def)
  ultimately show ?thesis by simp
qed

lemma sqlite_lookup_ok:
  assumes s: "sqlite_store_ok s" and p: "sqlite_nodes s p \<noteq> None"
  shows "\<exists>r. sqlite_lookup s p name = Inr r \<and> (\<forall>n. r = Some n \<longleftrightarrow>
    sqlite_nodes s (node_id n) = Some n \<and> node_parent_id n = Some p \<and> node_mounted_name n = name)"
proof -
  let ?rows = "List.filter (\<lambda>r. sql_eq (nr_mounted_name r) (SqlBlob name)) (child_rows p (ss_database s))"
  obtain pn where pn: "sqlite_nodes s p = Some pn" using p by blast
  then have "int64 p" using store_node_row [OF s] by metis
  then have found: "sqlite_lookup s p name =
      (case ?rows of [] \<Rightarrow> Inr None | r # _ \<Rightarrow> map_ok Some (row_node (ss_codecs s) r))"
    using s sqlite_get_node_found [OF s pn]
    by (simp add: sqlite_lookup_def bind_int_ok open_queries sqlite_store_ok_def split: list.split)
  have rows: "n \<in> row_the_node s ` set ?rows \<longleftrightarrow>
      sqlite_nodes s (node_id n) = Some n \<and> node_parent_id n = Some p \<and> node_mounted_name n = name" for n
  proof -
    have "sql_eq (nr_mounted_name r) (SqlBlob name) \<longleftrightarrow> node_mounted_name (row_the_node s r) = name"
      if "r \<in> set (child_rows p (ss_database s))" for r
    proof -
      have "r \<in> set (db_nodes (ss_database s))" using that by (simp add: child_rows_def)
      from store_rows(5) [OF s this] show ?thesis by (simp add: sql_eq_def)
    qed
    then have "n \<in> row_the_node s ` set ?rows \<longleftrightarrow>
        n \<in> row_the_node s ` set (child_rows p (ss_database s)) \<and> node_mounted_name n = name" by auto
    then show ?thesis by (simp add: child_rows_nodes [OF s])
  qed
  show ?thesis
  proof (cases ?rows)
    case Nil
    with found rows show ?thesis by auto
  next
    case (Cons r rs)
    then have r: "r \<in> set ?rows" by simp
    then have db: "r \<in> set (db_nodes (ss_database s))" by (simp add: child_rows_def)
    have "r' = r" if r': "r' \<in> set ?rows" for r'
    proof -
      have "inj_on (blob_value \<circ> nr_mounted_name) (set (child_rows p (ss_database s)))"
        using child_rows_names [OF s] by (simp add: distinct_map)
      then show ?thesis by (rule inj_onD) (use r r' in \<open>simp_all add: sql_eq_def\<close>)
    qed
    then have "row_the_node s ` set ?rows = {row_the_node s r}" using r by blast
    with rows have "row_the_node s r = n \<longleftrightarrow> sqlite_nodes s (node_id n) = Some n \<and> node_parent_id n = Some p \<and>
        node_mounted_name n = name" for n by (metis singleton_iff)
    moreover have "sqlite_lookup s p name = Inr (Some (row_the_node s r))"
      using found Cons store_rows(1) [OF s db] by simp
    ultimately show ?thesis by simp
  qed
qed

lemma sqlite_iter_children_ok:
  assumes s: "sqlite_store_ok s" and p: "sqlite_nodes s p \<noteq> None"
  shows "\<exists>cs. children_of (sqlite_nodes s) p cs \<and>
    (\<forall>off. sqlite_iter_children s p off = Inr (slice_from cs off))"
proof -
  let ?key = "blob_value \<circ> nr_mounted_name" and ?children = "child_rows p (ss_database s)"
  let ?rows = "sort_key ?key ?children"
  define cs where "cs = map (row_the_node s) ?rows"
  have db: "r \<in> set (db_nodes (ss_database s))" if "r \<in> set ?rows" for r using that by (simp add: child_rows_def)
  have nodes: "map_result (row_node (ss_codecs s)) (drop k ?rows) = Inr (drop k cs)" for k
    unfolding cs_def drop_map
    by (rule map_result_Inr) (use db store_rows(1) [OF s] in \<open>blast dest: in_set_dropD\<close>)
  obtain pn where pn: "sqlite_nodes s p = Some pn" using p by blast
  then have ip: "int64 p" using store_node_row [OF s] by metis
  have "sqlite_iter_children s p off = Inr (slice_from cs off)" for off
  proof (cases "0 \<le> off \<and> int (length ?children) \<le> off")
    case True
    then have "length ?children \<le> nat off" by linarith
    with True s ip sqlite_get_node_found [OF s pn] show ?thesis
      by (simp add: sqlite_iter_children_def bind_int_ok open_queries sqlite_store_ok_def slice_from_def
          slice_start_def cs_def)
  next
    case False
    let ?off = "if off < 0 then max 0 (int (length ?children) + off) else off"
    have off: "bind_int ?off = Inr ()"
      by (rule bind_int_ok) (use False child_rows_few [OF s, of p] in \<open>auto simp: int64_def\<close>)
    have "sqlite_iter_children s p off = map_result (row_node (ss_codecs s)) (drop (nat ?off) ?rows)"
      unfolding sqlite_iter_children_def sqlite_get_node_found [OF s pn]
      using s False off by (cases "off < 0") (simp_all add: bind_int_ok [OF ip] open_queries sqlite_store_ok_def Let_def)
    also have "nat ?off = slice_start (length cs) off" by (simp add: slice_start_def cs_def)
    finally show ?thesis unfolding slice_from_def nodes .
  qed
  moreover have "children_of (sqlite_nodes s) p cs"
    unfolding children_of_def
  proof (intro conjI allI)
    have names: "map node_mounted_name cs = map ?key ?rows"
      using db store_rows(5) [OF s] by (auto simp: cs_def blob_value_def)
    have "distinct (map ?key ?rows)"
      using child_rows_names [OF s, of p] by (simp add: distinct_map)
    then have "sorted_wrt (<) (map node_mounted_name cs)"
      using sorted_sort_key [of ?key ?children] unfolding names by (simp add: strict_sorted_iff)
    then show "sorted_wrt (\<lambda>a b. node_mounted_name a < node_mounted_name b) cs" by (simp only: sorted_wrt_map)
    show "n \<in> set cs \<longleftrightarrow> sqlite_nodes s (node_id n) = Some n \<and> node_parent_id n = Some p" for n
      using child_rows_nodes [OF s, of n p] by (simp add: cs_def)
  qed
  ultimately show ?thesis by blast
qed

lemma sqlite_iter_nodes_ok:
  assumes s: "sqlite_store_ok s"
  shows "\<exists>ns. sqlite_iter_nodes s = Inr ns \<and> ns \<noteq> [] \<and> sqlite_nodes s 1 = Some (hd ns) \<and>
    distinct ns \<and> set ns = {n. \<exists>i. sqlite_nodes s i = Some n}"
proof -
  let ?rows = "sort_key (int_value \<circ> nr_id) (db_nodes (ss_database s))"
  define ns where "ns = map (row_the_node s) ?rows"
  have ok: "artifact_ok (ss_codecs s) (ss_database s)" using s by (simp add: sqlite_store_ok_def)
  have "map_result (row_node (ss_codecs s)) ?rows = Inr ns"
    unfolding ns_def by (rule map_result_Inr) (use store_rows(1) [OF s] in auto)
  then have it: "sqlite_iter_nodes s = Inr ns"
    using s by (simp add: sqlite_iter_nodes_def open_queries sqlite_store_ok_def)
  have ids: "map node_id ns = map (int_value \<circ> nr_id) ?rows"
    using store_rows(2) [OF s] by (auto simp: ns_def int_value_def)
  have elements: "set ns = {n. \<exists>i. sqlite_nodes s i = Some n}"
  proof (intro set_eqI iffI)
    show "n \<in> {n. \<exists>i. sqlite_nodes s i = Some n}" if "n \<in> set ns" for n
      using that store_rows(3) [OF s] by (auto simp: ns_def)
    show "n \<in> set ns" if "n \<in> {n. \<exists>i. sqlite_nodes s i = Some n}" for n
      using that store_node_row [OF s] by (fastforce simp: ns_def)
  qed
  have "inj_on int_value (nr_id ` set (db_nodes (ss_database s)))"
    using store_rows(2) [OF s] by (auto simp: inj_on_def int_value_def)
  then have "distinct (map int_value (map nr_id (db_nodes (ss_database s))))"
    using engine_ids(1) [OF artifact_okD(2) [OF ok]] by (simp only: distinct_map list.set_map)
  then have dist: "distinct (map node_id ns)" by (simp add: ids distinct_map)
  have sorted: "sorted (map node_id ns)" using sorted_sort_key unfolding ids .
  obtain r where r: "sqlite_nodes s 1 = Some r" "node_id r = 1"
    using artifact_root [OF ok] artifact_nodes_row [OF ok] unfolding sqlite_nodes_def by metis
  then have mem: "r \<in> set ns" unfolding elements by blast
  then obtain n ms where ns: "ns = n # ms" by (cases ns) auto
  have "n \<in> {n. \<exists>i. sqlite_nodes s i = Some n}" unfolding elements [symmetric] ns by simp
  then obtain j where "artifact_nodes (ss_codecs s) (ss_database s) j = Some n"
    by (auto simp: sqlite_nodes_def)
  then have "1 \<le> node_id n" using artifact_nodes_row [OF ok] by metis
  moreover have "node_id n \<le> node_id r" using sorted mem ns by auto
  ultimately have "node_id n = node_id r" using r(2) by linarith
  moreover have "inj_on node_id (set ns)" using dist by (simp only: distinct_map)
  ultimately have "n = r" using mem ns by (elim inj_onD) simp_all
  then have first: "ns \<noteq> []" "sqlite_nodes s 1 = Some (hd ns)" using r(1) ns by simp_all
  have "distinct ns" using dist by (simp add: distinct_map)
  then show ?thesis by (intro exI [of _ ns] conjI it first elements)
qed

lemma sqlite_get_snapshot_ok:
  assumes s: "sqlite_store_ok s" and n: "sqlite_nodes s i = Some n"
  shows "\<exists>sn. sqlite_get_snapshot s (node_snapshot_id n) = Inr sn"
proof -
  let ?L = "ss_codecs s" and ?d = "ss_database s"
  have ok: "artifact_ok ?L ?d" using s by (simp add: sqlite_store_ok_def)
  note v = artifact_okD [OF ok]
  obtain sr where sr: "db_snapshots ?d = [sr]" "\<not> snapshot_class_bad sr"
    "decode_values ?L [Txt ''snapshot''] (sr_imported_at sr) (sr_metadata_json sr) True = Inr ()"
    by (rule snapshot_checks [OF v(1)])
  obtain r where r: "r \<in> set (db_nodes ?d)" "row_fields r n"
    using artifact_nodes_row [OF ok n [unfolded sqlite_nodes_def]] by metis
  have "is_text (nr_snapshot_id r)" using node_checks(1) [OF v(1) r(1)] by (simp add: node_class_bad_def)
  then obtain sid where sid: "nr_snapshot_id r = SqlText sid" by (auto simp: class_iff)
  moreover have "nr_snapshot_id r = sr_id sr"
    using artifact_checks(1) [OF v(1)] r(1) sid sr(1) by (auto simp: foreign_keys_ok_def list_all_iff)
  ultimately have id: "sr_id sr = SqlText sid" "node_snapshot_id n = sid"
    using r(2) by (simp_all add: row_fields_def text_value_def)
  have texts: "list_all scalar (text_value (sr_id sr))" "list_all scalar (text_value (sr_source_uri sr))"
    "list_all scalar (text_value (sr_source_format sr))"
    using v(2) sr(1) by (simp_all add: engine_ok_def)
  then have enc: "utf8_encode (text_value (sr_id sr)) \<noteq> None" "utf8_encode (text_value (sr_source_uri sr)) \<noteq> None"
    "utf8_encode (text_value (sr_source_format sr)) \<noteq> None"
    by (auto simp: utf8_encode_None_iff list_all_iff)
  then have "bind_text sid = Inr ()" using id(1) by (simp add: bind_text_def text_value_def)
  then have "query_one s (bind_text sid) (\<lambda>d. List.filter (\<lambda>r. sql_eq (sr_id r) (SqlText sid)) (db_snapshots d)) =
      Inr (Some sr)"
    using s id(1) sr(1) by (simp add: open_queries sqlite_store_ok_def sql_eq_def)
  moreover obtain t m where "decode_datetime ?L (sr_imported_at sr) = Inr (Some t)"
    "decode_metadata ?L (sr_metadata_json sr) = Inr m"
    using sr(3) by (auto simp: decode_values_def contract_fail_def Let_def split: sum.splits if_splits)
  moreover from this obtain m' where "freeze_metadata m = Inr m'"
    using ok sr(1) by (auto simp: artifact_ok_def all_readable_def readable_def)
  ultimately have "\<exists>sn. sqlite_get_snapshot s sid = Inr sn" using enc
    by (simp add: sqlite_get_snapshot_def row_snapshot_def make_snapshot_def require_unicode_def
        split: option.split)
  with id(2) show ?thesis by simp
qed

interpretation sqlite: snapshot_store sqlite_object sqlite_nodes sqlite_store_ok
proof
  fix s :: sqlite_store and p i :: int and name :: bytes and n :: node
  assume s: "sqlite_store_ok s"
  show "tree_ok (sqlite_nodes s)"
    using s artifact_tree_ok by (auto simp: sqlite_store_ok_def sqlite_nodes_def)
  show "get_node (sqlite_object s) i = Inr n \<longleftrightarrow> sqlite_nodes s i = Some n"
    using sqlite_get_node_found [OF s, of i] sqlite_get_node_unknown [OF s, of i]
    by (cases "sqlite_nodes s i") (auto simp: sqlite_object_def)
  show "sqlite_nodes s i = None \<Longrightarrow> int64 i \<Longrightarrow> get_node (sqlite_object s) i = Inl (KeyErrorInt i)"
    using sqlite_get_node_unknown [OF s, of i] by (simp add: sqlite_object_def)
  show "\<exists>r. lookup (sqlite_object s) p name = Inr r \<and> (\<forall>n. r = Some n \<longleftrightarrow>
      sqlite_nodes s (node_id n) = Some n \<and> node_parent_id n = Some p \<and> node_mounted_name n = name)"
    if "sqlite_nodes s p \<noteq> None" using sqlite_lookup_ok [OF s that] by (simp add: sqlite_object_def)
  show "\<exists>cs. children_of (sqlite_nodes s) p cs \<and>
      (\<forall>off. iter_children (sqlite_object s) p off = Inr (slice_from cs off))"
    if "sqlite_nodes s p \<noteq> None" using sqlite_iter_children_ok [OF s that] by (simp add: sqlite_object_def)
  show "\<exists>ns. iter_nodes (sqlite_object s) = Inr ns \<and> ns \<noteq> [] \<and> sqlite_nodes s 1 = Some (hd ns) \<and>
      distinct ns \<and> set ns = {n. \<exists>i. sqlite_nodes s i = Some n}"
    using sqlite_iter_nodes_ok [OF s] by (simp add: sqlite_object_def)
  show "\<exists>sn. get_snapshot (sqlite_object s) (node_snapshot_id n) = Inr sn" if "sqlite_nodes s i = Some n"
    using sqlite_get_snapshot_ok [OF s that] by (simp add: sqlite_object_def)
qed

section \<open>The validation ends\<close>

lemma child_paths_ids: "map fst (child_paths ns x) = children_ids ns (fst x)"
  by (simp add: child_paths_def children_ids_def)

text \<open>Only a root that has a parent can keep the recursive queries running.\<close>

lemma validation_ends:
  assumes e: "engine_ok d" and none: "validate_artifact L d = None"
  shows "\<exists>r. root_row d = Some r \<and> nr_parent_id r \<noteq> SqlNull"
proof (rule ccontr)
  assume root: "\<not> ?thesis"
  from none have records: "validate_records L d = None" and "one_snapshot_and_root d"
    by (auto simp: validate_artifact_def all_pass_iff simp del: all_pass.simps split: option.splits)
  then obtain r where r: "root_row d = Some r" by (auto simp: one_snapshot_and_root_def)
  with root have "nr_parent_id r = SqlNull" by blast
  then obtain rs where rs: "recursive_query (children_ids (db_nodes d)) [SqlInt 1] = Some rs"
    using graph_query_ends [OF e r] by metis
  then have "recursive_query (children_ids (db_nodes d)) (map fst [(SqlInt 1, [] :: pystr)]) = Some rs" by simp
  from recursive_query_project [where f = fst, OF child_paths_ids this] obtain rs' where
    "recursive_query (child_paths (db_nodes d)) [(SqlInt 1, [])] = Some rs'" by blast
  with rs have "require_graph d \<noteq> None" "validate_names L d \<noteq> None"
    by (simp_all add: require_graph_def validate_names_def)
  with records show False by (auto simp: validate_records_def split: option.splits)
qed

text \<open>A store that was opened is over a valid artifact.\<close>

lemma open_sqlite_store_ok:
  "open_sqlite_store L (Database d) = Some (Inr s) \<longleftrightarrow>
     validate_artifact L d = Some (Inr ()) \<and> s = \<lparr>ss_open = True, ss_codecs = L, ss_database = d\<rparr>"
  by (auto simp: open_sqlite_store_def)

lemma sqlite_nodes_rows:
  assumes s: "sqlite_store_ok s"
  shows "sqlite_nodes s i \<noteq> None \<longleftrightarrow> SqlInt i \<in> nr_id ` set (db_nodes (ss_database s))"
proof
  assume "sqlite_nodes s i \<noteq> None"
  then obtain n where "sqlite_nodes s i = Some n" by blast
  then obtain r where "r \<in> set (db_nodes (ss_database s))" "row_the_node s r = n" "node_id n = i"
    by (rule store_node_row [OF s])
  with store_rows(2) [OF s] show "SqlInt i \<in> nr_id ` set (db_nodes (ss_database s))" by (metis image_eqI)
next
  assume "SqlInt i \<in> nr_id ` set (db_nodes (ss_database s))"
  then obtain r where r: "r \<in> set (db_nodes (ss_database s))" "nr_id r = SqlInt i" by force
  with store_rows(2,3) [OF s r(1)] show "sqlite_nodes s i \<noteq> None" by simp
qed

end
