(* ===== verification/Mounted_Sqlite.thy ===== *)
theory Mounted_Sqlite
  imports Fuse_Operations Sqlite_Soundness
begin

text \<open>
  The file-system handlers over an opened artifact: the SQLite store satisfies the contract the
  handlers rely on, so their invariant holds for it.
\<close>

interpretation mounted_sqlite: mounted_store sqlite_object sqlite_nodes sqlite_store_ok
  by (rule mounted_store.intro) (rule sqlite.snapshot_store_axioms)

end
