(* ===== verification/Sqlite_Reading.thy ===== *)
theory Sqlite_Reading
  imports Sqlite_Soundness
begin

text \<open>
  What every artifact that can be opened shows, whatever its metadata. The engine is only relied
  on to keep the constraints that its own catalogue declares, so that the uniqueness of siblings
  comes from the schema that the validation has compared. A stored metadata text that decodes but
  cannot be frozen passes the validation; the reads of its row then raise
  \<open>SQLiteSchemaError\<close>, and every other read is that of the tree.
\<close>

section \<open>The constraints that the engine keeps\<close>

definition node_cell :: "node_row \<Rightarrow> pystr \<Rightarrow> sql_value" where
  "node_cell r c =
     (case map_of
        [(lit ''id'', nr_id r),
         (lit ''snapshot_id'', nr_snapshot_id r),
         (lit ''parent_id'', nr_parent_id r),
         (lit ''mounted_name'', nr_mounted_name r),
         (lit ''original_path'', nr_original_path r),
         (lit ''kind'', nr_kind r),
         (lit ''size'', nr_size r),
         (lit ''modified_at'', nr_modified_at r),
         (lit ''content'', nr_content r),
         (lit ''content_status'', nr_content_status r),
         (lit ''content_ref'', nr_content_ref r),
         (lit ''source_line'', nr_source_line r),
         (lit ''observation'', nr_observation r),
         (lit ''metadata_json'', nr_metadata_json r)] c of
        Some v \<Rightarrow> v
      | None \<Rightarrow> SqlNull)"

text \<open>
  The rows of \<open>nodes\<close> under a column that is declared an integer primary key, and under a unique
  index over the whole table: two rows whose key cells are all equal, and not null, are one row.
\<close>

definition keeps_primary_key :: "database \<Rightarrow> column_info \<Rightarrow> bool" where
  "keeps_primary_key d c \<longleftrightarrow>
     distinct (map (\<lambda>r. node_cell r (ci_name c)) (db_nodes d)) \<and>
     (\<forall>r \<in> set (db_nodes d). \<forall>i. node_cell r (ci_name c) = SqlInt i \<longrightarrow> int64 i)"

definition keeps_unique :: "database \<Rightarrow> index_column list \<Rightarrow> bool" where
  "keeps_unique d key \<longleftrightarrow>
     (\<forall>r \<in> set (db_nodes d). \<forall>r' \<in> set (db_nodes d).
        list_all (\<lambda>(c, _). c \<noteq> None \<and> sql_eq (node_cell r (the c)) (node_cell r' (the c))) key \<longrightarrow> r = r')"

definition engine_enforces :: "database \<Rightarrow> bool" where
  "engine_enforces d \<longleftrightarrow>
     (\<forall>c \<in> set (cat_columns (db_catalogue d) (lit ''nodes'')).
        ci_type c = lit ''INTEGER'' \<and> ci_pk c = 1 \<longrightarrow> keeps_primary_key d c) \<and>
     (\<forall>x \<in> set (cat_indexes (db_catalogue d) (lit ''nodes'')).
        ii_unique x = 1 \<and> ii_partial x = 0 \<longrightarrow> keeps_unique d (cat_index_keys (db_catalogue d) (ii_name x))) \<and>
     (\<forall>r \<in> set (db_snapshots d). \<forall>v \<in> {sr_id r, sr_source_uri r, sr_source_format r}.
        list_all scalar (text_value v))"

lemma node_cell_columns:
  "node_cell r (lit ''id'') = nr_id r" "node_cell r (lit ''parent_id'') = nr_parent_id r"
  "node_cell r (lit ''mounted_name'') = nr_mounted_name r"
  by (simp_all add: node_cell_def)

text \<open>The schema that the validation has compared declares the two constraints.\<close>

lemma contract_keys:
  assumes "validate_schema_contract lower cat = Inr ()"
  shows "\<exists>c \<in> set (cat_columns cat (lit ''nodes'')). ci_name c = lit ''id'' \<and> ci_type c = lit ''INTEGER'' \<and> ci_pk c = 1"
    and "\<exists>x \<in> set (cat_indexes cat (lit ''nodes'')). ii_unique x = 1 \<and> ii_partial x = 0 \<and>
      cat_index_keys cat (ii_name x) \<in> UNIQUE_SIBLING_KEYS"
proof -
  from assms have "\<forall>c \<in> set (map (\<lambda>(t, expected). require (cat_columns cat t = expected)
      [Txt ''table '', Str t, Txt '' has an invalid column contract'']) TABLES). c = Inr ()"
    unfolding validate_schema_contract_def Let_def all_pass_iff set_append ball_Un by (elim conjE)
  then have cols: "cat_columns cat t = cs" if "(t, cs) \<in> set TABLES" for t cs
    using that by fastforce
  have "cat_columns cat (lit ''nodes'') = the (map_of TABLES (lit ''nodes''))"
    by (rule cols) (simp add: TABLES_def)
  moreover have "column ''id'' ''INTEGER'' 0 1 \<in> set (the (map_of TABLES (lit ''nodes'')))"
    by (simp add: TABLES_def)
  ultimately show "\<exists>c \<in> set (cat_columns cat (lit ''nodes'')). ci_name c = lit ''id'' \<and> ci_type c = lit ''INTEGER'' \<and> ci_pk c = 1"
    by (intro bexI [of _ "column ''id'' ''INTEGER'' 0 1"]) (simp_all add: column_def)
next
  define u where "u = List.filter (\<lambda>r. ii_unique r = 1 \<and> ii_origin r = lit ''u'' \<and> ii_partial r = 0)
        (cat_indexes cat (lit ''nodes''))"
  from assms have "validate_indexes cat = Inr ()"
    unfolding validate_schema_contract_def Let_def all_pass_iff set_append ball_Un list.set ball_simps by (elim conjE)
  then have "length u = 1 \<and> (\<lambda>r. cat_index_keys cat (ii_name r)) ` set u = UNIQUE_SIBLING_KEYS"
    unfolding validate_indexes_def Let_def all_pass_iff list.set ball_simps require_pass u_def by (elim conjE) (rule conjI)
  then obtain x where x: "u = [x]" "cat_index_keys cat (ii_name x) \<in> UNIQUE_SIBLING_KEYS" by (cases u) auto
  then have "x \<in> set u" by simp
  then show "\<exists>x \<in> set (cat_indexes cat (lit ''nodes'')). ii_unique x = 1 \<and> ii_partial x = 0 \<and>
      cat_index_keys cat (ii_name x) \<in> UNIQUE_SIBLING_KEYS"
    using x(2) unfolding u_def by auto
qed

lemma enforced_engine:
  assumes v: "validate_artifact L d = Some (Inr ())" and e: "engine_enforces d"
  shows "engine_ok d"
proof -
  from v have "validate_schema_contract (str_lower L) (db_catalogue d) = Inr ()"
    by (auto simp: validate_artifact_def option_case_Some_Inr all_pass_iff simp del: all_pass.simps)
  note keys = contract_keys [OF this]
  obtain c where "c \<in> set (cat_columns (db_catalogue d) (lit ''nodes''))" "ci_name c = lit ''id''"
    "ci_type c = lit ''INTEGER''" "ci_pk c = 1" using keys(1) by blast
  with e have pk: "distinct (map nr_id (db_nodes d))"
    "\<forall>r \<in> set (db_nodes d). \<forall>i. nr_id r = SqlInt i \<longrightarrow> int64 i"
    by (auto simp: engine_enforces_def keeps_primary_key_def node_cell_columns)
  from keys(2) e have unique: "keeps_unique d [(Some (lit ''parent_id''), lit ''BINARY'', 0), (Some (lit ''mounted_name''), lit ''BINARY'', 0)]"
    by (auto simp: engine_enforces_def UNIQUE_SIBLING_KEYS_def)
  have "r = r'" if "r \<in> set (db_nodes d)" "r' \<in> set (db_nodes d)" "sql_eq (nr_parent_id r) (nr_parent_id r')"
    "nr_mounted_name r = nr_mounted_name r'" for r r'
  proof -
    have "nr_mounted_name r \<noteq> SqlNull" using node_checks(1) [OF v that(1)] by (auto simp: node_class_bad_def is_blob_def)
    with that unique show ?thesis by (simp add: keeps_unique_def node_cell_columns sql_eq_def)
  qed
  with pk e show ?thesis by (simp add: engine_ok_def engine_enforces_def)
qed

section \<open>The tree without the metadata\<close>

text \<open>The same codecs, but every metadata text reads as the empty object.\<close>

definition plain_codecs :: "text_codecs \<Rightarrow> text_codecs" where
  "plain_codecs L = L\<lparr>json_loads := \<lambda>_. Inr (PyMap [])\<rparr>"

definition artifact_tree :: "text_codecs \<Rightarrow> database \<Rightarrow> node_map" where
  "artifact_tree L d = artifact_nodes (plain_codecs L) d"

text \<open>The metadata that is stored for an inode, frozen, and the node with it.\<close>

definition row_metadata :: "text_codecs \<Rightarrow> database \<Rightarrow> int \<Rightarrow> py_exn + metadata" where
  "row_metadata L d i =
     (case find (\<lambda>r. nr_id r = SqlInt i) (db_nodes d) of
        None \<Rightarrow> Inl (KeyErrorInt i)
      | Some r \<Rightarrow> (case decode_metadata L (nr_metadata_json r) of Inl x \<Rightarrow> Inl x | Inr m \<Rightarrow> freeze_metadata m))"

definition shown_node :: "text_codecs \<Rightarrow> database \<Rightarrow> node \<Rightarrow> py_exn + node" where
  "shown_node L d n =
     (case row_metadata L d (node_id n) of
        Inl x \<Rightarrow> Inl (schema_error (Txt ''invalid node record: '' # exn_text x))
      | Inr m \<Rightarrow> Inr (n\<lparr>node_source_metadata := m\<rparr>))"

lemma plain_codecs_simps [simp]:
  "from_isoformat (plain_codecs L) = from_isoformat L" "str_lower (plain_codecs L) = str_lower L"
  "decode_datetime (plain_codecs L) = decode_datetime L"
  by (simp_all add: plain_codecs_def decode_datetime_def fun_eq_iff split: sql_value.split)

lemma plain_metadata: "decode_metadata (plain_codecs L) (SqlText s) = Inr []"
  by (simp add: decode_metadata_def plain_codecs_def)

lemma plain_readable: "readable (plain_codecs L) v"
  by (auto simp: readable_def decode_metadata_def plain_codecs_def freeze_metadata_def split: sql_value.splits)

lemma plain_decode_values:
  "decode_values L c t (SqlText j) q = Inr () \<Longrightarrow> decode_values (plain_codecs L) c t (SqlText j) q = Inr ()"
  by (auto simp: decode_values_def plain_metadata contract_fail_def Let_def split: sum.splits if_splits)

lemma plain_name_check:
  assumes "name_check L r = Inr ()" "is_text (nr_metadata_json r)"
  shows "name_check (plain_codecs L) r = Inr ()"
proof -
  from assms(2) obtain j where "nr_metadata_json r = SqlText j" by (auto simp: class_iff)
  with assms(1) show ?thesis
    by (auto simp: name_check_def contract_fail_def plain_decode_values split: sql_value.splits sum.splits
        decode_failure.splits if_splits)
qed

lemma plain_valid:
  assumes v: "validate_artifact L d = Some (Inr ())"
  shows "validate_artifact (plain_codecs L) d = Some (Inr ())"
proof -
  obtain sr where sr: "db_snapshots d = [sr]" "\<not> snapshot_class_bad sr"
    "decode_values L [Txt ''snapshot''] (sr_imported_at sr) (sr_metadata_json sr) True = Inr ()"
    by (rule snapshot_checks [OF v])
  then obtain j where "sr_metadata_json sr = SqlText j" by (auto simp: snapshot_class_bad_def class_iff)
  with sr(3) have snap: "decode_values (plain_codecs L) [Txt ''snapshot''] (sr_imported_at sr) (sr_metadata_json sr) True = Inr ()"
    by (simp add: plain_decode_values)
  have names: "name_check (plain_codecs L) r = Inr ()" if "r \<in> set (db_nodes d)" for r
    using node_checks(1,5) [OF v that] plain_name_check [of L r] by (simp add: node_class_bad_def)
  have "validate_names (plain_codecs L) d = Some (Inr ())"
    using artifact_checks(7) [OF v] sr(1) snap names
    by (auto simp: validate_names_def all_pass_iff option_case_Some_Inr simp del: all_pass.simps)
  moreover from v have "validate_records L d = Some (Inr ())"
    by (auto simp: validate_artifact_def option_case_Some_Inr all_pass_iff simp del: all_pass.simps)
  ultimately have "validate_records (plain_codecs L) d = Some (Inr ())"
    by (auto simp: validate_records_def option_case_Some_Inr)
  with v show ?thesis
    by (auto simp: validate_artifact_def option_case_Some_Inr all_pass_iff simp del: all_pass.simps)
qed

lemma plain_ok:
  assumes "validate_artifact L d = Some (Inr ())" "engine_enforces d"
  shows "artifact_ok (plain_codecs L) d"
  using plain_valid [OF assms(1)] enforced_engine [OF assms] plain_readable
  by (simp add: artifact_ok_def all_readable_def)

section \<open>A row is read as the node with its metadata\<close>

lemma validate_file_metadata: "validate_file (x\<lparr>node_source_metadata := m\<rparr>) = validate_file x"
  by (simp add: validate_file_def cong: option.case_cong if_cong)

lemma make_node_metadata:
  assumes "make_node x = Inr n"
  shows "make_node (x\<lparr>node_source_metadata := m\<rparr>) = map_ok (\<lambda>m'. n\<lparr>node_source_metadata := m'\<rparr>) (freeze_metadata m)"
proof -
  define check where "check = (if node_kind x = DIRECTORY then
      (if node_size x \<noteq> None \<or> node_content x \<noteq> None \<or> node_content_ref x \<noteq> None \<or>
          node_content_status x \<noteq> NOT_APPLICABLE
       then Inl (ValueError [Txt ''directories cannot have file content metadata'']) else Inr ())
    else if node_kind x = FILE then validate_file x else Inr ())"
  have made: "make_node (x\<lparr>node_source_metadata := m\<rparr>) =
      (case check of Inl e \<Rightarrow> Inl e | Inr _ \<Rightarrow> map_ok (\<lambda>m. x\<lparr>node_source_metadata := m\<rparr>) (freeze_metadata m))" for m
    unfolding make_node_def check_def by (simp add: validate_file_metadata cong: sum.case_cong if_cong)
  obtain m0 where m0: "n = x\<lparr>node_source_metadata := m0\<rparr>" using make_node_fields [OF assms] by blast
  have "check = Inr ()"
    using assms made [of "node_source_metadata x"] by (cases check) auto
  with m0 show ?thesis by (cases "freeze_metadata m") (simp_all add: made)
qed

lemma freeze_error:
  "freeze_value v = Inl x \<Longrightarrow> type_or_value_error x"
  "freeze_items items = Inl x \<Longrightarrow> type_or_value_error x"
  "freeze_list vs = Inl x \<Longrightarrow> type_or_value_error x"
  by (induction v and items and vs rule: freeze_value_freeze_items_freeze_list.induct)
    (auto simp: require_unicode_def type_or_value_error_def split: sum.splits option.splits pyfloat.splits
      if_splits pyval.splits)

lemma row_node_shown:
  assumes v: "validate_artifact L d = Some (Inr ())" and e: "engine_enforces d"
    and r: "r \<in> set (db_nodes d)" and n: "row_node (plain_codecs L) r = Inr n"
  shows "row_node L r = shown_node L d n"
proof -
  note ok = node_checks [OF v r]
  obtain i where i: "nr_id r = SqlInt i" using ok(1) by (auto simp: node_class_bad_def class_iff)
  obtain raw j where raw: "nr_mounted_name r = SqlBlob raw" "nr_metadata_json r = SqlText j"
    using ok(1) by (auto simp: node_class_bad_def class_iff)
  have "decode_values L (inode r) (nr_modified_at r) (nr_metadata_json r) False = Inr ()"
    using ok(5) by (auto simp: name_check_def raw contract_fail_def split: sum.splits if_splits decode_failure.splits)
  then obtain m where m: "decode_metadata L (nr_metadata_json r) = Inr m"
    by (auto simp: decode_values_def contract_fail_def Let_def split: sum.splits if_splits)
  obtain k t st where x: "kind_of (nr_kind r) = Inr k" "decode_datetime L (nr_modified_at r) = Inr t"
    "status_of (nr_content_status r) = Inr st"
    using n by (auto simp: row_node_def split: if_splits sum.splits)
  define y where "y = \<lparr>node_id = int_value (nr_id r), node_snapshot_id = text_value (nr_snapshot_id r),
      node_parent_id = optional int_value (nr_parent_id r), node_mounted_name = blob_value (nr_mounted_name r),
      node_original_path = optional text_value (nr_original_path r), node_kind = k,
      node_size = optional int_value (nr_size r), node_modified_at = t,
      node_content = optional blob_value (nr_content r), node_content_status = st,
      node_content_ref = optional text_value (nr_content_ref r),
      node_source_line = optional int_value (nr_source_line r), node_source_metadata = []\<rparr>"
  have "is_null (nr_content r) \<or> is_blob (nr_content r)" using ok(1) by (auto simp: node_class_bad_def)
  with n x raw have y: "make_node y = Inr n" and "row_node L r =
      invalid_record (\<lambda>x. type_or_value_error x \<or> key_error x) ''invalid node record: ''
        (make_node (y\<lparr>node_source_metadata := m\<rparr>))"
    using m by (auto simp: row_node_def plain_metadata y_def is_blob_def)
  then have read: "row_node L r = invalid_record (\<lambda>x. type_or_value_error x \<or> key_error x) ''invalid node record: ''
      (map_ok (\<lambda>m'. n\<lparr>node_source_metadata := m'\<rparr>) (freeze_metadata m))"
    using make_node_metadata [OF y, of m] by simp
  have "r' = r"
    if "find (\<lambda>r. nr_id r = SqlInt i) (db_nodes d) = Some r'" for r'
    using that i r engine_ids(3) [OF enforced_engine [OF v e]] by (auto simp: find_Some_iff in_set_conv_nth) metis
  moreover have "find (\<lambda>r. nr_id r = SqlInt i) (db_nodes d) \<noteq> None" using i r by (auto simp: find_None_iff)
  ultimately have "find (\<lambda>r. nr_id r = SqlInt i) (db_nodes d) = Some r" by auto
  moreover have "node_id n = i" using row_node_fields [OF n] i by (simp add: row_fields_def int_value_def)
  ultimately have stored: "row_metadata L d (node_id n) = freeze_metadata m" using m by (simp add: row_metadata_def)
  show ?thesis
    using freeze_error(2) [of m, folded freeze_metadata_def] by (cases "freeze_metadata m")
      (auto simp: read shown_node_def stored invalid_record_def)
qed

section \<open>The reads of an opened artifact\<close>

text \<open>The same artifact, opened with the codecs that hide the metadata.\<close>

definition plain_store :: "sqlite_store \<Rightarrow> sqlite_store" where
  "plain_store s = s\<lparr>ss_codecs := plain_codecs (ss_codecs s)\<rparr>"

lemma plain_store_simps [simp]:
  "ss_database (plain_store s) = ss_database s" "ss_codecs (plain_store s) = plain_codecs (ss_codecs s)"
  "ss_open (plain_store s) = ss_open s"
  by (simp_all add: plain_store_def)

definition opened_artifact :: "sqlite_store \<Rightarrow> bool" where
  "opened_artifact s \<longleftrightarrow> ss_open s \<and> validate_artifact (ss_codecs s) (ss_database s) = Some (Inr ()) \<and>
     engine_enforces (ss_database s)"

lemma plain_store_ok: "opened_artifact s \<Longrightarrow> sqlite_store_ok (plain_store s)"
  by (simp add: opened_artifact_def sqlite_store_ok_def plain_ok)

lemma plain_store_nodes: "sqlite_nodes (plain_store s) = artifact_tree (ss_codecs s) (ss_database s)"
  by (simp add: sqlite_nodes_def artifact_tree_def)

abbreviation shown_by :: "sqlite_store \<Rightarrow> node \<Rightarrow> py_exn + node" where
  "shown_by s \<equiv> shown_node (ss_codecs s) (ss_database s)"

lemma opened_row:
  assumes s: "opened_artifact s" and r: "r \<in> set (db_nodes (ss_database s))"
  shows "\<exists>n. row_node (plain_codecs (ss_codecs s)) r = Inr n \<and> row_node (ss_codecs s) r = shown_by s n"
proof -
  from r obtain n where "row_node (plain_codecs (ss_codecs s)) r = Inr n"
    using store_rows(1) [OF plain_store_ok [OF s]] by auto
  with s r show ?thesis by (simp add: opened_artifact_def row_node_shown)
qed

lemma opened_get_node:
  assumes s: "opened_artifact s"
  shows "sqlite_get_node s i =
    (case sqlite_get_node (plain_store s) i of Inl x \<Rightarrow> Inl x | Inr n \<Rightarrow> shown_by s n)"
proof (cases "bind_int i")
  case (Inl x)
  then show ?thesis
    by (simp add: sqlite_get_node_def query_one_def query_all_def require_open_def)
next
  case (Inr u)
  show ?thesis
  proof (cases "List.filter (\<lambda>r. sql_eq (nr_id r) (SqlInt i)) (db_nodes (ss_database s))")
    case Nil
    with Inr show ?thesis by (simp add: sqlite_get_node_def query_one_def query_all_def require_open_def)
  next
    case (Cons r rs)
    then have "r \<in> set (List.filter (\<lambda>r. sql_eq (nr_id r) (SqlInt i)) (db_nodes (ss_database s)))" by simp
    then have "r \<in> set (db_nodes (ss_database s))" by simp
    with Cons Inr show ?thesis using opened_row [OF s, of r]
      by (auto simp: sqlite_get_node_def query_one_def query_all_def require_open_def)
  qed
qed

lemma opened_lookup:
  assumes s: "opened_artifact s" and p: "sqlite_get_node (plain_store s) p = Inr pn"
  shows "sqlite_lookup s p name =
    (case shown_by s pn of
       Inl x \<Rightarrow> Inl x
     | Inr _ \<Rightarrow>
         (case sqlite_lookup (plain_store s) p name of
            Inl x \<Rightarrow> Inl x
          | Inr None \<Rightarrow> Inr None
          | Inr (Some n) \<Rightarrow> map_ok Some (shown_by s n)))"
proof (cases "bind_int p")
  case (Inl x)
  with p show ?thesis by (simp add: sqlite_get_node_def query_one_def query_all_def require_open_def split: sum.splits)
next
  case (Inr u)
  let ?rows = "List.filter (\<lambda>r. sql_eq (nr_mounted_name r) (SqlBlob name)) (child_rows p (ss_database s))"
  have "sqlite_get_node s p = shown_by s pn" using p by (simp add: opened_get_node [OF s])
  moreover have "ss_open s" using s by (simp add: opened_artifact_def)
  moreover have "(case ?rows of [] \<Rightarrow> Inr None | r # _ \<Rightarrow> map_ok Some (row_node (ss_codecs s) r)) =
      (case (case ?rows of [] \<Rightarrow> Inr None | r # _ \<Rightarrow> map_ok Some (row_node (plain_codecs (ss_codecs s)) r)) of
         Inl x \<Rightarrow> Inl x | Inr None \<Rightarrow> Inr None | Inr (Some n) \<Rightarrow> map_ok Some (shown_by s n))"
  proof (cases ?rows)
    case (Cons r rs)
    then have "r \<in> set ?rows" by simp
    then have "r \<in> set (db_nodes (ss_database s))" by (simp add: child_rows_def)
    with Cons show ?thesis using opened_row [OF s, of r] by auto
  qed simp
  ultimately show ?thesis using p Inr
    by (cases ?rows; cases "shown_by s pn")
      (simp_all add: sqlite_lookup_def query_one_def query_all_def require_open_def)
qed

lemma opened_rows:
  assumes s: "opened_artifact s" and rows: "set rows \<subseteq> set (db_nodes (ss_database s))"
  shows "map_result (row_node (ss_codecs s)) rows =
    (case map_result (row_node (plain_codecs (ss_codecs s))) rows of Inl x \<Rightarrow> Inl x | Inr ns \<Rightarrow> map_result (shown_by s) ns)"
  using rows
proof (induction rows)
  case (Cons r rs)
  then obtain n where n: "row_node (plain_codecs (ss_codecs s)) r = Inr n" "row_node (ss_codecs s) r = shown_by s n"
    using opened_row [OF s, of r] by auto
  obtain ns where "map_result (row_node (plain_codecs (ss_codecs s))) rs = Inr ns"
    using map_result_Inr [of rs "row_node (plain_codecs (ss_codecs s))" "row_the_node (plain_store s)"]
      store_rows(1) [OF plain_store_ok [OF s]] Cons.prems by auto
  with Cons n show ?case by (auto split: sum.split)
qed simp

lemma opened_iter_children:
  assumes s: "opened_artifact s" and p: "sqlite_get_node (plain_store s) p = Inr pn"
  shows "sqlite_iter_children s p off =
    (case shown_by s pn of
       Inl x \<Rightarrow> Inl x
     | Inr _ \<Rightarrow>
         (case sqlite_iter_children (plain_store s) p off of Inl x \<Rightarrow> Inl x | Inr ns \<Rightarrow> map_result (shown_by s) ns))"
proof (cases "bind_int p")
  case (Inl x)
  with p show ?thesis by (simp add: sqlite_get_node_def query_one_def query_all_def require_open_def split: sum.splits)
next
  case (Inr u)
  have own: "sqlite_get_node s p = shown_by s pn" using p by (simp add: opened_get_node [OF s])
  have "ss_open s" using s by (simp add: opened_artifact_def)
  moreover have "map_result (row_node (ss_codecs s)) (drop k (sort_key f (child_rows p (ss_database s)))) =
      (case map_result (row_node (plain_codecs (ss_codecs s))) (drop k (sort_key f (child_rows p (ss_database s)))) of
         Inl x \<Rightarrow> Inl x | Inr ns \<Rightarrow> map_result (shown_by s) ns)" for k and f :: "node_row \<Rightarrow> bytes"
    by (rule opened_rows [OF s]) (auto simp: child_rows_def dest: in_set_dropD)
  ultimately show ?thesis using p Inr own
    by (cases "shown_by s pn") (auto simp: sqlite_iter_children_def query_one_def query_all_def require_open_def Let_def
        split: sum.splits)
qed

text \<open>A read fails only for its row's metadata, with the error of an invalid record.\<close>

lemma shown_node_error: "shown_node L d n = Inl x \<Longrightarrow> \<exists>m. x = schema_error m"
  by (auto simp: shown_node_def split: sum.splits)

section \<open>The tree and its reads together\<close>

lemma opened_tree:
  assumes s: "opened_artifact s"
  defines "t \<equiv> artifact_tree (ss_codecs s) (ss_database s)"
  shows "tree_ok t" and "t i \<noteq> None \<longleftrightarrow> SqlInt i \<in> nr_id ` set (db_nodes (ss_database s))"
    and "r \<in> set (db_nodes (ss_database s)) \<Longrightarrow> \<exists>n. t (int_value (nr_id r)) = Some n \<and> row_fields r n"
    and "t i = None \<Longrightarrow> \<exists>x. sqlite_get_node s i = Inl x" and "t i = Some n \<Longrightarrow> sqlite_get_node s i = shown_by s n"
proof -
  note ok = plain_store_ok [OF s]
  have t: "t = sqlite_nodes (plain_store s)" by (simp add: t_def plain_store_nodes)
  show "tree_ok t" unfolding t by (rule sqlite.tree [OF ok])
  show "t i \<noteq> None \<longleftrightarrow> SqlInt i \<in> nr_id ` set (db_nodes (ss_database s))"
    using sqlite_nodes_rows [OF ok, of i] by (simp add: t)
  show "\<exists>n. t (int_value (nr_id r)) = Some n \<and> row_fields r n" if "r \<in> set (db_nodes (ss_database s))"
    using store_rows(1-3) [OF ok, of r] that row_node_fields by (fastforce simp: t int_value_def)
  show "\<exists>x. sqlite_get_node s i = Inl x" if "t i = None"
    using sqlite_get_node_unknown [OF ok, of i] that by (auto simp: t opened_get_node [OF s])
  show "sqlite_get_node s i = shown_by s n" if "t i = Some n"
    using sqlite_get_node_found [OF ok] that by (simp add: t opened_get_node [OF s])
qed

text \<open>What the readers of a directory give.\<close>

definition listing_reads :: "sqlite_store \<Rightarrow> node_map \<Rightarrow> node \<Rightarrow> bool" where
  "listing_reads s t n \<longleftrightarrow>
     (\<exists>cs. children_of t (node_id n) cs \<and>
        (\<forall>off. sqlite_iter_children s (node_id n) off =
           (case shown_by s n of Inl x \<Rightarrow> Inl x | Inr _ \<Rightarrow> map_result (shown_by s) (slice_from cs off))) \<and>
        (\<forall>name. sqlite_lookup s (node_id n) name =
           (case shown_by s n of
              Inl x \<Rightarrow> Inl x
            | Inr _ \<Rightarrow>
                (case find (\<lambda>c. node_mounted_name c = name) cs of
                   None \<Rightarrow> Inr None
                 | Some c \<Rightarrow> map_ok Some (shown_by s c)))))"

lemma opened_listing:
  assumes s: "opened_artifact s" and n: "artifact_tree (ss_codecs s) (ss_database s) i = Some n"
  shows "listing_reads s (artifact_tree (ss_codecs s) (ss_database s)) n"
proof -
  note ok = plain_store_ok [OF s]
  have t: "artifact_tree (ss_codecs s) (ss_database s) = sqlite_nodes (plain_store s)" by (simp add: plain_store_nodes)
  have tree: "tree_ok (sqlite_nodes (plain_store s))" by (rule sqlite.tree [OF ok])
  with n have i: "node_id n = i" by (auto simp: t tree_ok_def)
  from n have node: "sqlite_nodes (plain_store s) i \<noteq> None" "sqlite_get_node (plain_store s) i = Inr n"
    using sqlite_get_node_found [OF ok] by (simp_all add: t)
  obtain cs where cs: "children_of (sqlite_nodes (plain_store s)) i cs"
    "\<And>off. sqlite_iter_children (plain_store s) i off = Inr (slice_from cs off)"
    using sqlite_iter_children_ok [OF ok node(1)] by blast
  have "sqlite_lookup (plain_store s) i name = Inr (find (\<lambda>c. node_mounted_name c = name) cs)" for name
  proof -
    obtain r where r: "sqlite_lookup (plain_store s) i name = Inr r" "\<And>c. r = Some c \<longleftrightarrow>
        c \<in> set cs \<and> node_mounted_name c = name"
      using sqlite_lookup_ok [OF ok node(1), of name] cs(1) by (auto simp: children_of_def)
    have "r = find (\<lambda>c. node_mounted_name c = name) cs"
    proof (cases "find (\<lambda>c. node_mounted_name c = name) cs")
      case None
      then have "r \<noteq> Some c" for c using r(2) [of c] unfolding find_None_iff by metis
      then have "r = None" by (cases r) auto
      with None show ?thesis by simp
    next
      case (Some c)
      then have "c \<in> set cs \<and> node_mounted_name c = name" by (auto simp: find_Some_iff)
      with Some r(2) [of c] show ?thesis by simp
    qed
    with r(1) show ?thesis by simp
  qed
  with cs show ?thesis
    unfolding listing_reads_def t i
    by (intro exI [of _ cs]) (simp add: opened_iter_children [OF s node(2)] opened_lookup [OF s node(2)]
        split: sum.split option.split)
qed

end
