(* ===== verification/Sqlite_Example.thy ===== *)
theory Sqlite_Example
  imports Examples Mounted_Sqlite Sqlite_Reading
begin

text \<open>
  Two concrete artifacts: a small valid one, whose rows are a root and a file, and a crafted one
  with a cycle through inode 1, which keeps the validation from ending.
\<close>

section \<open>Codecs for the texts that occur\<close>

definition example_codecs :: text_codecs where
  "example_codecs =
     \<lparr>from_isoformat = (\<lambda>s. if s = isoformat utc_db noon then Inr noon else Inl (ValueError [Txt ''isoformat''])),
      json_loads = (\<lambda>s. if s = lit ''{}'' then Inr (PyMap []) else Inl (ValueError [Txt ''json''])),
      json_dumps = (\<lambda>v. case v of PyMap [] \<Rightarrow> Inr (lit ''{}'') | _ \<Rightarrow> Inl (ValueError [Txt ''json''])),
      str_lower = (\<lambda>s. s), render = (\<lambda>m. lit ''text'')\<rparr>"

definition directory_row :: "int \<Rightarrow> sql_value \<Rightarrow> bytes \<Rightarrow> sql_value \<Rightarrow> node_row" where
  "directory_row i parent name path =
     \<lparr>nr_id = SqlInt i, nr_snapshot_id = sql_text ''id'', nr_parent_id = parent, nr_mounted_name = SqlBlob name,
      nr_original_path = path, nr_kind = sql_text ''directory'', nr_size = SqlNull, nr_modified_at = SqlNull,
      nr_content = SqlNull, nr_content_status = sql_text ''not_applicable'', nr_content_ref = SqlNull,
      nr_source_line = SqlNull, nr_observation = SqlNull, nr_metadata_json = sql_text ''{}''\<rparr>"

definition example_snapshot_row :: snapshot_row where
  "example_snapshot_row =
     \<lparr>sr_id = sql_text ''id'', sr_source_uri = sql_text ''uri'', sr_source_format = sql_text ''test'',
      sr_imported_at = SqlText (isoformat utc_db noon), sr_metadata_json = sql_text ''{}'',
      sr_diagnostic_count = SqlInt 0\<rparr>"

definition artifact :: "node_row list \<Rightarrow> database" where
  "artifact rows =
     \<lparr>db_application_id = APPLICATION_ID, db_user_version = SCHEMA_VERSION, db_quick_check = True,
      db_catalogue = created_catalogue, db_snapshots = [example_snapshot_row], db_nodes = rows,
      db_diagnostics = []\<rparr>"

section \<open>A valid artifact\<close>

definition file_row :: node_row where
  "file_row = (directory_row 2 (SqlInt 1) [97] (sql_text ''a''))
     \<lparr>nr_kind := sql_text ''file'', nr_size := SqlInt 3, nr_content := SqlBlob [120, 121, 122],
      nr_content_status := sql_text ''present''\<rparr>"

definition example_artifact :: database where
  "example_artifact = artifact [directory_row 1 SqlNull [] SqlNull, file_row]"

lemmas cell_defs = is_int_def is_text_def is_blob_def negative_def not_positive_def sql_eq_def sql_ne_def
  sql_text_def in_texts_def not_in_texts_def sql_length_def longer_than_def int_value_def text_value_def

lemma example_names:
  "utf8_decode [] = Inr []" "utf8_decode [97] = Inr [97]"
  by (rule utf8_decode_encode, simp add: utf8_eval)+

lemma example_graph: "require_graph example_artifact = Some (Inr ())"
  by (simp add: require_graph_def example_artifact_def artifact_def directory_row_def file_row_def parent_bad_def
      children_ids_def recursive_query_simps cell_defs)

lemma example_decode: "decode_values example_codecs c SqlNull (sql_text ''{}'') False = Inr ()"
  "decode_values example_codecs c (SqlText (isoformat utc_db noon)) (sql_text ''{}'') True = Inr ()"
  by (simp_all add: decode_values_def decode_datetime_def decode_metadata_def example_codecs_def sql_text_def)

lemma example_rows:
  "db_nodes example_artifact = [directory_row 1 SqlNull [] SqlNull, file_row]"
  "db_snapshots example_artifact = [example_snapshot_row]"
  by (simp_all add: example_artifact_def artifact_def)

lemma example_name_checks: "\<forall>r \<in> set (db_nodes example_artifact). name_check example_codecs r = Inr ()"
  unfolding example_rows
  by (simp add: name_check_def directory_row_def file_row_def example_names example_decode reserved_name_def
      lit_def sql_text_def [symmetric])

lemma example_paths:
  "recursive_query (child_paths (db_nodes example_artifact)) [(SqlInt 1, [])] = Some [(SqlInt 1, []), (SqlInt 2, [97])]"
  "\<not> list_ex (path_bad (db_nodes example_artifact)) [(SqlInt 1, []), (SqlInt 2, [97])]"
  by (simp_all add: example_rows child_paths_def recursive_query_simps path_bad_def relative_path_def cast_text_def
      example_names directory_row_def file_row_def cell_defs lit_Cons)

lemma example_root_row: "root_row example_artifact = Some (directory_row 1 SqlNull [] SqlNull)"
  by (simp add: root_row_def example_rows directory_row_def)

lemma example_validate_names: "validate_names example_codecs example_artifact = Some (Inr ())"
proof -
  have "virtual_root (directory_row 1 SqlNull [] SqlNull)"
    "\<not> longer_than (nr_mounted_name (directory_row 1 SqlNull [] SqlNull)) MAX_MOUNTED_NAME_BYTES"
    "\<not> longer_than (nr_mounted_name file_row) MAX_MOUNTED_NAME_BYTES"
    by (simp_all add: virtual_root_def directory_row_def file_row_def cell_defs MAX_MOUNTED_NAME_BYTES_def)
  moreover have "decode_values example_codecs [Txt ''snapshot''] (sr_imported_at example_snapshot_row)
      (sr_metadata_json example_snapshot_row) True = Inr ()"
    by (simp add: example_snapshot_row_def example_decode)
  ultimately show ?thesis
    using example_name_checks example_paths(2) unfolding validate_names_def example_paths(1) example_root_row
    by (simp add: all_pass_iff example_rows del: all_pass.simps)
qed

lemma example_artifact_valid: "validate_artifact example_codecs example_artifact = Some (Inr ())"
proof -
  have "require_storage_classes example_artifact = Inr ()" "require_ranges example_artifact = Inr ()"
    by (simp_all add: require_storage_classes_def require_ranges_def example_artifact_def artifact_def
        directory_row_def file_row_def example_snapshot_row_def snapshot_class_bad_def node_class_bad_def
        node_range_bad_def content_bad_def directory_content_bad_def file_content_bad_def positions_contiguous_def
        kind_values_def status_values_def cell_defs all_pass_iff del: all_pass.simps)
  with example_graph example_validate_names have "validate_records example_codecs example_artifact = Some (Inr ())"
    by (simp add: validate_records_def)
  then show ?thesis
    by (simp add: validate_artifact_def created_catalogue_valid example_artifact_def artifact_def foreign_keys_ok_def
        one_snapshot_and_root_def root_row_def root_valid_def counts_ok_def directory_row_def file_row_def
        example_snapshot_row_def cell_defs)
qed

lemma example_engine_ok: "engine_ok example_artifact"
  by (auto simp: engine_ok_def example_artifact_def artifact_def directory_row_def file_row_def
      example_snapshot_row_def cell_defs int64_def scalar_lit)

lemma example_engine_enforces: "engine_enforces example_artifact"
proof -
  have "cat_columns (db_catalogue example_artifact) (lit ''nodes'') = the (map_of TABLES (lit ''nodes''))"
    by (simp add: example_artifact_def artifact_def created_catalogue_def TABLES_def)
  moreover have "keeps_primary_key example_artifact c"
    if "c \<in> set (the (map_of TABLES (lit ''nodes'')))" "ci_type c = lit ''INTEGER''" "ci_pk c = 1" for c
  proof -
    from that have "ci_name c = lit ''id''" by (auto simp: TABLES_def column_def)
    then show ?thesis
      by (auto simp: keeps_primary_key_def node_cell_columns example_rows directory_row_def file_row_def int64_def)
  qed
  moreover have "keeps_unique example_artifact key" if "key \<in> UNIQUE_SIBLING_KEYS" for key
    using that by (auto simp: keeps_unique_def UNIQUE_SIBLING_KEYS_def node_cell_columns example_rows directory_row_def
        file_row_def sql_eq_def)
  moreover have "cat_index_keys (db_catalogue example_artifact) (ii_name x) \<in> UNIQUE_SIBLING_KEYS"
    if "x \<in> set (cat_indexes (db_catalogue example_artifact) (lit ''nodes''))" "ii_unique x = 1" for x
    using that by (auto simp: example_artifact_def artifact_def created_catalogue_def UNIQUE_SIBLING_KEYS_def)
  ultimately show ?thesis using example_engine_ok by (auto simp: engine_enforces_def engine_ok_def)
qed

lemma example_readable: "all_readable example_codecs example_artifact"
  by (auto simp: all_readable_def readable_def example_artifact_def artifact_def directory_row_def file_row_def
      example_snapshot_row_def decode_metadata_def example_codecs_def sql_text_def freeze_metadata_def)

definition example_sqlite :: sqlite_store where
  "example_sqlite = \<lparr>ss_open = True, ss_codecs = example_codecs, ss_database = example_artifact\<rparr>"

lemma example_sqlite_open: "open_sqlite_store example_codecs (Database example_artifact) = Some (Inr example_sqlite)"
  by (simp add: open_sqlite_store_ok example_artifact_valid example_sqlite_def)

lemma example_sqlite_ok: "sqlite_store_ok example_sqlite"
  by (simp add: sqlite_store_ok_def artifact_ok_def example_sqlite_def example_artifact_valid example_engine_ok
      example_readable)

section \<open>An artifact whose validation does not end\<close>

text \<open>Inodes 1 and 2 are each other's parent; inode 3 is the one node without a parent.\<close>

definition crafted_artifact :: database where
  "crafted_artifact = artifact
     [directory_row 1 (SqlInt 2) [] SqlNull, directory_row 2 (SqlInt 1) [97] (sql_text ''a''),
      directory_row 3 SqlNull [98] (sql_text ''b'')]"

lemma crafted_engine_ok: "engine_ok crafted_artifact"
  by (auto simp: engine_ok_def crafted_artifact_def artifact_def directory_row_def
      example_snapshot_row_def cell_defs int64_def scalar_lit)

lemma crafted_hangs: "validate_artifact L crafted_artifact = None"
proof -
  have children: "children_ids (db_nodes crafted_artifact) (SqlInt 1) = [SqlInt 2]"
    "children_ids (db_nodes crafted_artifact) (SqlInt 2) = [SqlInt 1]"
    by (simp_all add: children_ids_def crafted_artifact_def artifact_def directory_row_def sql_eq_def)
  have "no_row (parent_bad (db_nodes crafted_artifact)) (db_nodes crafted_artifact) m = Inr ()" for m
    by (simp add: crafted_artifact_def artifact_def directory_row_def parent_bad_def cell_defs)
  with recursive_query_cycle [OF children] have "require_graph crafted_artifact = None"
    by (simp add: require_graph_def)
  moreover have "require_storage_classes crafted_artifact = Inr ()" "require_ranges crafted_artifact = Inr ()"
    by (simp_all add: require_storage_classes_def require_ranges_def crafted_artifact_def artifact_def
        directory_row_def example_snapshot_row_def snapshot_class_bad_def node_class_bad_def
        node_range_bad_def content_bad_def directory_content_bad_def positions_contiguous_def
        kind_values_def status_values_def cell_defs all_pass_iff del: all_pass.simps)
  ultimately have "validate_records L crafted_artifact = None" by (simp add: validate_records_def)
  then show ?thesis
    by (simp add: validate_artifact_def created_catalogue_valid crafted_artifact_def artifact_def foreign_keys_ok_def
        one_snapshot_and_root_def root_row_def directory_row_def example_snapshot_row_def cell_defs)
qed

end
