(* ===== verification/Sqlite_Artifact.thy ===== *)
theory Sqlite_Artifact
  imports Sqlite_Contract
begin

text \<open>
  \<open>snapshotfs.store.sqlite.artifact\<close>: a temporary file beside the destination, its publication
  by an atomic rename or link, and the clean-up. A directory is a map from paths to the contents
  of its files; whether a call of the operating system fails, and with which text, is a choice
  of the record \<open>os\<close>. An empty file has the content given as a parameter.
\<close>

type_synonym 'f files = "pystr \<Rightarrow> 'f option"

record os =
  os_mkstemp :: "pystr + pystr"
  os_sync :: "pystr option"
  os_replace :: "pystr option"
  os_link :: "pystr option"
  os_unlink :: "pystr \<Rightarrow> pystr option"
  os_directory_sync :: "pystr option"
  os_directory_sync_supported :: bool

section \<open>Errors\<close>

definition persistence_error :: "message \<Rightarrow> py_exn" where
  "persistence_error m = StoreError ''SQLitePersistenceError'' m"

definition destination_exists :: py_exn where
  "destination_exists =
     StoreError ''SQLiteDestinationExistsError'' [Txt ''destination already exists (use overwrite=True)'']"

definition publication_error :: "pystr \<Rightarrow> py_exn" where
  "publication_error e = StoreError ''SQLitePublicationError''
     [Txt ''artifact was published, but its temporary link could not be removed: '', Str e]"

definition durability_error :: "pystr \<Rightarrow> py_exn" where
  "durability_error e = StoreError ''SQLiteDurabilityError''
     [Txt ''artifact was published, but the destination directory could not be synced: '', Str e]"

text \<open>\<open>except SQLitePersistenceError\<close>, with the subclasses.\<close>

definition is_persistence_error :: "py_exn \<Rightarrow> bool" where
  "is_persistence_error x \<longleftrightarrow>
     (case x of
        StoreError c _ \<Rightarrow> c \<in> {''SQLitePersistenceError'', ''SQLiteDestinationExistsError'',
          ''SQLitePublicationError'', ''SQLiteDurabilityError''}
      | _ \<Rightarrow> False)"

definition published_error :: "py_exn \<Rightarrow> bool" where
  "published_error x \<longleftrightarrow> (\<exists>e. x = publication_error e \<or> x = durability_error e)"

section \<open>Operations\<close>

definition create_temporary :: "os \<Rightarrow> 'f \<Rightarrow> 'f files \<Rightarrow> (py_exn + pystr) \<times> 'f files" where
  "create_temporary os nothing fs =
     (case os_mkstemp os of
        Inl e \<Rightarrow> (Inl (persistence_error [Txt ''cannot create temporary artifact: '', Str e]), fs)
      | Inr path \<Rightarrow> (Inr path, fs(path \<mapsto> nothing)))"

text \<open>The rename or the link, which alone makes the artifact visible.\<close>

definition move_into_place ::
  "os \<Rightarrow> pystr \<Rightarrow> pystr \<Rightarrow> bool \<Rightarrow> 'f files \<Rightarrow> py_exn option \<times> 'f files" where
  "move_into_place os temporary destination overwrite fs =
     (if overwrite then
        (case os_replace os of
           Some e \<Rightarrow> (Some (persistence_error [Txt ''cannot publish artifact: '', Str e]), fs)
         | None \<Rightarrow> (None, fs(destination := fs temporary, temporary := None)))
      else if fs destination \<noteq> None then (Some destination_exists, fs)
      else (case os_link os of
           Some e \<Rightarrow> (Some (persistence_error [Txt ''cannot publish artifact: '', Str e]), fs)
         | None \<Rightarrow>
             (case os_unlink os temporary of
                Some e \<Rightarrow> (Some (publication_error e), fs(destination := fs temporary))
              | None \<Rightarrow> (None, fs(destination := fs temporary, temporary := None)))))"

definition publish :: "os \<Rightarrow> pystr \<Rightarrow> pystr \<Rightarrow> bool \<Rightarrow> 'f files \<Rightarrow> py_exn option \<times> 'f files" where
  "publish os temporary destination overwrite fs =
     (case (if fs temporary = None then Some (lit ''No such file or directory'') else os_sync os) of
        Some e \<Rightarrow> (Some (persistence_error [Txt ''cannot sync temporary artifact: '', Str e]), fs)
      | None \<Rightarrow>
          (case move_into_place os temporary destination overwrite fs of
             (Some x, fs') \<Rightarrow> (Some x, fs')
           | (None, fs') \<Rightarrow>
               if \<not> os_directory_sync_supported os then (None, fs')
               else (case os_directory_sync os of
                   None \<Rightarrow> (None, fs')
                 | Some e \<Rightarrow> (Some (durability_error e), fs'))))"

definition unlink :: "os \<Rightarrow> pystr \<Rightarrow> 'f files \<Rightarrow> 'f files" where
  "unlink os path fs = (if os_unlink os path = None then fs(path := None) else fs)"

definition temporary_paths :: "pystr \<Rightarrow> pystr list" where
  "temporary_paths t = [t, t @ lit ''-wal'', t @ lit ''-shm'', t @ lit ''-journal'']"

definition cleanup :: "os \<Rightarrow> pystr option \<Rightarrow> 'f files \<Rightarrow> 'f files" where
  "cleanup os temporary fs =
     (case temporary of None \<Rightarrow> fs | Some t \<Rightarrow> foldl (\<lambda>fs path. unlink os path fs) fs (temporary_paths t))"

section \<open>What publication guarantees\<close>

text \<open>
  The destination changes in one step to the complete artifact or not at all: it is published
  exactly when there is no error or the error says so, an existing destination is replaced only
  when that was asked for, and no third file changes.
\<close>

lemma publish_effect:
  assumes "publish os t d overwrite fs = (err, fs')" "t \<noteq> d" "fs t = Some content"
  shows "fs' d = (if err = None \<or> (\<exists>x. err = Some x \<and> published_error x) then Some content else fs d)"
    and "p \<noteq> t \<Longrightarrow> p \<noteq> d \<Longrightarrow> fs' p = fs p"
    and "err = None \<Longrightarrow> fs' t = None"
    and "fs' t \<in> {None, Some content}"
    and "fs d \<noteq> None \<Longrightarrow> \<not> overwrite \<Longrightarrow> err \<noteq> None \<and> fs' = fs"
  using assms
  by (auto simp: publish_def move_into_place_def published_error_def persistence_error_def publication_error_def
      durability_error_def destination_exists_def split: option.splits if_splits prod.splits)

lemma unlink_other [simp]: "p \<noteq> path \<Longrightarrow> unlink os path fs p = fs p"
  by (simp add: unlink_def)

lemma cleanup_other: "t = None \<or> p \<notin> set (temporary_paths (the t)) \<Longrightarrow> cleanup os t fs p = fs p"
  by (auto simp: cleanup_def temporary_paths_def split: option.split)

lemma publish_error_kind:
  "publish os t d overwrite fs = (Some x, fs') \<Longrightarrow> is_persistence_error x"
  by (auto simp: publish_def move_into_place_def is_persistence_error_def persistence_error_def publication_error_def
      durability_error_def destination_exists_def split: option.splits if_splits prod.splits)

end
