(* ===== verification/Sqlite_Builder.thy ===== *)
theory Sqlite_Builder
  imports Sqlite_Store Sqlite_Artifact
begin

text \<open>
  \<open>snapshotfs.store.sqlite.builder\<close>: the streaming builder. Its connection to the temporary file
  is the database being built; a statement fails with an engine error when it violates a
  constraint of the schema, and with another exception when a parameter cannot be bound. The
  builder carries the files of the destination's directory.
\<close>

section \<open>Statements that write\<close>

text \<open>\<open>sqlite3.Error\<close> with its text, or any other exception.\<close>

datatype sql_exn = Engine_Error message | Other_Exn build_exn

definition bound :: "py_exn + unit \<Rightarrow> (sql_exn + 'a) \<Rightarrow> sql_exn + 'a" where
  "bound parameters statement =
     (case parameters of Inl x \<Rightarrow> Inl (Other_Exn (Raised x)) | Inr _ \<Rightarrow> statement)"

definition bind_option :: "('a \<Rightarrow> py_exn + unit) \<Rightarrow> 'a option \<Rightarrow> py_exn + unit" where
  "bind_option bind v = (case v of None \<Rightarrow> Inr () | Some x \<Rightarrow> bind x)"

definition bind_cell :: "sql_value \<Rightarrow> py_exn + unit" where
  "bind_cell v = (case v of SqlText s \<Rightarrow> bind_text s | SqlInt i \<Rightarrow> bind_int i | _ \<Rightarrow> Inr ())"

definition cell :: "('a \<Rightarrow> sql_value) \<Rightarrow> 'a option \<Rightarrow> sql_value" where
  "cell f v = (case v of None \<Rightarrow> SqlNull | Some x \<Rightarrow> f x)"

text \<open>The constraints of the table of nodes that a row can violate, given the other rows.\<close>

definition node_violation :: "database \<Rightarrow> node_row list \<Rightarrow> node_row \<Rightarrow> string option" where
  "node_violation d others r =
     (if not_positive (nr_id r) then Some ''CHECK constraint failed: id > 0''
      else if negative (nr_size r) then Some ''CHECK constraint failed: size IS NULL OR size >= 0''
      else if not_positive (nr_source_line r) then Some ''CHECK constraint failed: source_line IS NULL OR source_line > 0''
      else if list_ex (\<lambda>q. nr_id q = nr_id r) others then Some ''UNIQUE constraint failed: nodes.id''
      else if list_ex (\<lambda>q. sql_eq (nr_parent_id q) (nr_parent_id r) \<and> nr_mounted_name q = nr_mounted_name r) others
      then Some ''UNIQUE constraint failed: nodes.parent_id, nodes.mounted_name''
      else if \<not> list_ex (\<lambda>s. sr_id s = nr_snapshot_id r) (db_snapshots d) \<or>
        (\<not> is_null (nr_parent_id r) \<and> \<not> list_ex (\<lambda>q. nr_id q = nr_parent_id r) (r # others))
      then Some ''FOREIGN KEY constraint failed''
      else None)"

definition insert_row :: "node_row \<Rightarrow> database \<Rightarrow> sql_exn + database" where
  "insert_row r d =
     (case node_violation d (db_nodes d) r of
        Some e \<Rightarrow> Inl (Engine_Error [Txt e])
      | None \<Rightarrow> Inr (d\<lparr>db_nodes := db_nodes d @ [r]\<rparr>))"

section \<open>Rows and mutable nodes\<close>

definition observation_cell :: "observation option \<Rightarrow> sql_value" where
  "observation_cell = cell (SqlText \<circ> observation_value)"

text \<open>The row of a node, with the content status and the reference that \<open>finish\<close> completes.\<close>

definition node_cells :: "tzdb \<Rightarrow> pystr \<Rightarrow> mutable_node \<Rightarrow> pystr \<Rightarrow> node_row" where
  "node_cells db sid n metadata_json =
     \<lparr>nr_id = SqlInt (mn_id n), nr_snapshot_id = SqlText sid, nr_parent_id = cell SqlInt (mn_parent_id n),
      nr_mounted_name = SqlBlob (mn_mounted_name n), nr_original_path = cell SqlText (mn_original_path n),
      nr_kind = SqlText (node_kind_value (mn_kind n)), nr_size = cell SqlInt (mn_size n),
      nr_modified_at = encode_datetime db (mn_modified_at n), nr_content = cell SqlBlob (mn_content n),
      nr_content_status = SqlText (content_status_value NOT_APPLICABLE), nr_content_ref = SqlNull,
      nr_source_line = cell SqlInt (mn_source_line n), nr_observation = observation_cell (mn_observation n),
      nr_metadata_json = SqlText metadata_json\<rparr>"

definition insert_node :: "tzdb \<Rightarrow> pystr \<Rightarrow> mutable_node \<Rightarrow> database \<Rightarrow> sql_exn + database" where
  "insert_node db sid n d =
     (let r = node_cells db sid n (lit ''{}'')
      in bound (all_pass (map bind_cell [nr_id r, nr_snapshot_id r, nr_parent_id r, nr_original_path r, nr_size r,
             nr_modified_at r, nr_source_line r]))
           (insert_row r d))"

definition updated_row :: "tzdb \<Rightarrow> mutable_node \<Rightarrow> pystr \<Rightarrow> node_row \<Rightarrow> node_row" where
  "updated_row db n metadata_json r =
     r\<lparr>nr_original_path := cell SqlText (mn_original_path n), nr_size := cell SqlInt (mn_size n),
       nr_modified_at := encode_datetime db (mn_modified_at n), nr_content := cell SqlBlob (mn_content n),
       nr_source_line := cell SqlInt (mn_source_line n), nr_observation := observation_cell (mn_observation n),
       nr_metadata_json := SqlText metadata_json\<rparr>"

definition update_node :: "tzdb \<Rightarrow> mutable_node \<Rightarrow> pystr \<Rightarrow> database \<Rightarrow> sql_exn + database" where
  "update_node db n metadata_json d =
     bound (all_pass (map bind_cell [cell SqlText (mn_original_path n), cell SqlInt (mn_size n),
         encode_datetime db (mn_modified_at n), cell SqlInt (mn_source_line n), SqlText metadata_json,
         SqlInt (mn_id n)]))
       (if negative (cell SqlInt (mn_size n)) then Inl (Engine_Error [Txt ''CHECK constraint failed: size IS NULL OR size >= 0''])
        else if not_positive (cell SqlInt (mn_source_line n))
        then Inl (Engine_Error [Txt ''CHECK constraint failed: source_line IS NULL OR source_line > 0''])
        else Inr (d\<lparr>db_nodes := map (\<lambda>r. if nr_id r = SqlInt (mn_id n) then updated_row db n metadata_json r else r)
                    (db_nodes d)\<rparr>))"

definition row_mutable :: "text_codecs \<Rightarrow> node_row \<Rightarrow> py_exn + mutable_node" where
  "row_mutable L r =
     (if \<not> is_blob (nr_mounted_name r)
      then Inl (persistence_error [Txt ''temporary artifact mounted name is not a BLOB''])
      else if \<not> is_null (nr_content r) \<and> \<not> is_blob (nr_content r)
      then Inl (persistence_error [Txt ''temporary artifact content is not a BLOB''])
      else (case kind_of (nr_kind r) of Inl x \<Rightarrow> Inl x | Inr kind \<Rightarrow>
        (case decode_datetime L (nr_modified_at r) of Inl x \<Rightarrow> Inl x | Inr t \<Rightarrow>
         (case (if is_null (nr_observation r) then Inr None else map_ok Some (observation_of (nr_observation r))) of
            Inl x \<Rightarrow> Inl x
          | Inr observation \<Rightarrow>
              map_ok (\<lambda>m. \<lparr>mn_id = int_value (nr_id r), mn_parent_id = optional int_value (nr_parent_id r),
                  mn_mounted_name = blob_value (nr_mounted_name r),
                  mn_original_path = optional text_value (nr_original_path r), mn_kind = kind,
                  mn_size = optional int_value (nr_size r), mn_modified_at = t,
                  mn_content = optional blob_value (nr_content r),
                  mn_source_line = optional int_value (nr_source_line r), mn_observation = observation,
                  mn_source_metadata = m\<rparr>)
                (decode_metadata L (nr_metadata_json r))))))"

section \<open>Adding an entry\<close>

record sqlite_builder =
  sb_destination :: pystr
  sb_overwrite :: bool
  sb_finished :: bool
  sb_temporary :: "pystr option"
  sb_connection :: "database option"
  sb_next_inode :: int
  sb_snapshot :: snapshot
  sb_files :: "database files"

definition active :: "sqlite_builder \<Rightarrow> py_exn + database" where
  "active b =
     (case sb_connection b of
        Some d \<Rightarrow> if sb_finished b then Inl (RuntimeError [Txt ''builder is already finished'']) else Inr d
      | None \<Rightarrow> Inl (RuntimeError [Txt ''builder is already finished'']))"

text \<open>Merging into the last component and writing it back.\<close>

definition merge_row ::
  "text_codecs \<Rightarrow> tzdb \<Rightarrow> parsed_entry \<Rightarrow> mutable_node \<Rightarrow> database \<Rightarrow> sql_exn option \<times> database" where
  "merge_row L db e n d =
     (case merge db n e of
        Inl x \<Rightarrow> (Some (Other_Exn (Build_Error x)), d)
      | Inr n' \<Rightarrow>
          (case encode_metadata L (mn_source_metadata n') of
             Inl x \<Rightarrow> (Some (Other_Exn (Raised x)), d)
           | Inr js \<Rightarrow> (case update_node db n' js d of Inl x \<Rightarrow> (Some x, d) | Inr d' \<Rightarrow> (None, d'))))"

fun sqlite_add_loop ::
  "text_codecs \<Rightarrow> tzdb \<Rightarrow> pystr \<Rightarrow> parsed_entry \<Rightarrow> nat \<Rightarrow> bytes list \<Rightarrow> int \<Rightarrow> database \<times> int \<Rightarrow>
    sql_exn option \<times> database \<times> int" where
  "sqlite_add_loop L db sid e index [] p st = (None, st)"
| "sqlite_add_loop L db sid e index (name # rest) p (d, k) =
     (let kind = (if rest = [] then entry_kind e else DIRECTORY);
          continue = (\<lambda>n (d, k).
            if rest = [] then (case merge_row L db e n d of (x, d') \<Rightarrow> (x, d', k))
            else sqlite_add_loop L db sid e (index + 1) rest (mn_id n) (d, k))
      in case bind_int p of
           Inl x \<Rightarrow> (Some (Other_Exn (Raised x)), d, k)
         | Inr _ \<Rightarrow>
             (case List.filter (\<lambda>r. sql_eq (nr_mounted_name r) (SqlBlob name)) (child_rows p d) of
                [] \<Rightarrow>
                  (let n = new_mutable_node k (Some p) name
                             (Some (join [slash] (take (index + 1) (entry_path e)))) kind
                   in case insert_node db sid n d of
                        Inl x \<Rightarrow> (Some x, d, k + 1)
                      | Inr d' \<Rightarrow> continue n (d', k + 1))
              | r # _ \<Rightarrow>
                  (case row_mutable L r of
                     Inl x \<Rightarrow> (Some (Other_Exn (Raised x)), d, k)
                   | Inr n \<Rightarrow>
                       if mn_kind n \<noteq> kind
                       then (Some (Other_Exn (Build_Error (conflict n e ''file/directory type conflict''))), d, k)
                       else continue n (d, k))))"

definition sqlite_add ::
  "text_codecs \<Rightarrow> tzdb \<Rightarrow> parsed_entry \<Rightarrow> sqlite_builder \<Rightarrow> build_exn option \<times> sqlite_builder" where
  "sqlite_add L db e b =
     (case encode_metadata L (entry_source_metadata e) of
        Inl x \<Rightarrow>
          (Some (Raised (if type_or_value_error x
             then persistence_error ([Txt ''entry metadata at ''] @ entry_location e @
                    [Txt '' is not JSON serializable: ''] @ exn_text x)
             else x)), b)
      | Inr _ \<Rightarrow>
          (case active b of
             Inl x \<Rightarrow> (Some (Raised x), b)
           | Inr d \<Rightarrow>
               (case components e of
                  Inl x \<Rightarrow> (Some (Build_Error x), b)
                | Inr names \<Rightarrow>
                    (case sqlite_add_loop L db (snapshot_id (sb_snapshot b)) e 0 names 1 (d, sb_next_inode b) of
                       (err, d', k) \<Rightarrow>
                         (case err of
                            None \<Rightarrow> None
                          | Some (Engine_Error m) \<Rightarrow>
                              Some (Raised (persistence_error
                                ([Txt ''cannot persist entry at ''] @ entry_location e @ [Txt '': ''] @ m)))
                          | Some (Other_Exn x) \<Rightarrow> Some x,
                          b\<lparr>sb_connection := Some d', sb_next_inode := k\<rparr>)))))"

section \<open>Starting and aborting\<close>

definition sqlite_abort :: "os \<Rightarrow> sqlite_builder \<Rightarrow> sqlite_builder" where
  "sqlite_abort os b =
     b\<lparr>sb_connection := None, sb_files := cleanup os (sb_temporary b) (sb_files b), sb_temporary := None,
       sb_finished := True\<rparr>"

text \<open>A file without a table, and the database that \<open>create\_schema\<close> makes of it.\<close>

definition empty_database :: database where
  "empty_database =
     \<lparr>db_application_id = 0, db_user_version = 0, db_quick_check = True,
      db_catalogue = \<lparr>cat_tables = [], cat_columns = (\<lambda>_. []), cat_foreign_keys = (\<lambda>_. []), cat_sql = (\<lambda>_. None),
        cat_indexes = (\<lambda>_. []), cat_index_keys = (\<lambda>_. [])\<rparr>,
      db_snapshots = [], db_nodes = [], db_diagnostics = []\<rparr>"

definition create_schema :: "database \<Rightarrow> database" where
  "create_schema d =
     d\<lparr>db_application_id := APPLICATION_ID, db_user_version := SCHEMA_VERSION, db_catalogue := created_catalogue\<rparr>"

definition insert_snapshot :: "text_codecs \<Rightarrow> tzdb \<Rightarrow> snapshot \<Rightarrow> database \<Rightarrow> py_exn + database" where
  "insert_snapshot L db sn d =
     (case encode_metadata L (snapshot_source_metadata sn) of
        Inl x \<Rightarrow>
          Inl (if type_or_value_error x
               then persistence_error ([Txt ''snapshot metadata is not JSON serializable: ''] @ exn_text x) else x)
      | Inr js \<Rightarrow>
          (let r = \<lparr>sr_id = SqlText (snapshot_id sn), sr_source_uri = SqlText (snapshot_source_uri sn),
                    sr_source_format = SqlText (snapshot_source_format sn),
                    sr_imported_at = encode_datetime db (Some (snapshot_imported_at sn)),
                    sr_metadata_json = SqlText js, sr_diagnostic_count = SqlInt 0\<rparr>
           in case all_pass (map bind_cell [sr_id r, sr_source_uri r, sr_source_format r, sr_imported_at r,
                  sr_metadata_json r]) of
                Inl x \<Rightarrow> Inl x
              | Inr _ \<Rightarrow> Inr (d\<lparr>db_snapshots := db_snapshots d @ [r]\<rparr>)))"

text \<open>\<open>except (OSError, sqlite3.Error) as exc: raise SQLitePersistenceError(what exc)\<close>.\<close>

definition wrap_error :: "string \<Rightarrow> sql_exn \<Rightarrow> py_exn" where
  "wrap_error what x =
     (case x of
        Engine_Error m \<Rightarrow> persistence_error (Txt what # m)
      | Other_Exn (Raised (OSError m)) \<Rightarrow> persistence_error (Txt what # m)
      | Other_Exn (Raised y) \<Rightarrow> y
      | Other_Exn (Build_Error d) \<Rightarrow> RuntimeError (diag_message d))"

definition initial_tables :: "text_codecs \<Rightarrow> tzdb \<Rightarrow> snapshot \<Rightarrow> py_exn + database" where
  "initial_tables L db sn =
     (case insert_snapshot L db sn (create_schema empty_database) of
        Inl x \<Rightarrow> Inl x
      | Inr d \<Rightarrow>
          (case insert_node db (snapshot_id sn) (new_mutable_node 1 None [] None DIRECTORY) d of
             Inl x \<Rightarrow> Inl (wrap_error ''cannot initialize artifact: '' x)
           | Inr d' \<Rightarrow> Inr d'))"

definition sqlite_init ::
  "text_codecs \<Rightarrow> tzdb \<Rightarrow> os \<Rightarrow> bool \<Rightarrow> snapshot \<Rightarrow> pystr \<Rightarrow> bool \<Rightarrow> database files \<Rightarrow>
    (py_exn + sqlite_builder) \<times> database files" where
  "sqlite_init L db os parent_is_dir sn destination overwrite fs =
     (if fs destination \<noteq> None \<and> \<not> overwrite then (Inl destination_exists, fs)
      else if \<not> parent_is_dir then (Inl (persistence_error [Txt ''parent directory does not exist'']), fs)
      else (case create_temporary os empty_database fs of
          (Inl x, fs') \<Rightarrow> (Inl x, fs')
        | (Inr t, fs') \<Rightarrow>
            (case initial_tables L db sn of
               Inl x \<Rightarrow> (Inl x, cleanup os (Some t) fs')
             | Inr d \<Rightarrow>
                 (Inr \<lparr>sb_destination = destination, sb_overwrite = overwrite, sb_finished = False,
                   sb_temporary = Some t, sb_connection = Some d, sb_next_inode = 2, sb_snapshot = sn,
                   sb_files = fs'\<rparr>, fs'))))"

section \<open>Finishing\<close>

text \<open>The two statements that complete the content of the nodes.\<close>

definition finish_row :: "node_row \<Rightarrow> node_row" where
  "finish_row r =
     (let r1 = (if sql_eq (nr_kind r) (sql_text ''file'') \<and> sql_eq (nr_size r) (SqlInt 0) \<and> is_null (nr_content r)
                then r\<lparr>nr_content := SqlBlob []\<rparr> else r)
      in r1\<lparr>nr_content_status :=
           (if sql_eq (nr_kind r1) (sql_text ''directory'') then sql_text ''not_applicable''
            else if sql_eq (nr_kind r1) (sql_text ''file'') \<and> \<not> is_null (nr_content r1) then sql_text ''present''
            else sql_text ''missing'')\<rparr>)"

definition diagnostic_cells :: "text_codecs \<Rightarrow> nat \<times> diagnostic \<Rightarrow> diagnostic_row" where
  "diagnostic_cells L x =
     \<lparr>dr_position = SqlInt (int (fst x)), dr_severity = SqlText (severity_value (diag_severity (snd x))),
      dr_code = SqlText (diag_code (snd x)), dr_message = SqlText (render L (diag_message (snd x))),
      dr_line_number = cell SqlInt (diag_line_number (snd x))\<rparr>"

definition bind_diagnostic :: "diagnostic_row \<Rightarrow> py_exn + unit" where
  "bind_diagnostic r =
     all_pass (map bind_cell [dr_position r, dr_severity r, dr_code r, dr_message r, dr_line_number r])"

definition diagnostic_violation :: "diagnostic_row \<Rightarrow> string option" where
  "diagnostic_violation r =
     (if not_positive (dr_line_number r) then Some ''CHECK constraint failed: line_number IS NULL OR line_number > 0''
      else None)"

text \<open>\<open>executemany\<close>: the rows are bound and inserted one after the other.\<close>

fun insert_diagnostics :: "diagnostic_row list \<Rightarrow> sql_exn + unit" where
  "insert_diagnostics [] = Inr ()"
| "insert_diagnostics (r # rows) =
     bound (bind_diagnostic r)
       (case diagnostic_violation r of
          Some e \<Rightarrow> Inl (Engine_Error [Txt e])
        | None \<Rightarrow> insert_diagnostics rows)"

definition complete_tables ::
  "text_codecs \<Rightarrow> diagnostic list \<Rightarrow> nat option \<Rightarrow> database \<Rightarrow> sql_exn + database" where
  "complete_tables L ds n d =
     (let rows = map (diagnostic_cells L) (enumerate 0 ds);
          count = int (case n of Some k \<Rightarrow> k | None \<Rightarrow> length ds)
      in case insert_diagnostics rows of
           Inl x \<Rightarrow> Inl x
         | Inr _ \<Rightarrow>
             bound (bind_int count)
               (let d' = d\<lparr>db_nodes := map finish_row (db_nodes d), db_diagnostics := db_diagnostics d @ rows,
                      db_snapshots := map (\<lambda>r. r\<lparr>sr_diagnostic_count := SqlInt count\<rparr>) (db_snapshots d)\<rparr>
                in if foreign_keys_ok d' then Inr d'
                   else Inl (Other_Exn (Raised (persistence_error
                     [Txt ''artifact failed foreign-key validation''])))))"

text \<open>\<open>except SQLiteSchemaError\<close> and the other handlers of \<open>finish\<close>.\<close>

definition finish_error :: "py_exn \<Rightarrow> py_exn" where
  "finish_error x =
     (case x of
        StoreError c m \<Rightarrow>
          if c = ''SQLiteSchemaError'' then schema_error (Txt ''built artifact failed validation: '' # m) else x
      | OSError m \<Rightarrow> persistence_error (Txt ''cannot finalize artifact: '' # m)
      | _ \<Rightarrow> x)"

text \<open>
  Committing writes the temporary file; it is opened once to validate it, published, and opened
  at its destination. Where a validation does not return, neither does \<open>finish\<close>.
\<close>

definition commit_and_publish ::
  "text_codecs \<Rightarrow> os \<Rightarrow> pystr \<Rightarrow> database \<Rightarrow> sqlite_builder \<Rightarrow> ((py_exn + sqlite_store) \<times> sqlite_builder) option" where
  "commit_and_publish L os t d b0 =
     (let b = b0\<lparr>sb_connection := None, sb_files := (sb_files b0)(t \<mapsto> d)\<rparr>
      in case open_sqlite_store L (Database d) of
           None \<Rightarrow> None
         | Some (Inl x) \<Rightarrow> Some (Inl x, b)
         | Some (Inr _) \<Rightarrow>
             (case publish os t (sb_destination b) (sb_overwrite b) (sb_files b) of
                (Some x, fs) \<Rightarrow> Some (Inl x, b\<lparr>sb_files := fs\<rparr>)
              | (None, fs) \<Rightarrow>
                  map_option (\<lambda>r. (r, b\<lparr>sb_files := fs, sb_temporary := None, sb_finished := True\<rparr>))
                    (open_sqlite_store L (case fs (sb_destination b) of Some f \<Rightarrow> Database f | None \<Rightarrow> No_File))))"

definition sqlite_finish ::
  "text_codecs \<Rightarrow> os \<Rightarrow> diagnostic list \<Rightarrow> nat option \<Rightarrow> sqlite_builder \<Rightarrow>
    ((py_exn + sqlite_store) \<times> sqlite_builder) option" where
  "sqlite_finish L os ds n b =
     (case active b of
        Inl x \<Rightarrow> Some (Inl x, b)
      | Inr d \<Rightarrow>
          (case complete_tables L ds n d of
             Inl x \<Rightarrow> Some (Inl (wrap_error ''cannot finalize artifact: '' x), sqlite_abort os b)
           | Inr d' \<Rightarrow>
               (case commit_and_publish L os (the (sb_temporary b)) d' b of
                  None \<Rightarrow> None
                | Some (Inl x, b') \<Rightarrow> Some (Inl (finish_error x), sqlite_abort os b')
                | Some (Inr s, b') \<Rightarrow> Some (Inr s, b'))))"

end
