(* ===== verification/Sqlite_Refinement.thy ===== *)
theory Sqlite_Refinement
  imports Sqlite_Builder Sqlite_Soundness
begin

text \<open>
  The SQLite builder grows the abstract tree of \<open>Node_Tree\<close>: its table lists the rows of the
  tree's nodes in the order of their inodes. A stored value is read back in a normal form (a
  time with a fixed offset, metadata in the order of its JSON text), so the builder refines the
  specification in which a merged node is normalised.
\<close>

section \<open>Reading back\<close>

definition read_back_time :: "text_codecs \<Rightarrow> tzdb \<Rightarrow> datetime \<Rightarrow> datetime" where
  "read_back_time L db t = (case from_isoformat L (isoformat db t) of Inr t' \<Rightarrow> t' | Inl _ \<Rightarrow> t)"

definition read_back_metadata :: "text_codecs \<Rightarrow> metadata \<Rightarrow> metadata" where
  "read_back_metadata L m =
     (case encode_metadata L m of
        Inl _ \<Rightarrow> m
      | Inr js \<Rightarrow>
          (case decode_metadata L (SqlText js) of
             Inl _ \<Rightarrow> m
           | Inr x \<Rightarrow> (case freeze_metadata x of Inl _ \<Rightarrow> m | Inr m' \<Rightarrow> m')))"

definition stored_node :: "text_codecs \<Rightarrow> tzdb \<Rightarrow> mutable_node \<Rightarrow> mutable_node" where
  "stored_node L db n =
     n\<lparr>mn_modified_at := map_option (read_back_time L db) (mn_modified_at n),
       mn_source_metadata := read_back_metadata L (mn_source_metadata n)\<rparr>"

lemma stored_node_sel [simp]:
  "mn_id (stored_node L db n) = mn_id n"
  "mn_parent_id (stored_node L db n) = mn_parent_id n"
  "mn_mounted_name (stored_node L db n) = mn_mounted_name n"
  "mn_original_path (stored_node L db n) = mn_original_path n"
  "mn_kind (stored_node L db n) = mn_kind n"
  "mn_size (stored_node L db n) = mn_size n"
  "mn_content (stored_node L db n) = mn_content n"
  "mn_source_line (stored_node L db n) = mn_source_line n"
  "mn_observation (stored_node L db n) = mn_observation n"
  "mn_modified_at (stored_node L db n) = map_option (read_back_time L db) (mn_modified_at n)"
  "mn_source_metadata (stored_node L db n) = read_back_metadata L (mn_source_metadata n)"
  by (simp_all add: stored_node_def)

lemma stored_node_blank: "blank (stored_node L db n) = stored_node L db (blank n)"
  by (simp add: blank_def stored_node_def)

lemma stores_stored_node: "stores (stored_node L db)"
proof -
  have "freeze_metadata (read_back_metadata L m) = Inr (read_back_metadata L m)"
    if "freeze_metadata m = Inr m" for m
    using that by (auto simp: read_back_metadata_def freeze_metadata_idem split: sum.split)
  then show ?thesis by (simp add: stores_def same_place_def fields_ok_def)
qed

text \<open>
  What is relied on: a time and metadata that the codecs accept are read back, and what was
  read back is written as the same text; an empty mapping is \<open>\{\}\<close>.
\<close>

definition codecs_ok :: "text_codecs \<Rightarrow> bool" where
  "codecs_ok L \<longleftrightarrow> json_dumps L (PyMap []) = Inr (lit ''{}'') \<and> json_loads L (lit ''{}'') = Inr (PyMap [])"

definition time_ok :: "text_codecs \<Rightarrow> tzdb \<Rightarrow> datetime \<Rightarrow> bool" where
  "time_ok L db t \<longleftrightarrow>
     (\<exists>t'. from_isoformat L (isoformat db t) = Inr t' \<and> isoformat db t' = isoformat db t)"

definition metadata_ok :: "text_codecs \<Rightarrow> metadata \<Rightarrow> bool" where
  "metadata_ok L m \<longleftrightarrow>
     (\<exists>js x. encode_metadata L m = Inr js \<and> list_all scalar js \<and> decode_metadata L (SqlText js) = Inr x \<and>
        json_items x \<and> encode_metadata L x = Inr js)"

lemma thaw_json:
  "json_value v \<Longrightarrow> thaw_value v = v"
  by (induction v) (auto simp: list_all_iff intro!: map_idI)

lemma thaw_json_items: "json_items m \<Longrightarrow> thaw_metadata m = m"
  using thaw_json [of "PyMap m"] by (simp add: thaw_metadata_def)

text \<open>Encoding looks only at the thawed metadata.\<close>

lemma encode_metadata_thawed:
  "thaw_metadata m = thaw_metadata m' \<Longrightarrow> encode_metadata L m = encode_metadata L m'"
  by (simp add: encode_metadata_def)

lemma metadata_ok_read_back:
  assumes "metadata_ok L m"
  obtains js x where "encode_metadata L m = Inr js" "list_all scalar js"
    "decode_metadata L (SqlText js) = Inr x" "json_items x" "encode_metadata L x = Inr js"
    "freeze_metadata x = Inr (read_back_metadata L m)"
    "encode_metadata L (read_back_metadata L m) = Inr js"
proof -
  obtain js x where js: "encode_metadata L m = Inr js" "list_all scalar js"
    "decode_metadata L (SqlText js) = Inr x" "json_items x" "encode_metadata L x = Inr js"
    using assms by (auto simp: metadata_ok_def)
  obtain m' where m': "freeze_metadata x = Inr m'" "thaw_metadata m' = x"
    using freeze_thaw(2) [OF js(4)] by (auto simp: freeze_metadata_def)
  then have rb: "read_back_metadata L m = m'" using js by (simp add: read_back_metadata_def)
  have "encode_metadata L m' = encode_metadata L x"
    by (rule encode_metadata_thawed) (simp add: m'(2) thaw_json_items [OF js(4)])
  with js m'(1) rb that show thesis by simp
qed

lemma metadata_ok_empty: "codecs_ok L \<Longrightarrow> metadata_ok L []"
  by (auto simp: metadata_ok_def encode_metadata_def decode_metadata_def codecs_ok_def thaw_metadata_def Let_def)

section \<open>The rows of a tree\<close>

definition opt_int64 :: "int option \<Rightarrow> bool" where
  "opt_int64 v \<longleftrightarrow> (\<forall>i. v = Some i \<longrightarrow> int64 i)"

definition node_json :: "text_codecs \<Rightarrow> mutable_node \<Rightarrow> pystr" where
  "node_json L n = (case encode_metadata L (mn_source_metadata n) of Inr js \<Rightarrow> js | Inl _ \<Rightarrow> [])"

definition row_for :: "text_codecs \<Rightarrow> tzdb \<Rightarrow> pystr \<Rightarrow> mutable_node \<Rightarrow> node_row" where
  "row_for L db sid n = node_cells db sid n (node_json L n)"

text \<open>A node whose row reads back as the node itself.\<close>

definition storable :: "text_codecs \<Rightarrow> tzdb \<Rightarrow> mutable_node \<Rightarrow> bool" where
  "storable L db n \<longleftrightarrow> opt_int64 (mn_size n) \<and> opt_int64 (mn_source_line n) \<and>
     (\<forall>s. mn_size n = Some s \<longrightarrow> 0 \<le> s) \<and> (\<forall>l. mn_source_line n = Some l \<longrightarrow> 0 < l) \<and>
     (\<forall>p. mn_original_path n = Some p \<longrightarrow> list_all scalar p) \<and>
     (\<forall>t. mn_modified_at n = Some t \<longrightarrow> from_isoformat L (isoformat db t) = Inr t) \<and>
     (\<exists>x. decode_metadata L (SqlText (node_json L n)) = Inr x \<and> json_items x \<and>
        encode_metadata L (mn_source_metadata n) = Inr (node_json L n) \<and> list_all scalar (node_json L n) \<and>
        encode_metadata L x = Inr (node_json L n) \<and> freeze_metadata x = Inr (mn_source_metadata n))"

definition stored_metadata :: "text_codecs \<Rightarrow> mutable_node \<Rightarrow> metadata" where
  "stored_metadata L n = (case decode_metadata L (SqlText (node_json L n)) of Inr x \<Rightarrow> x | Inl _ \<Rightarrow> [])"

definition as_read :: "text_codecs \<Rightarrow> mutable_node \<Rightarrow> mutable_node" where
  "as_read L n = n\<lparr>mn_source_metadata := stored_metadata L n\<rparr>"

lemma cell_option [simp]:
  "optional int_value (cell SqlInt v) = v"
  "optional text_value (cell SqlText w) = w"
  "optional blob_value (cell SqlBlob c) = c"
  by (cases v; cases w; cases c; simp add: cell_def optional_def int_value_def text_value_def blob_value_def)+

lemma kind_of_value [simp]: "kind_of (SqlText (node_kind_value k)) = Inr k"
  by (cases k) (simp_all add: kind_of_def enum_of_def)

lemma observation_of_value [simp]: "observation_of (SqlText (observation_value ob)) = Inr ob"
  by (cases ob) (simp_all add: observation_of_def enum_of_def)

lemma storable_time:
  "storable L db n \<Longrightarrow> decode_datetime L (encode_datetime db (mn_modified_at n)) = Inr (mn_modified_at n)"
  by (auto simp: storable_def decode_datetime_def encode_datetime_def split: option.split)

lemma row_mutable_row_for:
  assumes "storable L db n"
  shows "row_mutable L (row_for L db sid n) = Inr (as_read L n)"
proof -
  obtain x where x: "decode_metadata L (SqlText (node_json L n)) = Inr x" using assms by (auto simp: storable_def)
  then show ?thesis using storable_time [OF assms]
    by (cases "mn_observation n"; cases "mn_content n")
      (simp_all add: row_mutable_def row_for_def node_cells_def is_blob_def as_read_def stored_metadata_def
        observation_cell_def cell_def optional_def int_value_def blob_value_def
        cell_option [unfolded cell_def optional_def])
qed

section \<open>Merging\<close>

text \<open>Merging does not look at the metadata of the existing node.\<close>

lemma as_read_sel [simp]:
  "mn_id (as_read L n) = mn_id n"
  "mn_kind (as_read L n) = mn_kind n"
  "mn_size (as_read L n) = mn_size n"
  "mn_content (as_read L n) = mn_content n"
  "mn_modified_at (as_read L n) = mn_modified_at n"
  "mn_observation (as_read L n) = mn_observation n"
  "mn_source_line (as_read L n) = mn_source_line n"
  "mn_original_path (as_read L n) = mn_original_path n"
  "mn_source_metadata (as_read L n) = stored_metadata L n"
  "conflict (as_read L n) e reason = conflict n e reason"
  "apply_entry (as_read L n) e = apply_entry n e"
  by (simp_all add: as_read_def conflict_def apply_entry_def cong: option.case_cong)

lemma merge_as_read:
  obtains d where "merge db n e = Inl d" "merge db (as_read L n) e = Inl d"
  | "merge db n e = Inr n" "merge db (as_read L n) e = Inr (as_read L n)"
  | "merge db n e = Inr (apply_entry n e)" "merge db (as_read L n) e = Inr (apply_entry n e)"
proof -
  have "(\<exists>d. merge db n e = Inl d \<and> merge db (as_read L n) e = Inl d) \<or>
      (merge db n e = Inr n \<and> merge db (as_read L n) e = Inr (as_read L n)) \<or>
      (merge db n e = Inr (apply_entry n e) \<and> merge db (as_read L n) e = Inr (apply_entry n e))"
    by (simp add: merge_def)
  with that show thesis by blast
qed

definition sqlite_entry_ok :: "text_codecs \<Rightarrow> tzdb \<Rightarrow> parsed_entry \<Rightarrow> bool" where
  "sqlite_entry_ok L db e \<longleftrightarrow> entry_ok e \<and> opt_int64 (entry_size e) \<and> opt_int64 (entry_source_line e) \<and>
     (\<forall>s. entry_size e = Some s \<longrightarrow> 0 \<le> s) \<and>
     (\<forall>t. entry_modified_local e = Some t \<longrightarrow> time_ok L db t) \<and> metadata_ok L (entry_source_metadata e)"

lemma time_ok_read_back:
  assumes "time_ok L db t"
  shows "from_isoformat L (isoformat db t) = Inr (read_back_time L db t)"
    and "isoformat db (read_back_time L db t) = isoformat db t"
  using assms by (auto simp: time_ok_def read_back_time_def)

lemma node_json_apply:
  assumes "metadata_ok L (entry_source_metadata e)"
  shows "encode_metadata L (entry_source_metadata e) = Inr (node_json L (stored_node L db (apply_entry n e)))"
proof -
  obtain js where js: "encode_metadata L (entry_source_metadata e) = Inr js"
    "encode_metadata L (read_back_metadata L (entry_source_metadata e)) = Inr js"
    using metadata_ok_read_back [OF assms] by blast
  then have "node_json L (stored_node L db (apply_entry n e)) = js" by (simp add: node_json_def)
  with js(1) show ?thesis by simp
qed

lemma storable_apply:
  assumes e: "sqlite_entry_ok L db e" and path: "list_all scalar (join [slash] (entry_path e))"
  shows "storable L db (stored_node L db (apply_entry n e))"
proof -
  have md: "metadata_ok L (entry_source_metadata e)" using e by (simp add: sqlite_entry_ok_def)
  obtain js x where js: "encode_metadata L (entry_source_metadata e) = Inr js" "list_all scalar js"
    "decode_metadata L (SqlText js) = Inr x" "json_items x" "encode_metadata L x = Inr js"
    "freeze_metadata x = Inr (read_back_metadata L (entry_source_metadata e))"
    "encode_metadata L (read_back_metadata L (entry_source_metadata e)) = Inr js"
    by (rule metadata_ok_read_back [OF md])
  then have "node_json L (stored_node L db (apply_entry n e)) = js" by (simp add: node_json_def)
  with js e path show ?thesis
    using time_ok_read_back by (auto simp: storable_def sqlite_entry_ok_def entry_ok_def)
qed

lemma row_for_apply:
  assumes e: "sqlite_entry_ok L db e"
    and js: "encode_metadata L (entry_source_metadata e) = Inr js"
  shows "updated_row db (apply_entry n e) js (row_for L db sid n) = row_for L db sid (stored_node L db (apply_entry n e))"
proof -
  have md: "metadata_ok L (entry_source_metadata e)" using e by (simp add: sqlite_entry_ok_def)
  have "node_json L (stored_node L db (apply_entry n e)) = js"
    using node_json_apply [OF md, of db n] js by simp
  moreover have "encode_datetime db (map_option (read_back_time L db) (entry_modified_local e)) =
      encode_datetime db (entry_modified_local e)"
    using e time_ok_read_back(2) [of L db] by (auto simp: encode_datetime_def sqlite_entry_ok_def split: option.split)
  ultimately show ?thesis by (simp add: row_for_def node_cells_def updated_row_def)
qed

lemma stored_node_storable: "storable L db n \<Longrightarrow> stored_node L db n = n"
proof -
  assume n: "storable L db n"
  then have "map_option (read_back_time L db) (mn_modified_at n) = mn_modified_at n"
    by (cases "mn_modified_at n") (simp_all add: storable_def read_back_time_def)
  moreover have "read_back_metadata L (mn_source_metadata n) = mn_source_metadata n"
    using n by (auto simp: storable_def read_back_metadata_def)
  ultimately show ?thesis by (simp add: stored_node_def)
qed

section \<open>The table and the tree\<close>

definition rows_hold ::
  "text_codecs \<Rightarrow> tzdb \<Rightarrow> pystr \<Rightarrow> database \<Rightarrow> nodes \<Rightarrow> int \<Rightarrow> bool" where
  "rows_hold L db sid d m k \<longleftrightarrow>
     db_nodes d = map (\<lambda>i. row_for L db sid (the (m i))) [1..k - 1] \<and>
     (\<forall>i n. m i = Some n \<longrightarrow> storable L db n) \<and>
     (\<exists>r. db_snapshots d = [r] \<and> sr_id r = SqlText sid) \<and> list_all scalar sid"

text \<open>Everything but the nodes stays as it is.\<close>

definition same_rest :: "database \<Rightarrow> database \<Rightarrow> bool" where
  "same_rest d d' \<longleftrightarrow> d' = d\<lparr>db_nodes := db_nodes d'\<rparr>"

lemma same_rest_refl [simp]: "same_rest d d"
  by (simp add: same_rest_def)

lemma same_rest_trans: "same_rest d d' \<Longrightarrow> same_rest d' d'' \<Longrightarrow> same_rest d d''"
  unfolding same_rest_def by (cases d; cases d'; cases d'') auto

lemma same_rest_update [simp]: "same_rest d (d\<lparr>db_nodes := rows\<rparr>)"
  by (simp add: same_rest_def)

lemma filter_unique:
  "distinct xs \<Longrightarrow> List.filter (\<lambda>x. x = a) xs = (if a \<in> set xs then [a] else [])"
  by (induction xs) auto

text \<open>The statement that looks up a child finds the row of the child in the tree.\<close>

lemma select_child:
  assumes h: "rows_hold L db sid d m k" and bt: "builder_tree m ch k"
  shows "List.filter (\<lambda>r. sql_eq (nr_mounted_name r) (SqlBlob name)) (child_rows p d) =
    (case ch p name of None \<Rightarrow> [] | Some i \<Rightarrow> [row_for L db sid (the (m i))])"
proof -
  let ?row = "\<lambda>i. row_for L db sid (the (m i))"
  have hit: "sql_eq (nr_mounted_name (?row i)) (SqlBlob name) \<and> sql_eq (nr_parent_id (?row i)) (SqlInt p) \<longleftrightarrow>
      ch p name = Some i" if "i \<in> set [1..k - 1]" for i
  proof -
    have "m i \<noteq> None" using that builder_treeD(2) [OF bt, of i] by simp
    then obtain n where n: "m i = Some n" by blast
    then show ?thesis
      by (cases "mn_parent_id n")
        (auto simp: builder_treeD(4) [OF bt] row_for_def node_cells_def sql_eq_def cell_def)
  qed
  have "List.filter (\<lambda>r. sql_eq (nr_mounted_name r) (SqlBlob name)) (child_rows p d) =
      map ?row (List.filter (\<lambda>i. sql_eq (nr_mounted_name (?row i)) (SqlBlob name) \<and>
        sql_eq (nr_parent_id (?row i)) (SqlInt p)) [1..k - 1])"
    using h by (simp add: rows_hold_def child_rows_def filter_map o_def conj_commute)
  also have "\<dots> = map ?row (List.filter (\<lambda>i. ch p name = Some i) [1..k - 1])"
    by (intro arg_cong [where f = "map ?row"] filter_cong refl) (simp only: hit)
  also have "\<dots> = (case ch p name of None \<Rightarrow> [] | Some i \<Rightarrow> [?row i])"
  proof (cases "ch p name")
    case (Some i)
    with bt obtain n where "m i = Some n" by (rule child_parent)
    then have "i \<in> set [1..k - 1]" using builder_treeD(2) [OF bt, of i] by simp
    then show ?thesis using Some filter_unique [of "[1..k - 1]" i] by (simp add: eq_commute [of i])
  qed simp
  finally show ?thesis .
qed

section \<open>Updating a row\<close>

lemma bind_text_scalar: "list_all scalar s \<Longrightarrow> bind_text s = Inr ()"
  by (auto simp: bind_text_def utf8_encode_None_iff list_all_iff)

lemma bind_cells [simp]:
  "bind_cell SqlNull = Inr ()"
  "bind_cell (SqlBlob b) = Inr ()"
  "bind_cell (SqlInt i) = bind_int i"
  "bind_cell (SqlText s) = bind_text s"
  by (simp_all add: bind_cell_def)

lemma bind_cell_ok:
  "opt_int64 v \<Longrightarrow> bind_cell (cell SqlInt v) = Inr ()"
  "(\<And>s. t = Some s \<Longrightarrow> list_all scalar s) \<Longrightarrow> bind_cell (cell SqlText t) = Inr ()"
  "bind_cell (encode_datetime db time) = Inr ()"
  by (simp_all add: cell_def opt_int64_def bind_int_ok encode_datetime_def bind_text_scalar isoformat_scalar
      split: option.split)

lemma checked_cells:
  "(\<And>s. v = Some s \<Longrightarrow> 0 \<le> s) \<Longrightarrow> \<not> negative (cell SqlInt v)"
  "(\<And>s. v = Some s \<Longrightarrow> 0 < s) \<Longrightarrow> \<not> not_positive (cell SqlInt v)"
  by (cases v; simp add: cell_def negative_def not_positive_def)+

text \<open>The values that the engine takes.\<close>

definition cells_ok :: "mutable_node \<Rightarrow> bool" where
  "cells_ok n \<longleftrightarrow> opt_int64 (mn_size n) \<and> opt_int64 (mn_source_line n) \<and>
     (\<forall>s. mn_size n = Some s \<longrightarrow> 0 \<le> s) \<and> (\<forall>l. mn_source_line n = Some l \<longrightarrow> 0 < l) \<and>
     (\<forall>p. mn_original_path n = Some p \<longrightarrow> list_all scalar p)"

lemma storable_cells: "storable L db n \<Longrightarrow> cells_ok n"
  by (simp add: storable_def cells_ok_def)

lemma update_node_ok:
  assumes "cells_ok n" "int64 (mn_id n)" "list_all scalar js"
  shows "update_node db n js d = Inr (d\<lparr>db_nodes :=
    map (\<lambda>r. if nr_id r = SqlInt (mn_id n) then updated_row db n js r else r) (db_nodes d)\<rparr>)"
proof -
  have "\<not> negative (cell SqlInt (mn_size n))" "\<not> not_positive (cell SqlInt (mn_source_line n))"
    using assms(1) checked_cells by (simp_all add: cells_ok_def)
  then show ?thesis
    using assms by (simp add: update_node_def bound_def bind_cell_ok cells_ok_def bind_int_ok bind_text_scalar)
qed

section \<open>One step\<close>

lemma row_for_id [simp]: "nr_id (row_for L db sid n) = SqlInt (mn_id n)"
  by (simp add: row_for_def node_cells_def)

text \<open>Replacing the row of a node of the tree.\<close>

lemma rows_hold_update:
  assumes h: "rows_hold L db sid d m k" and bt: "builder_tree m ch k" and n: "m i = Some n"
    and upd: "f (row_for L db sid n) = row_for L db sid n'" and n': "storable L db n'"
  shows "rows_hold L db sid
    (d\<lparr>db_nodes := map (\<lambda>r. if nr_id r = SqlInt i then f r else r) (db_nodes d)\<rparr>) (m(i \<mapsto> n')) k"
proof -
  have "(if nr_id (row_for L db sid (the (m j))) = SqlInt i then f (row_for L db sid (the (m j)))
      else row_for L db sid (the (m j))) = row_for L db sid (the ((m(i \<mapsto> n')) j))" if j: "1 \<le> j \<and> j < k" for j
  proof -
    obtain x where x: "m j = Some x" using j builder_treeD(2) [OF bt, of j] by auto
    then have "mn_id x = j" using builder_treeD(3) [OF bt] by (auto simp: node_ok_def)
    with x n upd show ?thesis by (cases "j = i") simp_all
  qed
  then show ?thesis using h n' by (auto simp: rows_hold_def)
qed

text \<open>Merging into a node of the table.\<close>

lemma merge_row_refines:
  assumes h: "rows_hold L db sid d m k" and bt: "builder_tree m ch k" and n: "m i = Some n" and i: "int64 i"
    and e: "sqlite_entry_ok L db e" and path: "list_all scalar (join [slash] (entry_path e))"
  shows "case merge db n e of
      Inl x \<Rightarrow> merge_row L db e (as_read L n) d = (Some (Other_Exn (Build_Error x)), d)
    | Inr n' \<Rightarrow> \<exists>d'. merge_row L db e (as_read L n) d = (None, d') \<and> same_rest d d' \<and>
        rows_hold L db sid d' (m(i \<mapsto> stored_node L db n')) k"
proof -
  have st: "storable L db n" using h n by (simp add: rows_hold_def)
  have id: "mn_id n = i" using builder_treeD(3) [OF bt n] by (simp add: node_ok_def)
  have written: "\<exists>d'. update_node db x js d = Inr d' \<and> same_rest d d' \<and> rows_hold L db sid d' (m(i \<mapsto> n')) k"
    if "cells_ok x" "mn_id x = i" "list_all scalar js" "storable L db n'"
      "updated_row db x js (row_for L db sid n) = row_for L db sid n'" for x js n'
    using update_node_ok [of x js db d] rows_hold_update [where f = "updated_row db x js", OF h bt n] that i by simp
  show ?thesis
  proof (rule merge_as_read [where db = db and n = n and e = e and L = L])
    show ?thesis if "merge db n e = Inl x" "merge db (as_read L n) e = Inl x" for x
      using that by (simp add: merge_row_def)
  next
    assume m: "merge db n e = Inr n" "merge db (as_read L n) e = Inr (as_read L n)"
    have js: "encode_metadata L (stored_metadata L n) = Inr (node_json L n)" "list_all scalar (node_json L n)"
      using st by (auto simp: storable_def stored_metadata_def)
    have "cells_ok (as_read L n)" using storable_cells [OF st] by (simp add: cells_ok_def)
    moreover have "updated_row db (as_read L n) (node_json L n) (row_for L db sid n) = row_for L db sid n"
      by (simp add: updated_row_def row_for_def node_cells_def)
    ultimately show ?thesis
      using m js id st written [of "as_read L n" "node_json L n" n] stored_node_storable [OF st]
      by (auto simp: merge_row_def)
  next
    assume m: "merge db n e = Inr (apply_entry n e)" "merge db (as_read L n) e = Inr (apply_entry n e)"
    obtain js where js: "encode_metadata L (entry_source_metadata e) = Inr js" "list_all scalar js"
      using e by (auto simp: sqlite_entry_ok_def metadata_ok_def)
    have "cells_ok (apply_entry n e)"
      using e path by (auto simp: cells_ok_def sqlite_entry_ok_def entry_ok_def)
    with m js id written [OF this _ js(2) storable_apply [OF e path] row_for_apply [OF e js(1)]] show ?thesis
      by (auto simp: merge_row_def)
  qed
qed

section \<open>Creating a node\<close>

lemma storable_new:
  assumes "codecs_ok L" "list_all scalar q"
  shows "storable L db (new_mutable_node i p name (Some q) kind)"
    and "node_json L (new_mutable_node i p name og kind) = lit ''{}''"
    and "as_read L (new_mutable_node i p name og kind) = new_mutable_node i p name og kind"
proof -
  have enc: "encode_metadata L [] = Inr (lit ''{}'')"
    using assms(1) by (simp add: codecs_ok_def encode_metadata_def thaw_metadata_def)
  have dec: "decode_metadata L (SqlText (lit ''{}'')) = Inr []"
    using assms(1) by (simp add: codecs_ok_def decode_metadata_def Let_def)
  show js: "node_json L (new_mutable_node i p name og kind) = lit ''{}''" for og
    using enc by (simp add: node_json_def EMPTY_METADATA_def)
  show "storable L db (new_mutable_node i p name (Some q) kind)"
    using assms(2) enc dec by (auto simp: storable_def js opt_int64_def EMPTY_METADATA_def freeze_metadata_def)
  show "as_read L (new_mutable_node i p name og kind) = new_mutable_node i p name og kind"
  proof -
    have "stored_metadata L (new_mutable_node i p name og kind) = EMPTY_METADATA"
      using dec by (simp add: stored_metadata_def js EMPTY_METADATA_def)
    then show ?thesis by (simp add: as_read_def new_mutable_node_def)
  qed
qed

lemma new_node_cells_ok: "list_all scalar q \<Longrightarrow> cells_ok (new_mutable_node i p name (Some q) kind)"
  by (simp add: cells_ok_def opt_int64_def)

text \<open>Creating a child that the tree does not have adds its row at the end.\<close>

lemma rows_hold_insert:
  assumes h: "rows_hold L db sid d m k" and bt: "builder_tree m ch k" and c: "codecs_ok L"
    and p: "m p \<noteq> None" and free: "ch p name = None" and k: "k < 2 ^ 63" and q: "list_all scalar q"
    and n: "n = new_mutable_node k (Some p) name (Some q) kind"
  obtains d' where "insert_node db sid n d = Inr d'" "same_rest d d'"
    "rows_hold L db sid d' (m(k \<mapsto> n)) (k + 1)"
proof -
  let ?row = "row_for L db sid n"
  have k2: "2 \<le> k" using builder_treeD(1) [OF bt] .
  have p': "1 \<le> p" "p < k" using p builder_treeD(2) [OF bt, of p] by auto
  have row: "node_cells db sid n (lit ''{}'') = ?row" using storable_new(2) [OF c q] by (simp add: row_for_def n)
  have rows: "db_nodes d = map (\<lambda>i. row_for L db sid (the (m i))) [1..k - 1]"
    and sid: "\<exists>r. db_snapshots d = [r] \<and> sr_id r = SqlText sid" "list_all scalar sid"
    using h by (auto simp: rows_hold_def)
  have ids: "nr_id r \<in> SqlInt ` {1..k - 1}" if r: "r \<in> set (db_nodes d)" for r
  proof -
    obtain i where i: "1 \<le> i \<and> i < k" "r = row_for L db sid (the (m i))" using r unfolding rows by auto
    then obtain x where "m i = Some x" using builder_treeD(2) [OF bt, of i] by auto
    with i builder_treeD(3) [OF bt this] show ?thesis by (auto simp: node_ok_def)
  qed
  have "\<exists>r \<in> set (db_nodes d). nr_id r = SqlInt p"
  proof -
    obtain x where x: "m p = Some x" using p by blast
    then have "nr_id (row_for L db sid (the (m p))) = SqlInt p" using builder_treeD(3) [OF bt x] by (simp add: node_ok_def)
    then show ?thesis using p' by (auto simp: rows)
  qed
  moreover have "\<not> (sql_eq (nr_parent_id r) (SqlInt p) \<and> nr_mounted_name r = SqlBlob name)" if "r \<in> set (db_nodes d)" for r
  proof
    assume a: "sql_eq (nr_parent_id r) (SqlInt p) \<and> nr_mounted_name r = SqlBlob name"
    with that have "r \<in> set (List.filter (\<lambda>r. sql_eq (nr_mounted_name r) (SqlBlob name)) (child_rows p d))"
      by (simp add: child_rows_def sql_eq_def)
    with select_child [OF h bt, of name p] free show False by simp
  qed
  moreover have "nr_id r \<noteq> SqlInt k" if "r \<in> set (db_nodes d)" for r using ids [OF that] by auto
  moreover have cells: "nr_id ?row = SqlInt k" "nr_parent_id ?row = SqlInt p" "nr_mounted_name ?row = SqlBlob name"
    "nr_size ?row = SqlNull" "nr_source_line ?row = SqlNull" "nr_snapshot_id ?row = SqlText sid"
    by (simp_all add: row_for_def node_cells_def n cell_def)
  ultimately have "node_violation d (db_nodes d) ?row = None"
    using sid(1) k2 unfolding node_violation_def cells by (auto simp: not_positive_def negative_def list_ex_iff)
  moreover have "all_pass (map bind_cell [nr_id ?row, nr_snapshot_id ?row, nr_parent_id ?row, nr_original_path ?row,
      nr_size ?row, nr_modified_at ?row, nr_source_line ?row]) = Inr ()"
    using k k2 p' q sid
    by (simp add: row_for_def node_cells_def n bind_cell_ok bind_int_ok int64_def opt_int64_def bind_text_scalar
        cell_def [of SqlText])
  ultimately have ins: "insert_node db sid n d = Inr (d\<lparr>db_nodes := db_nodes d @ [?row]\<rparr>)"
    by (simp add: insert_node_def row bound_def insert_row_def del: all_pass.simps list.map)
  have "[1..k] = [1..k - 1] @ [k]" using k2 upto_rec2 [of 1 k] by simp
  then have "rows_hold L db sid (d\<lparr>db_nodes := db_nodes d @ [?row]\<rparr>) (m(k \<mapsto> n)) (k + 1)"
    using h storable_new(1) [OF c q] by (auto simp: rows_hold_def n)
  with ins that show thesis by simp
qed

section \<open>The loop\<close>

lemma join_scalar:
  assumes "list_all2 mounts_as cs names"
  shows "list_all scalar (join [slash] (take j cs))"
proof -
  have "list_all scalar (join [slash] cs)" if "\<forall>c \<in> set cs. list_all scalar c" for cs
    using that by (induction "[slash]" cs rule: join.induct) (auto simp: slash_def scalar_small)
  moreover have "\<forall>c \<in> set cs. list_all scalar c"
    using assms by (induction rule: list_all2_induct) (simp_all add: mounts_as_def safe_component_def)
  ultimately show ?thesis by (auto dest: in_set_takeD)
qed

text \<open>The loop over the table against the loop over the tree.\<close>

definition loop_agrees ::
  "text_codecs \<Rightarrow> tzdb \<Rightarrow> pystr \<Rightarrow> database \<Rightarrow> diagnostic option \<times> tree_state \<Rightarrow>
    sql_exn option \<times> database \<times> int \<Rightarrow> bool" where
  "loop_agrees L db sid d r s \<longleftrightarrow> (case r of (terr, (m, ch, k)) \<Rightarrow> case s of (serr, d', k') \<Rightarrow>
     serr = map_option (Other_Exn \<circ> Build_Error) terr \<and> k' = k \<and> rows_hold L db sid d' m k \<and> same_rest d d')"

lemma loop_agrees_simp [simp]:
  "loop_agrees L db sid d (terr, (m, ch, k)) (serr, d', k') \<longleftrightarrow>
     serr = map_option (Other_Exn \<circ> Build_Error) terr \<and> k' = k \<and> rows_hold L db sid d' m k \<and> same_rest d d'"
  by (simp add: loop_agrees_def)

lemma loop_agrees_trans: "same_rest d d' \<Longrightarrow> loop_agrees L db sid d' r s \<Longrightarrow> loop_agrees L db sid d r s"
  by (auto simp: loop_agrees_def intro: same_rest_trans)

lemma next_inode_grows:
  "snd (snd (snd (tree_add_loop norm db e index names p st))) \<le> snd (snd st) + int (length names)"
proof (induction names arbitrary: index p st)
  case (Cons name rest)
  have IH: "snd (snd (snd (tree_add_loop norm db e i rest q (m, ch, k)))) \<le> k' + int (length rest)"
    if "k \<le> k'" for i q m ch k k' using Cons.IH [of i q "(m, ch, k)"] that by simp
  show ?case
    by (cases st) (auto simp: Let_def add.assoc [symmetric] split: option.split sum.split intro: order_trans [OF IH [OF order_refl]])
qed simp

text \<open>What one iteration does once the node is there.\<close>

lemma last_component_refines:
  assumes h: "rows_hold L db sid d m k" and bt: "builder_tree m ch k" and n: "m i = Some n" and i: "int64 i"
    and e: "sqlite_entry_ok L db e" and path: "list_all scalar (join [slash] (entry_path e))"
  shows "loop_agrees L db sid d
    (case merge db n e of Inl x \<Rightarrow> (Some x, (m, ch, k)) | Inr n' \<Rightarrow> (None, (m(i \<mapsto> stored_node L db n'), ch, k)))
    (case merge_row L db e (as_read L n) d of (x, d') \<Rightarrow> (x, d', k))"
  using merge_row_refines [OF assms] h by (cases "merge db n e") auto

lemma parent_int64:
  assumes "builder_tree m ch k" "m i = Some n" "k \<le> 2 ^ 63"
  shows "int64 i" "mn_id n = i"
  using assms builder_treeD(2,3) [OF assms(1), of i] by (auto simp: int64_def node_ok_def)

theorem sqlite_add_loop_refines:
  assumes e: "sqlite_entry_ok L db e" and c: "codecs_ok L"
  shows "at_parent (m, ch, k) e upper names p \<Longrightarrow> rows_hold L db sid d m k \<Longrightarrow> k + int (length names) \<le> 2 ^ 63 \<Longrightarrow>
    loop_agrees L db sid d (tree_add_loop (stored_node L db) db e (length upper) names p (m, ch, k))
      (sqlite_add_loop L db sid e (length upper) names p (d, k))"
proof (induction names arbitrary: upper p m ch k d)
  case Nil
  then show ?case by simp
next
  case (Cons name rest)
  note ap = Cons.prems(1) and h = Cons.prems(2)
  obtain pn where bt: "builder_tree m ch k" and w: "walk ch 1 upper = Some p" and pn: "m p = Some pn"
    and path: "list_all2 mounts_as (entry_path e) (upper @ name # rest)"
    using ap by (auto simp: at_parent_def)
  have k: "k < 2 ^ 63" "k + 1 + int (length rest) \<le> 2 ^ 63" using Cons.prems(3) by simp_all
  have p: "bind_int p = Inr ()" using parent_int64(1) [OF bt pn] k by (simp add: bind_int_ok)
  note scalars = join_scalar [OF path]
  have full: "list_all scalar (join [slash] (entry_path e))"
    using scalars [of "length (entry_path e)"] by simp
  define kind where "kind = (if rest = [] then entry_kind e else DIRECTORY)"
  note sel = select_child [OF h bt, of name p]
  show ?case
  proof (cases "ch p name")
    case None
    define n where "n = new_mutable_node k (Some p) name
      (Some (join [slash] (take (length upper + 1) (entry_path e)))) kind"
    note cr = at_parent_create [OF ap None n_def]
    obtain d' where d': "insert_node db sid n d = Inr d'" "same_rest d d'"
      "rows_hold L db sid d' (m(k \<mapsto> n)) (k + 1)"
      by (rule rows_hold_insert [OF h bt c _ None k(1) scalars n_def]) (use pn in simp)
    have read: "as_read L n = n" unfolding n_def by (rule storable_new(3) [OF c scalars])
    have n_id: "mn_id n = k" by (simp add: n_def)
    have ik: "int64 k" using k(1) builder_treeD(1) [OF bt] by (simp add: int64_def)
    show ?thesis
    proof (cases "rest = []")
      case True
      have "loop_agrees L db sid d'
          (case merge db n e of Inl x \<Rightarrow> (Some x, (m(k \<mapsto> n), insert_child ch p name k, k + 1))
            | Inr n' \<Rightarrow> (None, ((m(k \<mapsto> n))(k \<mapsto> stored_node L db n'), insert_child ch p name k, k + 1)))
          (case merge_row L db e (as_read L n) d' of (x, d'') \<Rightarrow> (x, d'', k + 1))"
        by (rule last_component_refines [OF d'(3) cr(1) _ ik e full]) simp
      from loop_agrees_trans [OF d'(2) this [unfolded read]] show ?thesis
        using None True d'(1) sel p by (cases "merge db n e") (simp_all add: Let_def n_def kind_def)
    next
      case False
      then have dir: "kind = DIRECTORY" by (simp add: kind_def)
      have "loop_agrees L db sid d'
          (tree_add_loop (stored_node L db) db e (length (upper @ [name])) rest k
            (m(k \<mapsto> n), insert_child ch p name k, k + 1))
          (sqlite_add_loop L db sid e (length (upper @ [name])) rest k (d', k + 1))"
        by (rule Cons.IH [OF cr(4) [OF dir] d'(3)]) (use k(2) in simp)
      from loop_agrees_trans [OF d'(2) this] show ?thesis
        using None False d'(1) [unfolded n_def dir] sel p by (simp add: Let_def n_def dir)
    qed
  next
    case (Some i)
    with bt obtain n where n: "m i = Some n" by (rule child_parent)
    have i: "int64 i" "mn_id n = i" using parent_int64 [OF bt n] k by simp_all
    have "storable L db n" using h n by (simp add: rows_hold_def)
    then have read: "row_mutable L (row_for L db sid n) = Inr (as_read L n)" by (rule row_mutable_row_for)
    show ?thesis
    proof (cases "mn_kind n = kind")
      case False
      then show ?thesis using Some n sel p read h by (auto simp: Let_def kind_def)
    next
      case True
      show ?thesis
      proof (cases "rest = []")
        case rest: True
        with last_component_refines [OF h bt n i(1) e full] Some n True sel p read i(2) show ?thesis
          by (cases "merge db n e") (simp_all add: Let_def kind_def)
      next
        case rest: False
        with True at_parent_enter [OF ap Some n] have "at_parent (m, ch, k) e (upper @ [name]) rest i"
          by (simp add: kind_def)
        from Cons.IH [OF this h] k(2) Some n True sel p read i(2) rest show ?thesis
          by (simp add: Let_def kind_def)
      qed
    qed
  qed
qed

section \<open>The tree of a table\<close>

definition thawed_node :: "mutable_node \<Rightarrow> mutable_node option" where
  "thawed_node n =
     (case freeze_metadata (mn_source_metadata n) of Inl _ \<Rightarrow> None | Inr md \<Rightarrow> Some (n\<lparr>mn_source_metadata := md\<rparr>))"

definition table_nodes :: "text_codecs \<Rightarrow> database \<Rightarrow> nodes" where
  "table_nodes L d i =
     (case find (\<lambda>r. nr_id r = SqlInt i) (db_nodes d) of
        None \<Rightarrow> None
      | Some r \<Rightarrow> (case row_mutable L r of Inl _ \<Rightarrow> None | Inr n \<Rightarrow> thawed_node n))"

definition table_children :: "database \<Rightarrow> child_map" where
  "table_children d p name =
     (case List.filter (\<lambda>r. sql_eq (nr_mounted_name r) (SqlBlob name)) (child_rows p d) of
        [] \<Rightarrow> None
      | r # _ \<Rightarrow> Some (int_value (nr_id r)))"

lemma thawed_as_read:
  assumes "storable L db n"
  shows "thawed_node (as_read L n) = Some n"
proof -
  have "freeze_metadata (stored_metadata L n) = Inr (mn_source_metadata n)"
    using assms by (auto simp: storable_def stored_metadata_def)
  then show ?thesis by (simp add: thawed_node_def) (simp add: as_read_def)
qed

lemma find_map_upto:
  assumes "\<And>j. j \<in> set xs \<Longrightarrow> P (f j) \<longleftrightarrow> j = i"
  shows "find P (map f xs) = (if i \<in> set xs then Some (f i) else None)"
  using assms by (induction xs) auto

lemma rows_hold_tree:
  assumes h: "rows_hold L db sid d m k" and bt: "builder_tree m ch k"
  shows "table_nodes L d = m" and "table_children d = ch"
proof -
  have row: "mn_id (the (m j)) = j" if j: "j \<in> set [1..k - 1]" for j
  proof -
    obtain n where n: "m j = Some n" using j builder_treeD(2) [OF bt, of j] by auto
    then show ?thesis using builder_treeD(3) [OF bt n] by (simp add: node_ok_def)
  qed
  have "find (\<lambda>r. nr_id r = SqlInt i) (db_nodes d) =
      (if i \<in> set [1..k - 1] then Some (row_for L db sid (the (m i))) else None)" for i
  proof -
    have "db_nodes d = map (\<lambda>i. row_for L db sid (the (m i))) [1..k - 1]" using h by (simp add: rows_hold_def)
    then show ?thesis by (simp only:) (rule find_map_upto, simp add: row)
  qed
  then have find: "find (\<lambda>r. nr_id r = SqlInt i) (db_nodes d) =
      map_option (row_for L db sid) (m i)" for i
    using builder_treeD(2) [OF bt, of i] by (cases "m i") auto
  have "row_mutable L (row_for L db sid n) = Inr (as_read L n)" "thawed_node (as_read L n) = Some n"
    if "m i = Some n" for i n
  proof -
    have "storable L db n" using h that by (simp add: rows_hold_def)
    then show "row_mutable L (row_for L db sid n) = Inr (as_read L n)" "thawed_node (as_read L n) = Some n"
      by (rule row_mutable_row_for, rule thawed_as_read)
  qed
  then have "table_nodes L d i = m i" for i
    by (cases "m i") (simp_all add: table_nodes_def find)
  then show "table_nodes L d = m" ..
  have "mn_id (the (m i)) = i" if "ch p name = Some i" for p name i
    by (rule row) (use child_parent [OF bt that] builder_treeD(2) [OF bt, of i] in auto)
  then show "table_children d = ch"
    using select_child [OF h bt] by (auto simp: table_children_def fun_eq_iff int_value_def split: option.split)
qed

section \<open>The builder\<close>

definition sqlite_builder_ok :: "text_codecs \<Rightarrow> tzdb \<Rightarrow> sqlite_builder \<Rightarrow> bool" where
  "sqlite_builder_ok L db b \<longleftrightarrow> \<not> sb_finished b \<and>
     (\<exists>d. sb_connection b = Some d \<and> builder_tree (table_nodes L d) (table_children d) (sb_next_inode b) \<and>
        rows_hold L db (snapshot_id (sb_snapshot b)) d (table_nodes L d) (sb_next_inode b))"

definition sqlite_view :: "text_codecs \<Rightarrow> sqlite_builder \<Rightarrow> path_tree" where
  "sqlite_view L b =
     (case sb_connection b of
        None \<Rightarrow> (\<lambda>_. None)
      | Some d \<Rightarrow> view (table_nodes L d) (table_children d))"

lemma sqlite_builder_okI:
  assumes "\<not> sb_finished b" "sb_connection b = Some d" "builder_tree m ch (sb_next_inode b)"
    "rows_hold L db (snapshot_id (sb_snapshot b)) d m (sb_next_inode b)"
  shows "sqlite_builder_ok L db b" and "sqlite_view L b = view m ch"
  using assms rows_hold_tree [OF assms(4,3)] by (simp_all add: sqlite_builder_ok_def sqlite_view_def)

lemma sqlite_builder_okE:
  assumes "sqlite_builder_ok L db b"
  obtains d m ch where "active b = Inr d" "sb_connection b = Some d" "\<not> sb_finished b" "builder_tree m ch (sb_next_inode b)"
    "rows_hold L db (snapshot_id (sb_snapshot b)) d m (sb_next_inode b)" "sqlite_view L b = view m ch"
  using assms by (auto simp: sqlite_builder_ok_def sqlite_view_def active_def)

theorem sqlite_add_spec:
  assumes b: "sqlite_builder_ok L db b" and c: "codecs_ok L" and e: "sqlite_entry_ok L db e"
    and room: "sb_next_inode b + int (length (entry_path e)) \<le> 2 ^ 63"
  obtains err b' where "sqlite_add L db e b = (err, b')" "sqlite_builder_ok L db b'"
    "sb_next_inode b' \<le> sb_next_inode b + int (length (entry_path e))"
    "b' = b\<lparr>sb_connection := sb_connection b', sb_next_inode := sb_next_inode b'\<rparr>"
    "same_rest (the (sb_connection b)) (the (sb_connection b'))"
    "case spec_add_by (stored_node L db) db e (sqlite_view L b) of
       Inl x \<Rightarrow> err = Some (Build_Error x)
     | Inr t \<Rightarrow> err = None \<and> sqlite_view L b' = t"
proof -
  obtain d m ch where d: "active b = Inr d" "sb_connection b = Some d" "\<not> sb_finished b"
    and bt: "builder_tree m ch (sb_next_inode b)"
    and h: "rows_hold L db (snapshot_id (sb_snapshot b)) d m (sb_next_inode b)" and v: "sqlite_view L b = view m ch"
    by (rule sqlite_builder_okE [OF b])
  obtain js where js: "encode_metadata L (entry_source_metadata e) = Inr js"
    using e by (auto simp: sqlite_entry_ok_def metadata_ok_def)
  show thesis
  proof (cases "components e")
    case (Inl x)
    with that [of "Some (Build_Error x)" b] b d js show thesis by (simp add: sqlite_add_def spec_add_by_def)
  next
    case (Inr names)
    let ?sid = "snapshot_id (sb_snapshot b)"
    have len: "length names = length (entry_path e)" using Inr by (auto simp: components_iff dest: list_all2_lengthD)
    obtain terr m' ch' k' where t: "tree_add_loop (stored_node L db) db e 0 names 1 (m, ch, sb_next_inode b) = (terr, (m', ch', k'))"
      by (metis prod_cases4)
    obtain serr d' k'' where s: "sqlite_add_loop L db ?sid e 0 names 1 (d, sb_next_inode b) = (serr, d', k'')"
      by (metis prod_cases3)
    have "loop_agrees L db ?sid d (terr, (m', ch', k')) (serr, d', k'')"
      using sqlite_add_loop_refines [OF e c at_parent_start [OF bt Inr] h] room len s t by simp
    then have sim: "serr = map_option (Other_Exn \<circ> Build_Error) terr" "k'' = k'" "rows_hold L db ?sid d' m' k'" "same_rest d d'"
      by simp_all
    have bt': "builder_tree m' ch' k'"
      using tree_add_inv [OF stores_stored_node _ bt Inr, of L db db] e t by (simp add: sqlite_entry_ok_def)
    have ref: "agrees (terr, (m', ch', k')) (spec_add_by (stored_node L db) db e (view m ch))"
      using tree_add_refines_by [where norm = "stored_node L db" and db = db, OF stored_node_blank bt Inr] t by simp
    have grow: "k' \<le> sb_next_inode b + int (length (entry_path e))"
      using next_inode_grows [of "stored_node L db" db e 0 names 1 "(m, ch, sb_next_inode b)"] t len by simp
    define b' where "b' = b\<lparr>sb_connection := Some d', sb_next_inode := k'\<rparr>"
    have b': "sqlite_builder_ok L db b'" "sqlite_view L b' = view m' ch'"
      by (rule sqlite_builder_okI [where d = d']; use sim bt' d in \<open>simp add: b'_def\<close>)+
    have add: "sqlite_add L db e b = (map_option Build_Error terr, b')"
      using js d Inr s sim by (cases terr) (simp_all add: sqlite_add_def b'_def)
    show thesis
      by (rule that [OF add b'(1)]) (use grow ref b'(2) v d sim(4) in \<open>auto simp: b'_def split: sum.split\<close>)
  qed
qed

end
