(* ===== verification/Sqlite_Finish.thy ===== *)
theory Sqlite_Finish
  imports Sqlite_Refinement
begin

text \<open>
  From the first table to the published artifact: what the constructor of the SQLite builder
  writes, and that \<open>finish\<close> completes the table of a tree to an artifact that passes the
  validation and whose store shows that tree.
\<close>

section \<open>The first rows\<close>

text \<open>A snapshot that can be written and read.\<close>

definition snapshot_storable :: "text_codecs \<Rightarrow> tzdb \<Rightarrow> snapshot \<Rightarrow> bool" where
  "snapshot_storable L db sn \<longleftrightarrow> list_all scalar (snapshot_id sn) \<and> list_all scalar (snapshot_source_uri sn) \<and>
     list_all scalar (snapshot_source_format sn) \<and> time_ok L db (snapshot_imported_at sn) \<and>
     metadata_ok L (snapshot_source_metadata sn)"

definition first_row :: "text_codecs \<Rightarrow> tzdb \<Rightarrow> snapshot \<Rightarrow> snapshot_row" where
  "first_row L db sn =
     \<lparr>sr_id = SqlText (snapshot_id sn), sr_source_uri = SqlText (snapshot_source_uri sn),
      sr_source_format = SqlText (snapshot_source_format sn),
      sr_imported_at = SqlText (isoformat db (snapshot_imported_at sn)),
      sr_metadata_json = SqlText (case encode_metadata L (snapshot_source_metadata sn) of Inr js \<Rightarrow> js | Inl _ \<Rightarrow> []),
      sr_diagnostic_count = SqlInt 0\<rparr>"

definition first_database :: "text_codecs \<Rightarrow> tzdb \<Rightarrow> snapshot \<Rightarrow> database" where
  "first_database L db sn = (create_schema empty_database)\<lparr>db_snapshots := [first_row L db sn]\<rparr>"

lemma insert_snapshot_ok:
  assumes "snapshot_storable L db sn"
  shows "insert_snapshot L db sn (create_schema empty_database) = Inr (first_database L db sn)"
proof -
  obtain js where "encode_metadata L (snapshot_source_metadata sn) = Inr js" "list_all scalar js"
    using assms by (auto simp: snapshot_storable_def metadata_ok_def)
  then show ?thesis using assms
    by (simp add: insert_snapshot_def first_database_def first_row_def snapshot_storable_def Let_def
        encode_datetime_def bind_text_scalar isoformat_scalar create_schema_def empty_database_def)
qed

lemma storable_root:
  assumes "codecs_ok L"
  shows "storable L db root_node"
proof -
  have "storable L db (new_mutable_node 1 None [] (Some []) DIRECTORY)"
    by (rule storable_new(1) [OF assms]) simp
  moreover have "node_json L root_node = node_json L (new_mutable_node 1 None [] (Some []) DIRECTORY)"
    by (simp add: node_json_def root_node_def)
  ultimately show ?thesis by (simp add: storable_def root_node_def)
qed

theorem initial_tables_ok:
  assumes sn: "snapshot_storable L db sn" and c: "codecs_ok L"
  obtains d where "initial_tables L db sn = Inr d" "same_rest (first_database L db sn) d"
    "rows_hold L db (snapshot_id sn) d [1 \<mapsto> root_node] 2"
proof -
  let ?row = "row_for L db (snapshot_id sn) root_node" and ?d = "first_database L db sn"
  have "node_json L root_node = lit ''{}''"
    unfolding root_node_def by (rule storable_new(2) [OF c, of "[]"]) simp
  then have row: "node_cells db (snapshot_id sn) root_node (lit ''{}'') = ?row" by (simp add: row_for_def)
  have cells: "nr_id ?row = SqlInt 1" "nr_parent_id ?row = SqlNull" "nr_size ?row = SqlNull"
    "nr_source_line ?row = SqlNull" "nr_snapshot_id ?row = SqlText (snapshot_id sn)" "nr_original_path ?row = SqlNull"
    "nr_modified_at ?row = SqlNull"
    by (simp_all add: row_for_def node_cells_def root_node_def cell_def encode_datetime_def)
  have empty: "db_nodes ?d = []" "db_snapshots ?d = [first_row L db sn]" "sr_id (first_row L db sn) = SqlText (snapshot_id sn)"
    by (simp_all add: first_database_def create_schema_def empty_database_def first_row_def)
  have "insert_node db (snapshot_id sn) root_node ?d = Inr (?d\<lparr>db_nodes := [?row]\<rparr>)"
    using sn unfolding insert_node_def row Let_def cells insert_row_def node_violation_def empty
    by (simp add: bound_def bind_int_ok int64_def bind_text_scalar snapshot_storable_def not_positive_def negative_def cells empty(3))
  then have "initial_tables L db sn = Inr (?d\<lparr>db_nodes := [?row]\<rparr>)"
    by (simp add: initial_tables_def insert_snapshot_ok [OF sn] flip: root_node_def)
  moreover have "rows_hold L db (snapshot_id sn) (?d\<lparr>db_nodes := [?row]\<rparr>) [1 \<mapsto> root_node] 2"
    using sn storable_root [OF c] empty by (auto simp: rows_hold_def snapshot_storable_def first_row_def)
  ultimately show thesis by (rule that [OF _ same_rest_update])
qed

section \<open>The finished rows\<close>

definition finished_row :: "text_codecs \<Rightarrow> tzdb \<Rightarrow> pystr \<Rightarrow> mutable_node \<Rightarrow> node_row" where
  "finished_row L db sid n = (row_for L db sid n)
     \<lparr>nr_content := cell SqlBlob (fst (content_values n)),
      nr_content_status := SqlText (content_status_value (snd (content_values n)))\<rparr>"

lemma finish_row_for: "finish_row (row_for L db sid n) = finished_row L db sid n"
  by (cases "mn_kind n"; cases "mn_size n"; cases "mn_content n")
    (simp_all add: finish_row_def finished_row_def row_for_def node_cells_def content_values_def cell_def
      sql_eq_def sql_text_def Let_def)

lemma finished_cells [simp]:
  "nr_id (finished_row L db sid n) = SqlInt (mn_id n)"
  "nr_snapshot_id (finished_row L db sid n) = SqlText sid"
  "nr_parent_id (finished_row L db sid n) = cell SqlInt (mn_parent_id n)"
  "nr_mounted_name (finished_row L db sid n) = SqlBlob (mn_mounted_name n)"
  "nr_original_path (finished_row L db sid n) = cell SqlText (mn_original_path n)"
  "nr_kind (finished_row L db sid n) = SqlText (node_kind_value (mn_kind n))"
  "nr_size (finished_row L db sid n) = cell SqlInt (mn_size n)"
  "nr_modified_at (finished_row L db sid n) = encode_datetime db (mn_modified_at n)"
  "nr_content (finished_row L db sid n) = cell SqlBlob (fst (content_values n))"
  "nr_content_status (finished_row L db sid n) = SqlText (content_status_value (snd (content_values n)))"
  "nr_content_ref (finished_row L db sid n) = SqlNull"
  "nr_source_line (finished_row L db sid n) = cell SqlInt (mn_source_line n)"
  "nr_observation (finished_row L db sid n) = observation_cell (mn_observation n)"
  "nr_metadata_json (finished_row L db sid n) = SqlText (node_json L n)"
  by (simp_all add: finished_row_def row_for_def node_cells_def)

lemma status_of_value [simp]: "status_of (SqlText (content_status_value st)) = Inr st"
  by (cases st) (simp_all add: status_of_def enum_of_def)

text \<open>A finished row is the node of the tree.\<close>

lemma finished_row_node:
  assumes st: "storable L db n" and ok: "fields_ok n"
  shows "row_node L (finished_row L db sid n) = Inr (node_of sid n)"
proof -
  obtain x where x: "decode_metadata L (SqlText (node_json L n)) = Inr x" "freeze_metadata x = Inr (mn_source_metadata n)"
    using st by (auto simp: storable_def)
  have "make_node ((node_of sid n)\<lparr>node_source_metadata := x\<rparr>) = Inr (node_of sid n)"
  proof -
    obtain n' where n': "make_node ((node_of sid n)\<lparr>node_source_metadata := x\<rparr>) = Inr n'"
      using make_node_iff [of "(node_of sid n)\<lparr>node_source_metadata := x\<rparr>"] node_of_content_ok [OF ok, of sid] x(2)
      by auto
    with make_node_fields [OF n'] x(2) show ?thesis by (auto simp: node_of_def split: prod.splits)
  qed
  moreover have "cell SqlBlob c = SqlNull \<or> is_blob (cell SqlBlob c)" for c
    by (cases c) (simp_all add: cell_def is_blob_def)
  moreover have "(node_of sid n)\<lparr>node_source_metadata := x\<rparr> =
      \<lparr>node_id = mn_id n, node_snapshot_id = sid, node_parent_id = mn_parent_id n,
       node_mounted_name = mn_mounted_name n, node_original_path = mn_original_path n, node_kind = mn_kind n,
       node_size = mn_size n, node_modified_at = mn_modified_at n, node_content = fst (content_values n),
       node_content_status = snd (content_values n), node_content_ref = None,
       node_source_line = mn_source_line n, node_source_metadata = x\<rparr>"
    by (simp add: node_of_def split: prod.split)
  ultimately show ?thesis
    using x(1) storable_time [OF st]
    by (simp add: row_node_def is_blob_def int_value_def [of "SqlInt _"] text_value_def [of "SqlText _"]
        blob_value_def [of "SqlBlob _"] optional_def [of text_value SqlNull] split: sql_value.splits)
qed

section \<open>The finished tables\<close>

definition finished_nodes :: "text_codecs \<Rightarrow> tzdb \<Rightarrow> pystr \<Rightarrow> nodes \<Rightarrow> int \<Rightarrow> node_row list" where
  "finished_nodes L db sid m k = map (\<lambda>i. finished_row L db sid (the (m i))) [1..k - 1]"

definition finished_database ::
  "text_codecs \<Rightarrow> tzdb \<Rightarrow> snapshot \<Rightarrow> nodes \<Rightarrow> int \<Rightarrow> diagnostic list \<Rightarrow> nat \<Rightarrow> database" where
  "finished_database L db sn m k ds n = (first_database L db sn)
     \<lparr>db_nodes := finished_nodes L db (snapshot_id sn) m k,
      db_diagnostics := map (diagnostic_cells L) (enumerate 0 ds),
      db_snapshots := [(first_row L db sn)\<lparr>sr_diagnostic_count := SqlInt (int n)\<rparr>]\<rparr>"

text \<open>Diagnostics that can be stored, no more of them than their number says.\<close>

definition reportable :: "text_codecs \<Rightarrow> diagnostic list \<Rightarrow> nat \<Rightarrow> bool" where
  "reportable L ds n \<longleftrightarrow> length ds \<le> n \<and> int n < 2 ^ 63 \<and>
     (\<forall>x \<in> set ds. diagnostic_ok x \<and> opt_int64 (diag_line_number x) \<and> list_all scalar (render L (diag_message x)))"

lemma finished_database_sel [simp]:
  "db_application_id (finished_database L db sn m k ds n) = APPLICATION_ID"
  "db_user_version (finished_database L db sn m k ds n) = SCHEMA_VERSION"
  "db_quick_check (finished_database L db sn m k ds n)"
  "db_catalogue (finished_database L db sn m k ds n) = created_catalogue"
  "db_nodes (finished_database L db sn m k ds n) = finished_nodes L db (snapshot_id sn) m k"
  "db_diagnostics (finished_database L db sn m k ds n) = map (diagnostic_cells L) (enumerate 0 ds)"
  "db_snapshots (finished_database L db sn m k ds n) = [(first_row L db sn)\<lparr>sr_diagnostic_count := SqlInt (int n)\<rparr>]"
  by (simp_all add: finished_database_def first_database_def create_schema_def empty_database_def)

text \<open>The rows of a tree of storable nodes.\<close>

definition table_of :: "text_codecs \<Rightarrow> tzdb \<Rightarrow> nodes \<Rightarrow> child_map \<Rightarrow> int \<Rightarrow> bool" where
  "table_of L db m ch k \<longleftrightarrow> builder_tree m ch k \<and> (\<forall>i n. m i = Some n \<longrightarrow> storable L db n) \<and> k \<le> 2 ^ 63"

lemma table_ofD:
  assumes "table_of L db m ch k" "m i = Some n"
  shows "storable L db n" "mn_id n = i" "1 \<le> i" "i < k" "int64 i" "fields_ok n" "node_ok m i n"
proof -
  have bt: "builder_tree m ch k" "k \<le> 2 ^ 63" using assms(1) by (simp_all add: table_of_def)
  show "storable L db n" using assms by (simp add: table_of_def)
  show ok: "node_ok m i n" using bt(1) assms(2) by (rule builder_treeD(3))
  then show "mn_id n = i" "fields_ok n" by (simp_all add: node_ok_def)
  show "1 \<le> i" "i < k" using assms(2) builder_treeD(2) [OF bt(1), of i] by auto
  with bt(2) show "int64 i" by (simp add: int64_def)
qed

lemma set_finished_nodes:
  assumes "table_of L db m ch k"
  shows "set (finished_nodes L db sid m k) = {finished_row L db sid n |i n. m i = Some n}"
proof -
  have bt: "builder_tree m ch k" using assms by (simp add: table_of_def)
  have "1 \<le> i \<and> i < k \<longleftrightarrow> (\<exists>n. m i = Some n)" for i using builder_treeD(2) [OF bt, of i] by auto
  then show ?thesis by (force simp: finished_nodes_def)
qed

text \<open>The statements of \<open>finish\<close> make these tables.\<close>

lemma finished_parent:
  assumes t: "table_of L db m ch k" and n: "m i = Some n" and p: "mn_parent_id n = Some p"
  obtains pn where "m p = Some pn" "mn_kind pn = DIRECTORY" "p < i"
  using table_ofD(7) [OF t n] p by (auto simp: node_ok_def split: if_splits)

lemma finished_foreign_keys:
  assumes t: "table_of L db m ch k"
  shows "foreign_keys_ok (finished_database L db sn m k ds n)"
proof -
  have parents: "cell SqlInt (mn_parent_id x) = SqlNull \<or>
      cell SqlInt (mn_parent_id x) \<in> nr_id ` set (finished_nodes L db (snapshot_id sn) m k)" if x: "m i = Some x" for i x
  proof (cases "mn_parent_id x")
    case (Some p)
    obtain pn where pn: "m p = Some pn" by (rule finished_parent [OF t x Some])
    then have "finished_row L db (snapshot_id sn) pn \<in> set (finished_nodes L db (snapshot_id sn) m k)"
      using set_finished_nodes [OF t] by blast
    moreover have "nr_id (finished_row L db (snapshot_id sn) pn) = SqlInt p" using table_ofD(2) [OF t pn] by simp
    ultimately show ?thesis using Some by (auto simp: cell_def image_iff intro!: bexI)
  qed (simp add: cell_def)
  have "is_null (nr_parent_id r) \<or> nr_parent_id r \<in> nr_id ` set (finished_nodes L db (snapshot_id sn) m k)"
    "nr_snapshot_id r = SqlText (snapshot_id sn)"
    if r: "r \<in> set (finished_nodes L db (snapshot_id sn) m k)" for r
  proof -
    obtain i x where x: "m i = Some x" "r = finished_row L db (snapshot_id sn) x"
      using r unfolding set_finished_nodes [OF t] by blast
    with parents [OF x(1)] show "is_null (nr_parent_id r) \<or> nr_parent_id r \<in> nr_id ` set (finished_nodes L db (snapshot_id sn) m k)"
      "nr_snapshot_id r = SqlText (snapshot_id sn)" by simp_all
  qed
  then show ?thesis by (simp add: foreign_keys_ok_def list_all_iff first_row_def)
qed

lemma bind_diagnostic_ok:
  assumes "diagnostic_ok x" "opt_int64 (diag_line_number x)" "list_all scalar (render L (diag_message x))"
    "int64 (int i)"
  shows "bind_diagnostic (diagnostic_cells L (i, x)) = Inr ()"
proof -
  have "list_all scalar (severity_value s)" for s by (cases s) (simp_all add: scalar_lit)
  then show ?thesis using assms
    by (simp add: bind_diagnostic_def diagnostic_cells_def bind_int_ok bind_text_scalar bind_cell_ok diagnostic_ok_def)
qed

theorem complete_tables_ok:
  assumes h: "rows_hold L db (snapshot_id sn) d m k" and same: "same_rest (first_database L db sn) d"
    and t: "table_of L db m ch k" and r: "reportable L ds n"
  shows "complete_tables L ds (Some n) d = Inr (finished_database L db sn m k ds n)"
proof -
  define rows where "rows = map (diagnostic_cells L) (enumerate 0 ds)"
  have d: "d = (first_database L db sn)\<lparr>db_nodes := map (\<lambda>i. row_for L db (snapshot_id sn) (the (m i))) [1..k - 1]\<rparr>"
    using h same by (simp add: rows_hold_def same_rest_def)
  have "bind_diagnostic x = Inr () \<and> \<not> not_positive (dr_line_number x)" if x: "x \<in> set rows" for x
  proof -
    obtain i y where y: "x = diagnostic_cells L (i, y)" "i < length ds" "y \<in> set ds"
      using x by (auto simp: rows_def in_set_enumerate_eq)
    then have "int64 (int i)" using r by (simp add: reportable_def int64_def)
    with y r have "bind_diagnostic x = Inr ()" by (simp add: reportable_def bind_diagnostic_ok)
    moreover have "\<not> not_positive (dr_line_number x)"
      using checked_cells(2) [of "diag_line_number y"] y r by (simp add: reportable_def diagnostic_ok_def diagnostic_cells_def)
    ultimately show ?thesis by simp
  qed
  then have "\<forall>x \<in> set rows. bind_diagnostic x = Inr () \<and> \<not> not_positive (dr_line_number x)" by blast
  then have binds: "insert_diagnostics rows = Inr ()"
    by (induction rows) (simp_all add: bound_def diagnostic_violation_def)
  have "d\<lparr>db_nodes := map finish_row (db_nodes d), db_diagnostics := db_diagnostics d @ rows,
      db_snapshots := map (\<lambda>r. r\<lparr>sr_diagnostic_count := SqlInt (int n)\<rparr>) (db_snapshots d)\<rparr> =
      finished_database L db sn m k ds n"
    by (simp add: d rows_def finished_database_def finished_nodes_def finish_row_for o_def first_database_def create_schema_def
        empty_database_def)
  then show ?thesis
    using r finished_foreign_keys [OF t]
    by (simp only: complete_tables_def rows_def [symmetric] Let_def binds option.case sum.case)
      (simp add: bound_def bind_int_ok int64_def reportable_def)
qed

section \<open>The finished rows pass the checks\<close>

lemma finished_class:
  "\<not> node_class_bad (finished_row L db sid n)"
  by (auto simp: node_class_bad_def is_int_def is_text_def is_blob_def cell_def encode_datetime_def observation_cell_def
      split: option.splits)

lemma finished_content:
  assumes "fields_ok n"
  shows "\<not> content_bad (finished_row L db sid n)"
proof -
  have size: "mn_kind n = FILE \<Longrightarrow> mn_content n = Some c \<Longrightarrow> mn_size n = Some (int (length c))" for c
    using assms by (simp add: fields_ok_def)
  have dir: "mn_kind n = DIRECTORY \<Longrightarrow> mn_size n = None \<and> mn_content n = None"
    using assms by (simp add: fields_ok_def)
  note defs = content_bad_def directory_content_bad_def file_content_bad_def sql_eq_def sql_ne_def sql_text_def
    in_texts_def not_in_texts_def sql_length_def cell_def content_values_def Let_def
  show ?thesis
  proof (cases "mn_kind n")
    case FILE
    then show ?thesis using size
      by (cases "mn_content n"; cases "mn_size n = Some 0") (auto simp: defs split: option.splits)
  next
    case DIRECTORY
    with dir show ?thesis by (simp add: defs)
  qed (simp_all add: defs)
qed

lemma finished_range:
  assumes "storable L db n" "1 \<le> mn_id n" "\<And>p. mn_parent_id n = Some p \<Longrightarrow> 1 \<le> p"
  shows "\<not> node_range_bad (finished_row L db sid n)"
proof -
  have "SqlText (node_kind_value k) \<in> SqlText ` set kind_values" for k
    by (cases k) (simp_all add: kind_values_def)
  moreover have "SqlText (content_status_value st) \<in> SqlText ` set status_values" for st
    by (cases st) (simp_all add: status_values_def)
  moreover have "SqlText (observation_value ob) \<in> SqlText ` set observation_values" for ob
    by (cases ob) (simp_all add: observation_values_def)
  moreover have "\<not> negative (cell SqlInt (mn_size n))" "\<not> not_positive (cell SqlInt (mn_source_line n))"
    using storable_cells [OF assms(1)] checked_cells by (simp_all add: cells_ok_def)
  moreover have "\<not> not_positive (cell SqlInt (mn_parent_id n))"
    by (rule checked_cells(2)) (use assms(3) in fastforce)
  ultimately show ?thesis using assms(2)
    by (cases "mn_observation n")
      (simp_all add: node_range_bad_def not_in_texts_def not_positive_def [of "SqlInt _"] observation_cell_def cell_def)
qed

lemma finished_diagnostic:
  assumes r: "reportable L ds n" and x: "x \<in> set (map (diagnostic_cells L) (enumerate 0 ds))"
  shows "\<not> diagnostic_class_bad x" "\<not> diagnostic_range_bad x"
proof -
  obtain i y where y: "x = diagnostic_cells L (i, y)" "y \<in> set ds"
    using x by (auto simp: in_set_enumerate_eq)
  then have "\<not> not_positive (dr_line_number x)"
    using checked_cells(2) [of "diag_line_number y"] r by (simp add: reportable_def diagnostic_ok_def diagnostic_cells_def)
  moreover have "SqlText (severity_value s) \<in> SqlText ` set severity_values" for s
    by (cases s) (simp_all add: severity_values_def)
  ultimately show "\<not> diagnostic_range_bad x"
    by (simp add: y(1) diagnostic_range_bad_def diagnostic_cells_def negative_def [of "SqlInt _"] not_in_texts_def)
  show "\<not> diagnostic_class_bad x"
    by (cases "diag_line_number y")
      (simp_all add: y(1) diagnostic_class_bad_def diagnostic_cells_def is_int_def is_text_def cell_def)
qed

lemma position_cells:
  "map (int_value \<circ> dr_position) (map (diagnostic_cells L) (enumerate 0 ds)) = map int [0..<length ds]"
proof -
  have "map (int_value \<circ> dr_position) (map (diagnostic_cells L) (enumerate 0 ds)) =
      map int (map fst (enumerate 0 ds))"
    by (simp del: map_fst_enumerate add: diagnostic_cells_def int_value_def)
  then show ?thesis by simp
qed

lemma enumerated_positions: "positions_contiguous (map (diagnostic_cells L) (enumerate 0 ds))"
proof (cases "ds = []")
  case False
  have ps: "set (map (int_value \<circ> dr_position) (map (diagnostic_cells L) (enumerate 0 ds))) = int ` {0..<length ds}"
    unfolding position_cells by simp
  have "Min (int ` {0..<length ds}) = 0"
    by (rule Min_eqI) (use False in auto)
  moreover have "Max (int ` {0..<length ds}) = int (length ds) - 1"
    by (rule Max_eqI) (use False in \<open>auto simp: image_iff of_nat_diff Suc_leI intro!: bexI [of _ "length ds - 1"]\<close>)
  ultimately show ?thesis unfolding positions_contiguous_def Let_def ps by simp
qed (simp add: positions_contiguous_def)

lemma finished_storage:
  assumes t: "table_of L db m ch k" and r: "reportable L ds n"
  shows "require_storage_classes (finished_database L db sn m k ds n) = Inr ()"
    and "require_ranges (finished_database L db sn m k ds n) = Inr ()"
proof -
  let ?d = "finished_database L db sn m k ds n"
  have "\<not> node_class_bad x \<and> \<not> node_range_bad x \<and> \<not> content_bad x" if x: "x \<in> set (db_nodes ?d)" for x
  proof -
    obtain i y where y: "m i = Some y" "x = finished_row L db (snapshot_id sn) y"
      using x by (auto simp: set_finished_nodes [OF t])
    have "1 \<le> p" if "mn_parent_id y = Some p" for p
      using finished_parent [OF t y(1) that] table_ofD(3) [OF t] by metis
    with table_ofD [OF t y(1)] show ?thesis
      by (simp add: y(2) finished_class finished_content finished_range)
  qed
  moreover have "\<not> diagnostic_class_bad x \<and> \<not> diagnostic_range_bad x" if "x \<in> set (db_diagnostics ?d)" for x
    using finished_diagnostic [OF r] that by simp
  moreover have "\<not> snapshot_class_bad x \<and> \<not> negative (sr_diagnostic_count x)" if "x \<in> set (db_snapshots ?d)" for x
    using that by (simp add: snapshot_class_bad_def first_row_def is_text_def is_int_def negative_def)
  ultimately show "require_storage_classes ?d = Inr ()" "require_ranges ?d = Inr ()"
    using enumerated_positions [of L ds]
    by (simp_all add: require_storage_classes_def require_ranges_def all_pass_iff del: all_pass.simps finished_database_sel(5-7))
      (simp add: all_pass_iff)
qed

section \<open>The graph of the finished rows\<close>

lemma finished_ids:
  assumes t: "table_of L db m ch k"
  shows "map nr_id (finished_nodes L db sid m k) = map SqlInt [1..k - 1]"
proof -
  have "mn_id (the (m i)) = i" if "1 \<le> i \<and> i < k" for i
  proof -
    have "builder_tree m ch k" using t by (simp add: table_of_def)
    then have "m i \<noteq> None" using that builder_treeD(2) by blast
    with table_ofD(2) [OF t] show ?thesis by force
  qed
  then show ?thesis by (simp add: finished_nodes_def)
qed

lemma finished_engine:
  assumes t: "table_of L db m ch k" and sn: "snapshot_storable L db sn"
  shows "engine_ok (finished_database L db sn m k ds n)"
proof -
  have bt: "builder_tree m ch k" using t by (simp add: table_of_def)
  have "distinct (map nr_id (finished_nodes L db (snapshot_id sn) m k))"
    unfolding finished_ids [OF t] by (simp add: distinct_map inj_on_def)
  moreover have siblings: "finished_row L db (snapshot_id sn) x = finished_row L db (snapshot_id sn) y" if x: "m i = Some x" and y: "m j = Some y"
    and same: "sql_eq (cell SqlInt (mn_parent_id x)) (cell SqlInt (mn_parent_id y))" "mn_mounted_name x = mn_mounted_name y"
    for i j x y
  proof -
    obtain p where p: "mn_parent_id x = Some p" "mn_parent_id y = Some p"
      using same(1) by (auto simp: sql_eq_def cell_def split: option.splits)
    then have "ch p (mn_mounted_name x) = Some i" "ch p (mn_mounted_name x) = Some j"
      using x y same(2) builder_treeD(4) [OF bt] by auto
    with x y show ?thesis by simp
  qed
  ultimately show ?thesis using sn table_ofD(2,5) [OF t]
    by (auto simp: engine_ok_def set_finished_nodes [OF t] first_row_def text_value_def snapshot_storable_def intro: siblings)
qed

lemma finished_root:
  assumes t: "table_of L db m ch k"
  obtains r where "m 1 = Some r" "node_ok m 1 r"
    "root_row (finished_database L db sn m k ds n) = Some (finished_row L db (snapshot_id sn) r)"
proof -
  have bt: "builder_tree m ch k" using t by (simp add: table_of_def)
  then obtain r where r: "m 1 = Some r" by (rule builder_tree_root)
  have ids: "mn_id (the (m j)) = j" if "j \<in> set [1..k - 1]" for j
  proof -
    have "m j \<noteq> None" using that builder_treeD(2) [OF bt, of j] by simp
    with table_ofD(2) [OF t] show ?thesis by force
  qed
  have "find (\<lambda>r. nr_id r = SqlInt 1) (finished_nodes L db (snapshot_id sn) m k) =
      (if 1 \<in> set [1..k - 1] then Some (finished_row L db (snapshot_id sn) (the (m 1))) else None)"
    unfolding finished_nodes_def by (rule find_map_upto) (simp only: finished_cells ids sql_value.inject)
  with r builder_treeD(1) [OF bt] table_ofD(7) [OF t r] that show thesis by (simp add: root_row_def)
qed

text \<open>Every row hangs below the root, so the query finds as many rows as the table has.\<close>

lemma finished_reachable:
  assumes t: "table_of L db m ch k"
  shows "m i = Some n \<Longrightarrow> SqlInt i \<in> descendants (children_ids (finished_nodes L db sid m k)) (SqlInt 1)"
proof (induction "nat i" arbitrary: i n rule: less_induct)
  case less
  show ?case
  proof (cases "i = 1")
    case True
    then show ?thesis by (simp add: descendants.root)
  next
    case False
    then obtain p where p: "mn_parent_id n = Some p"
      using node_ok_no_parent [OF table_ofD(7) [OF t less.prems]] by (cases "mn_parent_id n") auto
    obtain pn where pn: "m p = Some pn" "p < i" by (rule finished_parent [OF t less.prems p])
    have "nat p < nat i" using pn table_ofD(3) [OF t less.prems] by simp
    from less.hyps [OF this pn(1)] have "SqlInt p \<in> descendants (children_ids (finished_nodes L db sid m k)) (SqlInt 1)" .
    moreover have "SqlInt i \<in> set (children_ids (finished_nodes L db sid m k) (SqlInt p))"
      unfolding children_ids_iff set_finished_nodes [OF t]
      using less.prems table_ofD(2) [OF t less.prems] p by (auto simp: cell_def intro!: exI [of _ i] exI [of _ n])
    ultimately show ?thesis by (rule descendants.child)
  qed
qed

lemma finished_query:
  assumes t: "table_of L db m ch k" and sn: "snapshot_storable L db sn"
  obtains rs where "recursive_query (children_ids (finished_nodes L db (snapshot_id sn) m k)) [SqlInt 1] = Some rs"
    "length rs = length (finished_nodes L db (snapshot_id sn) m k)"
proof -
  let ?d = "finished_database L db sn m k ([] :: diagnostic list) 0"
  obtain r where r: "node_ok m 1 r" "root_row ?d = Some (finished_row L db (snapshot_id sn) r)"
    by (rule finished_root [OF t])
  have "nr_parent_id (finished_row L db (snapshot_id sn) r) = SqlNull" using r(1) by (simp add: node_ok_def cell_def)
  from graph_query_ends [OF finished_engine [OF t sn] r(2) this] obtain rs where
    rs: "recursive_query (children_ids (db_nodes ?d)) [SqlInt 1] = Some rs" "distinct rs"
    "set rs = descendants (children_ids (db_nodes ?d)) (SqlInt 1)" "set rs \<subseteq> nr_id ` set (db_nodes ?d)" by metis
  have "nr_id ` set (db_nodes ?d) \<subseteq> set rs"
    using finished_reachable [OF t] table_ofD(2) [OF t] unfolding rs(3) by (auto simp: set_finished_nodes [OF t])
  with rs(4) have "set rs = set (map nr_id (db_nodes ?d))" by auto
  moreover have "distinct (map nr_id (db_nodes ?d))" using engine_ids(1) [OF finished_engine [OF t sn]] .
  ultimately have "length rs = length (map nr_id (db_nodes ?d))" using rs(2) by (metis distinct_card)
  with rs(1) that show thesis by simp
qed

lemma finished_graph:
  assumes t: "table_of L db m ch k" and sn: "snapshot_storable L db sn"
  shows "require_graph (finished_database L db sn m k ds n) = Some (Inr ())"
proof -
  have "mn_kind q = DIRECTORY" if x: "m i = Some x" and q: "m j = Some q"
    and parent: "sql_eq (SqlInt (mn_id q)) (cell SqlInt (mn_parent_id x))" for i j x q
  proof -
    have "mn_parent_id x = Some j" using parent table_ofD(2) [OF t q]
      by (cases "mn_parent_id x") (simp_all add: sql_eq_def cell_def)
    with finished_parent [OF t x this] q show ?thesis by auto
  qed
  then have "\<not> parent_bad (finished_nodes L db (snapshot_id sn) m k) r"
    if "r \<in> set (finished_nodes L db (snapshot_id sn) m k)" for r
    using that by (fastforce simp: parent_bad_def set_finished_nodes [OF t] sql_ne_def sql_text_def)
  moreover obtain rs where "recursive_query (children_ids (finished_nodes L db (snapshot_id sn) m k)) [SqlInt 1] = Some rs"
    "length rs = length (finished_nodes L db (snapshot_id sn) m k)"
    by (rule finished_query [OF t sn])
  ultimately show ?thesis by (simp add: require_graph_def)
qed

section \<open>Names and paths of the finished rows\<close>

lemma recursive_query_all:
  assumes "recursive_query step queue = Some rs" "\<forall>x \<in> set queue. P x" "\<And>x y. P x \<Longrightarrow> y \<in> set (step x) \<Longrightarrow> P y"
  shows "\<forall>x \<in> set rs. P x"
  using assms
proof (induction rs arbitrary: queue)
  case (Cons v rs)
  then obtain vs where queue: "queue = v # vs" by (cases queue) (auto simp: recursive_query_simps)
  with Cons.prems(1) have "recursive_query step (vs @ step v) = Some rs" by (auto simp: recursive_query_simps)
  moreover have "\<forall>x \<in> set (vs @ step v). P x" using Cons.prems(2,3) queue by auto
  ultimately have "\<forall>x \<in> set rs. P x" using Cons.prems(3) by (rule Cons.IH)
  with Cons.prems(2) queue show ?case by simp
qed simp

lemma mounts_as_decode: "mounts_as s name \<Longrightarrow> utf8_decode name = Inr s \<and> s \<noteq> [] \<and> name \<noteq> [] \<and> \<not> reserved_name s"
  using utf8_decode_encode [of s name]
  by (auto simp: mounts_as_def safe_component_def reserved_name_def slash_def utf8_encode_def)

lemma tree_path_nonempty:
  assumes t: "table_of L db m ch k" and n: "m i = Some n" "i \<noteq> 1"
  obtains q where "mn_original_path n = Some q" "q \<noteq> []"
proof -
  obtain p pn s where "mounts_as s (mn_mounted_name n)" "mn_original_path n = Some (path_below p pn s)"
    using table_ofD(7) [OF t n(1)] n(2) by (elim node_ok_nonrootE)
  with that mounts_as_decode show thesis by (auto simp: path_below_def split: option.splits if_splits)
qed

definition derived_path :: "nodes \<Rightarrow> sql_value \<times> pystr \<Rightarrow> bool" where
  "derived_path m x \<longleftrightarrow> (\<exists>i n. fst x = SqlInt i \<and> m i = Some n \<and>
     snd x = (case mn_original_path n of None \<Rightarrow> [] | Some q \<Rightarrow> q))"

lemma derived_path_step:
  assumes t: "table_of L db m ch k" and x: "derived_path m x" and y: "y \<in> set (child_paths (finished_nodes L db sid m k) x)"
  shows "derived_path m y"
proof -
  obtain p pn where p: "fst x = SqlInt p" "m p = Some pn" "snd x = (case mn_original_path pn of None \<Rightarrow> [] | Some q \<Rightarrow> q)"
    using x by (auto simp: derived_path_def)
  obtain j n where n: "m j = Some n" "mn_parent_id n = Some p"
    "y = (SqlInt (mn_id n), relative_path (snd x) (cast_text (SqlBlob (mn_mounted_name n))))"
    using y p(1) by (auto simp: child_paths_def set_finished_nodes [OF t] sql_eq_def cell_def split: option.splits)
  have "j \<noteq> 1" using table_ofD(7) [OF t n(1)] n(2) by (auto simp: node_ok_def)
  with table_ofD(7) [OF t n(1)] n(2) p(2) obtain s where s: "mounts_as s (mn_mounted_name n)"
    "mn_original_path n = Some (path_below p pn s)" by (elim node_ok_nonrootE) auto
  have "relative_path (snd x) s = path_below p pn s"
  proof (cases "p = 1")
    case True
    with p(2,3) table_ofD(7) [OF t p(2)] show ?thesis by (simp add: node_ok_def relative_path_def path_below_def)
  next
    case False
    obtain q where "mn_original_path pn = Some q" "q \<noteq> []" by (rule tree_path_nonempty [OF t p(2) False])
    with False p(3) show ?thesis by (simp add: relative_path_def path_below_def)
  qed
  with s n table_ofD(2) [OF t n(1)] mounts_as_decode [OF s(1)] show ?thesis
    by (auto simp: derived_path_def cast_text_def)
qed

lemma storable_decodes:
  "storable L db n \<Longrightarrow> decode_values L c (encode_datetime db (mn_modified_at n)) (SqlText (node_json L n)) False = Inr ()"
  using storable_time [of L db n] by (auto simp: decode_values_def storable_def)

lemma finished_name_check:
  assumes t: "table_of L db m ch k" and n: "m i = Some n"
  shows "name_check L (finished_row L db sid n) = Inr ()"
    and "\<not> longer_than (nr_mounted_name (finished_row L db sid n)) MAX_MOUNTED_NAME_BYTES"
proof -
  note ok = table_ofD(2,7) [OF t n]
  have dec: "decode_values L c (encode_datetime db (mn_modified_at n)) (SqlText (node_json L n)) False = Inr ()" for c
    using storable_decodes table_ofD(1) [OF t n] by blast
  have "utf8_decode ([] :: bytes) = Inr []" by (rule utf8_decode_encode) simp
  moreover obtain s where "i \<noteq> 1 \<longrightarrow> mounts_as s (mn_mounted_name n)"
    using ok(2) by (cases "i = 1") (auto simp: node_ok_def)
  ultimately show "name_check L (finished_row L db sid n) = Inr ()"
      "\<not> longer_than (nr_mounted_name (finished_row L db sid n)) MAX_MOUNTED_NAME_BYTES"
    using ok dec mounts_as_decode [of s "mn_mounted_name n"]
    by (cases "i = 1"; simp add: name_check_def node_ok_def longer_than_def sql_length_def mounts_as_def)+
qed

lemma finished_names:
  assumes t: "table_of L db m ch k" and sn: "snapshot_storable L db sn" and c: "codecs_ok L"
  shows "validate_names L (finished_database L db sn m k ds n) = Some (Inr ())"
proof -
  let ?sid = "snapshot_id sn" and ?d = "finished_database L db sn m k ds n"
  let ?ns = "finished_nodes L db (snapshot_id sn) m k"
  obtain rs where rs: "recursive_query (children_ids ?ns) [SqlInt 1] = Some rs"
    using finished_query [OF t sn] by metis
  then have "recursive_query (children_ids ?ns) (map fst [(SqlInt 1, [] :: pystr)]) = Some rs" by simp
  from recursive_query_project [where f = fst, OF child_paths_ids this] obtain paths where
    paths: "recursive_query (child_paths ?ns) [(SqlInt 1, [])] = Some paths" by blast
  obtain r where r: "m 1 = Some r" "node_ok m 1 r" "root_row ?d = Some (finished_row L db ?sid r)"
    by (rule finished_root [OF t])
  have "derived_path m (SqlInt 1, [])" using r(1,2) by (simp add: derived_path_def node_ok_def)
  then have "\<forall>x \<in> set [(SqlInt 1, [])]. derived_path m x" by simp
  with paths have "\<forall>x \<in> set paths. derived_path m x"
    by (rule recursive_query_all) (rule derived_path_step [OF t])
  then have derived: "derived_path m x" if "x \<in> set paths" for x using that by blast
  have "\<not> path_bad ?ns x" if paths_x: "x \<in> set paths" for x
  proof
    assume "path_bad ?ns x"
    then obtain j y where y: "m j = Some y" "SqlInt (mn_id y) = fst x" "fst x \<noteq> SqlInt 1"
      "is_null (cell SqlText (mn_original_path y)) \<or> sql_ne (cell SqlText (mn_original_path y)) (SqlText (snd x))"
      by (auto simp: path_bad_def set_finished_nodes [OF t] sql_eq_def)
    have x: "fst x = SqlInt j" using y(2) table_ofD(2) [OF t y(1)] by simp
    with y(3) have "j \<noteq> 1" by simp
    obtain q where "mn_original_path y = Some q" by (rule tree_path_nonempty [OF t y(1) \<open>j \<noteq> 1\<close>])
    with y derived [OF paths_x] x show False by (auto simp: derived_path_def cell_def sql_ne_def)
  qed
  moreover have "virtual_root (finished_row L db ?sid r)"
  proof -
    have "mn_source_metadata r = EMPTY_METADATA" "mn_original_path r = None" "mn_modified_at r = None"
      "mn_source_line r = None" "mn_observation r = None" using r(2) by (simp_all add: node_ok_def)
    moreover from this(1) have "node_json L r = lit ''{}''"
      using c by (simp add: node_json_def EMPTY_METADATA_def codecs_ok_def encode_metadata_def thaw_metadata_def)
    ultimately show ?thesis
      by (simp add: virtual_root_def cell_def encode_datetime_def observation_cell_def sql_text_def)
  qed
  moreover have "name_check L x = Inr () \<and> \<not> longer_than (nr_mounted_name x) MAX_MOUNTED_NAME_BYTES" if "x \<in> set ?ns" for x
    using that finished_name_check [OF t] by (auto simp: set_finished_nodes [OF t])
  moreover have "decode_values L c' (sr_imported_at (first_row L db sn)) (sr_metadata_json (first_row L db sn)) True = Inr ()" for c'
  proof -
    obtain js x where "encode_metadata L (snapshot_source_metadata sn) = Inr js" "decode_metadata L (SqlText js) = Inr x"
      using sn by (auto simp: snapshot_storable_def metadata_ok_def)
    moreover obtain t' where "from_isoformat L (isoformat db (snapshot_imported_at sn)) = Inr t'"
      using sn by (auto simp: snapshot_storable_def time_ok_def)
    ultimately show ?thesis by (simp add: decode_values_def first_row_def decode_datetime_def)
  qed
  ultimately have checks: "\<forall>x \<in> set paths. \<not> path_bad ?ns x" "virtual_root (finished_row L db ?sid r)"
    "\<forall>x \<in> set ?ns. name_check L x = Inr () \<and> \<not> longer_than (nr_mounted_name x) MAX_MOUNTED_NAME_BYTES"
    "decode_values L [Txt ''snapshot''] (sr_imported_at (first_row L db sn)) (sr_metadata_json (first_row L db sn)) True = Inr ()"
    by blast+
  then show ?thesis
    unfolding validate_names_def r(3) finished_database_sel paths
    by (simp add: all_pass_iff list_ex_iff del: all_pass.simps)
qed

section \<open>The finished artifact\<close>

lemma finished_valid:
  assumes t: "table_of L db m ch k" and sn: "snapshot_storable L db sn" and c: "codecs_ok L" and r: "reportable L ds n"
  shows "validate_artifact L (finished_database L db sn m k ds n) = Some (Inr ())"
proof -
  let ?d = "finished_database L db sn m k ds n" and ?sid = "snapshot_id sn"
  have bt: "builder_tree m ch k" using t by (simp add: table_of_def)
  obtain x where x: "m 1 = Some x" "node_ok m 1 x" "root_row ?d = Some (finished_row L db ?sid x)"
    by (rule finished_root [OF t])
  have "is_null (nr_parent_id (finished_row L db ?sid (the (m i)))) \<longleftrightarrow> i = 1" if i: "i \<in> set [1..k - 1]" for i
  proof -
    obtain y where y: "m i = Some y" using i builder_treeD(2) [OF bt, of i] by auto
    then show ?thesis using x node_ok_no_parent [OF table_ofD(7) [OF t y]]
      by (cases "mn_parent_id y") (auto simp: cell_def node_ok_def)
  qed
  then have "List.filter (\<lambda>r. is_null (nr_parent_id r)) (db_nodes ?d) =
      map (\<lambda>i. finished_row L db ?sid (the (m i))) (List.filter (\<lambda>i. i = 1) [1..k - 1])"
    unfolding finished_database_sel finished_nodes_def filter_map o_def
    by (intro arg_cong [where f = "map _"] filter_cong refl)
  then have "length (List.filter (\<lambda>r. is_null (nr_parent_id r)) (db_nodes ?d)) = 1"
    using filter_unique [of "[1..k - 1]" 1] builder_treeD(1) [OF bt] by simp
  then have one: "one_snapshot_and_root ?d" by (simp add: one_snapshot_and_root_def x(3))
  have root: "root_valid ?d" using x(2) by (simp add: root_valid_def x(3) node_ok_def cell_def sql_text_def)
  have counts: "counts_ok ?d" using r by (simp add: counts_ok_def reportable_def int_value_def)
  have "validate_records L ?d = Some (Inr ())"
    by (simp add: validate_records_def finished_storage [OF t r] finished_graph [OF t sn] finished_names [OF t sn c])
  then show ?thesis
    by (simp add: validate_artifact_def all_pass_iff one root counts created_catalogue_valid finished_foreign_keys [OF t]
        del: all_pass.simps)
qed

theorem finished_artifact:
  assumes t: "table_of L db m ch k" and sn: "snapshot_storable L db sn" and c: "codecs_ok L" and r: "reportable L ds n"
  shows "artifact_ok L (finished_database L db sn m k ds n)"
proof -
  have "readable L (SqlText (node_json L x))" if "m i = Some x" for i x
    using table_ofD(1) [OF t that] by (auto simp: storable_def readable_def)
  moreover have "readable L (sr_metadata_json (first_row L db sn))"
  proof -
    obtain js y where "encode_metadata L (snapshot_source_metadata sn) = Inr js" "decode_metadata L (SqlText js) = Inr y"
      "freeze_metadata y = Inr (read_back_metadata L (snapshot_source_metadata sn))"
      using sn metadata_ok_read_back unfolding snapshot_storable_def by metis
    then show ?thesis by (simp add: readable_def first_row_def)
  qed
  ultimately have "all_readable L (finished_database L db sn m k ds n)"
    by (auto simp: all_readable_def set_finished_nodes [OF t])
  then show ?thesis using finished_valid [OF assms] finished_engine [OF t sn] by (simp add: artifact_ok_def)
qed

lemma finished_artifact_nodes:
  assumes t: "table_of L db m ch k" and sn: "snapshot_storable L db sn" and c: "codecs_ok L" and r: "reportable L ds n"
  shows "artifact_nodes L (finished_database L db sn m k ds n) i = map_option (node_of (snapshot_id sn)) (m i)"
proof -
  let ?d = "finished_database L db sn m k ds n"
  note iff = artifact_nodes_iff [OF finished_artifact [OF assms], of i]
  show ?thesis
  proof (cases "m i")
    case None
    have "nr_id r \<noteq> SqlInt i" if "r \<in> set (db_nodes ?d)" for r
      using that None table_ofD(2) [OF t] by (auto simp: set_finished_nodes [OF t])
    then have "artifact_nodes L ?d i \<noteq> Some x" for x using iff by blast
    then show ?thesis using None by (metis not_Some_eq option.simps(8))
  next
    case (Some y)
    have "finished_row L db (snapshot_id sn) y \<in> set (db_nodes ?d)"
      using Some by (auto simp: set_finished_nodes [OF t])
    moreover have "nr_id (finished_row L db (snapshot_id sn) y) = SqlInt i"
      "row_node L (finished_row L db (snapshot_id sn) y) = Inr (node_of (snapshot_id sn) y)"
      using table_ofD(2) [OF t Some] finished_row_node [OF table_ofD(1,6) [OF t Some]] by simp_all
    ultimately have "artifact_nodes L ?d i = Some (node_of (snapshot_id sn) y)" unfolding iff by blast
    then show ?thesis using Some by simp
  qed
qed

text \<open>The store over it.\<close>

definition stored_snapshot :: "text_codecs \<Rightarrow> tzdb \<Rightarrow> snapshot \<Rightarrow> snapshot" where
  "stored_snapshot L db sn = sn
     \<lparr>snapshot_imported_at := read_back_time L db (snapshot_imported_at sn),
      snapshot_source_metadata := read_back_metadata L (snapshot_source_metadata sn)\<rparr>"

definition stored_diagnostic :: "text_codecs \<Rightarrow> diagnostic \<Rightarrow> diagnostic" where
  "stored_diagnostic L x = x\<lparr>diag_message := [Str (render L (diag_message x))]\<rparr>"

definition sqlite_represents ::
  "text_codecs \<Rightarrow> tzdb \<Rightarrow> snapshot \<Rightarrow> path_tree \<Rightarrow> diagnostic list \<Rightarrow> nat \<Rightarrow> sqlite_store \<Rightarrow> bool" where
  "sqlite_represents L db sn t ds n s \<longleftrightarrow> sqlite_store_ok s \<and> ss_codecs s = L \<and>
     store_view (sqlite_object s) (snapshot_id sn) = node_view (snapshot_id sn) t \<and>
     sqlite_get_snapshot s (snapshot_id sn) = Inr (stored_snapshot L db sn) \<and>
     sqlite_diagnostics s = Inr (map (stored_diagnostic L) ds) \<and> sqlite_diagnostic_count s = Inr (int n)"

lemma finished_snapshot:
  assumes sn: "snapshot_storable L db sn"
  shows "sqlite_get_snapshot \<lparr>ss_open = True, ss_codecs = L, ss_database = finished_database L db sn m k ds n\<rparr>
    (snapshot_id sn) = Inr (stored_snapshot L db sn)"
proof -
  let ?md = "snapshot_source_metadata sn"
  obtain js x where js: "encode_metadata L ?md = Inr js" "decode_metadata L (SqlText js) = Inr x"
    "freeze_metadata x = Inr (read_back_metadata L ?md)"
    using sn metadata_ok_read_back [of L ?md] unfolding snapshot_storable_def by metis
  have texts: "bind_text (snapshot_id sn) = Inr ()" "utf8_encode (snapshot_id sn) \<noteq> None"
    "utf8_encode (snapshot_source_uri sn) \<noteq> None" "utf8_encode (snapshot_source_format sn) \<noteq> None"
    using sn by (auto simp: snapshot_storable_def bind_text_scalar utf8_encode_None_iff list_all_iff)
  have "from_isoformat L (isoformat db (snapshot_imported_at sn)) = Inr (read_back_time L db (snapshot_imported_at sn))"
    using sn time_ok_read_back by (simp add: snapshot_storable_def)
  then show ?thesis using js texts
    by (simp add: sqlite_get_snapshot_def query_one_def query_all_def require_open_def sql_eq_def first_row_def
        row_snapshot_def decode_datetime_def make_snapshot_def require_unicode_def text_value_def stored_snapshot_def
        split: option.split)
qed

lemma severity_of_value [simp]: "severity_of (SqlText (severity_value s)) = Inr s"
  by (cases s) (simp_all add: severity_of_def enum_of_def)

lemma finished_diagnostics:
  assumes r: "reportable L ds n"
  shows "sqlite_diagnostics \<lparr>ss_open = True, ss_codecs = L, ss_database = finished_database L db sn m k ds n\<rparr> =
    Inr (map (stored_diagnostic L) ds)"
proof -
  let ?rows = "map (diagnostic_cells L) (enumerate 0 ds)"
  have "sorted (map (int_value \<circ> dr_position) ?rows)"
    unfolding position_cells by (simp add: sorted_iff_nth_mono)
  then have sorted: "sort_key (int_value \<circ> dr_position) ?rows = ?rows" by (rule sort_key_id_if_sorted)
  have "row_diagnostic (diagnostic_cells L (i, x)) = Inr (stored_diagnostic L x)" if "x \<in> set ds" for i x
  proof -
    have "diagnostic_ok (stored_diagnostic L x)"
      using r that by (simp add: reportable_def diagnostic_ok_def stored_diagnostic_def message_encodable_def)
    then have "make_diagnostic (stored_diagnostic L x) = Inr (stored_diagnostic L x)" by (simp add: make_diagnostic_iff)
    then show ?thesis
      by (cases x) (simp add: row_diagnostic_def diagnostic_cells_def text_value_def stored_diagnostic_def)
  qed
  then have "map_result (row_diagnostic \<circ> diagnostic_cells L) (enumerate 0 ds) =
      Inr (map (stored_diagnostic L \<circ> snd) (enumerate 0 ds))"
    by (intro map_result_Inr) (auto simp: in_set_enumerate_eq)
  then have "map_result row_diagnostic ?rows = Inr (map (stored_diagnostic L) (map snd (enumerate 0 ds)))"
    by (simp only: map_result_map list.map_comp o_def)
  then show ?thesis
    by (simp add: sqlite_diagnostics_def query_all_def require_open_def sorted)
qed

theorem finished_store:
  assumes t: "table_of L db m ch k" and sn: "snapshot_storable L db sn" and c: "codecs_ok L" and r: "reportable L ds n"
  shows "sqlite_represents L db sn (view m ch) ds n
    \<lparr>ss_open = True, ss_codecs = L, ss_database = finished_database L db sn m k ds n\<rparr>"
proof -
  let ?s = "\<lparr>ss_open = True, ss_codecs = L, ss_database = finished_database L db sn m k ds n\<rparr>"
  have ok: "sqlite_store_ok ?s" using finished_artifact [OF assms] by (simp add: sqlite_store_ok_def)
  have nodes: "sqlite_nodes ?s i = map_option (node_of (snapshot_id sn)) (m i)" for i
    using finished_artifact_nodes [OF assms] by (simp add: sqlite_nodes_def)
  note shot = finished_snapshot [OF sn, of m k ds n]
  have bt: "builder_tree m ch k" using t by (simp add: table_of_def)
  have "get_root (sqlite_object ?s) (snapshot_id sn) = get_node (sqlite_object ?s) 1"
    by (simp add: sqlite_object_def sqlite_get_root_def shot)
  from sqlite.finished_view [OF ok nodes bt this]
  have "store_view (sqlite_object ?s) (snapshot_id sn) = node_view (snapshot_id sn) (view m ch)" .
  moreover have "sqlite_diagnostic_count ?s = Inr (int n)"
    by (simp add: sqlite_diagnostic_count_def query_one_def query_all_def require_open_def)
  ultimately show ?thesis using ok shot finished_diagnostics [OF r] by (simp add: sqlite_represents_def)
qed

section \<open>The builder from its creation to the published store\<close>

text \<open>
  What holds of a builder for a snapshot between its calls: its tree, the untouched rest of its
  database, and its temporary file, which is not the destination.
\<close>

definition sqlite_usable :: "text_codecs \<Rightarrow> tzdb \<Rightarrow> snapshot \<Rightarrow> sqlite_builder \<Rightarrow> bool" where
  "sqlite_usable L db sn b \<longleftrightarrow> sqlite_builder_ok L db b \<and> sb_snapshot b = sn \<and> snapshot_storable L db sn \<and>
     sb_next_inode b \<le> 2 ^ 63 \<and> same_rest (first_database L db sn) (the (sb_connection b)) \<and>
     (\<exists>t. sb_temporary b = Some t \<and> t \<noteq> sb_destination b)"

theorem sqlite_init_usable:
  assumes sn: "snapshot_storable L db sn" and c: "codecs_ok L" and "fs destination = None \<or> overwrite"
    and t: "os_mkstemp os = Inr t" "t \<noteq> destination"
  obtains b where "sqlite_init L db os True sn destination overwrite fs = (Inr b, sb_files b)"
    "sqlite_usable L db sn b" "sqlite_view L b = [[] \<mapsto> blank root_node]" "sb_next_inode b = 2"
    "sb_files b = fs(t \<mapsto> empty_database)" "sb_destination b = destination" "sb_overwrite b = overwrite"
    "sb_temporary b = Some t"
proof -
  obtain d where d: "initial_tables L db sn = Inr d" "same_rest (first_database L db sn) d"
    "rows_hold L db (snapshot_id sn) d [1 \<mapsto> root_node] 2"
    by (rule initial_tables_ok [OF sn c])
  define b where "b = \<lparr>sb_destination = destination, sb_overwrite = overwrite, sb_finished = False,
    sb_temporary = Some t, sb_connection = Some d, sb_next_inode = 2, sb_snapshot = sn,
    sb_files = fs(t \<mapsto> empty_database)\<rparr>"
  have b: "sqlite_builder_ok L db b" "sqlite_view L b = view [1 \<mapsto> root_node] (\<lambda>_ _. None)"
    by (rule sqlite_builder_okI [where d = d and m = "[1 \<mapsto> root_node]"]; use d builder_tree_start in \<open>simp add: b_def\<close>)+
  have "view [1 \<mapsto> root_node] (\<lambda>_ _. None) path = [[] \<mapsto> blank root_node] path" for path
    by (cases path) (simp_all add: view_def)
  then have v: "sqlite_view L b = [[] \<mapsto> blank root_node]" using b(2) by (simp add: fun_eq_iff)
  show thesis
  proof (rule that [of b])
    show "sqlite_init L db os True sn destination overwrite fs = (Inr b, sb_files b)"
      using assms(3) t d(1) by (simp add: sqlite_init_def create_temporary_def b_def)
    show "sqlite_usable L db sn b" using b(1) sn d(2) t(2) by (simp add: sqlite_usable_def) (simp add: b_def)
  qed (use v in \<open>simp_all add: b_def\<close>)
qed

theorem sqlite_add_usable:
  assumes u: "sqlite_usable L db sn b" and c: "codecs_ok L" and e: "sqlite_entry_ok L db e"
    and room: "sb_next_inode b + int (length (entry_path e)) \<le> 2 ^ 63"
    and add: "sqlite_add L db e b = (err, b')"
  shows "sqlite_usable L db sn b'"
proof -
  have ok: "sqlite_builder_ok L db b" using u by (simp add: sqlite_usable_def)
  obtain err'' b'' where s: "sqlite_add L db e b = (err'', b'')" "sqlite_builder_ok L db b''"
    "sb_next_inode b'' \<le> sb_next_inode b + int (length (entry_path e))"
    "b'' = b\<lparr>sb_connection := sb_connection b'', sb_next_inode := sb_next_inode b''\<rparr>"
    "same_rest (the (sb_connection b)) (the (sb_connection b''))"
    by (rule sqlite_add_spec [OF ok c e room])
  have "b'' = b'" using add s(1) by simp
  moreover have "sb_snapshot b'' = sb_snapshot b" "sb_temporary b'' = sb_temporary b" "sb_destination b'' = sb_destination b"
    by (subst s(4), simp)+
  ultimately show ?thesis using u s room by (auto simp: sqlite_usable_def intro: same_rest_trans)
qed

text \<open>
  \<open>finish\<close> always returns. It hands the complete artifact to the publication; when that succeeds,
  the artifact is at the destination and the store over it shows the tree of the builder.
\<close>

theorem sqlite_finish_spec:
  assumes u: "sqlite_usable L db sn b" and c: "codecs_ok L" and r: "reportable L ds n"
  obtains d result b' where "artifact_ok L d" "sqlite_finish L os ds (Some n) b = Some (result, b')"
    "case publish os (the (sb_temporary b)) (sb_destination b) (sb_overwrite b)
        ((sb_files b)(the (sb_temporary b) \<mapsto> d)) of
      (Some x, fs) \<Rightarrow> result = Inl x
    | (None, fs) \<Rightarrow> fs (sb_destination b) = Some d \<and> sb_files b' = fs \<and>
        (\<exists>s. result = Inr s \<and> ss_database s = d \<and> sqlite_represents L db sn (sqlite_view L b) ds n s)"
proof -
  have ok: "sqlite_builder_ok L db b" and sn: "sb_snapshot b = sn" "snapshot_storable L db sn"
    and k: "sb_next_inode b \<le> 2 ^ 63" and same: "same_rest (first_database L db sn) (the (sb_connection b))"
    using u by (simp_all add: sqlite_usable_def)
  obtain tmp where tmp: "sb_temporary b = Some tmp" "tmp \<noteq> sb_destination b" using u by (auto simp: sqlite_usable_def)
  obtain d0 m ch where d0: "active b = Inr d0" "sb_connection b = Some d0" and bt: "builder_tree m ch (sb_next_inode b)"
    and h: "rows_hold L db (snapshot_id sn) d0 m (sb_next_inode b)" and v: "sqlite_view L b = view m ch"
    using sqlite_builder_okE [OF ok] sn(1) by metis
  have t: "table_of L db m ch (sb_next_inode b)" using bt h k by (simp add: table_of_def rows_hold_def)
  define d where "d = finished_database L db sn m (sb_next_inode b) ds n"
  let ?s = "\<lparr>ss_open = True, ss_codecs = L, ss_database = d\<rparr>"
  have art: "artifact_ok L d" unfolding d_def by (rule finished_artifact [OF t sn(2) c r])
  then have opens: "open_sqlite_store L (Database d) = Some (Inr ?s)"
    by (simp add: open_sqlite_store_ok artifact_ok_def)
  have rep: "sqlite_represents L db sn (sqlite_view L b) ds n ?s"
    unfolding d_def v by (rule finished_store [OF t sn(2) c r])
  have compl: "complete_tables L ds (Some n) d0 = Inr d"
    unfolding d_def by (rule complete_tables_ok [OF h _ t r]) (use same d0(2) in simp)
  obtain err fs where p: "publish os tmp (sb_destination b) (sb_overwrite b) ((sb_files b)(tmp \<mapsto> d)) = (err, fs)"
    by fastforce
  show thesis
  proof (cases err)
    case None
    have "fs (sb_destination b) = Some d"
      using publish_effect(1) [OF p tmp(2), of d] None by simp
    with None p compl d0(1) opens rep tmp(1) that [OF art] show thesis
      by (simp add: sqlite_finish_def commit_and_publish_def)
  next
    case (Some x)
    have "is_persistence_error x" using publish_error_kind p Some by metis
    then have "finish_error x = x"
      by (auto simp: is_persistence_error_def finish_error_def split: py_exn.splits)
    with Some p compl d0(1) opens tmp(1) that [OF art] show thesis
      by (simp add: sqlite_finish_def commit_and_publish_def)
  qed
qed

end
