(* ===== verification/Sqlite_Import.thy ===== *)
theory Sqlite_Import
  imports Import_Service Sqlite_Finish
begin

text \<open>
  \<open>create\_sqlite\_store\<close>: the import service over the SQLite builder, which keeps the contract of a
  builder for the entries whose values the engine and the codecs take.
\<close>

section \<open>The operations\<close>

text \<open>
  The store is \<open>None\<close> when the validation of the finished artifact does not return, in which case
  the import does not return either.
\<close>

definition sqlite_builder_ops ::
  "text_codecs \<Rightarrow> tzdb \<Rightarrow> os \<Rightarrow> bool \<Rightarrow> pystr \<Rightarrow> bool \<Rightarrow> database files \<Rightarrow>
    (sqlite_builder, sqlite_store option) builder_ops" where
  "sqlite_builder_ops L db os parent_is_dir destination overwrite fs =
     \<lparr>bo_init = \<lambda>sn. fst (sqlite_init L db os parent_is_dir sn destination overwrite fs),
      bo_add = sqlite_add L db,
      bo_finish = \<lambda>ds n b. (case sqlite_finish L os ds n b of
          None \<Rightarrow> (Inr None, b)
        | Some (r, b') \<Rightarrow> (map_ok Some r, b')),
      bo_abort = sqlite_abort os\<rparr>"

definition create_sqlite_store ::
  "text_codecs \<Rightarrow> tzdb \<Rightarrow> os \<Rightarrow> bool \<Rightarrow> database files \<Rightarrow> pystr \<Rightarrow> datetime \<Rightarrow> 'i source \<Rightarrow> 'i parser \<Rightarrow>
    pystr \<Rightarrow> bool \<Rightarrow> create_exn + sqlite_store option" where
  "create_sqlite_store L db os parent_is_dir fs uuid now src p destination overwrite =
     fst (create_store (sqlite_builder_ops L db os parent_is_dir destination overwrite fs) uuid now src p)"

section \<open>The contract\<close>

definition sqlite_suitable :: "text_codecs \<Rightarrow> tzdb \<Rightarrow> os \<Rightarrow> pystr \<Rightarrow> snapshot \<Rightarrow> bool" where
  "sqlite_suitable L db os destination sn \<longleftrightarrow>
     codecs_ok L \<and> snapshot_storable L db sn \<and> os_mkstemp os \<noteq> Inr destination"

text \<open>Inodes are 64-bit integers, and inode 1 is taken.\<close>

definition sqlite_capacity :: nat where
  "sqlite_capacity = 2 ^ 63 - 2"

definition sqlite_has_room :: "text_codecs \<Rightarrow> tzdb \<Rightarrow> snapshot \<Rightarrow> nat \<Rightarrow> sqlite_builder \<Rightarrow> bool" where
  "sqlite_has_room L db sn room b \<longleftrightarrow>
     codecs_ok L \<and> sqlite_usable L db sn b \<and> sb_next_inode b + int room \<le> 2 ^ 63"

definition sqlite_published ::
  "text_codecs \<Rightarrow> tzdb \<Rightarrow> snapshot \<Rightarrow> path_tree \<Rightarrow> diagnostic list \<Rightarrow> nat \<Rightarrow> sqlite_store option \<Rightarrow> bool" where
  "sqlite_published L db sn t ds n r \<longleftrightarrow> (\<exists>s. r = Some s \<and> sqlite_represents L db sn t ds n s)"

interpretation sqlite_build: snapshot_builder
    "sqlite_builder_ops L db os parent_is_dir destination overwrite fs"
    "spec_add_by (stored_node L db) db" start_tree "sqlite_view L" "sqlite_suitable L db os destination"
    sqlite_capacity "sqlite_entry_ok L db" "\<lambda>e. length (entry_path e)" "reportable L"
    "sqlite_has_room L db" "sqlite_published L db" is_persistence_error
  for L db os parent_is_dir destination overwrite fs
proof
  fix sn :: snapshot and b b' :: sqlite_builder and e :: parsed_entry and err ds n and room :: nat
  let ?ops = "sqlite_builder_ops L db os parent_is_dir destination overwrite fs"
  show "sqlite_has_room L db sn sqlite_capacity b \<and> sqlite_view L b = start_tree"
    if init: "bo_init ?ops sn = Inr b" and sn: "sqlite_suitable L db os destination sn"
  proof -
    from init obtain t where t: "os_mkstemp os = Inr t" "parent_is_dir" "fs destination = None \<or> overwrite"
      by (auto simp: sqlite_builder_ops_def sqlite_init_def create_temporary_def split: if_splits sum.splits)
    have c: "codecs_ok L" "snapshot_storable L db sn" "t \<noteq> destination"
      using sn t by (auto simp: sqlite_suitable_def)
    obtain b0 where b0: "sqlite_init L db os True sn destination overwrite fs = (Inr b0, sb_files b0)"
      "sqlite_usable L db sn b0" "sqlite_view L b0 = [[] \<mapsto> blank root_node]" "sb_next_inode b0 = 2"
      by (rule sqlite_init_usable [where fs = fs and destination = destination, OF c(2,1) t(3,1) c(3)])
    have "b0 = b" using init t(2) b0(1) by (simp add: sqlite_builder_ops_def)
    with b0 c(1) show ?thesis by (simp add: sqlite_has_room_def sqlite_capacity_def start_tree_def)
  qed
  show "sqlite_has_room L db sn (room - length (entry_path e)) b' \<and>
      (case spec_add_by (stored_node L db) db e (sqlite_view L b) of
         Inl d \<Rightarrow> err = Some (Build_Error d) | Inr v \<Rightarrow> err = None \<and> sqlite_view L b' = v)"
    if b: "sqlite_has_room L db sn room b" and e: "sqlite_entry_ok L db e" and room: "length (entry_path e) \<le> room"
      and add: "bo_add ?ops e b = (err, b')"
  proof -
    have add': "sqlite_add L db e b = (err, b')" using add by (simp add: sqlite_builder_ops_def)
    have c: "codecs_ok L" "sqlite_usable L db sn b" "sb_next_inode b + int (length (entry_path e)) \<le> 2 ^ 63"
      using b room by (auto simp: sqlite_has_room_def)
    then have ok: "sqlite_builder_ok L db b" by (simp add: sqlite_usable_def)
    have "sb_next_inode b' \<le> sb_next_inode b + int (length (entry_path e))"
      "case spec_add_by (stored_node L db) db e (sqlite_view L b) of
         Inl d \<Rightarrow> err = Some (Build_Error d) | Inr v \<Rightarrow> err = None \<and> sqlite_view L b' = v"
      using sqlite_add_spec [OF ok c(1) e c(3)] add' by (metis Pair_inject)+
    moreover have "sqlite_usable L db sn b'" by (rule sqlite_add_usable [OF c(2,1) e c(3) add'])
    ultimately show ?thesis using b room by (simp add: sqlite_has_room_def of_nat_diff)
  qed
  show "\<exists>result b'. bo_finish ?ops ds (Some n) b = (result, b') \<and>
      (case result of Inl x \<Rightarrow> is_persistence_error x | Inr s \<Rightarrow> sqlite_published L db sn (sqlite_view L b) ds n s)"
    if b: "sqlite_has_room L db sn room b" and ds: "reportable L ds n"
  proof -
    have c: "codecs_ok L" "sqlite_usable L db sn b" using b by (simp_all add: sqlite_has_room_def)
    obtain d result b' where f: "sqlite_finish L os ds (Some n) b = Some (result, b')"
      "case publish os (the (sb_temporary b)) (sb_destination b) (sb_overwrite b)
          ((sb_files b)(the (sb_temporary b) \<mapsto> d)) of
        (Some x, fs) \<Rightarrow> result = Inl x
      | (None, fs) \<Rightarrow> fs (sb_destination b) = Some d \<and> sb_files b' = fs \<and>
          (\<exists>s. result = Inr s \<and> ss_database s = d \<and> sqlite_represents L db sn (sqlite_view L b) ds n s)"
      by (rule sqlite_finish_spec [OF c(2,1) ds])
    obtain perr fs' where p: "publish os (the (sb_temporary b)) (sb_destination b) (sb_overwrite b)
          ((sb_files b)(the (sb_temporary b) \<mapsto> d)) = (perr, fs')" by fastforce
    show ?thesis
    proof (cases perr)
      case None
      with f p show ?thesis by (auto simp: sqlite_builder_ops_def sqlite_published_def)
    next
      case (Some x)
      with f p publish_error_kind show ?thesis by (auto simp: sqlite_builder_ops_def)
    qed
  qed
qed

section \<open>The import\<close>

text \<open>What an import into SQLite needs of its input.\<close>

definition sqlite_importable :: "text_codecs \<Rightarrow> tzdb \<Rightarrow> parse_result \<Rightarrow> bool" where
  "sqlite_importable L db r \<longleftrightarrow> codecs_ok L \<and> list_all (sqlite_entry_ok L db) (pr_entries r) \<and>
     (\<Sum>e\<leftarrow>pr_entries r. length (entry_path e)) \<le> sqlite_capacity \<and>
     reportable L (coll_items (pr_collector r)) (coll_total (pr_collector r))"

lemma sqlite_import:
  assumes sn: "make_snapshot \<lparr>snapshot_id = uuid, snapshot_source_uri = source_uri src,
      snapshot_source_format = parser_format_name p, snapshot_imported_at = now,
      snapshot_source_metadata = parser_source_metadata p\<rparr> = Inr sn" "snapshot_storable L db sn"
    and os: "os_mkstemp os = Inr tmp" "tmp \<noteq> destination" "fs destination = None \<or> overwrite"
    and r: "source_open src = Inr stream" "parser_parse p stream = Inr r" "pr_error r = None" "sqlite_importable L db r"
  shows "case spec_all (spec_add_by (stored_node L db) db) (pr_entries r) start_tree of
      Inl d \<Rightarrow> create_sqlite_store L db os True fs uuid now src p destination overwrite =
        Inl (Import_Failure (make_import_failure
          (with_build_diagnostic d (coll_items (pr_collector r))) (Some (coll_total (pr_collector r) + 1))))
    | Inr t \<Rightarrow>
        if coll_has_errors (pr_collector r)
        then create_sqlite_store L db os True fs uuid now src p destination overwrite =
          Inl (Import_Failure (make_import_failure (coll_items (pr_collector r))
            (Some (coll_total (pr_collector r)))))
        else (\<exists>x. create_sqlite_store L db os True fs uuid now src p destination overwrite = Inl (Import_Raised x) \<and>
            is_persistence_error x) \<or>
          (\<exists>s. create_sqlite_store L db os True fs uuid now src p destination overwrite = Inr (Some s) \<and>
            sqlite_represents L db sn t (coll_items (pr_collector r)) (coll_total (pr_collector r)) s)"
proof -
  let ?ops = "sqlite_builder_ops L db os True destination overwrite fs"
  have c: "codecs_ok L" using r(4) by (simp add: sqlite_importable_def)
  obtain b where "sqlite_init L db os True sn destination overwrite fs = (Inr b, sb_files b)"
    by (rule sqlite_init_usable [where fs = fs and destination = destination, OF sn(2) c os(3,1,2)])
  then have b: "bo_init ?ops sn = Inr b" by (simp add: sqlite_builder_ops_def)
  have suit: "sqlite_suitable L db os destination sn" using c sn(2) os by (simp add: sqlite_suitable_def)
  have es: "list_all (sqlite_entry_ok L db) (pr_entries r)"
    "(\<Sum>e\<leftarrow>pr_entries r. length (entry_path e)) \<le> sqlite_capacity"
    "reportable L (coll_items (pr_collector r)) (coll_total (pr_collector r))"
    using r(4) by (simp_all add: sqlite_importable_def)
  show ?thesis
    using sqlite_build.create_store_spec [OF sn(1) b suit r(1-3) es]
    by (cases "spec_all (spec_add_by (stored_node L db) db) (pr_entries r) start_tree";
        cases "coll_has_errors (pr_collector r)")
      (auto simp: create_sqlite_store_def sqlite_published_def)
qed

end
