(* ===== verification/Sqlite_Agreement.thy ===== *)
theory Sqlite_Agreement
  imports Sqlite_Import
begin

text \<open>
  The two stores agree: when comparing a time with its stored form gives what comparing the time
  itself gives, an import into SQLite accepts and rejects what an import into memory does, and
  shows the tree of the memory store with its times and metadata as they are read back.
\<close>

section \<open>Reading back twice\<close>

lemma read_back_time_idem: "time_ok L db t \<Longrightarrow> read_back_time L db (read_back_time L db t) = read_back_time L db t"
  by (subst (1) read_back_time_def) (simp add: time_ok_read_back)

lemma read_back_metadata_idem:
  assumes "metadata_ok L m"
  shows "read_back_metadata L (read_back_metadata L m) = read_back_metadata L m"
proof -
  obtain js x where "decode_metadata L (SqlText js) = Inr x" "freeze_metadata x = Inr (read_back_metadata L m)"
    "encode_metadata L (read_back_metadata L m) = Inr js"
    using metadata_ok_read_back [OF assms] by metis
  then show ?thesis by (subst (1) read_back_metadata_def) simp
qed

section \<open>Nodes that hold an entry's values\<close>

definition from_entries :: "parsed_entry set \<Rightarrow> mutable_node \<Rightarrow> bool" where
  "from_entries E n \<longleftrightarrow> (mn_modified_at n = None \<and> mn_source_metadata n = EMPTY_METADATA) \<or>
     (\<exists>e \<in> E. mn_modified_at n = entry_modified_local e \<and> mn_source_metadata n = entry_source_metadata e)"

text \<open>A stored time compares with the times of the entries as the time itself does.\<close>

definition times_comparable :: "text_codecs \<Rightarrow> tzdb \<Rightarrow> parsed_entry set \<Rightarrow> bool" where
  "times_comparable L db E \<longleftrightarrow> (\<forall>e \<in> E. \<forall>e' \<in> E.
     opt_datetime_eq db (map_option (read_back_time L db) (entry_modified_local e)) (entry_modified_local e') =
     opt_datetime_eq db (entry_modified_local e) (entry_modified_local e'))"

definition entries_storable :: "text_codecs \<Rightarrow> tzdb \<Rightarrow> parsed_entry set \<Rightarrow> bool" where
  "entries_storable L db E \<longleftrightarrow> codecs_ok L \<and> times_comparable L db E \<and> (\<forall>e \<in> E. sqlite_entry_ok L db e)"

lemma stored_idem:
  assumes E: "entries_storable L db E" and n: "from_entries E n"
  shows "stored_node L db (stored_node L db n) = stored_node L db n"
proof -
  have "metadata_ok L (mn_source_metadata n)" "\<forall>t. mn_modified_at n = Some t \<longrightarrow> time_ok L db t"
    using assms metadata_ok_empty
    by (auto simp: from_entries_def entries_storable_def sqlite_entry_ok_def EMPTY_METADATA_def)
  then show ?thesis
    by (cases "mn_modified_at n") (simp_all add: stored_node_def read_back_time_idem read_back_metadata_idem)
qed

lemma stored_new:
  assumes "codecs_ok L"
  shows "stored_node L db (new_mutable_node i p name og kind) = new_mutable_node i p name og kind"
proof -
  have "read_back_metadata L EMPTY_METADATA = EMPTY_METADATA"
    using assms by (simp add: read_back_metadata_def encode_metadata_def decode_metadata_def codecs_ok_def EMPTY_METADATA_def
        thaw_metadata_def freeze_metadata_def)
  then show ?thesis by (simp add: stored_node_def new_mutable_node_def)
qed

lemma conflict_stored [simp]: "conflict (stored_node L db n) e reason = conflict n e reason"
  by (simp add: conflict_def cong: option.case_cong)

lemma apply_stored [simp]: "apply_entry (stored_node L db n) e = apply_entry n e"
  by (simp add: apply_entry_def stored_node_def)

lemma stored_times:
  assumes "times_comparable L db E" "from_entries E n" "e \<in> E"
  shows "opt_datetime_eq db (map_option (read_back_time L db) (mn_modified_at n)) (entry_modified_local e) =
    opt_datetime_eq db (mn_modified_at n) (entry_modified_local e)"
  using assms by (auto simp: from_entries_def times_comparable_def)

lemma merge_stored:
  assumes E: "entries_storable L db E" and n: "from_entries E n" and e: "e \<in> E"
  shows "map_ok (stored_node L db) (merge db (stored_node L db n) e) = map_ok (stored_node L db) (merge db n e)"
    and "merge db n e = Inr n' \<Longrightarrow> from_entries E n'"
proof -
  have "times_comparable L db E" using E by (simp add: entries_storable_def)
  note eq = stored_times [OF this n e]
  show "map_ok (stored_node L db) (merge db (stored_node L db n) e) = map_ok (stored_node L db) (merge db n e)"
    by (simp add: merge_def eq stored_idem [OF E n])
  show "from_entries E n'" if "merge db n e = Inr n'"
    using that by (rule merge_cases) (use n e in \<open>auto simp: from_entries_def\<close>)
qed

section \<open>The two specifications\<close>

definition read_back_tree :: "text_codecs \<Rightarrow> tzdb \<Rightarrow> path_tree \<Rightarrow> path_tree" where
  "read_back_tree L db t path = map_option (stored_node L db) (t path)"

lemma read_back_tree_upd: "read_back_tree L db (t(p \<mapsto> n)) = (read_back_tree L db t)(p \<mapsto> stored_node L db n)"
  by (auto simp: read_back_tree_def)

definition tree_from :: "parsed_entry set \<Rightarrow> path_tree \<Rightarrow> bool" where
  "tree_from E t \<longleftrightarrow> (\<forall>path n. t path = Some n \<longrightarrow> from_entries E n)"

lemma tree_from_upd: "tree_from E t \<Longrightarrow> from_entries E n \<Longrightarrow> tree_from E (t(p \<mapsto> n))"
  by (simp add: tree_from_def)

definition trees_agree :: "text_codecs \<Rightarrow> tzdb \<Rightarrow> parsed_entry set \<Rightarrow> diagnostic + path_tree \<Rightarrow> diagnostic + path_tree \<Rightarrow> bool" where
  "trees_agree L db E r s \<longleftrightarrow>
     (case r of Inl d \<Rightarrow> s = Inl d | Inr t \<Rightarrow> tree_from E t \<and> s = Inr (read_back_tree L db t))"

lemma trees_agree_simps [simp]:
  "trees_agree L db E (Inl d) s \<longleftrightarrow> s = Inl d"
  "trees_agree L db E (Inr t) s \<longleftrightarrow> tree_from E t \<and> s = Inr (read_back_tree L db t)"
  by (simp_all add: trees_agree_def)

lemma spec_add_loop_agrees:
  assumes E: "entries_storable L db E" and e: "e \<in> E"
  shows "tree_from E t \<Longrightarrow> trees_agree L db E (spec_add_loop (\<lambda>n. n) db e upper names t)
    (spec_add_loop (stored_node L db) db e upper names (read_back_tree L db t))"
proof (induction names arbitrary: upper t)
  case Nil
  then show ?case by simp
next
  case (Cons name rest)
  have c: "codecs_ok L" using E by (simp add: entries_storable_def)
  define here where "here = upper @ [name]"
  define kind where "kind = (if rest = [] then entry_kind e else DIRECTORY)"
  define fresh where "fresh = new_mutable_node 0 None name (Some (join [slash] (take (length here) (entry_path e)))) kind"
  define n where "n = (case t here of Some n \<Rightarrow> n | None \<Rightarrow> fresh)"
  have n: "from_entries E n"
    using Cons.prems by (auto simp: n_def tree_from_def fresh_def from_entries_def split: option.split)
  have stored: "(case read_back_tree L db t here of Some n \<Rightarrow> n | None \<Rightarrow> fresh) = stored_node L db n"
    by (cases "t here") (simp_all add: read_back_tree_def n_def fresh_def stored_new [OF c])
  have step: "spec_add_loop norm db e upper (name # rest) t' =
      (let n = (case t' here of Some n \<Rightarrow> n | None \<Rightarrow> fresh)
       in if mn_kind n \<noteq> kind then Inl (conflict n e ''file/directory type conflict'')
          else if rest = [] then map_ok (\<lambda>n'. t'(here \<mapsto> norm n')) (merge db n e)
          else spec_add_loop norm db e here rest (t'(here \<mapsto> n)))" for norm t'
    by (simp only: spec_add_loop.simps Let_def here_def kind_def fresh_def)
  have mem: "spec_add_loop (\<lambda>n. n) db e upper (name # rest) t =
      (if mn_kind n \<noteq> kind then Inl (conflict n e ''file/directory type conflict'')
       else if rest = [] then map_ok (\<lambda>n'. t(here \<mapsto> n')) (merge db n e)
       else spec_add_loop (\<lambda>n. n) db e here rest (t(here \<mapsto> n)))"
    unfolding step Let_def n_def ..
  have sql: "spec_add_loop (stored_node L db) db e upper (name # rest) (read_back_tree L db t) =
      (if mn_kind n \<noteq> kind then Inl (conflict n e ''file/directory type conflict'')
       else if rest = [] then map_ok (\<lambda>n'. (read_back_tree L db t)(here \<mapsto> n')) (map_ok (stored_node L db) (merge db n e))
       else spec_add_loop (stored_node L db) db e here rest (read_back_tree L db (t(here \<mapsto> n))))"
    unfolding step Let_def stored merge_stored(1) [OF E n e, symmetric] read_back_tree_upd
    by (cases "merge db (stored_node L db n) e") simp_all
  show ?case
    unfolding mem sql
    using Cons.IH [OF tree_from_upd [OF Cons.prems n], of here here] merge_stored(2) [OF E n e] Cons.prems
    by (cases "merge db n e") (auto simp: tree_from_upd read_back_tree_upd simp del: fun_upd_apply)
qed

lemma spec_all_agrees:
  assumes E: "entries_storable L db E"
  shows "set es \<subseteq> E \<Longrightarrow> tree_from E t \<Longrightarrow>
    trees_agree L db E (spec_all (spec_add db) es t) (spec_all (spec_add_by (stored_node L db) db) es (read_back_tree L db t))"
proof (induction es arbitrary: t)
  case (Cons e es)
  have "trees_agree L db E (spec_add db e t) (spec_add_by (stored_node L db) db e (read_back_tree L db t))"
    using spec_add_loop_agrees [OF E _ Cons.prems(2), of e "[]"] Cons.prems(1)
    by (simp add: spec_add_def spec_add_by_def split: sum.split)
  with Cons show ?case by (cases "spec_add db e t") auto
qed simp

lemma start_agrees:
  assumes "entries_storable L db E"
  shows "tree_from E start_tree" "read_back_tree L db start_tree = start_tree"
proof -
  show "tree_from E start_tree"
    by (simp add: tree_from_def start_tree_def from_entries_def root_node_def)
  have "stored_node L db root_node = root_node"
    using assms by (simp add: entries_storable_def root_node_def stored_new)
  then have "stored_node L db (blank root_node) = blank root_node" by (simp flip: stored_node_blank)
  then show "read_back_tree L db start_tree = start_tree"
    by (auto simp: read_back_tree_def start_tree_def)
qed

text \<open>Reading back a node of a view.\<close>

definition stored_view :: "text_codecs \<Rightarrow> tzdb \<Rightarrow> node \<Rightarrow> node" where
  "stored_view L db n = n
     \<lparr>node_modified_at := map_option (read_back_time L db) (node_modified_at n),
      node_source_metadata := read_back_metadata L (node_source_metadata n)\<rparr>"

lemma node_of_stored: "node_of sid (stored_node L db n) = stored_view L db (node_of sid n)"
  by (simp add: node_of_def stored_view_def content_values_def Let_def)

lemma node_view_read_back: "node_view sid (read_back_tree L db t) path = map_option (stored_view L db) (node_view sid t path)"
  by (simp add: node_view_def read_back_tree_def option.map_comp comp_def node_of_stored)

section \<open>The two imports\<close>

theorem imports_agree:
  assumes sn: "make_snapshot \<lparr>snapshot_id = uuid, snapshot_source_uri = source_uri src,
      snapshot_source_format = parser_format_name p, snapshot_imported_at = now,
      snapshot_source_metadata = parser_source_metadata p\<rparr> = Inr sn" "snapshot_storable L db sn"
    and os: "os_mkstemp os = Inr tmp" "tmp \<noteq> destination" "fs destination = None \<or> overwrite"
    and r: "source_open src = Inr stream" "parser_parse p stream = Inr r" "pr_error r = None" "sqlite_importable L db r"
    and times: "times_comparable L db (set (pr_entries r))"
  shows "(\<exists>x. create_memory_store db uuid now src p = Inl x \<and>
      create_sqlite_store L db os True fs uuid now src p destination overwrite = Inl x) \<or>
    (\<exists>s x. create_memory_store db uuid now src p = Inr s \<and> is_persistence_error x \<and>
      create_sqlite_store L db os True fs uuid now src p destination overwrite = Inl (Import_Raised x)) \<or>
    (\<exists>s q. create_memory_store db uuid now src p = Inr s \<and>
      create_sqlite_store L db os True fs uuid now src p destination overwrite = Inr (Some q) \<and>
      (\<forall>path. store_view (sqlite_object q) uuid path =
        map_option (stored_view L db) (store_view (mem_object s) uuid path)))"
proof -
  let ?E = "set (pr_entries r)"
  have E: "entries_storable L db ?E"
    using r(4) times by (simp add: entries_storable_def sqlite_importable_def list_all_iff)
  have id: "snapshot_id sn = uuid" using make_snapshot_id [OF sn(1)] by simp
  have ok: "list_all entry_ok (pr_entries r)"
    using r(4) by (simp add: sqlite_importable_def sqlite_entry_ok_def list_all_iff)
  note mem = create_memory_store_spec [OF sn(1) r(1-3) ok, of db]
  note sql = sqlite_import [where fs = fs and destination = destination, OF sn os r]
  have agree: "trees_agree L db ?E (spec_all (spec_add db) (pr_entries r) start_tree)
      (spec_all (spec_add_by (stored_node L db) db) (pr_entries r) start_tree)"
    using spec_all_agrees [OF E subset_refl start_agrees(1) [OF E]] start_agrees(2) [OF E] by simp
  show ?thesis
  proof (cases "spec_all (spec_add db) (pr_entries r) start_tree")
    case (Inl d)
    with agree mem sql show ?thesis by simp
  next
    case (Inr t)
    with agree have t: "spec_all (spec_add_by (stored_node L db) db) (pr_entries r) start_tree = Inr (read_back_tree L db t)"
      by simp
    show ?thesis
    proof (cases "coll_has_errors (pr_collector r)")
      case True
      with Inr t mem sql show ?thesis by simp
    next
      case False
      obtain s where s: "create_memory_store db uuid now src p = Inr s"
        "store_view (mem_object s) uuid = node_view uuid t"
        using mem Inr False id by (auto simp: mem_represents_def)
      have "store_view (sqlite_object q) uuid path = map_option (stored_view L db) (store_view (mem_object s) uuid path)"
        if "sqlite_represents L db sn (read_back_tree L db t) ds n q" for q ds n path
        using that id s(2) by (simp add: sqlite_represents_def node_view_read_back)
      with sql t False s(1) show ?thesis by auto
    qed
  qed
qed

end
