(* ===== verification/Sqlite_Import_Example.thy ===== *)
theory Sqlite_Import_Example
  imports Sqlite_Example Sqlite_Agreement
begin

text \<open>
  A small import into SQLite: the codecs, the snapshot and the entries of \<open>Examples\<close> meet what the
  properties of the SQLite builder ask for.
\<close>

lemma example_codecs_ok: "codecs_ok example_codecs"
  by (simp add: codecs_ok_def example_codecs_def)

lemma example_time_ok: "time_ok example_codecs utc_db noon" "read_back_time example_codecs utc_db noon = noon"
  by (simp_all add: time_ok_def read_back_time_def example_codecs_def)

lemma example_sqlite_entries:
  "sqlite_entry_ok example_codecs utc_db example_entry" "sqlite_entry_ok example_codecs utc_db example_header"
  using metadata_ok_empty [OF example_codecs_ok] example_time_ok(1)
  by (simp_all add: sqlite_entry_ok_def opt_int64_def int64_def)
    (simp_all add: example_entry_def example_header_def EMPTY_METADATA_def)

lemma example_snapshot_storable: "snapshot_storable example_codecs utc_db example_snapshot"
  using metadata_ok_empty [OF example_codecs_ok] example_time_ok(1)
  by (simp add: snapshot_storable_def example_snapshot_def)

definition example_os :: os where
  "example_os = \<lparr>os_mkstemp = Inr (lit ''temporary''), os_sync = None, os_replace = None, os_link = None,
     os_unlink = (\<lambda>_. None), os_directory_sync = None, os_directory_sync_supported = True\<rparr>"

lemma example_os_temporary: "os_mkstemp example_os = Inr (lit ''temporary'')" "lit ''temporary'' \<noteq> lit ''artifact''"
  by (simp_all add: example_os_def)

lemmas example_import = example_snapshot_storable example_os_temporary

lemma example_sqlite_builder:
  obtains b where "sqlite_usable example_codecs utc_db example_snapshot b" "sqlite_view example_codecs b = start_tree"
    "sb_next_inode b = 2"
proof -
  have "(Map.empty :: database files) (lit ''artifact'') = None \<or> False" by simp
  from sqlite_init_usable [where destination = "lit ''artifact''", OF example_snapshot_storable example_codecs_ok this
      example_os_temporary]
  show thesis using that by (metis start_tree_def)
qed

lemma example_times: "times_comparable example_codecs utc_db (set (pr_entries example_result))"
  by (simp add: times_comparable_def example_result_def)
    (simp add: example_entry_def example_header_def example_time_ok(2))

lemma example_importable: "sqlite_importable example_codecs utc_db example_result"
proof -
  have "reportable example_codecs [] 0" by (simp add: reportable_def)
  then show ?thesis
    using example_sqlite_entries
    by (simp add: sqlite_importable_def example_codecs_ok example_result_def new_collector_def sqlite_capacity_def)
      (simp add: example_entry_def example_header_def)
qed

end
