(* ===== verification/Session_World.thy ===== *)
theory Session_World
  imports Py_Datetime "HOL-Library.Sublist"
begin

text \<open>
  The operating system as the mount sessions see it. An operation takes the system calls made so
  far and returns its answer with the calls extended by its own, or \<open>None\<close> when it never returns.
  The answer of each call is an arbitrary function of the calls before it, so that every behaviour
  of the system, of other processes and of the user is one such \<open>world\<close>.
\<close>

section \<open>Calls and answers\<close>

datatype signal = SIGINT | SIGTERM | SIGKILL

text \<open>
  What ends an operation early. \<open>Keyboard\_Interrupt\<close> can end any call, \<open>Timeout\_Expired\<close> is the
  exception of a bounded wait and \<open>Process\_Lookup\<close> that of signalling a process that is gone.
\<close>

datatype session_exn = Py_Raised py_exn | Keyboard_Interrupt | Timeout_Expired | Process_Lookup

datatype call =
    Resolve pystr | Read_Mountinfo | Find_Helper | Run_Helper pystr "pystr list" | Ask_Mounted pystr
  | Read_Clock | Sleep | Ask_Directory pystr | Ask_Occupied pystr | Make_Pipe | Open_Errors | Close_Errors
  | Read_Errors | Start "pystr list" "(pystr, pystr) dict" | Close int | Select int | Read_Byte int
  | Poll int | Wait int | Wait_Briefly int | Kill int signal | Make_Directory | Remove_Directory pystr

type_synonym trace = "call list"

type_synonym 'a answer = "session_exn + 'a"

type_synonym 'a io = "trace \<Rightarrow> ('a answer \<times> trace) option"

text \<open>
  The text of the errors of a worker is what it wrote, decoded; the clock counts microseconds.
\<close>

record world =
  w_linux :: bool
  w_frozen :: bool
  w_executable :: pystr
  w_environ :: "(pystr, pystr) dict"
  w_resolve :: "pystr \<Rightarrow> trace \<Rightarrow> pystr answer"
  w_mountinfo :: "trace \<Rightarrow> pystr answer"
  w_helper :: "trace \<Rightarrow> pystr option answer"
  w_run_helper :: "pystr list \<Rightarrow> trace \<Rightarrow> (int \<times> pystr) answer"
  w_ismount :: "pystr \<Rightarrow> trace \<Rightarrow> bool answer"
  w_clock :: "trace \<Rightarrow> int answer"
  w_sleep :: "trace \<Rightarrow> unit answer"
  w_is_dir :: "pystr \<Rightarrow> trace \<Rightarrow> bool answer"
  w_occupied :: "pystr \<Rightarrow> trace \<Rightarrow> bool answer"
  w_pipe :: "trace \<Rightarrow> (int \<times> int) answer"
  w_open_errors :: "trace \<Rightarrow> unit answer"
  w_close_errors :: "trace \<Rightarrow> unit answer"
  w_read_errors :: "trace \<Rightarrow> pystr answer"
  w_start :: "pystr list \<Rightarrow> trace \<Rightarrow> int answer"
  w_close :: "int \<Rightarrow> trace \<Rightarrow> unit answer"
  w_select :: "int \<Rightarrow> trace \<Rightarrow> bool answer"
  w_read :: "int \<Rightarrow> trace \<Rightarrow> bytes answer"
  w_poll :: "int \<Rightarrow> trace \<Rightarrow> int option answer"
  w_wait :: "int \<Rightarrow> trace \<Rightarrow> int answer"
  w_wait_briefly :: "int \<Rightarrow> trace \<Rightarrow> int answer"
  w_kill :: "int \<Rightarrow> signal \<Rightarrow> trace \<Rightarrow> unit answer"
  w_make_directory :: "trace \<Rightarrow> pystr answer"
  w_remove_directory :: "pystr \<Rightarrow> trace \<Rightarrow> unit answer"

section \<open>Sequences of calls\<close>

definition ask :: "call \<Rightarrow> (trace \<Rightarrow> 'a answer) \<Rightarrow> 'a io" where
  "ask c answer tr = Some (answer tr, tr @ [c])"

definition give :: "'a answer \<Rightarrow> 'a io" where
  "give a tr = Some (a, tr)"

definition next_do :: "'a io \<Rightarrow> ('a \<Rightarrow> 'b io) \<Rightarrow> 'b io" where
  "next_do m f tr =
     (case m tr of
        None \<Rightarrow> None
      | Some (Inl e, tr') \<Rightarrow> Some (Inl e, tr')
      | Some (Inr x, tr') \<Rightarrow> f x tr')"

text \<open>\<open>try: ... finally: cleanup\<close>; an exception of the clean-up replaces the result.\<close>

definition finally_do :: "'a io \<Rightarrow> unit io \<Rightarrow> 'a io" where
  "finally_do m cleanup tr =
     (case m tr of
        None \<Rightarrow> None
      | Some (a, tr') \<Rightarrow>
          (case cleanup tr' of
             None \<Rightarrow> None
           | Some (Inl e, tr'') \<Rightarrow> Some (Inl e, tr'')
           | Some (Inr _, tr'') \<Rightarrow> Some (a, tr'')))"

text \<open>\<open>with suppress(...)\<close>, and continuing after one kind of exception.\<close>

definition catch_do :: "session_exn \<Rightarrow> 'a io \<Rightarrow> 'a io \<Rightarrow> 'a io" where
  "catch_do e m handler tr =
     (case m tr of
        None \<Rightarrow> None
      | Some (Inl e', tr') \<Rightarrow> if e' = e then handler tr' else Some (Inl e', tr')
      | Some (Inr x, tr') \<Rightarrow> Some (Inr x, tr'))"

lemma ask_Some [simp]: "ask c answer tr = Some (a, tr') \<longleftrightarrow> answer tr = a \<and> tr' = tr @ [c]"
  by (auto simp: ask_def)

lemma give_Some [simp]: "give a tr = Some (b, tr') \<longleftrightarrow> b = a \<and> tr' = tr"
  by (auto simp: give_def)

lemma next_do_Some:
  "next_do m f tr = Some (a, tr') \<longleftrightarrow>
     (\<exists>e. m tr = Some (Inl e, tr') \<and> a = Inl e) \<or> (\<exists>x t. m tr = Some (Inr x, t) \<and> f x t = Some (a, tr'))"
  by (auto simp: next_do_def split: option.splits sum.splits prod.splits)

lemma finally_do_Some:
  "finally_do m cleanup tr = Some (a, tr') \<longleftrightarrow>
     (\<exists>b t. m tr = Some (b, t) \<and>
       ((\<exists>e. cleanup t = Some (Inl e, tr') \<and> a = Inl e) \<or> (cleanup t = Some (Inr (), tr') \<and> a = b)))"
  by (auto simp: finally_do_def split: option.splits sum.splits prod.splits)

lemma catch_do_Some:
  "catch_do e m handler tr = Some (a, tr') \<longleftrightarrow>
     (\<exists>t. m tr = Some (Inl e, t) \<and> handler t = Some (a, tr')) \<or> (m tr = Some (a, tr') \<and> a \<noteq> Inl e)"
  by (auto simp: catch_do_def split: option.splits sum.splits prod.splits if_splits)

section \<open>What holds of every run of an operation\<close>

text \<open>
  A property of an operation that relates the calls before it to those after it; it is transitive,
  so it holds of a sequence when it holds of the parts.
\<close>

definition always :: "(trace \<Rightarrow> trace \<Rightarrow> bool) \<Rightarrow> 'a io \<Rightarrow> bool" where
  "always R m \<longleftrightarrow> (\<forall>tr a tr'. m tr = Some (a, tr') \<longrightarrow> R tr tr')"

definition returns :: "'a io \<Rightarrow> bool" where
  "returns m \<longleftrightarrow> (\<forall>tr. m tr \<noteq> None)"

named_theorems io_intros \<open>composition of operations\<close>

lemma alwaysD: "always R m \<Longrightarrow> m tr = Some (a, tr') \<Longrightarrow> R tr tr'"
  by (auto simp: always_def)

lemma always_next_do:
  assumes "transp R" "always R m" "\<And>x. always R (f x)"
  shows "always R (next_do m f)"
  using assms unfolding always_def next_do_Some by (meson transpD)

lemma always_finally_do:
  assumes "transp R" "always R m" "always R cleanup"
  shows "always R (finally_do m cleanup)"
  using assms unfolding always_def finally_do_Some by (metis transpD)

lemma always_catch_do:
  assumes "transp R" "always R m" "always R handler"
  shows "always R (catch_do e m handler)"
  using assms unfolding always_def catch_do_Some by (metis transpD)

lemma returns_ask [io_intros]: "returns (ask c answer)"
  by (simp add: returns_def ask_def)

lemma returns_give [io_intros]: "returns (give a)"
  by (simp add: returns_def give_def)

lemma returns_next_do [io_intros]: "returns m \<Longrightarrow> (\<And>x. returns (f x)) \<Longrightarrow> returns (next_do m f)"
  by (auto simp: returns_def next_do_def split: option.splits sum.splits prod.splits)

lemma returns_finally_do [io_intros]: "returns m \<Longrightarrow> returns cleanup \<Longrightarrow> returns (finally_do m cleanup)"
  unfolding returns_def finally_do_def
  by (simp split: option.split prod.split sum.split) (metis option.distinct(1))

lemma returns_catch_do [io_intros]: "returns m \<Longrightarrow> returns handler \<Longrightarrow> returns (catch_do e m handler)"
  by (auto simp: returns_def catch_do_def split: option.splits sum.splits prod.splits)

text \<open>Calls are only added, and some operations never make a given call.\<close>

abbreviation grows :: "'a io \<Rightarrow> bool" where
  "grows \<equiv> always prefix"

definition avoids :: "call \<Rightarrow> 'a io \<Rightarrow> bool" where
  "avoids c = always (\<lambda>tr tr'. count_list tr' c = count_list tr c)"

lemma transp_prefix: "transp (prefix :: trace \<Rightarrow> trace \<Rightarrow> bool)"
  by (rule transpI) (rule prefix_order.trans)

lemma transp_count: "transp (\<lambda>tr tr' :: trace. count_list tr' c = count_list tr c)"
  by (rule transpI) simp

lemma grows_ask [io_intros]: "grows (ask c answer)"
  by (simp add: always_def)

lemma grows_give [io_intros]: "grows (give a)"
  by (simp add: always_def)

lemmas grows_io [io_intros] =
  always_next_do [OF transp_prefix] always_finally_do [OF transp_prefix] always_catch_do [OF transp_prefix]

lemma avoids_ask [io_intros]: "c \<noteq> d \<Longrightarrow> avoids c (ask d answer)"
  by (simp add: avoids_def always_def)

lemma avoids_give [io_intros]: "avoids c (give a)"
  by (simp add: avoids_def always_def)

lemma avoids_next_do [io_intros]: "avoids c m \<Longrightarrow> (\<And>x. avoids c (f x)) \<Longrightarrow> avoids c (next_do m f)"
  unfolding avoids_def by (rule always_next_do [OF transp_count])

lemma avoids_finally_do [io_intros]: "avoids c m \<Longrightarrow> avoids c cleanup \<Longrightarrow> avoids c (finally_do m cleanup)"
  unfolding avoids_def by (rule always_finally_do [OF transp_count])

lemma avoids_catch_do [io_intros]: "avoids c m \<Longrightarrow> avoids c handler \<Longrightarrow> avoids c (catch_do e m handler)"
  unfolding avoids_def by (rule always_catch_do [OF transp_count])

lemma avoidsD: "avoids c m \<Longrightarrow> m tr = Some (a, tr') \<Longrightarrow> count_list tr' c = count_list tr c"
  unfolding avoids_def by (rule alwaysD)

lemma io_if [io_intros]:
  "always R m \<Longrightarrow> always R m' \<Longrightarrow> always R (if b then m else m')"
  "avoids c m \<Longrightarrow> avoids c m' \<Longrightarrow> avoids c (if b then m else m')"
  "returns m \<Longrightarrow> returns m' \<Longrightarrow> returns (if b then m else m')"
  by simp_all

lemma io_option [io_intros]:
  "always R m \<Longrightarrow> (\<And>x. always R (f x)) \<Longrightarrow> always R (case v of None \<Rightarrow> m | Some x \<Rightarrow> f x)"
  "avoids c m \<Longrightarrow> (\<And>x. avoids c (f x)) \<Longrightarrow> avoids c (case v of None \<Rightarrow> m | Some x \<Rightarrow> f x)"
  "returns m \<Longrightarrow> (\<And>x. returns (f x)) \<Longrightarrow> returns (case v of None \<Rightarrow> m | Some x \<Rightarrow> f x)"
  by (simp_all split: option.split)

end
