(* ===== verification/Mount_Table.thy ===== *)
theory Mount_Table
  imports Py_Datetime
begin

text \<open>
  \<open>is\_snapshot\_mount\<close> of \<open>snapshotfs.mount\_session\<close>: reading the kernel's table of mounts. The
  table is the text of \<open>/proc/self/mountinfo\<close>; the last part describes how the kernel writes it
  and shows that the reader finds the entry of a mount point.
\<close>

section \<open>String operations\<close>

text \<open>\<open>s.split()\<close>: the maximal runs of characters that are not white space.\<close>

fun split_space :: "pystr \<Rightarrow> pystr \<Rightarrow> pystr list" where
  "split_space w [] = (if w = [] then [] else [w])"
| "split_space w (c # s) =
     (if py_isspace c then (if w = [] then split_space [] s else w # split_space [] s)
      else split_space (w @ [c]) s)"

definition py_split :: "pystr \<Rightarrow> pystr list" where
  "py_split s = split_space [] s"

text \<open>\<open>s.splitlines()\<close>; that \<open>read\_text\<close> translates carriage returns makes no difference to it.\<close>

definition line_boundary :: "nat \<Rightarrow> bool" where
  "line_boundary c \<longleftrightarrow> (10 \<le> c \<and> c \<le> 13) \<or> (28 \<le> c \<and> c \<le> 30) \<or> c = 133 \<or> c = 8232 \<or> c = 8233"

fun split_lines :: "pystr \<Rightarrow> pystr \<Rightarrow> pystr list" where
  "split_lines w [] = (if w = [] then [] else [w])"
| "split_lines w [c] = (if line_boundary c then [w] else [w @ [c]])"
| "split_lines w (c # d # s) =
     (if c = 13 \<and> d = 10 then w # split_lines [] s
      else if line_boundary c then w # split_lines [] (d # s)
      else split_lines (w @ [c]) (d # s))"

definition py_splitlines :: "pystr \<Rightarrow> pystr list" where
  "py_splitlines s = split_lines [] s"

text \<open>\<open>re.sub\<close> with the pattern \<open>\\(040|011|012|134)\<close>: four octal escapes.\<close>

definition octal_escapes :: "(pystr \<times> nat) list" where
  "octal_escapes = [(lit ''040'', 32), (lit ''011'', 9), (lit ''012'', 10), (lit ''134'', 92)]"

function unescape :: "pystr \<Rightarrow> pystr" where
  "unescape [] = []"
| "unescape (c # s) =
     (case (if c = 92 then map_of octal_escapes (take 3 s) else None) of
        Some v \<Rightarrow> v # unescape (drop 3 s)
      | None \<Rightarrow> c # unescape s)"
  by pat_completeness auto
termination by (relation "measure length") auto

text \<open>\<open>fields.index("-")\<close>, and indexing, which raises \<open>IndexError\<close> beyond the end.\<close>

fun index_from :: "nat \<Rightarrow> pystr \<Rightarrow> pystr list \<Rightarrow> py_exn + nat" where
  "index_from i x [] = Inl (ValueError [Repr x, Txt '' is not in list''])"
| "index_from i x (y # ys) = (if y = x then Inr i else index_from (i + 1) x ys)"

definition list_item :: "pystr list \<Rightarrow> nat \<Rightarrow> py_exn + pystr" where
  "list_item xs i = (if i < length xs then Inr (xs ! i) else Inl (StoreError ''IndexError'' [Txt ''list index out of range'']))"

section \<open>The search\<close>

definition snapshot_type :: "pystr list \<Rightarrow> nat \<Rightarrow> py_exn + bool" where
  "snapshot_type items separator =
     (case list_item items (separator + 1) of
        Inl x \<Rightarrow> Inl x
      | Inr kind \<Rightarrow>
          if kind = lit ''fuse.snapshotfs'' then Inr True
          else if kind = lit ''fuse''
          then map_ok (\<lambda>source. source = lit ''snapshotfs'') (list_item items (separator + 2))
          else Inr False)"

fun find_mount :: "pystr \<Rightarrow> pystr list \<Rightarrow> py_exn + bool" where
  "find_mount target [] = Inr False"
| "find_mount target (line # rest) =
     (let items = py_split line
      in case index_from 0 (lit ''-'') items of
           Inl x \<Rightarrow> Inl x
         | Inr separator \<Rightarrow>
             (case list_item items 4 of
                Inl x \<Rightarrow> Inl x
              | Inr raw \<Rightarrow>
                  if unescape raw = target then snapshot_type items separator
                  else find_mount target rest))"

text \<open>\<open>is\_snapshot\_mount\<close> on the text of the table, for a resolved path.\<close>

definition snapshot_mounted :: "pystr \<Rightarrow> pystr \<Rightarrow> py_exn + bool" where
  "snapshot_mounted target text = find_mount target (py_splitlines text)"

section \<open>The table that the kernel writes\<close>

text \<open>The kernel escapes spaces, tabs, newlines and backslashes.\<close>

definition escape_char :: "nat \<Rightarrow> pystr" where
  "escape_char c =
     (if c = 32 then lit [CHR 0x5C] @ lit ''040'' else if c = 9 then lit [CHR 0x5C] @ lit ''011''
      else if c = 10 then lit [CHR 0x5C] @ lit ''012'' else if c = 92 then lit [CHR 0x5C] @ lit ''134'' else [c])"

definition escape :: "pystr \<Rightarrow> pystr" where
  "escape s = concat (map escape_char s)"

record mount =
  mt_numbers :: "pystr list"
  mt_point :: pystr
  mt_options :: "pystr list"
  mt_type :: pystr
  mt_source :: pystr
  mt_super_options :: pystr

definition mount_items :: "mount \<Rightarrow> pystr list" where
  "mount_items m =
     mt_numbers m @ escape (mt_point m) # mt_options m @ [lit ''-'', mt_type m, mt_source m, mt_super_options m]"

definition mount_table :: "mount list \<Rightarrow> pystr" where
  "mount_table ms = concat (map (\<lambda>m. join [32] (mount_items m) @ [10]) ms)"

text \<open>A word of a line: no white space; not the separator.\<close>

definition word_ok :: "pystr \<Rightarrow> bool" where
  "word_ok w \<longleftrightarrow> w \<noteq> [] \<and> (\<forall>c \<in> set w. \<not> py_isspace c)"

text \<open>The only white space in the mount point is what the kernel escapes.\<close>

definition mount_ok :: "mount \<Rightarrow> bool" where
  "mount_ok m \<longleftrightarrow> length (mt_numbers m) = 4 \<and>
     (\<forall>w \<in> set (mt_numbers m @ mt_options m). word_ok w \<and> w \<noteq> lit ''-'') \<and>
     word_ok (mt_type m) \<and> word_ok (mt_source m) \<and> word_ok (mt_super_options m) \<and>
     (\<exists>p. mt_point m = 47 # p) \<and> (\<forall>c \<in> set (mt_point m). py_isspace c \<longrightarrow> c \<in> {32, 9, 10})"

definition is_snapshot :: "mount \<Rightarrow> bool" where
  "is_snapshot m \<longleftrightarrow> mt_type m = lit ''fuse.snapshotfs'' \<or> mt_type m = lit ''fuse'' \<and> mt_source m = lit ''snapshotfs''"

section \<open>The reader finds what the kernel wrote\<close>

lemma unescape_escape: "unescape (escape s) = s"
proof (induction s)
  case Nil
  then show ?case by (simp add: escape_def)
next
  case (Cons c s)
  have "escape (c # s) = escape_char c @ escape s" by (simp add: escape_def)
  moreover have "unescape (escape_char c @ t) = c # unescape t" for t
    by (auto simp: escape_char_def lit_def octal_escapes_def)
  ultimately show ?case using Cons by simp
qed

lemma escape_char_no_space: "c \<notin> {32, 9, 10} \<longrightarrow> \<not> py_isspace c \<Longrightarrow> d \<in> set (escape_char c) \<Longrightarrow> \<not> py_isspace d"
  by (auto simp: escape_char_def lit_def py_isspace_def split: if_splits)

lemma split_space_word: "\<forall>c \<in> set w. \<not> py_isspace c \<Longrightarrow> split_space v (w @ s) = split_space (v @ w) s"
  by (induction w arbitrary: v) auto

lemma split_space_words: "ws \<noteq> [] \<Longrightarrow> \<forall>w \<in> set ws. word_ok w \<Longrightarrow> split_space [] (join [32] ws) = ws"
proof (induction "[32 :: nat]" ws rule: join.induct)
  case (2 w)
  then show ?case using split_space_word [of w "[]" "[]"] by (simp add: word_ok_def)
next
  case (3 w v va)
  have "py_isspace 32" by (simp add: py_isspace_def)
  with 3 show ?case by (simp add: split_space_word word_ok_def)
qed simp

lemma join_words_set: "c \<in> set (join [32] ws) \<Longrightarrow> c = 32 \<or> (\<exists>w \<in> set ws. c \<in> set w)"
  by (induction "[32 :: nat]" ws rule: join.induct) auto

lemma split_lines_line:
  assumes "\<forall>c \<in> set l. \<not> line_boundary c"
  shows "split_lines w (l @ 10 # s) = (w @ l) # split_lines [] s"
  using assms
proof (induction l arbitrary: w)
  case Nil
  have "line_boundary 10" by (simp add: line_boundary_def)
  then show ?case by (cases s) simp_all
next
  case (Cons c l)
  then have "c \<noteq> 13" by (auto simp: line_boundary_def)
  obtain d s' where d: "l @ 10 # s = d # s'" by (cases l) auto
  have "split_lines w (c # d # s') = split_lines (w @ [c]) (d # s')"
    using Cons.prems \<open>c \<noteq> 13\<close> by simp
  with Cons.IH [of "w @ [c]"] Cons.prems show ?case unfolding append.simps d by simp
qed

lemma boundary_space: "line_boundary c \<Longrightarrow> py_isspace c"
  by (auto simp: line_boundary_def py_isspace_def)

lemma mount_items_words:
  assumes "mount_ok m"
  shows "\<forall>w \<in> set (mount_items m). word_ok w"
proof -
  have dash: "word_ok (lit ''-'')" by (simp add: word_ok_def lit_def py_isspace_def)
  obtain p where p: "mt_point m = 47 # p" using assms by (auto simp: mount_ok_def)
  have "\<not> py_isspace c" if "c \<in> set (escape (mt_point m))" for c
  proof -
    from that obtain d where "d \<in> set (mt_point m)" "c \<in> set (escape_char d)" by (auto simp: escape_def)
    moreover from this assms have "d \<notin> {32, 9, 10} \<longrightarrow> \<not> py_isspace d" unfolding mount_ok_def by blast
    ultimately show ?thesis using escape_char_no_space by blast
  qed
  moreover have "escape (mt_point m) \<noteq> []" by (simp add: p escape_def escape_char_def)
  ultimately have "word_ok (escape (mt_point m))" by (simp add: word_ok_def)
  moreover have "\<forall>w \<in> set (mt_numbers m @ mt_options m). word_ok w" using assms by (simp add: mount_ok_def)
  moreover have "word_ok (mt_type m)" "word_ok (mt_source m)" "word_ok (mt_super_options m)"
    using assms by (simp_all add: mount_ok_def)
  ultimately show ?thesis using dash by (simp add: mount_items_def ball_Un)
qed

lemma splitlines_table:
  "\<forall>m \<in> set ms. mount_ok m \<Longrightarrow> py_splitlines (mount_table ms) = map (\<lambda>m. join [32] (mount_items m)) ms"
proof (induction ms)
  case Nil
  then show ?case by (simp add: py_splitlines_def mount_table_def)
next
  case (Cons m ms)
  have "\<not> line_boundary c" if "c \<in> set (join [32] (mount_items m))" for c
  proof (cases "c = 32")
    case True
    then show ?thesis by (simp add: line_boundary_def)
  next
    case False
    with join_words_set [OF that] obtain w where "w \<in> set (mount_items m)" "c \<in> set w" by blast
    with mount_items_words [of m] Cons.prems have "\<not> py_isspace c" by (simp add: word_ok_def)
    with boundary_space show ?thesis by blast
  qed
  then have "split_lines [] (join [32] (mount_items m) @ 10 # mount_table ms) =
      join [32] (mount_items m) # split_lines [] (mount_table ms)"
    using split_lines_line [of "join [32] (mount_items m)" "[]"] by simp
  with Cons show ?case by (simp add: py_splitlines_def mount_table_def)
qed

lemma index_from_append:
  "x \<notin> set ys \<Longrightarrow> index_from i x (ys @ x # zs) = Inr (i + length ys)"
  by (induction ys arbitrary: i) auto

lemma find_mount_item:
  assumes m: "mount_ok m"
  shows "find_mount target (join [32] (mount_items m) # rest) =
    (if mt_point m = target then Inr (is_snapshot m) else find_mount target rest)"
proof -
  let ?pre = "mt_numbers m @ escape (mt_point m) # mt_options m"
  have words: "py_split (join [32] (mount_items m)) = mount_items m"
    unfolding py_split_def
    by (rule split_space_words [OF _ mount_items_words [OF m]]) (simp add: mount_items_def)
  obtain p where p: "mt_point m = 47 # p" using m by (auto simp: mount_ok_def)
  have "escape (mt_point m) \<noteq> lit ''-''" by (simp add: p escape_def escape_char_def lit_def)
  then have dash: "lit ''-'' \<notin> set ?pre" using m by (auto simp: mount_ok_def)
  have split: "mount_items m = ?pre @ lit ''-'' # [mt_type m, mt_source m, mt_super_options m]"
    by (simp add: mount_items_def)
  have index: "index_from 0 (lit ''-'') (mount_items m) = Inr (length ?pre)"
    using index_from_append [OF dash, of 0 "[mt_type m, mt_source m, mt_super_options m]"] unfolding split by simp
  have four: "length (mt_numbers m) = 4" using m by (simp add: mount_ok_def)
  have "list_item (mount_items m) 4 = Inr (escape (mt_point m))"
    by (simp add: list_item_def mount_items_def four nth_append)
  moreover have "list_item (mount_items m) (length ?pre + 1) = Inr (mt_type m)"
    "list_item (mount_items m) (length ?pre + 2) = Inr (mt_source m)"
    by (simp_all add: list_item_def split nth_append del: append_Cons append_assoc)
  then have "snapshot_type (mount_items m) (length ?pre) = Inr (is_snapshot m)"
    by (auto simp: snapshot_type_def is_snapshot_def simp del: length_append)
  ultimately show ?thesis by (simp only: find_mount.simps Let_def words index unescape_escape sum.case)
qed

text \<open>The first entry for the mount point decides.\<close>

theorem snapshot_mounted_table:
  assumes "\<forall>m \<in> set ms. mount_ok m"
  shows "snapshot_mounted target (mount_table ms) =
    Inr (case List.find (\<lambda>m. mt_point m = target) ms of None \<Rightarrow> False | Some m \<Rightarrow> is_snapshot m)"
proof -
  have "find_mount target (map (\<lambda>m. join [32] (mount_items m)) ms) =
      Inr (case List.find (\<lambda>m. mt_point m = target) ms of None \<Rightarrow> False | Some m \<Rightarrow> is_snapshot m)"
    using assms by (induction ms) (simp_all add: find_mount_item del: find_mount.simps(2))
  then show ?thesis by (simp only: snapshot_mounted_def splitlines_table [OF assms])
qed

section \<open>White space that the kernel does not escape\<close>

text \<open>
  The hypothesis \<open>mount_ok\<close> is needed: a mount point with a no-break space is split in two and not
  found, and a mount point with a vertical tab anywhere in the table makes the reader raise.
\<close>

definition odd_mount :: "nat \<Rightarrow> mount" where
  "odd_mount c =
     \<lparr>mt_numbers = [lit ''36'', lit ''35'', lit ''0:52'', lit ''/''], mt_point = [47, c, 97], mt_options = [lit ''ro''],
      mt_type = lit ''fuse.snapshotfs'', mt_source = lit ''snapshotfs'', mt_super_options = lit ''ro''\<rparr>"

lemmas table_eval = odd_mount_def mount_table_def mount_items_def escape_def escape_char_def lit_def py_splitlines_def
  line_boundary_def py_split_def py_isspace_def snapshot_mounted_def list_item_def octal_escapes_def is_snapshot_def

lemma no_break_space_hides_mount:
  "is_snapshot (odd_mount 160) \<and> snapshot_mounted [47, 160, 97] (mount_table [odd_mount 160]) = Inr False"
  by (simp add: table_eval)

lemma vertical_tab_raises: "\<exists>x. snapshot_mounted (lit ''/mnt'') (mount_table [odd_mount 11]) = Inl x"
  by (simp add: table_eval)

end
