(* ===== verification/Mount_Session.thy ===== *)
theory Mount_Session
  imports Session_World Mount_Table
begin

text \<open>
  \<open>snapshotfs.mount\_session\<close>: stopping a process, unmounting, starting a background worker with a
  readiness handshake, and running a command in a temporary mount. Local variables that the
  clean-up of a \<open>try\<close> statement reads are part of the result of its body.
\<close>

definition WORKER_ENV :: pystr where "WORKER_ENV = lit ''SNAPSHOTFS_MOUNT_WORKER''"
definition READY_ENV :: pystr where "READY_ENV = lit ''SNAPSHOTFS_MOUNT_READY_FD''"

section \<open>The environment of other programs\<close>

definition cli_executable :: "world \<Rightarrow> pystr list" where
  "cli_executable W =
     (if w_frozen W then [w_executable W] else [w_executable W, lit ''-m'', lit ''snapshotfs.cli''])"

definition external_environment :: "world \<Rightarrow> (pystr, pystr) dict" where
  "external_environment W =
     (let env = w_environ W
      in if w_frozen W \<and> w_linux W
         then (let original = dict_get env (lit ''LD_LIBRARY_PATH_ORIG'');
                   env = dict_pop (lit ''LD_LIBRARY_PATH_ORIG'') env
               in case original of
                    Some path \<Rightarrow>
                      if path \<noteq> [] then dict_set (lit ''LD_LIBRARY_PATH'') path env
                      else dict_pop (lit ''LD_LIBRARY_PATH'') env
                  | None \<Rightarrow> dict_pop (lit ''LD_LIBRARY_PATH'') env)
         else env)"

definition worker_environment :: "world \<Rightarrow> int \<Rightarrow> (pystr, pystr) dict" where
  "worker_environment W write_fd =
     dict_set (lit ''PYINSTALLER_RESET_ENVIRONMENT'') (lit ''1'')
       (dict_set READY_ENV (int_str write_fd) (dict_set WORKER_ENV (lit ''1'') (external_environment W)))"

section \<open>System calls\<close>

definition ismount :: "world \<Rightarrow> pystr \<Rightarrow> bool io" where
  "ismount W path = ask (Ask_Mounted path) (w_ismount W path)"

definition resolve_path :: "world \<Rightarrow> pystr \<Rightarrow> pystr io" where
  "resolve_path W path = ask (Resolve path) (w_resolve W path)"

definition poll :: "world \<Rightarrow> int \<Rightarrow> int option io" where
  "poll W p = ask (Poll p) (w_poll W p)"

definition wait :: "world \<Rightarrow> int \<Rightarrow> int io" where
  "wait W p = ask (Wait p) (w_wait W p)"

definition killpg :: "world \<Rightarrow> int \<Rightarrow> signal \<Rightarrow> unit io" where
  "killpg W p sig = ask (Kill p sig) (w_kill W p sig)"

definition close_fd :: "world \<Rightarrow> int \<Rightarrow> unit io" where
  "close_fd W fd = ask (Close fd) (w_close W fd)"

definition start_process :: "world \<Rightarrow> pystr list \<Rightarrow> (pystr, pystr) dict \<Rightarrow> int io" where
  "start_process W argv env = ask (Start argv env) (w_start W argv)"

definition runtime_error :: "message \<Rightarrow> 'a answer" where
  "runtime_error m = Inl (Py_Raised (RuntimeError m))"

text \<open>A function of the program that raises.\<close>

definition raised :: "py_exn + 'a \<Rightarrow> 'a answer" where
  "raised r = (case r of Inl x \<Rightarrow> Inl (Py_Raised x) | Inr y \<Rightarrow> Inr y)"

lemma raised_eq_Inr [simp]: "raised r = Inr y \<longleftrightarrow> r = Inr y"
  by (simp add: raised_def split: sum.split)

section \<open>Stopping a process\<close>

text \<open>The loop over the signals: each is followed by a wait of at most five seconds.\<close>

fun stop_signals :: "world \<Rightarrow> int \<Rightarrow> signal list \<Rightarrow> unit io" where
  "stop_signals W p [] = give (Inr ())"
| "stop_signals W p (sig # sigs) =
     next_do (catch_do Process_Lookup (killpg W p sig) (give (Inr ()))) (\<lambda>_.
       catch_do Timeout_Expired
         (next_do (ask (Wait_Briefly p) (w_wait_briefly W p)) (\<lambda>_. give (Inr ())))
         (stop_signals W p sigs))"

declare stop_signals.simps(2) [simp del]

definition stop_process :: "world \<Rightarrow> int \<Rightarrow> unit io" where
  "stop_process W p =
     next_do (poll W p) (\<lambda>status.
       if status \<noteq> None then next_do (wait W p) (\<lambda>_. give (Inr ()))
       else stop_signals W p [SIGINT, SIGTERM, SIGKILL])"

section \<open>Unmounting\<close>

definition is_snapshot_mount :: "world \<Rightarrow> pystr \<Rightarrow> bool io" where
  "is_snapshot_mount W path =
     next_do (resolve_path W path) (\<lambda>target.
       next_do (ask Read_Mountinfo (w_mountinfo W)) (\<lambda>text.
         give (raised (snapshot_mounted target text))))"

definition unmount_timed_out :: "pystr \<Rightarrow> message" where
  "unmount_timed_out path = [Txt ''unmount timed out: '', Str path]"

text \<open>
  The polling loop: \<open>None\<close> when it never ends. The default time limit is ten seconds, and the
  program sleeps for 50 milliseconds between two looks at the path.
\<close>

partial_function (option) await_unmounted :: "world \<Rightarrow> pystr \<Rightarrow> int \<Rightarrow> trace \<Rightarrow> (unit answer \<times> trace) option" where
  "await_unmounted W path deadline tr =
     (let tr1 = tr @ [Ask_Mounted path]
      in case w_ismount W path tr of
           Inl e \<Rightarrow> Some (Inl e, tr1)
         | Inr mounted \<Rightarrow>
             if \<not> mounted then Some (Inr (), tr1)
             else (case w_clock W tr1 of
                 Inl e \<Rightarrow> Some (Inl e, tr1 @ [Read_Clock])
               | Inr now \<Rightarrow>
                   if now \<ge> deadline then Some (runtime_error (unmount_timed_out path), tr1 @ [Read_Clock])
                   else (case w_sleep W (tr1 @ [Read_Clock]) of
                       Inl e \<Rightarrow> Some (Inl e, tr1 @ [Read_Clock, Sleep])
                     | Inr _ \<Rightarrow> await_unmounted W path deadline (tr1 @ [Read_Clock, Sleep]))))"

definition UNMOUNT_TIMEOUT :: int where "UNMOUNT_TIMEOUT = 10000000"

definition unmount :: "world \<Rightarrow> pystr \<Rightarrow> unit io" where
  "unmount W path0 =
     (if \<not> w_linux W then give (runtime_error [Txt ''FUSE unmounting requires Linux''])
      else next_do (resolve_path W path0) (\<lambda>path.
        next_do (is_snapshot_mount W path) (\<lambda>mounted.
          if \<not> mounted then give (runtime_error [Txt ''not a SnapshotFS mount: '', Str path])
          else next_do (ask Find_Helper (w_helper W)) (\<lambda>helper.
            case helper of
              None \<Rightarrow> give (runtime_error [Txt ''install the system fuse3 package for fusermount3''])
            | Some helper \<Rightarrow>
                (let argv = [helper, lit ''-u'', lit ''--'', path]
                 in next_do (ask (Run_Helper helper argv) (w_run_helper W argv)) (\<lambda>(code, errors).
                   if code \<noteq> 0
                   then give (runtime_error [Txt ''cannot unmount '', Str path, Txt '': '', Str (py_strip errors)])
                   else next_do (ask Read_Clock (w_clock W)) (\<lambda>now.
                     await_unmounted W path (now + UNMOUNT_TIMEOUT))))))))"

section \<open>Starting a background worker\<close>

definition not_ready :: "pystr \<Rightarrow> pystr \<Rightarrow> message" where
  "not_ready timeout detail =
     [Txt ''mount did not become ready within '', Str timeout, Txt ''s: '',
      if py_strip detail \<noteq> [] then Str (py_strip detail) else Txt ''see diagnostic log'']"

text \<open>\<open>a and b\<close> on conditions that are calls.\<close>

definition both_hold :: "bool io \<Rightarrow> bool io \<Rightarrow> bool io" where
  "both_hold a b = next_do a (\<lambda>x. if x then b else give (Inr False))"

text \<open>The part of the body after the write end has been closed.\<close>

definition await_ready :: "world \<Rightarrow> pystr \<Rightarrow> pystr \<Rightarrow> int \<Rightarrow> int \<Rightarrow> int io" where
  "await_ready W mountpoint timeout read_fd p =
     next_do
       (both_hold (ask (Select read_fd) (w_select W read_fd))
         (both_hold (next_do (ask (Read_Byte read_fd) (w_read W read_fd)) (\<lambda>b. give (Inr (b = blit ''1''))))
           (both_hold (ismount W mountpoint)
             (next_do (poll W p) (\<lambda>status. give (Inr (status = None)))))))
       (\<lambda>ready.
          if ready then give (Inr p)
          else next_do (stop_process W p) (\<lambda>_.
            next_do (ask Read_Errors (w_read_errors W)) (\<lambda>detail.
              give (runtime_error (not_ready timeout detail)))))"

text \<open>
  The body of the \<open>try\<close> statement, with the process that was started and whether the write end is
  still to be closed.
\<close>

type_synonym worker_result = "int answer \<times> int option \<times> bool"

definition with_process :: "world \<Rightarrow> pystr \<Rightarrow> pystr \<Rightarrow> int \<Rightarrow> int \<Rightarrow> int \<Rightarrow> trace \<Rightarrow> (worker_result \<times> trace) option" where
  "with_process W mountpoint timeout read_fd write_fd p tr =
     (case close_fd W write_fd tr of
        None \<Rightarrow> None
      | Some (Inl e, tr) \<Rightarrow> Some ((Inl e, Some p, True), tr)
      | Some (Inr _, tr) \<Rightarrow>
          map_option (\<lambda>(a, tr). ((a, Some p, False), tr)) (await_ready W mountpoint timeout read_fd p tr))"

definition worker_body ::
  "world \<Rightarrow> pystr list \<Rightarrow> pystr \<Rightarrow> pystr \<Rightarrow> int \<Rightarrow> int \<Rightarrow> trace \<Rightarrow> (worker_result \<times> trace) option" where
  "worker_body W arguments mountpoint timeout read_fd write_fd tr =
     (case ask Open_Errors (w_open_errors W) tr of
        None \<Rightarrow> None
      | Some (Inl e, tr) \<Rightarrow> Some ((Inl e, None, True), tr)
      | Some (Inr _, tr) \<Rightarrow>
          (case (case start_process W (cli_executable W @ arguments) (worker_environment W write_fd) tr of
                   None \<Rightarrow> None
                 | Some (Inl e, tr) \<Rightarrow> Some ((Inl e, None, True), tr)
                 | Some (Inr p, tr) \<Rightarrow> with_process W mountpoint timeout read_fd write_fd p tr) of
             None \<Rightarrow> None
           | Some ((a, p, still_open), tr) \<Rightarrow>
               map_option (\<lambda>(closed, tr). ((case closed of Inl e \<Rightarrow> Inl e | Inr _ \<Rightarrow> a, p, still_open), tr))
                 (ask Close_Errors (w_close_errors W) tr)))"

definition close_pipe :: "world \<Rightarrow> int \<Rightarrow> int \<Rightarrow> bool \<Rightarrow> unit io" where
  "close_pipe W read_fd write_fd still_open =
     next_do (close_fd W read_fd) (\<lambda>_. if still_open then close_fd W write_fd else give (Inr ()))"

definition stop_and_raise :: "world \<Rightarrow> int option \<Rightarrow> int answer \<Rightarrow> int io" where
  "stop_and_raise W p a =
     (case (a, p) of
        (Inl e, Some p) \<Rightarrow> next_do (stop_process W p) (\<lambda>_. give (Inl e))
      | _ \<Rightarrow> give a)"

definition or_else :: "bool io \<Rightarrow> bool io \<Rightarrow> bool io" where
  "or_else a b = next_do a (\<lambda>x. if x then give (Inr True) else b)"

text \<open>Whether the mount point is not a directory, is mounted, or is not empty.\<close>

definition unfit :: "world \<Rightarrow> pystr \<Rightarrow> bool io" where
  "unfit W mountpoint =
     or_else (next_do (ask (Ask_Directory mountpoint) (w_is_dir W mountpoint)) (\<lambda>d. give (Inr (\<not> d))))
       (or_else (ismount W mountpoint) (ask (Ask_Occupied mountpoint) (w_occupied W mountpoint)))"

definition start_background :: "world \<Rightarrow> pystr list \<Rightarrow> pystr \<Rightarrow> pystr \<Rightarrow> int io" where
  "start_background W arguments mountpoint timeout =
     (if \<not> w_linux W then give (runtime_error [Txt ''background FUSE mounting requires Linux''])
      else next_do (unfit W mountpoint)
        (\<lambda>bad.
           if bad
           then give (runtime_error
             [Txt ''mountpoint must be an existing, empty, unmounted directory: '', Str mountpoint])
           else next_do (ask Make_Pipe (w_pipe W)) (\<lambda>(read_fd, write_fd) tr.
             case worker_body W arguments mountpoint timeout read_fd write_fd tr of
               None \<Rightarrow> None
             | Some ((a, p, still_open), tr) \<Rightarrow>
                 finally_do (stop_and_raise W p a) (close_pipe W read_fd write_fd still_open) tr)))"

section \<open>Running a command in a temporary mount\<close>

text \<open>\<open>value.replace("{mountpoint}", ...)\<close>.\<close>

function replace_marker :: "pystr \<Rightarrow> pystr \<Rightarrow> pystr" where
  "replace_marker new [] = []"
| "replace_marker new (c # s) =
     (if take 12 (c # s) = lit ''{mountpoint}'' then new @ replace_marker new (drop 12 (c # s))
      else c # replace_marker new s)"
  by pat_completeness auto
termination by (relation "measure (\<lambda>(new, s). length s)") auto

definition shell_status :: "int \<Rightarrow> int" where
  "shell_status status = (if status \<ge> 0 then status else 128 - status)"

type_synonym session_result = "int answer \<times> int option \<times> int option"

definition worker_arguments :: "pystr list \<Rightarrow> pystr \<Rightarrow> pystr \<Rightarrow> bool \<Rightarrow> pystr list" where
  "worker_arguments options snapshot mountpoint simulate =
     options @ [lit ''sqlite'', lit ''mount'', snapshot, mountpoint] @
     (if simulate then [lit ''--simulate-missing-content''] else [])"

definition session_body ::
  "world \<Rightarrow> pystr \<Rightarrow> pystr list \<Rightarrow> pystr list \<Rightarrow> bool \<Rightarrow> pystr \<Rightarrow> pystr \<Rightarrow> trace \<Rightarrow> (session_result \<times> trace) option" where
  "session_body W snapshot command options simulate timeout mountpoint tr =
     (case next_do (resolve_path W snapshot) (\<lambda>snapshot.
             start_background W (worker_arguments options snapshot mountpoint simulate) mountpoint timeout) tr of
        None \<Rightarrow> None
      | Some (Inl e, tr) \<Rightarrow> Some ((Inl e, None, None), tr)
      | Some (Inr worker, tr) \<Rightarrow>
          (case start_process W (map (replace_marker mountpoint) command)
               (dict_set (lit ''SNAPSHOTFS_MOUNTPOINT'') mountpoint (external_environment W)) tr of
             None \<Rightarrow> None
           | Some (Inl e, tr) \<Rightarrow> Some ((Inl e, Some worker, None), tr)
           | Some (Inr consumer, tr) \<Rightarrow>
               map_option (\<lambda>(status, tr).
                   ((case status of Inl e \<Rightarrow> Inl e | Inr s \<Rightarrow> Inr (shell_status s), Some worker, Some consumer), tr))
                 (wait W consumer tr)))"

definition stop_if_running :: "world \<Rightarrow> int \<Rightarrow> unit io" where
  "stop_if_running W p = next_do (poll W p) (\<lambda>status. if status = None then stop_process W p else give (Inr ()))"

definition remove_unmounted :: "world \<Rightarrow> pystr \<Rightarrow> unit io" where
  "remove_unmounted W mountpoint =
     next_do (ismount W mountpoint) (\<lambda>mounted.
       if \<not> mounted then ask (Remove_Directory mountpoint) (w_remove_directory W mountpoint) else give (Inr ()))"

definition unmount_if_mounted :: "world \<Rightarrow> pystr \<Rightarrow> unit io" where
  "unmount_if_mounted W mountpoint =
     next_do (ismount W mountpoint) (\<lambda>mounted. if mounted then unmount W mountpoint else give (Inr ()))"

definition session_cleanup :: "world \<Rightarrow> pystr \<Rightarrow> int option \<Rightarrow> int option \<Rightarrow> unit io" where
  "session_cleanup W mountpoint worker consumer =
     next_do (case consumer of None \<Rightarrow> give (Inr ()) | Some c \<Rightarrow> stop_if_running W c) (\<lambda>_.
       finally_do
         (case worker of None \<Rightarrow> give (Inr ()) | Some _ \<Rightarrow> unmount_if_mounted W mountpoint)
         (next_do (case worker of None \<Rightarrow> give (Inr ()) | Some w \<Rightarrow> stop_process W w)
           (\<lambda>_. remove_unmounted W mountpoint)))"

definition run_mounted ::
  "world \<Rightarrow> pystr \<Rightarrow> pystr list \<Rightarrow> pystr list \<Rightarrow> bool \<Rightarrow> pystr \<Rightarrow> int io" where
  "run_mounted W snapshot command options simulate timeout =
     (if command = [] then give (Inl (Py_Raised (ValueError [Txt ''provide a command after --''])))
      else next_do (ask Make_Directory (w_make_directory W)) (\<lambda>mountpoint tr.
        case session_body W snapshot command options simulate timeout mountpoint tr of
          None \<Rightarrow> None
        | Some ((a, worker, consumer), tr) \<Rightarrow>
            finally_do (give a) (session_cleanup W mountpoint worker consumer) tr))"

end
