(* ===== verification/Session_Safety.thy ===== *)
theory Session_Safety
  imports Mount_Session
begin

text \<open>
  What the mount sessions guarantee for every behaviour of the system: signals escalate, the pipe is
  closed and a worker that did not become ready is stopped, a session ends its processes and removes
  its directory, and the waiting for an unmount is bounded.
\<close>

section \<open>Stopping a process\<close>

text \<open>
  The process is known to have ended: after the calls \<open>u\<close>, a wait for it returned or a poll saw its
  status. The one other way to be done with it is that it was sent \<open>SIGKILL\<close>, which it cannot handle,
  and the wait of five seconds that follows timed out.
\<close>

definition ended_since :: "world \<Rightarrow> int \<Rightarrow> trace \<Rightarrow> trace \<Rightarrow> bool" where
  "ended_since W p u tr \<longleftrightarrow>
     (\<exists>t. prefix u t \<and>
        ((\<exists>s. prefix (t @ [Wait p]) tr \<and> w_wait W p t = Inr s) \<or>
         (\<exists>s. prefix (t @ [Wait_Briefly p]) tr \<and> w_wait_briefly W p t = Inr s) \<or>
         (\<exists>s. prefix (t @ [Poll p]) tr \<and> w_poll W p t = Inr (Some s)) \<or>
         (prefix (t @ [Kill p SIGKILL, Wait_Briefly p]) tr \<and>
            w_wait_briefly W p (t @ [Kill p SIGKILL]) = Inl Timeout_Expired)))"

lemma ended_mono: "ended_since W p u tr \<Longrightarrow> prefix tr tr' \<Longrightarrow> ended_since W p u tr'"
  unfolding ended_since_def by (meson prefix_order.trans)

lemma ended_later: "ended_since W p u tr \<Longrightarrow> prefix u' u \<Longrightarrow> ended_since W p u' tr"
  unfolding ended_since_def by (meson prefix_order.trans)

lemmas system_calls = ismount_def resolve_path_def poll_def wait_def killpg_def close_fd_def start_process_def

lemma stop_signals_run:
  "stop_signals W p sigs tr = Some (a, tr') \<Longrightarrow>
   (\<exists>new. tr' = tr @ new \<and> prefix new (concat (map (\<lambda>s. [Kill p s, Wait_Briefly p]) sigs))) \<and>
   (a = Inr () \<longrightarrow> SIGKILL \<in> set sigs \<longrightarrow> ended_since W p tr tr')"
proof (induction sigs arbitrary: tr)
  case Nil
  then show ?case by simp
next
  case (Cons sig sigs)
  let ?t = "tr @ [Kill p sig]"
  from Cons.prems have "((\<exists>e. a = Inl e) \<and> tr' = ?t) \<or>
      (tr' = ?t @ [Wait_Briefly p] \<and> (a = Inr () \<longrightarrow> (\<exists>s. w_wait_briefly W p ?t = Inr s))) \<or>
      (w_wait_briefly W p ?t = Inl Timeout_Expired \<and> stop_signals W p sigs (?t @ [Wait_Briefly p]) = Some (a, tr'))"
    by (auto simp: next_do_Some catch_do_Some system_calls stop_signals.simps(2))
  then consider
      (raised) e where "a = Inl e" "tr' = ?t"
    | (waited) "tr' = ?t @ [Wait_Briefly p]" "a = Inr () \<longrightarrow> (\<exists>s. w_wait_briefly W p ?t = Inr s)"
    | (next_signal) "w_wait_briefly W p ?t = Inl Timeout_Expired" "stop_signals W p sigs (?t @ [Wait_Briefly p]) = Some (a, tr')"
    by blast
  then show ?case
  proof cases
    case raised
    then show ?thesis by auto
  next
    case waited
    then show ?thesis by (auto simp: ended_since_def intro!: exI [of _ ?t])
  next
    case next_signal
    from Cons.IH [OF this(2)] obtain new where new: "tr' = tr @ [Kill p sig, Wait_Briefly p] @ new"
      "prefix new (concat (map (\<lambda>s. [Kill p s, Wait_Briefly p]) sigs))"
      "a = Inr () \<longrightarrow> SIGKILL \<in> set sigs \<longrightarrow> ended_since W p (?t @ [Wait_Briefly p]) tr'" by auto
    moreover have "ended_since W p tr tr'" if "sig = SIGKILL"
      using new(1) that next_signal(1) by (auto simp: ended_since_def intro!: exI [of _ tr])
    ultimately show ?thesis by (auto intro: ended_later)
  qed
qed

lemma stop_process_run:
  assumes "stop_process W p tr = Some (a, tr')"
  shows "\<exists>new. tr' = tr @ Poll p # new \<and>
      (case w_poll W p tr of
         Inl e \<Rightarrow> new = []
       | Inr (Some s) \<Rightarrow> new = [Wait p]
       | Inr None \<Rightarrow> prefix new [Kill p SIGINT, Wait_Briefly p, Kill p SIGTERM, Wait_Briefly p,
           Kill p SIGKILL, Wait_Briefly p])"
    and "a = Inr () \<Longrightarrow> ended_since W p tr tr'"
proof -
  from assms have "(\<exists>e. w_poll W p tr = Inl e \<and> a = Inl e \<and> tr' = tr @ [Poll p]) \<or>
      (\<exists>s. w_poll W p tr = Inr (Some s) \<and> tr' = tr @ [Poll p, Wait p] \<and>
        (a = Inr () \<longrightarrow> (\<exists>s. w_wait W p (tr @ [Poll p]) = Inr s))) \<or>
      (w_poll W p tr = Inr None \<and> stop_signals W p [SIGINT, SIGTERM, SIGKILL] (tr @ [Poll p]) = Some (a, tr'))"
    by (cases "w_poll W p tr"; cases "projr (w_poll W p tr)")
      (auto simp: stop_process_def next_do_Some system_calls)
  then consider
      (raised) e where "w_poll W p tr = Inl e" "a = Inl e" "tr' = tr @ [Poll p]"
    | (gone) s where "w_poll W p tr = Inr (Some s)" "tr' = tr @ [Poll p, Wait p]"
        "a = Inr () \<longrightarrow> (\<exists>s. w_wait W p (tr @ [Poll p]) = Inr s)"
    | (running) "w_poll W p tr = Inr None" "stop_signals W p [SIGINT, SIGTERM, SIGKILL] (tr @ [Poll p]) = Some (a, tr')"
    by blast
  note cases = this
  show "\<exists>new. tr' = tr @ Poll p # new \<and>
      (case w_poll W p tr of
         Inl e \<Rightarrow> new = []
       | Inr (Some s) \<Rightarrow> new = [Wait p]
       | Inr None \<Rightarrow> prefix new [Kill p SIGINT, Wait_Briefly p, Kill p SIGTERM, Wait_Briefly p,
           Kill p SIGKILL, Wait_Briefly p])"
    using cases
  proof cases
    case running
    from stop_signals_run [OF running(2)] running(1) show ?thesis by auto
  qed auto
  show "ended_since W p tr tr'" if "a = Inr ()"
    using cases
  proof cases
    case gone
    then show ?thesis using that by (auto simp: ended_since_def intro!: exI [of _ "tr @ [Poll p]"])
  next
    case running
    then have "ended_since W p (tr @ [Poll p]) tr'" using stop_signals_run that by simp
    then show ?thesis by (rule ended_later) simp
  qed (use that in simp)
qed

section \<open>Calls that processes are not stopped by\<close>

lemma stop_signals_io [io_intros]:
  "grows (stop_signals W p sigs)" "returns (stop_signals W p sigs)"
  "(\<And>q sig. c \<noteq> Kill q sig) \<Longrightarrow> c \<noteq> Wait_Briefly p \<Longrightarrow> avoids c (stop_signals W p sigs)"
  unfolding atomize_imp
  by (induction sigs) (auto simp: system_calls stop_signals.simps(2) intro!: io_intros)

lemma stop_process_io [io_intros]:
  "grows (stop_process W p)" "returns (stop_process W p)"
  "c \<notin> {Poll p, Wait p, Wait_Briefly p} \<Longrightarrow> (\<And>q sig. c \<noteq> Kill q sig) \<Longrightarrow> avoids c (stop_process W p)"
  unfolding stop_process_def system_calls by (auto intro!: io_intros)

text \<open>
  A calm system: no call of the clean-up is interrupted or fails. A signal may find the process gone,
  and a bounded wait may time out.
\<close>

definition calm :: "world \<Rightarrow> bool" where
  "calm W \<longleftrightarrow>
     (\<forall>p t. \<exists>s. w_poll W p t = Inr s) \<and> (\<forall>p t. \<exists>s. w_wait W p (t @ [Poll p]) = Inr s) \<and>
     (\<forall>p sig t. w_kill W p sig t \<in> {Inr (), Inl Process_Lookup}) \<and>
     (\<forall>p t. (\<exists>s. w_wait_briefly W p t = Inr s) \<or> w_wait_briefly W p t = Inl Timeout_Expired) \<and>
     (\<forall>fd t. w_close W fd t = Inr ())"

lemma calm_stop_signals: "calm W \<Longrightarrow> \<exists>tr'. stop_signals W p sigs tr = Some (Inr (), tr')"
proof (induction sigs arbitrary: tr)
  case Nil
  then show ?case by (simp add: give_def)
next
  case (Cons sig sigs)
  have "catch_do Process_Lookup (killpg W p sig) (give (Inr ())) tr = Some (Inr (), tr @ [Kill p sig])"
  proof -
    have "w_kill W p sig tr \<in> {Inr (), Inl Process_Lookup}" using Cons.prems by (simp add: calm_def)
    then show ?thesis by (auto simp: catch_do_Some system_calls)
  qed
  moreover have "(\<exists>s. w_wait_briefly W p (tr @ [Kill p sig]) = Inr s) \<or>
      w_wait_briefly W p (tr @ [Kill p sig]) = Inl Timeout_Expired"
    using Cons.prems by (simp add: calm_def)
  ultimately show ?case using Cons.IH [OF Cons.prems, of "tr @ [Kill p sig, Wait_Briefly p]"]
    by (auto simp: stop_signals.simps(2) next_do_def catch_do_def ask_def give_def)
qed

lemma calm_stop_process: "calm W \<Longrightarrow> \<exists>tr'. stop_process W p tr = Some (Inr (), tr')"
proof -
  assume W: "calm W"
  then obtain s where "w_poll W p tr = Inr s" unfolding calm_def by blast
  moreover obtain x where "w_wait W p (tr @ [Poll p]) = Inr x" using W unfolding calm_def by blast
  ultimately show ?thesis using calm_stop_signals [OF W, of p "[SIGINT, SIGTERM, SIGKILL]" "tr @ [Poll p]"]
    by (cases s) (simp_all add: stop_process_def next_do_def system_calls ask_def give_def)
qed

section \<open>Starting a worker\<close>

text \<open>The calls before the pipe, and those of a worker that became ready.\<close>

definition checked :: "pystr \<Rightarrow> trace \<Rightarrow> trace" where
  "checked mountpoint tr = tr @ [Ask_Directory mountpoint, Ask_Mounted mountpoint, Ask_Occupied mountpoint]"

lemma unfit_run:
  assumes "unfit W mountpoint tr = Some (g, t)"
  shows "(g \<noteq> Inr False \<and> prefix t (checked mountpoint tr)) \<or>
    (g = Inr False \<and> t = checked mountpoint tr \<and> w_is_dir W mountpoint tr = Inr True \<and>
      w_ismount W mountpoint (tr @ [Ask_Directory mountpoint]) = Inr False \<and>
      w_occupied W mountpoint (tr @ [Ask_Directory mountpoint, Ask_Mounted mountpoint]) = Inr False)"
  using assms by (auto simp: unfit_def or_else_def next_do_Some system_calls checked_def split: if_splits)

text \<open>
  A run that comes as far as the pipe has found the mount point to be a directory that is neither
  mounted nor occupied.
\<close>

lemma start_background_run:
  assumes run: "start_background W arguments mountpoint timeout tr = Some (a, tr')"
  shows "((\<exists>e. a = Inl e) \<and> prefix tr' (checked mountpoint tr)) \<or>
    ((\<exists>e. w_pipe W (checked mountpoint tr) = Inl e \<and> a = Inl e) \<and> tr' = checked mountpoint tr @ [Make_Pipe]) \<or>
    (\<exists>r w b p still t. w_pipe W (checked mountpoint tr) = Inr (r, w) \<and>
       worker_body W arguments mountpoint timeout r w (checked mountpoint tr @ [Make_Pipe]) = Some ((b, p, still), t) \<and>
       finally_do (stop_and_raise W p b) (close_pipe W r w still) t = Some (a, tr'))"
proof (cases "w_linux W")
  case False
  with run show ?thesis by (auto simp: start_background_def checked_def runtime_error_def)
next
  case True
  with run consider
      (failed) e where "unfit W mountpoint tr = Some (Inl e, tr')" "a = Inl e"
    | (bad) t where "unfit W mountpoint tr = Some (Inr True, t)" "tr' = t" "\<exists>e. a = Inl e"
    | (fit) t where "unfit W mountpoint tr = Some (Inr False, t)"
        "next_do (ask Make_Pipe (w_pipe W)) (\<lambda>(read_fd, write_fd) tr.
             case worker_body W arguments mountpoint timeout read_fd write_fd tr of
               None \<Rightarrow> None
             | Some ((a, p, still_open), tr) \<Rightarrow>
                 finally_do (stop_and_raise W p a) (close_pipe W read_fd write_fd still_open) tr) t = Some (a, tr')"
    by (auto simp: start_background_def next_do_Some [of "unfit W mountpoint"] runtime_error_def split: if_splits)
  then show ?thesis
  proof cases
    case failed
    then show ?thesis using unfit_run by fastforce
  next
    case bad
    then show ?thesis using unfit_run by fastforce
  next
    case fit
    from unfit_run [OF fit(1)] have "t = checked mountpoint tr" by simp
    with fit(2) show ?thesis
      by (auto simp: next_do_Some split: option.splits prod.splits)
  qed
qed

text \<open>The worker is ready: its byte arrived, the file system is mounted and the process runs.\<close>

definition ready :: "world \<Rightarrow> pystr \<Rightarrow> int \<Rightarrow> int \<Rightarrow> trace \<Rightarrow> bool" where
  "ready W mountpoint read_fd p tr \<longleftrightarrow>
     w_select W read_fd tr = Inr True \<and> w_read W read_fd (tr @ [Select read_fd]) = Inr (blit ''1'') \<and>
     w_ismount W mountpoint (tr @ [Select read_fd, Read_Byte read_fd]) = Inr True \<and>
     w_poll W p (tr @ [Select read_fd, Read_Byte read_fd, Ask_Mounted mountpoint]) = Inr None"

definition handshake :: "pystr \<Rightarrow> int \<Rightarrow> int \<Rightarrow> trace" where
  "handshake mountpoint read_fd p = [Select read_fd, Read_Byte read_fd, Ask_Mounted mountpoint, Poll p]"

definition await_conditions :: "world \<Rightarrow> pystr \<Rightarrow> int \<Rightarrow> int \<Rightarrow> bool io" where
  "await_conditions W mountpoint read_fd p =
     both_hold (ask (Select read_fd) (w_select W read_fd))
       (both_hold (next_do (ask (Read_Byte read_fd) (w_read W read_fd)) (\<lambda>b. give (Inr (b = blit ''1''))))
         (both_hold (ismount W mountpoint) (next_do (poll W p) (\<lambda>status. give (Inr (status = None))))))"

lemma await_conditions_run:
  assumes "await_conditions W mountpoint read_fd p tr = Some (Inr True, t)"
  shows "ready W mountpoint read_fd p tr \<and> t = tr @ handshake mountpoint read_fd p"
  using assms
  by (auto simp: await_conditions_def both_hold_def next_do_Some system_calls ready_def handshake_def split: if_splits)

lemma await_ready_run:
  assumes "await_ready W mountpoint timeout read_fd p tr = Some (Inr q, t)"
  shows "q = p \<and> ready W mountpoint read_fd p tr \<and> t = tr @ handshake mountpoint read_fd p"
  using assms unfolding await_ready_def await_conditions_def [symmetric]
  by (auto simp: next_do_Some runtime_error_def dest!: await_conditions_run split: if_splits)

lemma await_ready_io [io_intros]:
  "grows (await_ready W mountpoint timeout read_fd p)" "returns (await_ready W mountpoint timeout read_fd p)"
  "avoids (Close fd) (await_ready W mountpoint timeout read_fd p)"
  unfolding await_ready_def both_hold_def system_calls by (auto intro!: io_intros)

text \<open>
  What the body leaves: the write end is closed unless it says otherwise, and the process that was
  started is the one it reports.
\<close>

lemma worker_body_run:
  fixes W arguments tr write_fd
  defines "argv \<equiv> cli_executable W @ arguments" and "env \<equiv> worker_environment W write_fd"
  assumes calm: "calm W"
    and run: "worker_body W arguments mountpoint timeout read_fd write_fd tr = Some ((b, p, still), t)"
  shows "prefix tr t \<and>
    (\<forall>fd. count_list t (Close fd) = count_list tr (Close fd) + (if \<not> still \<and> fd = write_fd then 1 else 0)) \<and>
    (still \<longrightarrow> (\<exists>e. b = Inl e)) \<and>
    (\<forall>q. w_open_errors W tr = Inr () \<longrightarrow> w_start W argv (tr @ [Open_Errors]) = Inr q \<longrightarrow> p = Some q) \<and>
    (w_open_errors W tr = Inr () \<longrightarrow> prefix (tr @ [Open_Errors, Start argv env]) t) \<and>
    (\<forall>q. b = Inr q \<longrightarrow> p = Some q \<and> w_start W argv (tr @ [Open_Errors]) = Inr q \<and>
      (let t0 = tr @ [Open_Errors, Start argv env, Close write_fd]
       in ready W mountpoint read_fd q t0 \<and> t = t0 @ handshake mountpoint read_fd q @ [Close_Errors]))"
proof -
  have closed: "w_close W fd t = Inr ()" for fd t using calm by (simp add: calm_def)
  from run have "(w_open_errors W tr \<noteq> Inr () \<and> t = tr @ [Open_Errors] \<and> p = None \<and> still \<and> (\<exists>e. b = Inl e)) \<or>
      ((\<exists>e. w_start W argv (tr @ [Open_Errors]) = Inl e) \<and> p = None \<and> still \<and> (\<exists>e. b = Inl e) \<and>
        t = tr @ [Open_Errors, Start argv env, Close_Errors]) \<or>
      (\<exists>q a t1. w_start W argv (tr @ [Open_Errors]) = Inr q \<and> p = Some q \<and> \<not> still \<and>
        await_ready W mountpoint timeout read_fd q (tr @ [Open_Errors, Start argv env, Close write_fd]) = Some (a, t1) \<and>
        t = t1 @ [Close_Errors] \<and> (\<forall>x. b = Inr x \<longrightarrow> a = Inr x))"
    using closed
    by (cases "w_open_errors W tr"; cases "w_start W argv (tr @ [Open_Errors])")
      (auto simp: worker_body_def with_process_def system_calls argv_def [symmetric] env_def [symmetric] ask_def
        split: sum.splits option.splits dest: sym [of "Inl _"])
  then consider
      (unopened) "w_open_errors W tr \<noteq> Inr ()" "t = tr @ [Open_Errors]" "p = None" "still" "\<exists>e. b = Inl e"
    | (unstarted) "\<exists>e. w_start W argv (tr @ [Open_Errors]) = Inl e" "p = None" "still" "\<exists>e. b = Inl e"
        "t = tr @ [Open_Errors, Start argv env, Close_Errors]"
    | (started) q a t1 where "w_start W argv (tr @ [Open_Errors]) = Inr q" "p = Some q" "\<not> still"
        "await_ready W mountpoint timeout read_fd q (tr @ [Open_Errors, Start argv env, Close write_fd]) = Some (a, t1)"
        "t = t1 @ [Close_Errors]" "\<forall>x. b = Inr x \<longrightarrow> a = Inr x"
    by blast
  then show ?thesis
  proof cases
    case unopened
    then show ?thesis by auto
  next
    case unstarted
    then show ?thesis by auto
  next
    case started
    have grown: "prefix (tr @ [Open_Errors, Start argv env, Close write_fd]) t1"
      by (rule alwaysD [OF await_ready_io(1) started(4)])
    moreover have "count_list t1 (Close fd) = count_list (tr @ [Open_Errors, Start argv env, Close write_fd]) (Close fd)" for fd
      by (rule avoidsD [OF await_ready_io(3) started(4)])
    moreover have "prefix tr t" using grown started(5) by (metis append_prefixD prefix_append prefix_def)
    moreover have "prefix (tr @ [Open_Errors, Start argv env]) t"
    proof -
      have "prefix (tr @ [Open_Errors, Start argv env]) (tr @ [Open_Errors, Start argv env, Close write_fd])" by simp
      also have "prefix \<dots> t1" by (rule grown)
      also have "prefix \<dots> t" by (simp add: started(5))
      finally show ?thesis .
    qed
    moreover have "x = q \<and> ready W mountpoint read_fd q (tr @ [Open_Errors, Start argv env, Close write_fd]) \<and>
        t1 = (tr @ [Open_Errors, Start argv env, Close write_fd]) @ handshake mountpoint read_fd q" if "b = Inr x" for x
      using started(4,6) that await_ready_run by blast
    ultimately show ?thesis using started(1,2,3,5) grown by (auto simp: Let_def)
  qed
qed

lemma close_pipe_run:
  assumes "calm W" "close_pipe W r w still t = Some (a, t')"
  shows "a = Inr () \<and> t' = t @ Close r # (if still then [Close w] else [])"
  using assms by (auto simp: close_pipe_def next_do_Some system_calls calm_def split: if_splits)

lemma stop_and_raise_run:
  assumes calm: "calm W" and run: "stop_and_raise W p b t = Some (a, t')"
  shows "a = b \<and> prefix t t' \<and> (\<forall>fd. count_list t' (Close fd) = count_list t (Close fd)) \<and>
    (\<forall>q e. p = Some q \<longrightarrow> b = Inl e \<longrightarrow> ended_since W q t t') \<and> (\<forall>x. b = Inr x \<longrightarrow> t' = t)"
proof (cases "\<exists>q e. p = Some q \<and> b = Inl e")
  case True
  then obtain q e where q: "p = Some q" "b = Inl e" by blast
  obtain t1 where stop: "stop_process W q t = Some (Inr (), t1)" using calm_stop_process [OF calm] by blast
  have "avoids (Close fd) (stop_process W q)" for fd by (intro io_intros) auto
  with stop run q show ?thesis
    using alwaysD [OF stop_process_io(1) stop] stop_process_run(2) [OF stop]
    by (auto simp: stop_and_raise_def next_do_Some dest: avoidsD)
next
  case False
  with run show ?thesis by (cases b; cases p) (auto simp: stop_and_raise_def)
qed

text \<open>
  Starting a worker either succeeds with one run of calls, in which the worker announced itself over
  the pipe and the mount point was found mounted, or it fails; both ends of the pipe are then closed
  exactly once, and a worker that was started has ended or was killed.
\<close>

theorem background_worker:
  fixes W arguments tr mountpoint timeout
  defines "t0 \<equiv> checked mountpoint tr @ [Make_Pipe]" and "argv \<equiv> cli_executable W @ arguments"
  assumes calm: "calm W" and run: "start_background W arguments mountpoint timeout tr = Some (a, tr')"
  shows "case a of
      Inr p \<Rightarrow> \<exists>r w. w_pipe W (checked mountpoint tr) = Inr (r, w) \<and>
        (let t1 = t0 @ [Open_Errors, Start argv (worker_environment W w), Close w]
         in w_start W argv (t0 @ [Open_Errors]) = Inr p \<and> ready W mountpoint r p t1 \<and>
            tr' = t1 @ handshake mountpoint r p @ [Close_Errors, Close r])
    | Inl e \<Rightarrow> \<forall>r w. prefix t0 tr' \<longrightarrow> w_pipe W (checked mountpoint tr) = Inr (r, w) \<longrightarrow>
        (r \<noteq> w \<longrightarrow> (\<forall>fd \<in> {r, w}. count_list tr' (Close fd) = count_list tr (Close fd) + 1)) \<and>
        (\<forall>p. w_open_errors W t0 = Inr () \<longrightarrow> w_start W argv (t0 @ [Open_Errors]) = Inr p \<longrightarrow>
          ended_since W p (t0 @ [Open_Errors, Start argv (worker_environment W w)]) tr')"
proof -
  from start_background_run [OF run] consider
      (unfit) e where "a = Inl e" "prefix tr' (checked mountpoint tr)"
    | (no_pipe) e where "w_pipe W (checked mountpoint tr) = Inl e" "a = Inl e"
    | (body) r w b p still t where "w_pipe W (checked mountpoint tr) = Inr (r, w)"
        "worker_body W arguments mountpoint timeout r w t0 = Some ((b, p, still), t)"
        "finally_do (stop_and_raise W p b) (close_pipe W r w still) t = Some (a, tr')"
    unfolding t0_def by blast
  then show ?thesis
  proof cases
    case unfit
    then have "\<not> prefix t0 tr'" by (auto simp: t0_def dest!: prefix_length_le)
    with unfit(1) show ?thesis by simp
  next
    case no_pipe
    then show ?thesis by simp
  next
    case body
    note b = worker_body_run [OF calm body(2), folded argv_def]
    from body(3) obtain c t' where stop: "stop_and_raise W p b t = Some (c, t')"
      and "(\<exists>e. close_pipe W r w still t' = Some (Inl e, tr') \<and> a = Inl e) \<or>
        (close_pipe W r w still t' = Some (Inr (), tr') \<and> a = c)" by (auto simp: finally_do_Some)
    with close_pipe_run [OF calm] have a: "a = c" and tr': "tr' = t' @ Close r # (if still then [Close w] else [])"
      by blast+
    note s = stop_and_raise_run [OF calm stop]
    show ?thesis
    proof (cases a)
      case (Inr q)
      with a s b have "b = Inr q" "t' = t" "\<not> still" by auto
      with b tr' body(1) Inr show ?thesis by (auto simp: Let_def)
    next
      case (Inl e)
      with a s have e: "b = Inl e" by simp
      have tail: "prefix t t'" using s by blast
      have close: "count_list tr' (Close fd) = count_list tr (Close fd) + 1" if "fd \<in> {r, w}" "r \<noteq> w" for fd
        using s b that by (auto simp: tr' t0_def checked_def)
      have stopped: "ended_since W q (t0 @ [Open_Errors, Start argv (worker_environment W w)]) tr'"
        if q: "w_open_errors W t0 = Inr ()" "w_start W argv (t0 @ [Open_Errors]) = Inr q" for q
      proof -
        from b q have "p = Some q" "prefix (t0 @ [Open_Errors, Start argv (worker_environment W w)]) t" by blast+
        moreover from this s e have "ended_since W q t t'" by blast
        ultimately have "ended_since W q (t0 @ [Open_Errors, Start argv (worker_environment W w)]) t'"
          by (blast intro: ended_later)
        then show ?thesis by (rule ended_mono) (simp add: tr')
      qed
      from Inl body(1) close stopped show ?thesis by auto
    qed
  qed
qed

section \<open>The processes that are started\<close>

text \<open>Operations that start no process.\<close>

definition starts_nothing :: "'a io \<Rightarrow> bool" where
  "starts_nothing m \<longleftrightarrow> grows m \<and> (\<forall>argv env. avoids (Start argv env) m)"

lemma starts_nothingD:
  assumes "starts_nothing m" "m tr = Some (a, tr')"
  obtains new where "tr' = tr @ new" "\<And>argv env. Start argv env \<notin> set new"
proof -
  from assms(1) have "grows m" by (simp add: starts_nothing_def)
  from alwaysD [OF this assms(2)] obtain new where new: "tr' = tr @ new" by (auto simp: prefix_def)
  have "Start argv env \<notin> set new" for argv env
  proof -
    have "avoids (Start argv env) m" using assms(1) by (simp add: starts_nothing_def)
    then have "count_list tr' (Start argv env) = count_list tr (Start argv env)" using assms(2) by (rule avoidsD)
    with new show ?thesis by (simp add: count_list_0_iff)
  qed
  with new that show thesis by blast
qed

lemma starts_nothing_stop [io_intros]: "starts_nothing (stop_process W p)"
  unfolding starts_nothing_def by (auto intro!: io_intros)

lemma starts_nothing_await: "starts_nothing (await_ready W mountpoint timeout read_fd p)"
  unfolding starts_nothing_def
proof (intro conjI allI)
  show "avoids (Start argv env) (await_ready W mountpoint timeout read_fd p)" for argv env
    unfolding await_ready_def both_hold_def system_calls
    by (intro io_intros) simp_all
qed (rule await_ready_io)

text \<open>Where a start can be found in a trace that has at most one.\<close>

lemma start_found:
  assumes "prefix tr u" "prefix (u @ [Start argv env]) (tr @ xs @ Start argv' env' # ys)"
    and "\<And>a e. Start a e \<notin> set xs" "\<And>a e. Start a e \<notin> set ys"
  shows "u = tr @ xs \<and> argv = argv' \<and> env = env'"
proof -
  from assms(1) obtain v where u: "u = tr @ v" by (auto simp: prefix_def)
  with assms(2) obtain zs where "v @ Start argv env # zs = xs @ Start argv' env' # ys" by (auto simp: prefix_def)
  moreover have "Start argv env \<notin> set xs" "Start argv env \<notin> set ys" using assms(3,4) by blast+
  ultimately show ?thesis using u
    by (auto simp: append_eq_append_conv2 append_eq_Cons_conv Cons_eq_append_conv)
qed

lemma no_start_found:
  assumes "prefix tr u" "prefix (u @ [Start argv env]) (tr @ xs)" "\<And>a e. Start a e \<notin> set xs"
  shows False
proof -
  from assms(1) obtain v where "u = tr @ v" by (auto simp: prefix_def)
  with assms(2) have "Start argv env \<in> set xs" by (auto simp: prefix_def)
  with assms(3) show False by blast
qed

lemma worker_body_starts:
  assumes calm: "calm W" and run: "worker_body W arguments mountpoint timeout read_fd write_fd tr = Some ((b, p, still), t)"
    and u: "prefix tr u" "prefix (u @ [Start argv env]) t"
  shows "u = tr @ [Open_Errors] \<and> argv = cli_executable W @ arguments \<and>
    env = worker_environment W write_fd \<and> w_open_errors W tr = Inr ()"
proof (cases "w_open_errors W tr = Inr ()")
  case False
  with run have "t = tr @ [Open_Errors]" by (auto simp: worker_body_def ask_def split: sum.splits)
  with u no_start_found [of tr u argv env "[Open_Errors]"] show ?thesis by auto
next
  case True
  let ?start = "Start (cli_executable W @ arguments) (worker_environment W write_fd)"
  have "\<exists>ys. t = tr @ [Open_Errors] @ ?start # ys \<and> (\<forall>a e. Start a e \<notin> set ys)"
  proof (cases "w_start W (cli_executable W @ arguments) (tr @ [Open_Errors])")
    case (Inl e)
    with run True have "t = tr @ [Open_Errors] @ [?start, Close_Errors]"
      by (auto simp: worker_body_def system_calls ask_def)
    then show ?thesis by simp
  next
    case (Inr q)
    have "w_close W write_fd (tr @ [Open_Errors, ?start]) = Inr ()" using calm by (simp add: calm_def)
    with run True Inr obtain a t1 where
      await: "await_ready W mountpoint timeout read_fd q (tr @ [Open_Errors, ?start, Close write_fd]) = Some (a, t1)"
      and t: "t = t1 @ [Close_Errors]"
      by (auto simp: worker_body_def with_process_def system_calls ask_def split: option.splits)
    obtain new where "t1 = (tr @ [Open_Errors, ?start, Close write_fd]) @ new" "\<And>a e. Start a e \<notin> set new"
      by (rule starts_nothingD [OF starts_nothing_await await]) blast
    then show ?thesis using t by (intro exI [of _ "Close write_fd # new @ [Close_Errors]"]) simp
  qed
  then obtain ys where "t = tr @ [Open_Errors] @ ?start # ys" "\<And>a e. Start a e \<notin> set ys" by blast
  with u start_found [of tr u argv env "[Open_Errors]" "cli_executable W @ arguments" "worker_environment W write_fd" ys]
  show ?thesis using True by auto
qed

text \<open>A start lies in the part of a trace that has one.\<close>

lemma start_before:
  assumes "prefix (u @ [Start argv env]) (t @ new)" "\<And>a e. Start a e \<notin> set new"
  shows "prefix (u @ [Start argv env]) t"
proof (rule ccontr)
  assume "\<not> ?thesis"
  with assms(1) obtain v where "u @ [Start argv env] = t @ v" "v \<noteq> []" "prefix v new"
    by (auto simp: prefix_append)
  then have "Start argv env \<in> set v" by (metis last_appendR last_in_set last_snoc)
  with \<open>prefix v new\<close> assms(2) show False by (auto simp: prefix_def)
qed

lemma start_after:
  assumes "prefix (u @ [Start argv env]) t" "prefix tr u" "prefix (tr @ new) t" "\<And>a e. Start a e \<notin> set new"
  shows "prefix (tr @ new) u"
proof (rule ccontr)
  assume no: "\<not> ?thesis"
  from assms(1) have "prefix u t" by (auto simp: prefix_def)
  with assms(3) no have "prefix u (tr @ new)" using prefix_same_cases by blast
  moreover from this no have "u \<noteq> tr @ new" by auto
  ultimately have "length u < length (tr @ new)" using prefix_length_less [of u "tr @ new"] by (simp add: strict_prefix_def)
  then have "length (u @ [Start argv env]) \<le> length (tr @ new)" by simp
  with assms(1,3) have "prefix (u @ [Start argv env]) (tr @ new)" by (rule prefix_length_prefix)
  with no_start_found [OF assms(2), of argv env new] assms(4) show False by blast
qed

text \<open>A worker that was started runs when it is reported, and has ended otherwise.\<close>

lemma start_background_starts:
  assumes calm: "calm W" and run: "start_background W arguments mountpoint timeout tr = Some (a, tr')"
    and u: "prefix tr u" "prefix (u @ [Start argv env]) tr'" and p: "w_start W argv u = Inr p"
  shows "a = Inr p \<or> ((\<exists>e. a = Inl e) \<and> ended_since W p (u @ [Start argv env]) tr')"
proof -
  let ?new = "[Ask_Directory mountpoint, Ask_Mounted mountpoint, Ask_Occupied mountpoint, Make_Pipe]"
  have t0: "checked mountpoint tr @ [Make_Pipe] = tr @ ?new" by (simp add: checked_def)
  have none: False if "prefix tr' (tr @ ?new)"
    using u that no_start_found [of tr u argv env ?new] by (auto intro: prefix_order.trans)
  from start_background_run [OF run] consider
      (unfit) "prefix tr' (tr @ ?new)"
    | (body) r w b q still t where "w_pipe W (checked mountpoint tr) = Inr (r, w)"
        "worker_body W arguments mountpoint timeout r w (tr @ ?new) = Some ((b, q, still), t)"
        "finally_do (stop_and_raise W q b) (close_pipe W r w still) t = Some (a, tr')"
  proof -
    assume cases: "prefix tr' (tr @ ?new) \<Longrightarrow> thesis" "\<And>r w b q still t. w_pipe W (checked mountpoint tr) = Inr (r, w) \<Longrightarrow>
      worker_body W arguments mountpoint timeout r w (tr @ ?new) = Some ((b, q, still), t) \<Longrightarrow>
      finally_do (stop_and_raise W q b) (close_pipe W r w still) t = Some (a, tr') \<Longrightarrow> thesis"
    have "prefix (checked mountpoint tr) (tr @ ?new)" by (simp add: checked_def)
    then show thesis
      using start_background_run [OF run] cases unfolding t0 by (blast intro: prefix_order.trans prefix_order.refl)
  qed
  then show ?thesis
  proof cases
    case unfit
    then have False by (rule none)
    then show ?thesis ..
  next
    case body
    have "starts_nothing (finally_do (stop_and_raise W q b) (close_pipe W r w still))"
      unfolding starts_nothing_def stop_and_raise_def close_pipe_def system_calls
      by (cases b; cases q) (auto intro!: io_intros)
    from starts_nothingD [OF this body(3)] obtain new where "tr' = t @ new" "\<And>argv env. Start argv env \<notin> set new" by metis
    with u(2) have in_body: "prefix (u @ [Start argv env]) t" using start_before by metis
    have grown: "prefix (tr @ ?new) t" using worker_body_run [OF calm body(2)] by blast
    have "prefix (tr @ ?new) u" by (rule start_after [OF in_body u(1) grown]) auto
    from worker_body_starts [OF calm body(2) this in_body] have at: "u = checked mountpoint tr @ [Make_Pipe] @ [Open_Errors]"
      "argv = cli_executable W @ arguments" "env = worker_environment W w"
      "w_open_errors W (checked mountpoint tr @ [Make_Pipe]) = Inr ()"
      by (simp_all add: t0 checked_def)
    have "prefix (checked mountpoint tr @ [Make_Pipe]) tr'"
      using grown \<open>tr' = t @ new\<close> unfolding t0 by (auto intro: prefix_order.trans)
    with background_worker [OF calm run] at body(1) p show ?thesis
      by (cases a) (auto simp: Let_def)
  qed
qed

section \<open>Unmounting\<close>

text \<open>A monotonic clock, and sleeps that last at least as long as they say.\<close>

definition time_passes :: "world \<Rightarrow> bool" where
  "time_passes W \<longleftrightarrow> (\<forall>t t' now now'. prefix t t' \<longrightarrow> w_clock W t = Inr now \<longrightarrow> w_clock W t' = Inr now' \<longrightarrow>
     now + 50000 * (int (count_list t' Sleep) - int (count_list t Sleep)) \<le> now')"

text \<open>The polling ends at the latest when the deadline has passed.\<close>

lemma await_unmounted_ends:
  assumes W: "time_passes W"
  shows "\<exists>r. await_unmounted W path deadline tr = Some r"
proof -
  have bound: "\<exists>r. await_unmounted W path deadline tr = Some r"
    if "\<forall>now. w_clock W (tr @ [Ask_Mounted path]) = Inr now \<longrightarrow> deadline - now \<le> 50000 * int k" for k tr
    using that
  proof (induction k arbitrary: tr)
    case 0
    then show ?case by (subst await_unmounted.simps) (simp add: Let_def split: sum.split)
  next
    case (Suc k)
    let ?t1 = "tr @ [Ask_Mounted path]"
    let ?t2 = "?t1 @ [Read_Clock, Sleep]"
    show ?case
    proof (cases "w_clock W ?t1")
      case (Inl e)
      then show ?thesis by (subst await_unmounted.simps) (simp add: Let_def split: sum.split)
    next
      case (Inr now)
      have "deadline - later \<le> 50000 * int k" if "w_clock W (?t2 @ [Ask_Mounted path]) = Inr later" for later
      proof -
        have "prefix ?t1 (?t2 @ [Ask_Mounted path])" by simp
        with W Inr that have "now + 50000 * (int (count_list (?t2 @ [Ask_Mounted path]) Sleep) - int (count_list ?t1 Sleep)) \<le> later"
          unfolding time_passes_def by blast
        moreover have "deadline - now \<le> 50000 * int (Suc k)" using Suc.prems Inr by blast
        ultimately show ?thesis by simp
      qed
      then obtain r where "await_unmounted W path deadline ?t2 = Some r" using Suc.IH [of ?t2] by blast
      then show ?thesis by (subst await_unmounted.simps) (simp add: Let_def split: sum.split)
    qed
  qed
  have "\<exists>k. \<forall>now. w_clock W (tr @ [Ask_Mounted path]) = Inr now \<longrightarrow> deadline - now \<le> 50000 * int k"
    by (cases "w_clock W (tr @ [Ask_Mounted path])")
      (auto intro!: exI [of _ "nat (deadline - projr (w_clock W (tr @ [Ask_Mounted path])))"])
  with bound show ?thesis by blast
qed

definition polled :: "world \<Rightarrow> pystr \<Rightarrow> trace \<Rightarrow> unit answer \<times> trace \<Rightarrow> bool" where
  "polled W path tr r \<longleftrightarrow> (\<exists>new. snd r = tr @ new \<and> set new \<subseteq> {Ask_Mounted path, Read_Clock, Sleep}) \<and>
     (fst r = Inr () \<longrightarrow> (\<exists>t. snd r = t @ [Ask_Mounted path] \<and> w_ismount W path t = Inr False))"

lemma await_unmounted_run:
  assumes "await_unmounted W path deadline tr = Some r"
  shows "polled W path tr r"
proof (rule await_unmounted.raw_induct [where P = "\<lambda>W path deadline tr r. polled W path tr r", OF _ assms])
  fix f W path deadline tr r
  assume step: "\<And>W path deadline tr r. f W path deadline tr = Some r \<Longrightarrow> polled W path tr r"
    and r: "(let tr1 = tr @ [Ask_Mounted path]
      in case w_ismount W path tr of
           Inl e \<Rightarrow> Some (Inl e, tr1)
         | Inr mounted \<Rightarrow>
             if \<not> mounted then Some (Inr (), tr1)
             else (case w_clock W tr1 of
                 Inl e \<Rightarrow> Some (Inl e, tr1 @ [Read_Clock])
               | Inr now \<Rightarrow>
                   if now \<ge> deadline then Some (runtime_error (unmount_timed_out path), tr1 @ [Read_Clock])
                   else (case w_sleep W (tr1 @ [Read_Clock]) of
                       Inl e \<Rightarrow> Some (Inl e, tr1 @ [Read_Clock, Sleep])
                     | Inr _ \<Rightarrow> f W path deadline (tr1 @ [Read_Clock, Sleep])))) = Some r"
  show "polled W path tr r"
  proof (cases "w_ismount W path tr = Inr True \<and> (\<exists>now. w_clock W (tr @ [Ask_Mounted path]) = Inr now \<and> now < deadline) \<and>
      w_sleep W (tr @ [Ask_Mounted path, Read_Clock]) = Inr ()")
    case True
    with r have "f W path deadline (tr @ [Ask_Mounted path, Read_Clock, Sleep]) = Some r" by (auto simp: Let_def)
    from step [OF this] show ?thesis by (auto simp: polled_def)
  next
    case False
    with r show ?thesis by (auto simp: polled_def Let_def runtime_error_def split: sum.splits if_splits)
  qed
qed

lemma polled_new:
  "polled W path tr (a, t) \<Longrightarrow> \<exists>new. t = tr @ new \<and> set new \<subseteq> {Ask_Mounted path, Read_Clock, Sleep}"
  by (simp add: polled_def)

lemma await_unmounted_io [io_intros]:
  "grows (await_unmounted W path deadline)" "time_passes W \<Longrightarrow> returns (await_unmounted W path deadline)"
  using await_unmounted_ends by (auto simp: always_def returns_def dest!: await_unmounted_run polled_new)

lemma unmount_io [io_intros]: "grows (unmount W path)" "time_passes W \<Longrightarrow> returns (unmount W path)"
  unfolding unmount_def is_snapshot_mount_def system_calls by (auto intro!: io_intros simp: Let_def split: prod.split)

text \<open>
  The helper that unmounts is run only for a path at which the table of mounts shows a SnapshotFS
  mount first, and a successful unmount has seen that the path is no longer mounted.
\<close>

definition allowed :: "world \<Rightarrow> pystr \<Rightarrow> trace \<Rightarrow> pystr \<Rightarrow> bool" where
  "allowed W path0 tr path \<longleftrightarrow> w_resolve W path0 tr = Inr path \<and>
     (\<exists>target text. w_resolve W path (tr @ [Resolve path0]) = Inr target \<and>
       w_mountinfo W (tr @ [Resolve path0, Resolve path]) = Inr text \<and> snapshot_mounted target text = Inr True)"

lemma is_snapshot_mount_run:
  assumes "is_snapshot_mount W path tr = Some (a, t)"
  shows "prefix t (tr @ [Resolve path, Read_Mountinfo])" and "a = Inr True \<Longrightarrow> t = tr @ [Resolve path, Read_Mountinfo] \<and>
    (\<exists>target text. w_resolve W path tr = Inr target \<and> w_mountinfo W (tr @ [Resolve path]) = Inr text \<and>
      snapshot_mounted target text = Inr True)"
  using assms by (auto simp: is_snapshot_mount_def next_do_Some system_calls dest: sym)

lemma unmount_run:
  assumes run: "unmount W path0 tr = Some (a, tr')"
  shows "(\<exists>path. allowed W path0 tr path \<and>
      (a = Inr () \<longrightarrow> (\<exists>t. tr' = t @ [Ask_Mounted path] \<and> w_ismount W path t = Inr False))) \<or>
    ((\<exists>e. a = Inl e) \<and> (\<exists>path. prefix tr' (tr @ [Resolve path0, Resolve path, Read_Mountinfo])))"
proof (cases "w_linux W \<and> (\<exists>path. w_resolve W path0 tr = Inr path)")
  case False
  with run have "(\<exists>e. a = Inl e) \<and> prefix tr' (tr @ [Resolve path0])"
    by (auto simp: unmount_def runtime_error_def next_do_Some system_calls split: if_splits)
  then show ?thesis by (auto intro: prefix_order.trans)
next
  case True
  then obtain path where path: "w_resolve W path0 tr = Inr path" by blast
  let ?t1 = "tr @ [Resolve path0]"
  obtain m t where m: "is_snapshot_mount W path ?t1 = Some (m, t)"
    using run True path by (auto simp: unmount_def next_do_Some system_calls)
  note seen = is_snapshot_mount_run [OF m]
  show ?thesis
  proof (cases "m = Inr True")
    case False
    with run True path m have "(\<exists>e. a = Inl e) \<and> tr' = t"
      by (auto simp: unmount_def next_do_Some runtime_error_def system_calls split: if_splits)
    with seen(1) show ?thesis by auto
  next
    case m_True: True
    with seen(2) path have "allowed W path0 tr path" by (auto simp: allowed_def)
    moreover have "\<exists>u. tr' = u @ [Ask_Mounted path] \<and> w_ismount W path u = Inr False" if "a = Inr ()"
    proof -
      from run True path m m_True that obtain d u where "await_unmounted W path d u = Some (Inr (), tr')"
        by (auto simp: unmount_def next_do_Some runtime_error_def system_calls Let_def split: if_splits option.splits prod.splits)
      then have "polled W path u (Inr (), tr')" by (rule await_unmounted_run)
      then show ?thesis by (auto simp: polled_def)
    qed
    ultimately show ?thesis by blast
  qed
qed

text \<open>Whatever happens, the helper is run with no other argument than the path of that mount.\<close>

lemma unmount_calls:
  assumes run: "unmount W path0 tr = Some (a, tr')" and helper: "Run_Helper helper argv \<in> set (drop (length tr) tr')"
  shows "\<exists>path. allowed W path0 tr path \<and> argv = [helper, lit ''-u'', lit ''--'', path]"
proof (cases "\<exists>e path. a = Inl e \<and> prefix tr' (tr @ [Resolve path0, Resolve path, Read_Mountinfo])")
  case True
  then obtain path where "prefix tr' (tr @ [Resolve path0, Resolve path, Read_Mountinfo])" by blast
  then have "set (drop (length tr) tr') \<subseteq> set (drop (length tr) (tr @ [Resolve path0, Resolve path, Read_Mountinfo]))"
    by (metis drop_append prefix_def set_append sup_ge1)
  then show ?thesis using helper by auto
next
  case False
  with unmount_run [OF run] obtain path where ok: "allowed W path0 tr path" by blast
  then have path: "w_resolve W path0 tr = Inr path" by (simp add: allowed_def)
  let ?t = "tr @ [Resolve path0, Resolve path, Read_Mountinfo]"
  from ok have m: "is_snapshot_mount W path (tr @ [Resolve path0]) = Some (Inr True, ?t)"
    by (auto simp: allowed_def is_snapshot_mount_def next_do_def ask_def give_def raised_def system_calls)
  have "w_linux W"
  proof (rule ccontr)
    assume "\<not> w_linux W"
    with run have "\<exists>e. a = Inl e" "tr' = tr" by (simp_all add: unmount_def runtime_error_def)
    with False show False by auto
  qed
  let ?argv = "\<lambda>h. [h, lit ''-u'', lit ''--'', path]"
  from \<open>w_linux W\<close> path have "unmount W path0 tr = next_do (ask Find_Helper (w_helper W)) (\<lambda>helper. case helper of
      None \<Rightarrow> give (runtime_error [Txt ''install the system fuse3 package for fusermount3''])
    | Some h \<Rightarrow> next_do (ask (Run_Helper h (?argv h)) (w_run_helper W (?argv h))) (\<lambda>(code, errors).
        if code \<noteq> 0
        then give (runtime_error [Txt ''cannot unmount '', Str path, Txt '': '', Str (py_strip errors)])
        else next_do (ask Read_Clock (w_clock W)) (\<lambda>now. await_unmounted W path (now + UNMOUNT_TIMEOUT)))) ?t"
    using m by (simp add: unmount_def next_do_def [of _ _ tr] next_do_def [of "is_snapshot_mount _ _"]
        resolve_path_def ask_def [of "Resolve path0"] Let_def)
  with run have "(\<exists>h. tr' = ?t @ [Find_Helper] \<or> tr' = ?t @ [Find_Helper, Run_Helper h (?argv h)] \<or>
      tr' = ?t @ [Find_Helper, Run_Helper h (?argv h), Read_Clock]) \<or>
    (\<exists>h d. await_unmounted W path d (?t @ [Find_Helper, Run_Helper h (?argv h), Read_Clock]) = Some (a, tr'))"
    by (auto simp: next_do_Some split: option.splits prod.splits if_splits)
  then have "argv = ?argv helper"
  proof (elim disjE exE)
    fix h d assume u: "await_unmounted W path d (?t @ [Find_Helper, Run_Helper h (?argv h), Read_Clock]) = Some (a, tr')"
    from polled_new [OF await_unmounted_run [OF u]] show ?thesis using helper by auto
  qed (use helper in auto)
  with ok show ?thesis by blast
qed

end
