(* ===== verification/Session_Cleanup.thy ===== *)
theory Session_Cleanup
  imports Session_Safety
begin

text \<open>
  What a command in a temporary mount leaves behind, read off the calls that were made: every process
  that was started has ended, the mount was taken down before its worker was stopped, the directory
  was removed, and the status is that of the command. It ends when the command does.
\<close>

section \<open>The parts of the clean-up\<close>

lemma calm_stop_process_ended:
  assumes "calm W"
  obtains t' where "stop_process W p t = Some (Inr (), t')" "prefix t t'" "ended_since W p t t'"
  using calm_stop_process [OF assms, of p t] alwaysD [OF stop_process_io(1)] stop_process_run(2) by blast

lemma stop_if_running_ended:
  assumes "calm W"
  shows "\<exists>t'. stop_if_running W p t = Some (Inr (), t') \<and> prefix t t' \<and> ended_since W p t t'"
proof -
  obtain s where s: "w_poll W p t = Inr s" using assms unfolding calm_def by blast
  obtain t' where t': "stop_process W p (t @ [Poll p]) = Some (Inr (), t')" "prefix (t @ [Poll p]) t'" "ended_since W p (t @ [Poll p]) t'"
    by (rule calm_stop_process_ended [OF assms])
  show ?thesis
  proof (cases s)
    case None
    with s t' show ?thesis
      by (auto simp: stop_if_running_def next_do_def system_calls ask_def intro: append_prefixD ended_later)
  next
    case (Some x)
    with s have "ended_since W p t (t @ [Poll p])" by (auto simp: ended_since_def intro!: exI [of _ t])
    with s Some show ?thesis by (auto simp: stop_if_running_def next_do_def system_calls ask_def give_def)
  qed
qed

text \<open>
  The last calls: the mount point is removed if it is no longer mounted. When it is still mounted, or
  when looking or removing fails, it stays; a failure is what the session then raises.
\<close>

definition directory_left :: "world \<Rightarrow> pystr \<Rightarrow> int answer \<Rightarrow> trace \<Rightarrow> bool" where
  "directory_left W mountpoint a tr \<longleftrightarrow>
     (\<exists>t. if w_ismount W mountpoint t = Inr False
       then tr = t @ [Ask_Mounted mountpoint, Remove_Directory mountpoint] \<and>
         (\<forall>e. w_remove_directory W mountpoint (t @ [Ask_Mounted mountpoint]) = Inl e \<longrightarrow> a = Inl e)
       else tr = t @ [Ask_Mounted mountpoint] \<and> (\<forall>e. w_ismount W mountpoint t = Inl e \<longrightarrow> a = Inl e))"

text \<open>
  After the calls \<open>t\<close> and before the worker is stopped, the session has looked whether the mount
  point is mounted and has then run \<open>unmount\<close>. It only returns a status when it was not mounted or
  the unmount succeeded.
\<close>

definition unmounted_first :: "world \<Rightarrow> pystr \<Rightarrow> int \<Rightarrow> int answer \<Rightarrow> trace \<Rightarrow> trace \<Rightarrow> bool" where
  "unmounted_first W mountpoint worker a t tr \<longleftrightarrow>
     (\<exists>v v'. prefix t v \<and> prefix (v' @ [Poll worker]) tr \<and>
        (case w_ismount W mountpoint v of
           Inl e \<Rightarrow> v' = v @ [Ask_Mounted mountpoint] \<and> (\<exists>e. a = Inl e)
         | Inr False \<Rightarrow> v' = v @ [Ask_Mounted mountpoint]
         | Inr True \<Rightarrow> \<exists>r. unmount W mountpoint (v @ [Ask_Mounted mountpoint]) = Some (r, v') \<and>
             (r = Inr () \<or> (\<exists>e. a = Inl e))))"

lemma remove_unmounted_run:
  "remove_unmounted W mp t = Some (r, t') \<Longrightarrow>
     prefix t t' \<and> (\<forall>a. (\<forall>e. r = Inl e \<longrightarrow> a = Inl e) \<longrightarrow> directory_left W mp a t')"
  by (auto simp: remove_unmounted_def next_do_Some system_calls directory_left_def split: if_splits
      intro!: exI [of _ t])

lemma stop_worker_run:
  assumes calm: "calm W"
    and run: "next_do (case worker of None \<Rightarrow> give (Inr ()) | Some w \<Rightarrow> stop_process W w) (\<lambda>_. remove_unmounted W mp) t =
      Some (r, t')"
  shows "prefix t t' \<and> (\<forall>w. worker = Some w \<longrightarrow> ended_since W w t t' \<and> prefix (t @ [Poll w]) t') \<and>
    (\<forall>a. (\<forall>e. r = Inl e \<longrightarrow> a = Inl e) \<longrightarrow> directory_left W mp a t')"
proof (cases worker)
  case None
  with run remove_unmounted_run show ?thesis by (auto simp: next_do_Some)
next
  case (Some w)
  obtain u where u: "stop_process W w t = Some (Inr (), u)" "prefix t u" "ended_since W w t u"
    by (rule calm_stop_process_ended [OF calm])
  have polled: "prefix (t @ [Poll w]) u" using stop_process_run(1) [OF u(1)] by auto
  from run Some u(1) have "remove_unmounted W mp u = Some (r, t')" by (auto simp: next_do_Some)
  from remove_unmounted_run [OF this] u(2,3) polled show ?thesis
    by (auto simp: Some intro: prefix_order.trans ended_mono)
qed

lemma unmount_if_mounted_io [io_intros]:
  "grows (unmount_if_mounted W mp)" "time_passes W \<Longrightarrow> returns (unmount_if_mounted W mp)"
  unfolding unmount_if_mounted_def system_calls by (auto intro!: io_intros)

lemma unmount_if_mounted_run:
  assumes "unmount_if_mounted W mp v = Some (r, v')"
  shows "case w_ismount W mp v of
      Inl e \<Rightarrow> v' = v @ [Ask_Mounted mp] \<and> r = Inl e
    | Inr False \<Rightarrow> v' = v @ [Ask_Mounted mp] \<and> r = Inr ()
    | Inr True \<Rightarrow> unmount W mp (v @ [Ask_Mounted mp]) = Some (r, v')"
  using assms by (auto simp: unmount_if_mounted_def next_do_Some system_calls split: sum.split bool.split)

text \<open>
  The clean-up of a session whose processes are \<open>worker\<close> and \<open>consumer\<close>, in a calm system; \<open>a\<close> is what
  the session then answers.
\<close>

lemma session_cleanup_run:
  assumes calm: "calm W" and run: "session_cleanup W mp worker consumer t = Some (r, t')"
    and a: "\<And>e. r = Inl e \<Longrightarrow> a = Inl e"
  shows "prefix t t' \<and> (\<forall>p. worker = Some p \<or> consumer = Some p \<longrightarrow> ended_since W p t t') \<and> directory_left W mp a t' \<and>
    (\<forall>w. worker = Some w \<longrightarrow> unmounted_first W mp w a t t')"
proof -
  let ?first = "case consumer of None \<Rightarrow> give (Inr ()) | Some c \<Rightarrow> stop_if_running W c"
  let ?unmount = "case worker of None \<Rightarrow> give (Inr ()) | Some _ \<Rightarrow> unmount_if_mounted W mp"
  let ?stop = "next_do (case worker of None \<Rightarrow> give (Inr ()) | Some w \<Rightarrow> stop_process W w) (\<lambda>_. remove_unmounted W mp)"
  have "\<exists>u. ?first t = Some (Inr (), u) \<and> prefix t u \<and> (\<forall>c. consumer = Some c \<longrightarrow> ended_since W c t u)"
    using stop_if_running_ended [OF calm] by (cases consumer) (auto simp: give_def)
  then obtain u where u: "?first t = Some (Inr (), u)" "prefix t u" "\<forall>c. consumer = Some c \<longrightarrow> ended_since W c t u"
    by blast
  with run obtain b v q where v: "?unmount u = Some (b, v)" and rest: "?stop v = Some (q, t')"
    and r: "(\<exists>e. q = Inl e \<and> r = Inl e) \<or> (q = Inr () \<and> r = b)"
    unfolding session_cleanup_def next_do_Some finally_do_Some by auto
  have "grows ?unmount" by (intro io_intros)
  from alwaysD [OF this v] have uv: "prefix u v" .
  note s = stop_worker_run [OF calm rest]
  have failed: "\<exists>e. a = Inl e" if "b = Inl e" for e using that r a by auto
  have "unmounted_first W mp w a t t'" if w: "worker = Some w" for w
  proof -
    from v w have "unmount_if_mounted W mp u = Some (b, v)" by simp
    from unmount_if_mounted_run [OF this] have "case w_ismount W mp u of
        Inl e \<Rightarrow> v = u @ [Ask_Mounted mp] \<and> (\<exists>e. a = Inl e)
      | Inr False \<Rightarrow> v = u @ [Ask_Mounted mp]
      | Inr True \<Rightarrow> \<exists>r. unmount W mp (u @ [Ask_Mounted mp]) = Some (r, v) \<and> (r = Inr () \<or> (\<exists>e. a = Inl e))"
      using failed by (cases b) (auto split: sum.splits bool.splits)
    moreover have "prefix (v @ [Poll w]) t'" using s w by blast
    ultimately show ?thesis unfolding unmounted_first_def using u(2) by blast
  qed
  moreover have "prefix t v" "prefix u t'" using u(2) uv s by (auto intro: prefix_order.trans)
  moreover have "directory_left W mp a t'" using s r a by auto
  ultimately show ?thesis using u(3) s
    by (auto intro: ended_mono ended_later prefix_order.trans)
qed

section \<open>The processes of a session\<close>

lemma starts_nothing_unmount: "starts_nothing (unmount W path)"
  unfolding starts_nothing_def
proof (intro conjI allI)
  have "avoids (Start argv env) (await_unmounted W path d)" for argv env path d
    unfolding avoids_def always_def by (auto dest!: await_unmounted_run polled_new simp: count_list_0_iff)
  then show "avoids (Start argv env) (unmount W path)" for argv env
    unfolding unmount_def is_snapshot_mount_def system_calls
    by (auto intro!: io_intros simp: Let_def split: prod.split)
qed (rule unmount_io)

lemma starts_nothing_cleanup: "starts_nothing (session_cleanup W mp worker consumer)"
proof -
  have "grows (unmount W mp)" "avoids (Start argv env) (unmount W mp)" for argv env
    using starts_nothing_unmount [of W mp] by (simp_all add: starts_nothing_def)
  then show ?thesis
    unfolding starts_nothing_def session_cleanup_def stop_if_running_def unmount_if_mounted_def remove_unmounted_def
      system_calls by (auto intro!: io_intros)
qed

lemma start_background_grows: "grows (start_background W arguments mp timeout)"
proof -
  have await: "prefix t t'" if "await_ready W mp timeout r p t = Some (a, t')" for r p t a t'
    using alwaysD [OF await_ready_io(1) that] .
  have body: "prefix t t'" if "worker_body W arguments mp timeout r w t = Some (x, t')" for r w t x t'
    using that
    by (auto simp: worker_body_def with_process_def system_calls ask_def split: sum.splits option.splits
        dest!: await intro: append_prefixD)
  have "grows (finally_do (stop_and_raise W p a) (close_pipe W r w still))" for p a r w still
    unfolding stop_and_raise_def close_pipe_def system_calls by (cases a; cases p) (auto intro!: io_intros)
  then have "grows (\<lambda>tr. case worker_body W arguments mp timeout r w tr of
      None \<Rightarrow> None
    | Some ((a, p, still_open), tr) \<Rightarrow> finally_do (stop_and_raise W p a) (close_pipe W r w still_open) tr)" for r w
    using body by (auto simp: always_def split: option.splits) (blast intro: prefix_order.trans)
  then show ?thesis
    unfolding start_background_def unfit_def or_else_def system_calls
    by (auto intro!: io_intros simp: split_beta)
qed

lemma session_body_status:
  assumes "session_body W snapshot command options simulate timeout mp tr = Some ((Inr s, worker, consumer), t)"
  shows "\<exists>c u status. prefix tr u \<and> consumer = Some c \<and> worker \<noteq> None \<and>
    t = u @ [Start (map (replace_marker mp) command)
      (dict_set (lit ''SNAPSHOTFS_MOUNTPOINT'') mp (external_environment W)), Wait c] \<and>
    w_start W (map (replace_marker mp) command) u = Inr c \<and>
    w_wait W c (u @ [Start (map (replace_marker mp) command)
      (dict_set (lit ''SNAPSHOTFS_MOUNTPOINT'') mp (external_environment W))]) = Inr status \<and> s = shell_status status"
proof -
  let ?env = "dict_set (lit ''SNAPSHOTFS_MOUNTPOINT'') mp (external_environment W)"
  let ?argv = "map (replace_marker mp) command"
  from assms obtain path w u c status where
    b: "start_background W (worker_arguments options path mp simulate) mp timeout (tr @ [Resolve snapshot]) = Some (Inr w, u)"
    and run: "worker = Some w" "consumer = Some c" "t = u @ [Start ?argv ?env, Wait c]" "w_start W ?argv u = Inr c"
      "w_wait W c (u @ [Start ?argv ?env]) = Inr status" "s = shell_status status"
    by (auto simp: session_body_def system_calls ask_def next_do_Some split: option.splits sum.splits)
  have "prefix tr u" using alwaysD [OF start_background_grows b] by (rule append_prefixD)
  with run show ?thesis by simp
qed

lemma session_body_grows:
  assumes "session_body W snapshot command options simulate timeout mp tr = Some (r, t)"
  shows "prefix tr t"
proof -
  have b: "prefix tr v" if "start_background W args mp timeout (tr @ [Resolve snapshot]) = Some (a, v)" for args a v
    using alwaysD [OF start_background_grows that] by (rule append_prefixD)
  show ?thesis using assms
    by (auto simp: session_body_def system_calls ask_def next_do_Some split: option.splits sum.splits dest!: b)
qed

text \<open>The body reports every process that it started, but those that have ended already.\<close>

lemma session_body_starts:
  assumes calm: "calm W"
    and body: "session_body W snapshot command options simulate timeout mp tr = Some ((b, worker, consumer), t)"
    and u: "prefix tr u" "prefix (u @ [Start argv env]) t" and p: "w_start W argv u = Inr p"
  shows "worker = Some p \<or> consumer = Some p \<or> ended_since W p (u @ [Start argv env]) t"
proof (cases "w_resolve W snapshot tr")
  case (Inl e)
  with body have "t = tr @ [Resolve snapshot]" by (simp add: session_body_def next_do_def system_calls ask_def)
  with u no_start_found [of tr u argv env "[Resolve snapshot]"] show ?thesis by auto
next
  case (Inr path)
  let ?start = "start_background W (worker_arguments options path mp simulate) mp timeout"
  let ?tr = "tr @ [Resolve snapshot]"
  obtain a v where start: "?start ?tr = Some (a, v)"
    using body Inr by (auto simp: session_body_def next_do_def system_calls ask_def split: option.splits)
  have grown: "prefix ?tr v" by (rule alwaysD [OF start_background_grows start])
  have v: "prefix v t" and ended: "\<exists>e. a = Inl e \<Longrightarrow> t = v"
    using body Inr start by (auto simp: session_body_def next_do_def system_calls ask_def split: sum.splits)
  have tr: "prefix ?tr u"
    by (rule start_after [OF u(2,1)]) (use grown v in \<open>auto intro: prefix_order.trans\<close>)
  show ?thesis
  proof (cases "prefix (u @ [Start argv env]) v")
    case True
    from start_background_starts [OF calm start tr True p] show ?thesis
    proof
      assume "a = Inr p"
      with body Inr start have "worker = Some p"
        by (auto simp: session_body_def next_do_def system_calls ask_def split: sum.splits)
      then show ?thesis ..
    next
      assume "(\<exists>e. a = Inl e) \<and> ended_since W p (u @ [Start argv env]) v"
      with ended show ?thesis by auto
    qed
  next
    case False
    let ?argv = "map (replace_marker mp) command"
    let ?env = "dict_set (lit ''SNAPSHOTFS_MOUNTPOINT'') mp (external_environment W)"
    from False u(2) ended obtain w where a: "a = Inr w" by (cases a) auto
    have "prefix v u"
      using False u(2) v by (metis append_prefixD prefix_same_cases prefix_snoc)
    moreover have "\<exists>ys. t = v @ [] @ Start ?argv ?env # ys \<and> (\<forall>a e. Start a e \<notin> set ys)"
      using body Inr start a by (auto simp: session_body_def next_do_def system_calls ask_def split: sum.splits)
    then obtain ys where "t = v @ [] @ Start ?argv ?env # ys" "\<And>a e. Start a e \<notin> set ys" by blast
    ultimately have "u = v" "argv = ?argv"
      using start_found [of v u argv env "[]" ?argv ?env ys] u(2) by auto
    with body Inr start a p have "consumer = Some p"
      by (auto simp: session_body_def next_do_def system_calls ask_def)
    then show ?thesis by simp
  qed
qed

text \<open>
  However a session ends: the processes it started have ended, a mount that had become ready was taken
  down before its worker was stopped, the directory was removed if nothing is mounted there any
  more, and a status is that of the command.
\<close>

theorem session_cleans_up:
  assumes calm: "calm W" and command: "command \<noteq> []"
    and dir: "w_make_directory W tr = Inr mp"
    and run: "run_mounted W snapshot command options simulate timeout tr = Some (a, tr')"
  shows "\<And>u argv env p. prefix tr u \<Longrightarrow> prefix (u @ [Start argv env]) tr' \<Longrightarrow> w_start W argv u = Inr p \<Longrightarrow>
      ended_since W p (u @ [Start argv env]) tr'"
    and "\<And>path worker t. w_resolve W snapshot (tr @ [Make_Directory]) = Inr path \<Longrightarrow>
      start_background W (worker_arguments options path mp simulate) mp timeout (tr @ [Make_Directory, Resolve snapshot]) =
        Some (Inr worker, t) \<Longrightarrow> unmounted_first W mp worker a t tr'"
    and "directory_left W mp a tr'"
    and "\<And>s. a = Inr s \<Longrightarrow> \<exists>u c status. prefix tr u \<and>
      prefix (u @ [Start (map (replace_marker mp) command)
        (dict_set (lit ''SNAPSHOTFS_MOUNTPOINT'') mp (external_environment W)), Wait c]) tr' \<and>
      w_start W (map (replace_marker mp) command) u = Inr c \<and>
      w_wait W c (u @ [Start (map (replace_marker mp) command)
        (dict_set (lit ''SNAPSHOTFS_MOUNTPOINT'') mp (external_environment W))]) = Inr status \<and> s = shell_status status"
proof -
  let ?tr = "tr @ [Make_Directory]"
  from run dir command obtain b worker consumer t where
    body: "session_body W snapshot command options simulate timeout mp ?tr = Some ((b, worker, consumer), t)"
    and fin: "finally_do (give b) (session_cleanup W mp worker consumer) t = Some (a, tr')"
    by (auto simp: run_mounted_def next_do_Some split: option.splits)
  from fin obtain r where r: "session_cleanup W mp worker consumer t = Some (r, tr')"
    and ab: "(\<exists>e. r = Inl e \<and> a = Inl e) \<or> (r = Inr () \<and> a = b)"
    by (auto simp: finally_do_Some)
  then have "\<And>e. r = Inl e \<Longrightarrow> a = Inl e" by auto
  note clean = session_cleanup_run [OF calm r this]
  have grown: "prefix ?tr t" by (rule session_body_grows [OF body])
  show "directory_left W mp a tr'" using clean by blast
  show "ended_since W p (u @ [Start argv env]) tr'"
    if u: "prefix tr u" "prefix (u @ [Start argv env]) tr'" and p: "w_start W argv u = Inr p" for u argv env p
  proof -
    obtain new where "tr' = t @ new" "\<And>argv env. Start argv env \<notin> set new"
      by (rule starts_nothingD [OF starts_nothing_cleanup r]) blast
    with u(2) have in_body: "prefix (u @ [Start argv env]) t" using start_before by metis
    have "prefix ?tr u" by (rule start_after [OF in_body u(1) grown]) auto
    from session_body_starts [OF calm body this in_body p] in_body clean show ?thesis
      by (auto intro: ended_later ended_mono)
  qed
  show "unmounted_first W mp worker' a t' tr'"
    if ready: "w_resolve W snapshot ?tr = Inr path"
      "start_background W (worker_arguments options path mp simulate) mp timeout (tr @ [Make_Directory, Resolve snapshot]) =
        Some (Inr worker', t')" for path worker' t'
  proof -
    have "worker = Some worker'" "prefix t' t"
      using body ready by (auto simp: session_body_def next_do_def system_calls ask_def split: sum.splits)
    with clean show ?thesis unfolding unmounted_first_def by (blast intro: prefix_order.trans)
  qed
  show "\<exists>u c status. prefix tr u \<and>
      prefix (u @ [Start (map (replace_marker mp) command)
        (dict_set (lit ''SNAPSHOTFS_MOUNTPOINT'') mp (external_environment W)), Wait c]) tr' \<and>
      w_start W (map (replace_marker mp) command) u = Inr c \<and>
      w_wait W c (u @ [Start (map (replace_marker mp) command)
        (dict_set (lit ''SNAPSHOTFS_MOUNTPOINT'') mp (external_environment W))]) = Inr status \<and> s = shell_status status"
    if "a = Inr s" for s
  proof -
    from ab that have "b = Inr s" by auto
    with body session_body_status obtain u c status where "prefix ?tr u" "t = u @ [Start (map (replace_marker mp) command)
        (dict_set (lit ''SNAPSHOTFS_MOUNTPOINT'') mp (external_environment W)), Wait c]"
      "w_start W (map (replace_marker mp) command) u = Inr c"
      "w_wait W c (u @ [Start (map (replace_marker mp) command)
        (dict_set (lit ''SNAPSHOTFS_MOUNTPOINT'') mp (external_environment W))]) = Inr status" "s = shell_status status"
      by blast
    moreover have "prefix t tr'" using clean by blast
    ultimately show ?thesis by (intro exI [of _ u] exI [of _ c] exI [of _ status]) (auto intro: append_prefixD)
  qed
qed

section \<open>Every session ends\<close>

lemma start_background_io [io_intros]: "returns (start_background W arguments mp timeout)"
proof -
  have body: "\<exists>r. worker_body W arguments mp timeout r' w tr = Some r" for r' w tr
  proof -
    have "await_ready W mp timeout r' p t \<noteq> None" for p t
      using await_ready_io(2) unfolding returns_def by blast
    then have "with_process W mp timeout r' w p t \<noteq> None" for p t
      by (auto simp: with_process_def system_calls ask_def split: sum.split)
    then show ?thesis
      by (auto simp: worker_body_def system_calls ask_def simp del: not_None_eq split: sum.split option.split)
  qed
  have "finally_do (stop_and_raise W p a) (close_pipe W r w still) t \<noteq> None" for p a r w still t
  proof -
    have "returns (finally_do (stop_and_raise W p a) (close_pipe W r w still))"
      unfolding stop_and_raise_def close_pipe_def system_calls
      by (cases a; cases p) (auto intro!: io_intros)
    then show ?thesis by (simp add: returns_def)
  qed
  with body have "returns (\<lambda>tr. case worker_body W arguments mp timeout r' w tr of
      None \<Rightarrow> None
    | Some ((a, p, still_open), tr) \<Rightarrow> finally_do (stop_and_raise W p a) (close_pipe W r' w still_open) tr)" for r' w
    by (auto simp: returns_def split: option.split)
  then show ?thesis
    unfolding start_background_def unfit_def or_else_def system_calls
    by (auto intro!: io_intros simp: split_beta)
qed

text \<open>A session ends when its command does, on a system whose clock advances.\<close>

theorem session_ends:
  assumes W: "time_passes W"
  shows "\<exists>a tr'. run_mounted W snapshot command options simulate timeout tr = Some (a, tr')"
proof -
  have body: "session_body W snapshot command options simulate timeout mp t \<noteq> None" for mp t
  proof -
    have "returns (next_do (resolve_path W snapshot) (\<lambda>snapshot.
        start_background W (worker_arguments options snapshot mp simulate) mp timeout))"
      unfolding system_calls by (intro io_intros)
    then show ?thesis
      by (auto simp: session_body_def returns_def system_calls ask_def split: option.split sum.split)
  qed
  have cleanup: "returns (finally_do (give b) (session_cleanup W mp worker consumer))" for b :: "int answer" and mp worker consumer
    unfolding session_cleanup_def stop_if_running_def remove_unmounted_def system_calls
    by (intro io_intros W)
  have "returns (\<lambda>tr. case session_body W snapshot command options simulate timeout mp tr of
          None \<Rightarrow> None
        | Some ((a, worker, consumer), tr) \<Rightarrow> finally_do (give a) (session_cleanup W mp worker consumer) tr)" for mp
    using body cleanup by (auto simp: returns_def split: option.split)
  then have "returns (run_mounted W snapshot command options simulate timeout)"
    unfolding run_mounted_def by (intro io_intros)
  then show ?thesis by (auto simp: returns_def)
qed

section \<open>An interrupted clean-up\<close>

text \<open>
  Stopping the command comes before the protected part of the clean-up: when the wait for the command
  is interrupted, the worker keeps running and the mount stays.
\<close>

lemma interrupted_cleanup:
  assumes body: "session_body W snapshot command options simulate timeout mp (tr @ [Make_Directory]) =
      Some ((b, Some worker, Some consumer), t)"
    and dir: "w_make_directory W tr = Inr mp" "command \<noteq> []"
    and still_running: "w_poll W consumer t = Inr None" "w_poll W consumer (t @ [Poll consumer]) = Inr None"
    and signal: "w_kill W consumer SIGINT (t @ [Poll consumer, Poll consumer]) = Inr ()"
    and interrupt: "w_wait_briefly W consumer (t @ [Poll consumer, Poll consumer, Kill consumer SIGINT]) = Inl Keyboard_Interrupt"
  shows "run_mounted W snapshot command options simulate timeout tr =
    Some (Inl Keyboard_Interrupt, t @ [Poll consumer, Poll consumer, Kill consumer SIGINT, Wait_Briefly consumer])"
  using assms
  by (simp add: run_mounted_def next_do_def ask_def finally_do_def give_def session_cleanup_def stop_if_running_def
      system_calls stop_process_def stop_signals.simps(2) catch_do_def)

end
