(* ===== verification/Session_Example.thy ===== *)
theory Session_Example
  imports Session_Cleanup
begin

text \<open>
  A well-behaved system for the witnesses of the mount sessions: a worker mounts when it is started,
  which the table of mounts then shows, the helper unmounts, processes run until they are waited for
  or signalled.
\<close>

definition mounted_in :: "trace \<Rightarrow> bool" where
  "mounted_in t \<longleftrightarrow> (\<exists>c \<in> set t. case c of Start _ _ \<Rightarrow> True | _ \<Rightarrow> False) \<and>
     \<not> (\<exists>c \<in> set t. case c of Run_Helper _ _ \<Rightarrow> True | _ \<Rightarrow> False)"

definition gone_in :: "int \<Rightarrow> trace \<Rightarrow> bool" where
  "gone_in p t \<longleftrightarrow> (\<exists>c \<in> set t. case c of Wait q \<Rightarrow> q = p | Kill q _ \<Rightarrow> q = p | _ \<Rightarrow> False)"

definition session_mount :: "pystr \<Rightarrow> mount" where
  "session_mount point =
     \<lparr>mt_numbers = [lit ''36'', lit ''35'', lit ''0:50'', lit ''/''], mt_point = point, mt_options = [lit ''ro''],
      mt_type = lit ''fuse.snapshotfs'', mt_source = lit ''snapshotfs'', mt_super_options = lit ''ro''\<rparr>"

definition session_mounts :: "trace \<Rightarrow> mount list" where
  "session_mounts t =
     (if mounted_in t then [session_mount (lit ''/mnt''), session_mount (lit ''/tmp/snapshotfs-1'')] else [])"

definition example_world :: world where
  "example_world =
     \<lparr>w_linux = True, w_frozen = False, w_executable = lit ''/usr/bin/python3'', w_environ = [],
      w_resolve = (\<lambda>p t. Inr p), w_mountinfo = (\<lambda>t. Inr (mount_table (session_mounts t))), w_helper = (\<lambda>t. Inr (Some (lit ''/usr/bin/fusermount3''))),
      w_run_helper = (\<lambda>argv t. Inr (0, [])), w_ismount = (\<lambda>p t. Inr (mounted_in t)),
      w_clock = (\<lambda>t. Inr (50000 * int (count_list t Sleep))), w_sleep = (\<lambda>t. Inr ()),
      w_is_dir = (\<lambda>p t. Inr True), w_occupied = (\<lambda>p t. Inr False), w_pipe = (\<lambda>t. Inr (3, 4)),
      w_open_errors = (\<lambda>t. Inr ()), w_close_errors = (\<lambda>t. Inr ()), w_read_errors = (\<lambda>t. Inr []),
      w_start = (\<lambda>argv t. Inr (100 + int (length t))), w_close = (\<lambda>fd t. Inr ()), w_select = (\<lambda>fd t. Inr True),
      w_read = (\<lambda>fd t. Inr (blit ''1'')), w_poll = (\<lambda>p t. Inr (if gone_in p t then Some 0 else None)),
      w_wait = (\<lambda>p t. Inr 0), w_wait_briefly = (\<lambda>p t. Inr 0), w_kill = (\<lambda>p sig t. Inr ()),
      w_make_directory = (\<lambda>t. Inr (lit ''/tmp/snapshotfs-1'')), w_remove_directory = (\<lambda>p t. Inr ())\<rparr>"

lemma example_calm: "calm example_world"
  by (simp add: calm_def example_world_def)

lemma count_list_prefix: "prefix t t' \<Longrightarrow> count_list t x \<le> count_list t' x"
  by (auto simp: prefix_def)

lemma example_time_passes: "time_passes example_world"
  by (auto simp: time_passes_def example_world_def algebra_simps dest: count_list_prefix [where x = Sleep])

lemma example_start_background:
  "start_background example_world [] (lit ''/mnt'') (lit ''120'') [] =
     Some (Inr 105, checked (lit ''/mnt'') [] @ [Make_Pipe, Open_Errors,
       Start (cli_executable example_world) (worker_environment example_world 4), Close 4] @
       handshake (lit ''/mnt'') 3 105 @ [Close_Errors, Close 3])"
  by (simp add: start_background_def unfit_def or_else_def next_do_def system_calls ask_def give_def example_world_def
      mounted_in_def worker_body_def with_process_def await_ready_def both_hold_def gone_in_def checked_def handshake_def
      finally_do_def stop_and_raise_def close_pipe_def)

lemma example_world_calls:
  "w_linux example_world" "w_resolve example_world p t = Inr p"
  "w_mountinfo example_world t = Inr (mount_table (session_mounts t))"
  "w_helper example_world t = Inr (Some (lit ''/usr/bin/fusermount3''))" "w_run_helper example_world argv t = Inr (0, [])"
  "w_ismount example_world p t = Inr (mounted_in t)" "w_clock example_world t = Inr (50000 * int (count_list t Sleep))"
  "w_start example_world argv t = Inr (100 + int (length t))"
  "w_poll example_world q t = Inr (if gone_in q t then Some 0 else None)" "w_wait example_world q t = Inr 0"
  "w_wait_briefly example_world q t = Inr 0" "w_kill example_world q sig t = Inr ()"
  "w_make_directory example_world t = Inr (lit ''/tmp/snapshotfs-1'')" "w_remove_directory example_world p t = Inr ()"
  by (simp_all add: example_world_def)

lemma session_mounts_ok: "\<forall>m \<in> set (session_mounts t). mount_ok m"
  by (auto simp: session_mounts_def session_mount_def mount_ok_def word_ok_def lit_def py_isspace_def)

lemma example_mounted:
  "snapshot_mounted target (mount_table (session_mounts t)) =
     Inr (mounted_in t \<and> target \<in> {lit ''/mnt'', lit ''/tmp/snapshotfs-1''})"
  by (simp add: snapshot_mounted_table [OF session_mounts_ok])
    (auto simp: session_mounts_def session_mount_def is_snapshot_def)

lemma example_unmount:
  assumes "mounted_in t" "path \<in> {lit ''/mnt'', lit ''/tmp/snapshotfs-1''}"
  shows "unmount example_world path t = Some (Inr (), t @ [Resolve path, Resolve path, Read_Mountinfo, Find_Helper,
    Run_Helper (lit ''/usr/bin/fusermount3'') [lit ''/usr/bin/fusermount3'', lit ''-u'', lit ''--'', path],
    Read_Clock, Ask_Mounted path])"
proof -
  have m: "mounted_in (t @ [Resolve path, Resolve path])" using assms(1) by (auto simp: mounted_in_def)
  have "await_unmounted example_world path d (t @ [Resolve path, Resolve path, Read_Mountinfo, Find_Helper,
      Run_Helper h argv, Read_Clock]) = Some (Inr (), t @ [Resolve path, Resolve path, Read_Mountinfo, Find_Helper,
      Run_Helper h argv, Read_Clock, Ask_Mounted path])" for d h argv
    by (subst await_unmounted.simps) (simp add: example_world_calls mounted_in_def)
  then show ?thesis
    using assms(2) m
    by (simp add: unmount_def is_snapshot_mount_def next_do_def system_calls ask_def give_def example_mounted
        example_world_calls Let_def raised_def)
qed

text \<open>A session on this system: the command ends, the mount is taken down and the worker stopped.\<close>

definition example_session :: "(int answer \<times> trace) option" where
  "example_session = run_mounted example_world (lit ''s.sqlite'') [lit ''ls'', lit ''{mountpoint}''] [] False (lit ''120'') []"

lemma example_session_start:
  "start_background example_world (worker_arguments [] (lit ''s.sqlite'') (lit ''/tmp/snapshotfs-1'') False)
     (lit ''/tmp/snapshotfs-1'') (lit ''120'') [Make_Directory, Resolve (lit ''s.sqlite'')] =
   Some (Inr 107, checked (lit ''/tmp/snapshotfs-1'') [Make_Directory, Resolve (lit ''s.sqlite'')] @ [Make_Pipe, Open_Errors,
       Start (cli_executable example_world @ worker_arguments [] (lit ''s.sqlite'') (lit ''/tmp/snapshotfs-1'') False)
         (worker_environment example_world 4), Close 4] @
       handshake (lit ''/tmp/snapshotfs-1'') 3 107 @ [Close_Errors, Close 3])"
  by (simp add: start_background_def unfit_def or_else_def next_do_def system_calls ask_def give_def example_world_def
      mounted_in_def worker_body_def with_process_def await_ready_def both_hold_def gone_in_def checked_def handshake_def
      finally_do_def stop_and_raise_def close_pipe_def)

lemma example_session_ends: "\<exists>tr. example_session = Some (Inr 0, tr)"
proof -
  obtain t where t: "start_background example_world (worker_arguments [] (lit ''s.sqlite'') (lit ''/tmp/snapshotfs-1'') False)
     (lit ''/tmp/snapshotfs-1'') (lit ''120'') [Make_Directory, Resolve (lit ''s.sqlite'')] = Some (Inr 107, t)"
    "mounted_in t" "length t = 15"
    by (rule that [OF example_session_start]) (simp_all add: checked_def handshake_def mounted_in_def)
  let ?start = "Start (map (replace_marker (lit ''/tmp/snapshotfs-1'')) [lit ''ls'', lit ''{mountpoint}''])
    (dict_set (lit ''SNAPSHOTFS_MOUNTPOINT'') (lit ''/tmp/snapshotfs-1'') (external_environment example_world))"
  let ?t = "t @ [?start, Wait 115]"
  have body: "session_body example_world (lit ''s.sqlite'') [lit ''ls'', lit ''{mountpoint}''] [] False (lit ''120'')
      (lit ''/tmp/snapshotfs-1'') [Make_Directory] = Some ((Inr 0, Some 107, Some 115), ?t)"
    using t by (simp add: session_body_def next_do_def system_calls ask_def example_world_calls shell_status_def)
  have gone: "gone_in 115 ?t" by (simp add: gone_in_def)
  have mounted: "mounted_in (?t @ [Poll 115])" "mounted_in (?t @ [Poll 115, Ask_Mounted (lit ''/tmp/snapshotfs-1'')])"
    using t(2) by (auto simp: mounted_in_def)
  from example_unmount [OF mounted(2), of "lit ''/tmp/snapshotfs-1''"] obtain v where
    v: "unmount example_world (lit ''/tmp/snapshotfs-1'') (?t @ [Poll 115, Ask_Mounted (lit ''/tmp/snapshotfs-1'')]) = Some (Inr (), v)"
    by blast
  obtain w where w: "stop_process example_world 107 v = Some (Inr (), w)"
    using calm_stop_process [OF example_calm] by blast
  then show ?thesis
    using body gone mounted v
    by (auto simp: example_session_def run_mounted_def next_do_def ask_def example_world_calls finally_do_def give_def
        session_cleanup_def stop_if_running_def system_calls unmount_if_mounted_def remove_unmounted_def)
qed

end
