(* ===== verification/File_Source.thy ===== *)
theory File_Source
  imports Import_Service
begin

text \<open>
  \<open>snapshotfs.source.file\<close>: a local file as a source. Paths are those of a POSIX system, as
  \<open>pathlib\<close> normalises them; the answers of the file system are parameters.
\<close>

section \<open>Paths and their URIs\<close>

text \<open>\<open>Path(path)\<close>: the root and the components; two leading slashes are a root of their own.\<close>

definition path_root :: "pystr \<Rightarrow> pystr" where
  "path_root s =
     (let n = length (takeWhile (\<lambda>c. c = 47) s) in if n = 0 then [] else if n = 2 then [47, 47] else [47])"

definition path_parts :: "pystr \<Rightarrow> pystr list" where
  "path_parts s = List.filter (\<lambda>p. p \<noteq> [] \<and> p \<noteq> lit ''.'') (split_on 47 s)"

text \<open>\<open>str(path)\<close> and \<open>str(path.absolute())\<close>, where \<open>cwd\<close> is the working directory.\<close>

definition path_text :: "pystr \<Rightarrow> pystr list \<Rightarrow> pystr" where
  "path_text root parts = (if root = [] \<and> parts = [] then lit ''.'' else root @ join [47] parts)"

definition absolute_text :: "pystr \<Rightarrow> pystr \<Rightarrow> pystr" where
  "absolute_text cwd path =
     (if path_root path \<noteq> [] then path_text (path_root path) (path_parts path)
      else path_text (path_root cwd) (path_parts cwd @ path_parts path))"

text \<open>\<open>os.fsencode\<close>: UTF-8, in which the surrogates that stand for undecodable bytes are these bytes.\<close>

definition fs_unit :: "nat \<Rightarrow> nat list option" where
  "fs_unit c =
     (if 0xDC80 \<le> c \<and> c \<le> 0xDCFF then Some [c - 0xDC00] else if scalar c then Some (utf8_units c) else None)"

definition fsencode :: "pystr \<Rightarrow> nat list option" where
  "fsencode s = map_option concat (those (map fs_unit s))"

text \<open>\<open>urllib.parse.quote\_from\_bytes\<close>.\<close>

definition hex_digit :: "nat \<Rightarrow> nat" where
  "hex_digit d = (if d < 10 then 48 + d else 55 + d)"

definition unreserved :: "nat \<Rightarrow> bool" where
  "unreserved b \<longleftrightarrow> (65 \<le> b \<and> b \<le> 90) \<or> (97 \<le> b \<and> b \<le> 122) \<or> (48 \<le> b \<and> b \<le> 57) \<or> b \<in> {95, 46, 45, 126, 47}"

definition quote_byte :: "nat \<Rightarrow> pystr" where
  "quote_byte b = (if unreserved b then [b] else [37, hex_digit (b div 16), hex_digit (b mod 16)])"

definition as_uri :: "pystr \<Rightarrow> py_exn + pystr" where
  "as_uri path =
     (case fsencode path of
        None \<Rightarrow> Inl (ValueError [Txt ''UnicodeEncodeError''])
      | Some b \<Rightarrow> Inr (lit ''file://'' @ concat (map quote_byte b)))"

section \<open>The source\<close>

text \<open>
  What the file system says of a path: its size or the text of the error, and its stream. The URI is
  computed first by an import, and where its text cannot be encoded nothing else happens.
\<close>

record 'i file_system =
  fs_cwd :: pystr
  fs_stat :: "pystr \<Rightarrow> pystr + int"
  fs_open :: "pystr \<Rightarrow> pystr + 'i"

definition source_error :: "string \<Rightarrow> pystr \<Rightarrow> pystr \<Rightarrow> py_exn" where
  "source_error action path strerror =
     StoreError ''SourceError'' [Txt ''cannot '', Txt action, Txt '' source '', Str path, Txt '': '', Str strerror]"

definition file_source :: "'i file_system \<Rightarrow> pystr \<Rightarrow> py_exn + 'i source" where
  "file_source fs path =
     (let text = path_text (path_root path) (path_parts path)
      in map_ok (\<lambda>uri.
           \<lparr>source_uri = uri,
            source_size = (case fs_stat fs text of Inl e \<Rightarrow> Inl (source_error ''inspect'' text e) | Inr n \<Rightarrow> Inr (Some n)),
            source_open = (case fs_open fs text of Inl e \<Rightarrow> Inl (source_error ''open'' text e) | Inr s \<Rightarrow> Inr s)\<rparr>)
         (as_uri (absolute_text (fs_cwd fs) path)))"

section \<open>The URI identifies the file\<close>

definition hex_value :: "nat \<Rightarrow> nat" where
  "hex_value c = (if c < 58 then c - 48 else c - 55)"

fun unquote :: "pystr \<Rightarrow> nat list" where
  "unquote [] = []"
| "unquote [c] = [c]"
| "unquote [c, d] = [c, d]"
| "unquote (c # d # e # s) =
     (if c = 37 then (hex_value d * 16 + hex_value e) # unquote s else c # unquote (d # e # s))"

lemma hex_value_digit [simp]: "d < 16 \<Longrightarrow> hex_value (hex_digit d) = d"
  by (auto simp: hex_value_def hex_digit_def)

lemma unquote_plain: "c \<noteq> 37 \<Longrightarrow> unquote (c # s) = c # unquote s"
  by (cases s rule: unquote.cases) auto

lemma unquote_quote: "\<forall>b \<in> set bs. b < 256 \<Longrightarrow> unquote (concat (map quote_byte bs)) = bs"
proof (induction bs)
  case (Cons b bs)
  have "b div 16 < 16" "b mod 16 < 16" using Cons.prems by (simp_all add: less_mult_imp_div_less)
  moreover have "b \<noteq> 37" if "unreserved b" using that by (auto simp: unreserved_def)
  ultimately show ?case using Cons by (simp add: quote_byte_def unquote_plain)
qed simp

lemma utf8_units_bytes: "scalar c \<Longrightarrow> b \<in> set (utf8_units c) \<Longrightarrow> b < 256"
proof -
  assume c: "scalar c" and b: "b \<in> set (utf8_units c)"
  have mods: "x mod 64 < 64" for x :: nat by simp
  have "c < 0x110000" using c by (simp add: scalar_def)
  then have "c div 64 div 64 div 64 < 8" "c < 0x800 \<Longrightarrow> c div 64 < 32" "c < 0x10000 \<Longrightarrow> c div 64 div 64 < 16"
    by (simp_all add: div_mult2_eq [symmetric] less_mult_imp_div_less)
  then show ?thesis using b mods [of c] mods [of "c div 64"] mods [of "c div 64 div 64"]
    by (auto simp: utf8_units_def split: if_splits)
qed

lemma fs_unit_bytes: "fs_unit c = Some u \<Longrightarrow> b \<in> set u \<Longrightarrow> b < 256"
  by (auto simp: fs_unit_def split: if_splits dest: utf8_units_bytes)

lemma fsencode_bytes:
  assumes "fsencode s = Some bs"
  shows "\<forall>b \<in> set bs. b < 256"
proof
  fix b
  assume "b \<in> set bs"
  with assms obtain us u where us: "map fs_unit s = map Some us" "u \<in> set us" "b \<in> set u"
    by (auto simp: fsencode_def those_Some_iff)
  then have "Some u \<in> set (map fs_unit s)" by simp
  then obtain c where "fs_unit c = Some u" by auto
  then show "b < 256" using us(3) by (rule fs_unit_bytes)
qed

text \<open>Reading the URI back gives the bytes of the path.\<close>

lemma as_uri_identifies:
  assumes "as_uri path = Inr uri"
  shows "fsencode path = Some (unquote (drop 7 uri))"
proof -
  from assms obtain bs where bs: "fsencode path = Some bs" "uri = lit ''file://'' @ concat (map quote_byte bs)"
    by (auto simp: as_uri_def split: option.splits)
  from unquote_quote [OF fsencode_bytes [OF bs(1)]] bs show ?thesis by simp
qed

end
