(* ===== verification/Cli_Registry.thy ===== *)
theory Cli_Registry
  imports File_Source Dir_Parser
begin

text \<open>
  \<open>snapshotfs.cli\_registry\<close>: the registrations of sources, parsers and stores, the selection of the
  parameters that a source and a parser contribute to a command, and the default registry. A click
  parameter is its name with the option strings it answers to; the text of an argument is what \<open>str\<close>
  makes of its value.
\<close>

section \<open>Registrations\<close>

definition registry_error :: "message \<Rightarrow> py_exn" where
  "registry_error m = StoreError ''RegistryError'' m"

record param =
  param_name :: "pystr option"
  param_is_option :: bool
  param_opts :: "pystr list"
  param_secondary_opts :: "pystr list"

type_synonym arguments = "(pystr, pystr) dict"

record 'a registration =
  reg_name :: pystr
  reg_factory :: "arguments \<Rightarrow> py_exn + 'a"
  reg_parameters :: "param list"

record 'c store_registration =
  store_reg_name :: pystr
  store_reg_command :: 'c

record ('i, 'c) registry =
  reg_sources :: "(pystr, 'i source registration) dict"
  reg_parsers :: "(pystr, 'i parser registration) dict"
  reg_stores :: "(pystr, 'c store_registration) dict"

definition register :: "string \<Rightarrow> pystr \<Rightarrow> 'r \<Rightarrow> (pystr, 'r) dict \<Rightarrow> py_exn + (pystr, 'r) dict" where
  "register kind name r d =
     (if name = [] then Inl (registry_error [Txt kind, Txt '' registration name must not be empty''])
      else if dict_get d name \<noteq> None
      then Inl (registry_error [Txt ''duplicate '', Txt kind, Txt '' registration name '', Repr name])
      else Inr (dict_set name r d))"

definition register_source where
  "register_source r R = map_ok (\<lambda>d. R\<lparr>reg_sources := d\<rparr>) (register ''source'' (reg_name r) r (reg_sources R))"

definition register_parser where
  "register_parser r R = map_ok (\<lambda>d. R\<lparr>reg_parsers := d\<rparr>) (register ''parser'' (reg_name r) r (reg_parsers R))"

definition register_store where
  "register_store r R = map_ok (\<lambda>d. R\<lparr>reg_stores := d\<rparr>) (register ''store'' (store_reg_name r) r (reg_stores R))"

fun register_each :: "('r \<Rightarrow> 's \<Rightarrow> py_exn + 's) \<Rightarrow> 'r list \<Rightarrow> 's \<Rightarrow> py_exn + 's" where
  "register_each f [] R = Inr R"
| "register_each f (r # rs) R = (case f r R of Inl x \<Rightarrow> Inl x | Inr R' \<Rightarrow> register_each f rs R')"

text \<open>\<open>CLIRegistry(sources=..., parsers=..., stores=...)\<close>.\<close>

definition make_registry ::
  "'i source registration list \<Rightarrow> 'i parser registration list \<Rightarrow> 'c store_registration list \<Rightarrow> py_exn + ('i, 'c) registry" where
  "make_registry sources parsers groups =
     (case register_each register_source sources \<lparr>reg_sources = [], reg_parsers = [], reg_stores = []\<rparr> of
        Inl x \<Rightarrow> Inl x
      | Inr R \<Rightarrow>
          (case register_each register_parser parsers R of
             Inl x \<Rightarrow> Inl x
           | Inr R \<Rightarrow> register_each register_store groups R))"

text \<open>\<open>self.\_sources[name].factory(arguments)\<close>.\<close>

definition create_component :: "(pystr, 'a registration) dict \<Rightarrow> pystr \<Rightarrow> arguments \<Rightarrow> py_exn + 'a" where
  "create_component d name args =
     (case dict_get d name of None \<Rightarrow> Inl (KeyErrorStr name) | Some r \<Rightarrow> reg_factory r args)"

definition create_source where "create_source R name args = create_component (reg_sources R) name args"
definition create_parser where "create_parser R name args = create_component (reg_parsers R) name args"

section \<open>Parameters of the selected components\<close>

definition parameter_options :: "param \<Rightarrow> pystr list" where
  "parameter_options p = (if param_is_option p then param_opts p @ param_secondary_opts p else [])"

text \<open>The sets of taken names and options, and the parameters selected so far.\<close>

type_synonym selection = "pystr option set \<times> pystr set \<times> param list"

definition shown_name :: "pystr option \<Rightarrow> frag" where
  "shown_name n = (case n of Some s \<Rightarrow> Repr s | None \<Rightarrow> Txt ''None'')"

fun add_parameters :: "string \<Rightarrow> pystr \<Rightarrow> param list \<Rightarrow> selection \<Rightarrow> py_exn + selection" where
  "add_parameters kind name [] st = Inr st"
| "add_parameters kind name (p # ps) (names, options, result) =
     (let conflict_in = [Txt ''argument conflict in selected '', Txt kind, Txt '' registration '', Repr name]
      in if param_name p \<in> names
         then Inl (registry_error (conflict_in @ [Txt '': duplicate destination '', shown_name (param_name p)]))
         else
           (let conflicting = List.filter (\<lambda>x. x \<in> options) (remdups (parameter_options p))
            in if conflicting \<noteq> []
               then Inl (registry_error (conflict_in @ [Txt '': reserved option '', Str (join (lit '', '') (sort conflicting))]))
               else add_parameters kind name ps
                 (insert (param_name p) names, options \<union> set (parameter_options p), result @ [p])))"

definition add_selected :: "string \<Rightarrow> 'a registration option \<Rightarrow> selection \<Rightarrow> py_exn + selection" where
  "add_selected kind r st = (case r of None \<Rightarrow> Inr st | Some r \<Rightarrow> add_parameters kind (reg_name r) (reg_parameters r) st)"

text \<open>\<open>self.\_sources.get(name) if name else None\<close>.\<close>

definition selected_registration :: "(pystr, 'a registration) dict \<Rightarrow> pystr option \<Rightarrow> 'a registration option" where
  "selected_registration d name = (case name of Some s \<Rightarrow> if s \<noteq> [] then dict_get d s else None | None \<Rightarrow> None)"

definition selected_parameters ::
  "('i, 'c) registry \<Rightarrow> pystr option \<Rightarrow> pystr option \<Rightarrow> pystr option list \<Rightarrow> pystr list \<Rightarrow> py_exn + param list" where
  "selected_parameters R source_name parser_name reserved_names reserved_options =
     (case add_selected ''source'' (selected_registration (reg_sources R) source_name)
             (set reserved_names, set reserved_options, []) of
        Inl x \<Rightarrow> Inl x
      | Inr st \<Rightarrow>
          map_ok (\<lambda>(_, _, result). result)
            (add_selected ''parser'' (selected_registration (reg_parsers R) parser_name) st))"

text \<open>\<open>get\_params\<close> of a command: its own parameters reserve their names and options.\<close>

definition command_parameters :: "('i, 'c) registry \<Rightarrow> pystr option \<times> pystr option \<Rightarrow> param list \<Rightarrow> py_exn + param list" where
  "command_parameters R selected base =
     map_ok (\<lambda>ps. base @ ps)
       (selected_parameters R (fst selected) (snd selected) (map param_name base) (concat (map parameter_options base)))"

section \<open>Finding the selected components among the arguments\<close>

definition SOURCE_OPTION :: pystr where "SOURCE_OPTION = lit ''--source''"
definition PARSER_OPTION :: pystr where "PARSER_OPTION = lit ''--parser''"

text \<open>\<open>--source=name\<close>.\<close>

definition joined_value :: "pystr \<Rightarrow> pystr \<Rightarrow> pystr option" where
  "joined_value option arg =
     (let start = option @ lit ''='' in if take (length start) arg = start then Some (drop (length start) arg) else None)"

fun select_from :: "pystr list \<Rightarrow> pystr option \<times> pystr option \<Rightarrow> pystr option \<times> pystr option" where
  "select_from [] sel = sel"
| "select_from [arg] (source, parser) =
     (case joined_value SOURCE_OPTION arg of Some v \<Rightarrow> Some v | None \<Rightarrow> source,
      case joined_value PARSER_OPTION arg of Some v \<Rightarrow> Some v | None \<Rightarrow> parser)"
| "select_from (arg # value # rest) (source, parser) =
     (if arg = SOURCE_OPTION then select_from rest (Some value, parser)
      else if arg = PARSER_OPTION then select_from rest (source, Some value)
      else select_from (value # rest)
        (case joined_value SOURCE_OPTION arg of Some v \<Rightarrow> Some v | None \<Rightarrow> source,
         case joined_value PARSER_OPTION arg of Some v \<Rightarrow> Some v | None \<Rightarrow> parser))"

definition selected_components :: "pystr list \<Rightarrow> pystr option \<times> pystr option" where
  "selected_components args = select_from args (None, None)"

section \<open>The built-in components\<close>

definition ENCODING_COMPLETIONS :: "pystr list" where
  "ENCODING_COMPLETIONS =
     map lit [''utf-8'', ''utf-16'', ''utf-16-le'', ''utf-16-be'', ''ascii'', ''latin-1''] @
     map (\<lambda>i. lit ''cp125'' @ nat_str i) [0..<9]"

definition complete_encoding :: "pystr \<Rightarrow> pystr list" where
  "complete_encoding incomplete = List.filter (\<lambda>e. take (length incomplete) e = incomplete) ENCODING_COMPLETIONS"

text \<open>The callback of \<open>--source-timezone\<close>: \<open>click.BadParameter\<close> with the text of the \<open>ValueError\<close>.\<close>

definition validate_timezone :: "tzdb \<Rightarrow> pystr \<Rightarrow> message + pystr" where
  "validate_timezone db value =
     (case source_zone db value of
        Inl (ValueError m) \<Rightarrow> Inl m
      | _ \<Rightarrow> Inr value)"

text \<open>\<open>DateFormat(text)\<close>.\<close>

definition date_format_of :: "pystr \<Rightarrow> py_exn + date_format" where
  "date_format_of s =
     (case List.find (\<lambda>f. lit (date_format_value f) = s) [MDY, DMY, YMD] of
        Some f \<Rightarrow> Inr f
      | None \<Rightarrow> Inl (ValueError [Repr s, Txt '' is not a valid DateFormat'']))"

definition argument :: "arguments \<Rightarrow> string \<Rightarrow> py_exn + pystr" where
  "argument args key = (case dict_get args (lit key) of Some v \<Rightarrow> Inr v | None \<Rightarrow> Inl (KeyErrorStr (lit key)))"

definition file_factory :: "'i file_system \<Rightarrow> arguments \<Rightarrow> py_exn + 'i source" where
  "file_factory fs args = (case argument args ''input'' of Inl x \<Rightarrow> Inl x | Inr path \<Rightarrow> file_source fs path)"

definition windows_dir_factory :: "tzdb \<Rightarrow> codecs \<Rightarrow> arguments \<Rightarrow> py_exn + stream parser" where
  "windows_dir_factory db cs args =
     (case map_result (argument args) [''encoding'', ''date_format'', ''source_timezone'', ''ambiguous_time''] of
        Inr [encoding, fmt, tz, ambiguous] \<Rightarrow>
          (case date_format_of fmt of
             Inl x \<Rightarrow> Inl x
           | Inr f \<Rightarrow> map_ok (windows_dir_parser db cs) (make_config db encoding f tz ambiguous))
      | Inr _ \<Rightarrow> Inl (ValueError [])
      | Inl x \<Rightarrow> Inl x)"

definition option_param :: "string \<Rightarrow> string \<Rightarrow> param" where
  "option_param name opt = \<lparr>param_name = Some (lit name), param_is_option = True, param_opts = [lit opt], param_secondary_opts = []\<rparr>"

definition argument_param :: "string \<Rightarrow> param" where
  "argument_param name = \<lparr>param_name = Some (lit name), param_is_option = False, param_opts = [lit name], param_secondary_opts = []\<rparr>"

definition default_sources :: "'i file_system \<Rightarrow> 'i source registration list" where
  "default_sources fs =
     [\<lparr>reg_name = lit ''file'', reg_factory = file_factory fs, reg_parameters = [argument_param ''input'']\<rparr>]"

definition default_parsers :: "tzdb \<Rightarrow> codecs \<Rightarrow> stream parser registration list" where
  "default_parsers db cs =
     [\<lparr>reg_name = lit ''windows-dir'', reg_factory = windows_dir_factory db cs, reg_parameters =
        [option_param ''encoding'' ''--encoding'', option_param ''source_timezone'' ''--source-timezone'',
         option_param ''ambiguous_time'' ''--ambiguous-time'', option_param ''date_format'' ''--date-format'']\<rparr>]"

definition default_registry :: "stream file_system \<Rightarrow> tzdb \<Rightarrow> codecs \<Rightarrow> py_exn + (stream, 'c) registry" where
  "default_registry fs db cs = make_registry (default_sources fs) (default_parsers db cs) []"

section \<open>The invariant of a registry\<close>

text \<open>Names are not empty, distinct, and those of the registrations they lead to.\<close>

definition names_ok :: "('r \<Rightarrow> pystr) \<Rightarrow> (pystr, 'r) dict \<Rightarrow> bool" where
  "names_ok name d \<longleftrightarrow> distinct (map fst d) \<and> (\<forall>(k, r) \<in> set d. k \<noteq> [] \<and> name r = k)"

definition registry_ok :: "('i, 'c) registry \<Rightarrow> bool" where
  "registry_ok R \<longleftrightarrow> names_ok reg_name (reg_sources R) \<and> names_ok reg_name (reg_parsers R) \<and>
     names_ok store_reg_name (reg_stores R)"

lemma register_ok: "register kind (name r) r d = Inr d' \<Longrightarrow> names_ok name d \<Longrightarrow> names_ok name d'"
  using set_dict_set_subset [of "name r" r d]
  by (auto simp: register_def names_ok_def split: if_splits)

lemma register_registry_ok:
  "register_source r R = Inr R' \<Longrightarrow> registry_ok R \<Longrightarrow> registry_ok R'"
  "register_parser p R = Inr R' \<Longrightarrow> registry_ok R \<Longrightarrow> registry_ok R'"
  "register_store s R = Inr R' \<Longrightarrow> registry_ok R \<Longrightarrow> registry_ok R'"
  by (auto simp: register_source_def register_parser_def register_store_def registry_ok_def dest: register_ok)

lemma register_each_invariant:
  assumes "\<And>r R R'. f r R = Inr R' \<Longrightarrow> I R \<Longrightarrow> I R'"
  shows "register_each f rs R = Inr R' \<Longrightarrow> I R \<Longrightarrow> I R'"
  by (induction rs arbitrary: R) (use assms in \<open>auto split: sum.splits\<close>)

lemma make_registry_ok: "make_registry sources parsers groups = Inr R \<Longrightarrow> registry_ok R"
proof -
  assume "make_registry sources parsers groups = Inr R"
  then obtain R1 R2 where steps:
    "register_each register_source sources \<lparr>reg_sources = [], reg_parsers = [], reg_stores = []\<rparr> = Inr R1"
    "register_each register_parser parsers R1 = Inr R2" "register_each register_store groups R2 = Inr R"
    by (auto simp: make_registry_def split: sum.splits)
  have "registry_ok \<lparr>reg_sources = [], reg_parsers = [], reg_stores = []\<rparr>"
    by (simp add: registry_ok_def names_ok_def)
  with register_each_invariant [where I = registry_ok, OF _ steps(1)] register_registry_ok(1) have "registry_ok R1" by blast
  with register_each_invariant [where I = registry_ok, OF _ steps(2)] register_registry_ok(2) have "registry_ok R2" by blast
  with register_each_invariant [where I = registry_ok, OF _ steps(3)] register_registry_ok(3) show ?thesis by blast
qed

section \<open>When a selection is accepted\<close>

text \<open>No parameter has a taken name or option, and no two share one.\<close>

definition compatible :: "pystr option set \<Rightarrow> pystr set \<Rightarrow> param list \<Rightarrow> bool" where
  "compatible names options ps \<longleftrightarrow>
     (\<forall>p \<in> set ps. param_name p \<notin> names \<and> set (parameter_options p) \<inter> options = {}) \<and>
     sorted_wrt (\<lambda>p q. param_name p \<noteq> param_name q \<and> set (parameter_options p) \<inter> set (parameter_options q) = {}) ps"

definition options_of :: "param list \<Rightarrow> pystr set" where
  "options_of ps = (\<Union>p \<in> set ps. set (parameter_options p))"

lemma compatible_Nil [simp]: "compatible names options []"
  by (simp add: compatible_def)

lemma compatible_Cons: "compatible names options (p # ps) \<longleftrightarrow>
    param_name p \<notin> names \<and> set (parameter_options p) \<inter> options = {} \<and>
    compatible (insert (param_name p) names) (options \<union> set (parameter_options p)) ps"
  by (auto simp: compatible_def)

lemma compatible_append: "compatible names options (ps @ qs) \<longleftrightarrow>
    compatible names options ps \<and> compatible (names \<union> param_name ` set ps) (options \<union> options_of ps) qs"
  by (induction ps arbitrary: names options) (simp_all add: compatible_Cons options_of_def Un_assoc)

lemma add_parameters_iff:
  "add_parameters kind name ps (names, options, result) = Inr st \<longleftrightarrow>
   compatible names options ps \<and> st = (names \<union> param_name ` set ps, options \<union> options_of ps, result @ ps)"
proof (induction ps arbitrary: names options result)
  case Nil
  then show ?case by (auto simp: options_of_def)
next
  case (Cons p ps)
  have "List.filter (\<lambda>x. x \<in> options) (remdups (parameter_options p)) = [] \<longleftrightarrow> set (parameter_options p) \<inter> options = {}"
    by (auto simp: filter_empty_conv)
  with Cons show ?case by (auto simp: Let_def compatible_Cons options_of_def)
qed

definition parameters_of :: "'a registration option \<Rightarrow> param list" where
  "parameters_of r = (case r of None \<Rightarrow> [] | Some r \<Rightarrow> reg_parameters r)"

lemma add_selected_iff:
  "add_selected kind r (names, options, result) = Inr st \<longleftrightarrow> compatible names options (parameters_of r) \<and>
   st = (names \<union> param_name ` set (parameters_of r), options \<union> options_of (parameters_of r), result @ parameters_of r)"
  by (cases r) (auto simp: add_selected_def parameters_of_def add_parameters_iff options_of_def)

lemma case_Inr_unique:
  assumes "\<And>st. x = Inr st \<longleftrightarrow> C \<and> st = st0"
  shows "(case x of Inl e \<Rightarrow> Inl e | Inr st \<Rightarrow> f st) = Inr y \<longleftrightarrow> C \<and> f st0 = Inr y"
proof (cases x)
  case (Inl e)
  with assms [of st0] show ?thesis by auto
next
  case (Inr st)
  with assms [of st] show ?thesis by auto
qed

theorem selected_parameters_iff:
  "selected_parameters R source parser names options = Inr ps \<longleftrightarrow>
   ps = parameters_of (selected_registration (reg_sources R) source) @ parameters_of (selected_registration (reg_parsers R) parser) \<and>
   compatible (set names) (set options) ps"
proof -
  let ?first = "parameters_of (selected_registration (reg_sources R) source)"
  let ?st = "(set names \<union> param_name ` set ?first, set options \<union> options_of ?first, ?first)"
  have "add_selected ''source'' (selected_registration (reg_sources R) source) (set names, set options, []) = Inr st \<longleftrightarrow>
      compatible (set names) (set options) ?first \<and> st = ?st" for st
    by (simp add: add_selected_iff)
  then have "selected_parameters R source parser names options = Inr ps \<longleftrightarrow> compatible (set names) (set options) ?first \<and>
      map_ok (\<lambda>(_, _, result). result) (add_selected ''parser'' (selected_registration (reg_parsers R) parser) ?st) = Inr ps"
    unfolding selected_parameters_def by (rule case_Inr_unique)
  then show ?thesis by (auto simp: add_selected_iff compatible_append)
qed

section \<open>The selection among the arguments\<close>

text \<open>The last of several occurrences counts, and an option that ends the arguments is ignored.\<close>

lemma select_from_joined:
  "select_from [SOURCE_OPTION @ lit ''='' @ v] (s, p) = (Some v, p)"
  "select_from [PARSER_OPTION @ lit ''='' @ v] (s, p) = (s, Some v)"
  by (simp_all add: joined_value_def SOURCE_OPTION_def PARSER_OPTION_def lit_def)

text \<open>The search goes on behind the separator \<open>--\<close>, after which every argument is a positional one.\<close>

lemma separator_is_ignored:
  "selected_components [SOURCE_OPTION, lit ''file'', lit ''--'', lit ''--source=listing''] = (Some (lit ''listing''), None)"
  by (simp add: selected_components_def joined_value_def SOURCE_OPTION_def PARSER_OPTION_def lit_def)

section \<open>The default registry\<close>

lemma default_registry_eq: "default_registry fs db cs = Inr
    \<lparr>reg_sources = [(lit ''file'', hd (default_sources fs))], reg_parsers = [(lit ''windows-dir'', hd (default_parsers db cs))],
     reg_stores = []\<rparr>"
  by (simp add: default_registry_def make_registry_def default_sources_def default_parsers_def register_source_def
      register_parser_def register_def lit_def)

end
