(* ===== verification/Cli_Output.thy ===== *)
theory Cli_Output
  imports Memory_Store Sqlite_Soundness
begin

text \<open>
  \<open>snapshotfs.cli_output\<close>: printing the tree of a store and turning a store into a JSON document.
  Printing returns the raised exception, if any, and the lines printed up to then. The functions
  \<open>print\<close> and \<open>click.echo\<close> are taken to accept every text.
\<close>

section \<open>Printing a tree\<close>

text \<open>\<open>node.mounted\_name.decode("utf-8")\<close>; a \<open>UnicodeDecodeError\<close> is a \<open>ValueError\<close>.\<close>

definition decode_name :: "bytes \<Rightarrow> py_exn + pystr" where
  "decode_name name =
     (case utf8_decode name of Inl _ \<Rightarrow> Inl (ValueError [Txt ''UnicodeDecodeError'']) | Inr s \<Rightarrow> Inr s)"

definition tree_line :: "nat \<Rightarrow> pystr \<Rightarrow> node_kind \<Rightarrow> message" where
  "tree_line depth name kind =
     [Str (concat (replicate depth (lit ''  '')) @ name @ (if kind = DIRECTORY then lit ''/'' else []))]"

text \<open>
  The loop of \<open>visit\<close> over the children of one directory; \<open>v\<close> is the recursive call. The first
  argument of \<open>visit\<close> is the number of nested calls that the interpreter's recursion limit
  leaves room for.
\<close>

fun visit_children ::
  "(int \<Rightarrow> nat \<Rightarrow> message list \<Rightarrow> py_exn option \<times> message list) \<Rightarrow> nat \<Rightarrow> node list \<Rightarrow> message list \<Rightarrow>
    py_exn option \<times> message list" where
  "visit_children v depth [] out = (None, out)"
| "visit_children v depth (n # ns) out =
     (case decode_name (node_mounted_name n) of
        Inl x \<Rightarrow> (Some x, out)
      | Inr name \<Rightarrow>
          (let out = out @ [tree_line depth name (node_kind n)]
           in if node_kind n = DIRECTORY
              then (case v (node_id n) (depth + 1) out of
                      (Some x, out) \<Rightarrow> (Some x, out)
                    | (None, out) \<Rightarrow> visit_children v depth ns out)
              else visit_children v depth ns out))"

fun visit :: "nat \<Rightarrow> store \<Rightarrow> int \<Rightarrow> nat \<Rightarrow> message list \<Rightarrow> py_exn option \<times> message list" where
  "visit 0 st parent depth out = (Some RecursionError, out)"
| "visit (Suc room) st parent depth out =
     (case iter_children st parent 0 of
        Inl x \<Rightarrow> (Some x, out)
      | Inr cs \<Rightarrow> visit_children (visit room st) depth cs out)"

definition format_diagnostic :: "diagnostic \<Rightarrow> message" where
  "format_diagnostic d =
     [Str (severity_value (diag_severity d)), Txt '': ''] @
     (case diag_line_number d of
        Some l \<Rightarrow> if l \<noteq> 0 then [Txt ''line '', Num l, Txt '': ''] else []
      | None \<Rightarrow> []) @
     [Str (diag_code d), Txt '': ''] @ diag_message d"

text \<open>The part of \<open>print\_tree\<close> after the tree.\<close>

definition print_report :: "store \<Rightarrow> py_exn option \<times> message list" where
  "print_report st =
     (case diagnostics st of
        Inl x \<Rightarrow> (Some x, [])
      | Inr ds \<Rightarrow>
          (let out = map format_diagnostic ds
           in case diagnostic_count st of
                Inl x \<Rightarrow> (Some x, out)
              | Inr n \<Rightarrow>
                  (None, if n > int (length ds)
                    then out @ [[Num n, Txt '' diagnostics observed; showing first '', Num (int (length ds))]]
                    else out)))"

definition print_tree :: "nat \<Rightarrow> store \<Rightarrow> py_exn option \<times> message list" where
  "print_tree room st =
     (case iter_nodes st of
        Inl x \<Rightarrow> (Some x, [])
      | Inr [] \<Rightarrow> (Some (StoreError ''StopIteration'' []), [])
      | Inr (n # _) \<Rightarrow>
          (let out = [[Txt ''/'']]
           in case get_root st (node_snapshot_id n) of
                Inl x \<Rightarrow> (Some x, out)
              | Inr root \<Rightarrow>
                  (case visit room st (node_id root) 1 out of
                     (Some x, out) \<Rightarrow> (Some x, out)
                   | (None, out) \<Rightarrow> (case print_report st of (err, lines) \<Rightarrow> (err, out @ lines)))))"

section \<open>What a tree prints as\<close>

text \<open>The line of a path in a view of a store.\<close>

definition path_line :: "(bytes list \<Rightarrow> node option) \<Rightarrow> bytes list \<Rightarrow> message" where
  "path_line shown path =
     (case (shown path, utf8_decode (last path)) of
        (Some n, Inr name) \<Rightarrow> tree_line (length path) name (node_kind n)
      | _ \<Rightarrow> [])"

text \<open>
  The nodes below a directory in the order in which they are printed, with their paths, and whether
  the nesting of the directories leaves room for the calls.
\<close>

fun outline :: "nat \<Rightarrow> store \<Rightarrow> int \<Rightarrow> bytes list \<Rightarrow> (bytes list \<times> node) list" where
  "outline 0 st p q = []"
| "outline (Suc room) st p q =
     (case iter_children st p 0 of
        Inl _ \<Rightarrow> []
      | Inr cs \<Rightarrow> concat (map (\<lambda>c. let q' = q @ [node_mounted_name c]
          in (q', c) # (if node_kind c = DIRECTORY then outline room st (node_id c) q' else [])) cs))"

fun fits :: "nat \<Rightarrow> store \<Rightarrow> int \<Rightarrow> bool" where
  "fits 0 st p \<longleftrightarrow> False"
| "fits (Suc room) st p \<longleftrightarrow>
     (case iter_children st p 0 of
        Inl _ \<Rightarrow> False
      | Inr cs \<Rightarrow> \<forall>c \<in> set cs. node_kind c = DIRECTORY \<longrightarrow> fits room st (node_id c))"

definition outline_line :: "bytes list \<times> node \<Rightarrow> message" where
  "outline_line e = (case utf8_decode (last (fst e)) of
     Inr name \<Rightarrow> tree_line (length (fst e)) name (node_kind (snd e)) | Inl _ \<Rightarrow> [])"

lemma decode_mounted_name: "mounted_name_ok name \<Longrightarrow> \<exists>s. utf8_decode name = Inr s"
  by (auto simp: mounted_name_ok_def mounts_as_def dest: utf8_decode_encode)

text \<open>Paths are ordered as lists of names.\<close>

lemma append_less_append [simp]: "(q @ xs :: 'a :: linorder list) < q @ ys \<longleftrightarrow> xs < ys"
  by (induction q) simp_all

lemma Nil_less_iff [simp]: "([] :: 'a :: linorder list) < xs \<longleftrightarrow> xs \<noteq> []"
  by (cases xs) simp_all

lemma sorted_wrt_concat:
  assumes "\<forall>xs \<in> set xss. sorted_wrt P xs"
    and "sorted_wrt (\<lambda>xs ys. \<forall>x \<in> set xs. \<forall>y \<in> set ys. P x y) xss"
  shows "sorted_wrt P (concat xss)"
  using assms by (induction xss) (auto simp: sorted_wrt_append)


text \<open>Printing succeeds with the lines, or hits the recursion limit.\<close>

definition prints :: "bool \<Rightarrow> message list \<Rightarrow> py_exn option \<times> message list \<Rightarrow> bool" where
  "prints fit lines r \<longleftrightarrow> (if fit then r = (None, lines) else fst r = Some RecursionError)"

definition child_outline :: "nat \<Rightarrow> store \<Rightarrow> bytes list \<Rightarrow> node \<Rightarrow> (bytes list \<times> node) list" where
  "child_outline room st q c =
     (q @ [node_mounted_name c], c) #
       (if node_kind c = DIRECTORY then outline room st (node_id c) (q @ [node_mounted_name c]) else [])"

lemma child_outline_dir: "node_kind c = DIRECTORY \<Longrightarrow> child_outline room st q c =
    (q @ [node_mounted_name c], c) # outline room st (node_id c) (q @ [node_mounted_name c])"
  by (simp add: child_outline_def)

lemma child_outline_file: "node_kind c \<noteq> DIRECTORY \<Longrightarrow> child_outline room st q c = [(q @ [node_mounted_name c], c)]"
  by (simp add: child_outline_def)

lemma blank_node_kind [simp]: "node_kind (blank_node n) = node_kind n"
  by (simp add: blank_node_def)

lemma in_prefixed: "(path, d) \<in> (\<lambda>(p, d). (x # p, d)) ` S \<longleftrightarrow> (\<exists>p. path = x # p \<and> (p, d) \<in> S)"
  by force

text \<open>The paths below a node.\<close>

definition below :: "store \<Rightarrow> node \<Rightarrow> (bytes list \<times> node) set" where
  "below st n = {(path, c). path \<noteq> [] \<and> resolve st n path = Some c}"

text \<open>The contract of a store that is inspected: its root can be found by the snapshot of any node.\<close>

locale inspected_store = snapshot_store +
  assumes get_root_law: "invar s \<Longrightarrow> nodes_of s 1 = Some r \<Longrightarrow> get_root (obj s) (node_snapshot_id r) = Inr r"
begin

lemma listed_children:
  assumes "invar s" "nodes_of s p \<noteq> None"
  obtains cs where "children_of (nodes_of s) p cs" "iter_children (obj s) p 0 = Inr cs"
  using iter_children_law [OF assms] by force

lemma child_decodes:
  assumes s: "invar s" and n: "nodes_of s i = Some n" "node_parent_id n = Some p"
  shows "\<exists>name. utf8_decode (node_mounted_name n) = Inr name"
proof -
  from tree_ok_parent_Some [OF tree [OF s] n] have "i \<noteq> 1" by blast
  with tree [OF s] n(1) have "mounted_name_ok (node_mounted_name n)" unfolding tree_ok_def by blast
  then show ?thesis by (rule decode_mounted_name)
qed

lemma name_decodes:
  assumes s: "invar s" and n: "nodes_of s i = Some n"
  shows "\<exists>name. decode_name (node_mounted_name n) = Inr name"
proof (cases "i = 1")
  case True
  with tree [OF s] n have "node_mounted_name n = []" by (auto simp: tree_ok_def)
  then show ?thesis by (simp add: decode_name_def utf8_decode_def)
next
  case False
  with tree [OF s] n have "mounted_name_ok (node_mounted_name n)" unfolding tree_ok_def by blast
  then show ?thesis by (auto simp: decode_name_def dest: decode_mounted_name)
qed

lemma visit_children_outline:
  assumes "\<And>n out. n \<in> set cs \<Longrightarrow> node_kind n = DIRECTORY \<Longrightarrow>
      prints (fits room st (node_id n))
        (out @ map outline_line (outline room st (node_id n) (q @ [node_mounted_name n])))
        (v (node_id n) (length q + 2) out)"
    and "\<forall>n \<in> set cs. \<exists>name. utf8_decode (node_mounted_name n) = Inr name"
  shows "prints (\<forall>c \<in> set cs. node_kind c = DIRECTORY \<longrightarrow> fits room st (node_id c))
    (out @ map outline_line (concat (map (child_outline room st q) cs)))
    (visit_children v (length q + 1) cs out)"
  using assms
proof (induction cs arbitrary: out)
  case Nil
  then show ?case by (simp add: prints_def)
next
  case (Cons n cs)
  from Cons.prems(2) obtain name where name: "utf8_decode (node_mounted_name n) = Inr name" by auto
  let ?out = "out @ [tree_line (length q + 1) name (node_kind n)]"
  have line: "outline_line (q @ [node_mounted_name n], n) = tree_line (length q + 1) name (node_kind n)"
    by (simp add: outline_line_def name)
  have IH: "prints (\<forall>c \<in> set cs. node_kind c = DIRECTORY \<longrightarrow> fits room st (node_id c))
    (out @ map outline_line (concat (map (child_outline room st q) cs)))
    (visit_children v (length q + 1) cs out)" for out
    using Cons by (meson list.set_intros(2))
  show ?case
  proof (cases "node_kind n = DIRECTORY")
    case True
    have "prints (fits room st (node_id n))
        (?out @ map outline_line (outline room st (node_id n) (q @ [node_mounted_name n])))
        (v (node_id n) (length q + 2) ?out)"
      using True by (intro Cons.prems(1)) simp_all
    with IH [of "?out @ map outline_line (outline room st (node_id n) (q @ [node_mounted_name n]))"]
    show ?thesis
      by (cases "v (node_id n) (length q + 2) ?out")
        (auto simp: prints_def decode_name_def name line Let_def True child_outline_dir split: if_splits option.splits)
  next
    case False
    with IH [of ?out] show ?thesis
      by (simp add: prints_def decode_name_def name line Let_def False child_outline_file)
  qed
qed

lemma outline_Suc: "iter_children st p 0 = Inr cs \<Longrightarrow>
    outline (Suc room) st p q = concat (map (child_outline room st q) cs)"
  by (simp add: child_outline_def [abs_def] Let_def)

lemma visit_outline:
  assumes s: "invar s"
  shows "nodes_of s p \<noteq> None \<Longrightarrow> prints (fits room (obj s) p)
    (out @ map outline_line (outline room (obj s) p q)) (visit room (obj s) p (length q + 1) out)"
proof (induction room arbitrary: p q out)
  case 0
  then show ?case by (simp add: prints_def)
next
  case (Suc room)
  obtain cs where cs: "children_of (nodes_of s) p cs" "iter_children (obj s) p 0 = Inr cs"
    by (rule listed_children [OF s Suc.prems])
  have child: "nodes_of s (node_id n) = Some n" "node_parent_id n = Some p" if "n \<in> set cs" for n
    using that cs by (auto simp: children_of_def)
  have "prints (fits room (obj s) (node_id n))
        (out @ map outline_line (outline room (obj s) (node_id n) (q @ [node_mounted_name n])))
        (visit room (obj s) (node_id n) (length q + 2) out)" if "n \<in> set cs" for n out
    using Suc.IH [of "node_id n" out "q @ [node_mounted_name n]"] child [OF that] by simp
  moreover have "\<forall>n \<in> set cs. \<exists>name. utf8_decode (node_mounted_name n) = Inr name"
    using child_decodes [OF s] child by blast
  ultimately show ?case
    using visit_children_outline [of cs room "obj s" q "visit room (obj s)" out] cs(2)
    by (simp add: outline_Suc del: outline.simps)
qed

text \<open>Room is needed for the deepest directory.\<close>

lemma resolve_child:
  assumes s: "invar s" and cs: "children_of (nodes_of s) p cs" "nodes_of s p = Some n"
  shows "resolve (obj s) n (name # names) =
    (case List.find (\<lambda>c. node_mounted_name c = name) cs of None \<Rightarrow> None | Some c \<Rightarrow> resolve (obj s) c names)"
proof -
  have id: "node_id n = p" using tree_ok_id [OF tree [OF s] cs(2)] .
  obtain r where r: "lookup (obj s) p name = Inr r" "\<And>n. r = Some n \<longleftrightarrow>
      nodes_of s (node_id n) = Some n \<and> node_parent_id n = Some p \<and> node_mounted_name n = name"
    using lookup_law [OF s, of p name] cs(2) by auto
  have "r = List.find (\<lambda>c. node_mounted_name c = name) cs"
  proof (cases "List.find (\<lambda>c. node_mounted_name c = name) cs")
    case None
    then have "\<forall>c \<in> set cs. node_mounted_name c \<noteq> name" by (simp add: find_None_iff)
    then show ?thesis unfolding None using r(2) cs(1) by (cases r) (auto simp: children_of_def)
  next
    case (Some c)
    then have "c \<in> set cs" "node_mounted_name c = name" by (auto simp: find_Some_iff)
    with r(2) [of c] cs(1) Some show ?thesis by (simp add: children_of_def)
  qed
  with r(1) id show ?thesis by (simp split: option.split)
qed

lemma find_child:
  assumes "sorted_wrt (\<lambda>a b. node_mounted_name a < node_mounted_name b) cs"
  shows "List.find (\<lambda>c. node_mounted_name c = name) cs = Some c \<longleftrightarrow> c \<in> set cs \<and> node_mounted_name c = name"
  using assms by (induction cs) (auto simp: find_None_iff)

lemma below_step:
  assumes s: "invar s" and cs: "children_of (nodes_of s) p cs" "nodes_of s p = Some n"
  shows "below (obj s) n = (\<Union>c \<in> set cs. insert ([node_mounted_name c], c)
    ((\<lambda>(path, d). (node_mounted_name c # path, d)) ` below (obj s) c))"
proof -
  have sorted: "sorted_wrt (\<lambda>a b. node_mounted_name a < node_mounted_name b) cs"
    using cs(1) by (simp add: children_of_def)
  have step: "resolve (obj s) n (name # names) = Some d \<longleftrightarrow>
      (\<exists>c \<in> set cs. node_mounted_name c = name \<and> resolve (obj s) c names = Some d)" for name names d
  proof (cases "List.find (\<lambda>c. node_mounted_name c = name) cs")
    case None
    then have "\<forall>c \<in> set cs. node_mounted_name c \<noteq> name" by (simp add: find_None_iff)
    then show ?thesis using None by (auto simp: resolve_child [OF s cs] simp del: resolve.simps)
  next
    case (Some c)
    then have "c' \<in> set cs \<and> node_mounted_name c' = name \<longleftrightarrow> c' = c" for c'
      using find_child [OF sorted, of name c'] by auto
    moreover have "resolve (obj s) n (name # names) = resolve (obj s) c names"
      using Some by (simp add: resolve_child [OF s cs] del: resolve.simps)
    ultimately show ?thesis by (metis (no_types, lifting))
  qed
  have names: "(names = [] \<and> c = d) \<or> (names, d) \<in> below (obj s) c \<longleftrightarrow> resolve (obj s) c names = Some d" for c names d
    by (auto simp: below_def)
  show ?thesis
  proof (rule set_eqI, clarify)
    fix path d
    show "(path, d) \<in> below (obj s) n \<longleftrightarrow> (path, d) \<in> (\<Union>c \<in> set cs. insert ([node_mounted_name c], c)
      ((\<lambda>(path, d). (node_mounted_name c # path, d)) ` below (obj s) c))"
    proof (cases path)
      case Nil
      then show ?thesis by (auto simp: below_def)
    next
      case (Cons name rest)
      then have "(path, d) \<in> below (obj s) n \<longleftrightarrow>
          (\<exists>c \<in> set cs. node_mounted_name c = name \<and> ((rest = [] \<and> c = d) \<or> (rest, d) \<in> below (obj s) c))"
        by (simp only: names) (simp add: below_def step del: resolve.simps)
      with Cons show ?thesis by (auto simp: in_prefixed)
    qed
  qed
qed

text \<open>A node that is not a directory has nothing below it.\<close>

lemma below_file:
  assumes s: "invar s" and n: "nodes_of s p = Some n" "node_kind n \<noteq> DIRECTORY"
  shows "below (obj s) n = {}"
proof -
  obtain cs where cs: "children_of (nodes_of s) p cs" using listed_children [OF s] n(1) by blast
  have "cs = []"
  proof (rule ccontr)
    assume "cs \<noteq> []"
    then have "hd cs \<in> set cs" by simp
    then have "nodes_of s (node_id (hd cs)) = Some (hd cs)" "node_parent_id (hd cs) = Some p"
      using cs unfolding children_of_def by blast+
    from tree_ok_parent_Some [OF tree [OF s] this] n show False by simp
  qed
  with below_step [OF s cs n(1)] show ?thesis by simp
qed

lemma fits_iff:
  assumes s: "invar s"
  shows "nodes_of s p = Some n \<Longrightarrow> node_kind n = DIRECTORY \<Longrightarrow> fits room (obj s) p \<longleftrightarrow>
    0 < room \<and> (\<forall>e \<in> below (obj s) n. node_kind (snd e) = DIRECTORY \<longrightarrow> length (fst e) < room)"
proof (induction room arbitrary: p n)
  case 0
  then show ?case by simp
next
  case (Suc room)
  obtain cs where cs: "children_of (nodes_of s) p cs" "iter_children (obj s) p 0 = Inr cs"
    using listed_children [OF s] Suc.prems(1) by blast
  have "fits (Suc room) (obj s) p \<longleftrightarrow> (\<forall>c \<in> set cs. node_kind c = DIRECTORY \<longrightarrow> fits room (obj s) (node_id c))"
    by (simp add: cs(2))
  also have "\<dots> \<longleftrightarrow> (\<forall>c \<in> set cs. node_kind c = DIRECTORY \<longrightarrow> 0 < room \<and>
      (\<forall>e \<in> below (obj s) c. node_kind (snd e) = DIRECTORY \<longrightarrow> length (fst e) < room))"
    using Suc.IH cs(1) by (auto simp: children_of_def)
  also have "\<dots> \<longleftrightarrow> (\<forall>c \<in> set cs. (node_kind c = DIRECTORY \<longrightarrow> 0 < room) \<and>
      (\<forall>e \<in> below (obj s) c. node_kind (snd e) = DIRECTORY \<longrightarrow> length (fst e) < room))"
    using below_file [OF s] cs(1) by (fastforce simp: children_of_def)
  also have "\<dots> \<longleftrightarrow> (\<forall>e \<in> below (obj s) n. node_kind (snd e) = DIRECTORY \<longrightarrow> length (fst e) < Suc room)"
    unfolding below_step [OF s cs(1) Suc.prems(1)] by (simp add: ball_Un split_beta)
  finally show ?case by simp
qed

text \<open>The outline lists exactly the paths below, in their order.\<close>

lemma outline_below:
  assumes s: "invar s"
  shows "nodes_of s p = Some n \<Longrightarrow> fits room (obj s) p \<Longrightarrow>
    set (outline room (obj s) p q) = (\<lambda>(path, c). (q @ path, c)) ` below (obj s) n \<and>
    sorted_wrt (\<lambda>a b. fst a < fst b) (outline room (obj s) p q)"
proof (induction room arbitrary: p n q)
  case 0
  then show ?case by simp
next
  case (Suc room)
  obtain cs where cs: "children_of (nodes_of s) p cs" "iter_children (obj s) p 0 = Inr cs"
    using listed_children [OF s] Suc.prems(1) by blast
  let ?sub = "child_outline room (obj s) q"
  have sub: "set (?sub c) = insert (q @ [node_mounted_name c], c)
        ((\<lambda>(path, d). (q @ node_mounted_name c # path, d)) ` below (obj s) c) \<and>
      sorted_wrt (\<lambda>a b. fst a < fst b) (?sub c)" if c: "c \<in> set cs" for c
  proof (cases "node_kind c = DIRECTORY")
    case True
    have "nodes_of s (node_id c) = Some c" using c cs(1) by (simp add: children_of_def)
    moreover have "fits room (obj s) (node_id c)" using Suc.prems(2) c True by (simp add: cs(2))
    ultimately show ?thesis
      using Suc.IH [of "node_id c" c "q @ [node_mounted_name c]"]
      by (auto simp: child_outline_dir True below_def)
  next
    case False
    then show ?thesis using below_file [OF s _ False, of "node_id c"] c cs(1)
      by (simp add: child_outline_file children_of_def)
  qed
  have outline: "outline (Suc room) (obj s) p q = concat (map ?sub cs)" by (rule outline_Suc [OF cs(2)])
  have "set (concat (map ?sub cs)) = (\<lambda>(path, c). (q @ path, c)) ` below (obj s) n"
    unfolding below_step [OF s cs(1) Suc.prems(1)] using sub by (simp add: image_UN image_image split_beta)
  moreover have "sorted_wrt (\<lambda>a b. fst a < fst b) (concat (map ?sub cs))"
  proof (rule sorted_wrt_concat)
    show "\<forall>xs \<in> set (map ?sub cs). sorted_wrt (\<lambda>a b. fst a < fst b) xs" using sub by simp
    have "sorted_wrt (\<lambda>c d. \<forall>a \<in> set (?sub c). \<forall>b \<in> set (?sub d). fst a < fst b) cs"
    proof (rule sorted_wrt_mono_rel [where P = "\<lambda>a b. node_mounted_name a < node_mounted_name b"])
      show "\<forall>a \<in> set (?sub c). \<forall>b \<in> set (?sub d). fst a < fst b"
        if "c \<in> set cs" "d \<in> set cs" "node_mounted_name c < node_mounted_name d" for c d
        using that(3) by (simp add: sub [OF that(1)] sub [OF that(2)] ball_Un split_beta)
    qed (use cs(1) in \<open>simp add: children_of_def\<close>)
    then show "sorted_wrt (\<lambda>xs ys. \<forall>a \<in> set xs. \<forall>b \<in> set ys. fst a < fst b) (map ?sub cs)"
      by (simp add: sorted_wrt_map)
  qed
  ultimately show ?case unfolding outline by blast
qed

text \<open>
  The whole printout. With room for every directory the tree part has one line per path below the
  root, in the order of the paths; otherwise the recursion limit ends the printing.
\<close>

theorem print_tree_spec:
  assumes s: "invar s" and r: "nodes_of s 1 = Some r"
  defines "shown \<equiv> store_view (obj s) (node_snapshot_id r)"
  shows "if \<forall>path n. shown path = Some n \<longrightarrow> node_kind n = DIRECTORY \<longrightarrow> length path < room
    then \<exists>paths. sorted_wrt (<) paths \<and> set paths = {path. path \<noteq> [] \<and> shown path \<noteq> None} \<and>
      print_tree room (obj s) = (fst (print_report (obj s)),
        [Txt ''/''] # map (path_line shown) paths @ snd (print_report (obj s)))
    else fst (print_tree room (obj s)) = Some RecursionError"
proof -
  have dir: "node_kind r = DIRECTORY" using tree_ok_root [OF tree [OF s]] r by simp
  have id: "node_id r = 1" using tree_ok_id [OF tree [OF s] r] .
  note root = get_root_law [OF s r]
  obtain ns where ns: "iter_nodes (obj s) = Inr ns" "ns \<noteq> []" "hd ns = r"
    using iter_nodes_law [OF s] r by auto
  then obtain rest where nodes: "iter_nodes (obj s) = Inr (r # rest)" by (cases ns) auto
  have shown: "shown path = map_option blank_node (resolve (obj s) r path)" for path
    by (simp add: shown_def store_view_def root)
  then have below: "(path, n) \<in> below (obj s) r \<longleftrightarrow> path \<noteq> [] \<and> resolve (obj s) r path = Some n" for path n
    by (simp add: below_def)
  have fit: "fits room (obj s) 1 \<longleftrightarrow> (\<forall>path n. shown path = Some n \<longrightarrow> node_kind n = DIRECTORY \<longrightarrow> length path < room)"
    (is "_ \<longleftrightarrow> ?fit")
  proof -
    have "?fit \<longleftrightarrow> (\<forall>path n. resolve (obj s) r path = Some n \<longrightarrow> node_kind n = DIRECTORY \<longrightarrow> length path < room)"
      by (auto simp: shown)
    also have "\<dots> \<longleftrightarrow> 0 < room \<and>
        (\<forall>path n. path \<noteq> [] \<longrightarrow> resolve (obj s) r path = Some n \<longrightarrow> node_kind n = DIRECTORY \<longrightarrow> length path < room)"
      using dir by (metis list.size(3) resolve.simps(1))
    also have "\<dots> \<longleftrightarrow> fits room (obj s) 1"
      by (auto simp: fits_iff [OF s r dir] below_def)
    finally show ?thesis by simp
  qed
  have printed: "prints (fits room (obj s) 1) ([Txt ''/''] # map outline_line (outline room (obj s) 1 []))
      (visit room (obj s) 1 1 [[Txt ''/'']])"
    using visit_outline [OF s, of 1 room "[[Txt ''/'']]" "[]"] r by simp
  show ?thesis
  proof (cases "fits room (obj s) 1")
    case True
    note o = outline_below [OF s r True, of "[]"]
    have line: "outline_line e = path_line shown (fst e)" if "e \<in> below (obj s) r" for e
      using that by (cases e) (auto simp: outline_line_def path_line_def shown below blank_node_def split: sum.splits)
    have "set (outline room (obj s) 1 []) = below (obj s) r" using o by simp
    then have paths: "set (map fst (outline room (obj s) 1 [])) = {path. path \<noteq> [] \<and> shown path \<noteq> None}"
      by (force simp: below_def shown)
    have sorted: "sorted_wrt (<) (map fst (outline room (obj s) 1 []))" using o by (simp add: sorted_wrt_map)
    have "map outline_line (outline room (obj s) 1 []) = map (path_line shown) (map fst (outline room (obj s) 1 []))"
      using o line by simp
    moreover from printed True have "visit room (obj s) 1 1 [[Txt ''/'']] =
        (None, [Txt ''/''] # map outline_line (outline room (obj s) 1 []))" by (simp add: prints_def)
    ultimately have "print_tree room (obj s) = (fst (print_report (obj s)), [Txt ''/''] #
        map (path_line shown) (map fst (outline room (obj s) 1 [])) @ snd (print_report (obj s)))"
      by (simp add: print_tree_def nodes root id Let_def split: prod.split)
    with paths sorted show ?thesis unfolding fit [symmetric] if_P [OF True] by blast
  next
    case False
    with printed show ?thesis using fit
      by (auto simp: prints_def print_tree_def nodes root id Let_def split: option.split prod.split)
  qed
qed

end

interpretation shown_memory: inspected_store mem_object mem_store_nodes mem_store_ok
proof
  show "get_root (mem_object s) (node_snapshot_id r) = Inr r" if "mem_store_ok s" "mem_store_nodes s 1 = Some r" for s r
    using that mem.get_node_Some [OF that]
    by (auto simp: mem_object_def mem_get_root_def mem_get_snapshot_def mem_store_ok_def)
qed

interpretation shown_sqlite: inspected_store sqlite_object sqlite_nodes sqlite_store_ok
proof
  show "get_root (sqlite_object s) (node_snapshot_id r) = Inr r" if "sqlite_store_ok s" "sqlite_nodes s 1 = Some r" for s r
    using that sqlite.get_node_Some [OF that] sqlite.get_snapshot_law [OF that]
    by (auto simp: sqlite_object_def sqlite_get_root_def)
qed

section \<open>The JSON document\<close>

text \<open>\<open>base64.b64encode\<close>, with the bytes as numbers, and the decoding of a reader.\<close>

definition base64_char :: "nat \<Rightarrow> nat" where
  "base64_char v =
     (if v < 26 then 65 + v else if v < 52 then 71 + v else if v < 62 then v - 4 else if v = 62 then 43 else 47)"

fun base64_encode :: "nat list \<Rightarrow> pystr" where
  "base64_encode [] = []"
| "base64_encode [a] = [base64_char (a div 4), base64_char (a mod 4 * 16), 61, 61]"
| "base64_encode [a, b] =
     [base64_char (a div 4), base64_char (a mod 4 * 16 + b div 16), base64_char (b mod 16 * 4), 61]"
| "base64_encode (a # b # c # rest) =
     [base64_char (a div 4), base64_char (a mod 4 * 16 + b div 16), base64_char (b mod 16 * 4 + c div 64),
      base64_char (c mod 64)] @ base64_encode rest"

definition b64encode :: "bytes \<Rightarrow> pystr" where
  "b64encode b = base64_encode (map unat b)"

datatype json = Value pyval | Object "(string \<times> json) list" | Array "json list" | Message message

definition json_optional :: "('a \<Rightarrow> pyval) \<Rightarrow> 'a option \<Rightarrow> json" where
  "json_optional f v = Value (case v of None \<Rightarrow> PyNone | Some x \<Rightarrow> f x)"

definition json_node :: "tzdb \<Rightarrow> node \<Rightarrow> py_exn + json" where
  "json_node db n =
     map_ok (\<lambda>name. Object
       [(''id'', Value (PyInt (node_id n))),
        (''parent_id'', json_optional PyInt (node_parent_id n)),
        (''mounted_name'', Value (PyStr name)),
        (''original_path'', json_optional PyStr (node_original_path n)),
        (''kind'', Value (PyStr (node_kind_value (node_kind n)))),
        (''size'', json_optional PyInt (node_size n)),
        (''modified_at'', json_optional (PyStr \<circ> isoformat db) (node_modified_at n)),
        (''content'', json_optional (PyStr \<circ> b64encode) (node_content n)),
        (''content_encoding'', json_optional (\<lambda>_. PyStr (lit ''base64'')) (node_content n)),
        (''content_status'', Value (PyStr (content_status_value (node_content_status n)))),
        (''content_ref'', json_optional PyStr (node_content_ref n)),
        (''source_line'', json_optional PyInt (node_source_line n)),
        (''source_metadata'', Value (PyMap (thaw_metadata (node_source_metadata n))))])
       (decode_name (node_mounted_name n))"

definition json_snapshot :: "tzdb \<Rightarrow> snapshot \<Rightarrow> json" where
  "json_snapshot db sn = Object
     [(''id'', Value (PyStr (snapshot_id sn))),
      (''source_uri'', Value (PyStr (snapshot_source_uri sn))),
      (''source_format'', Value (PyStr (snapshot_source_format sn))),
      (''imported_at'', Value (PyStr (isoformat db (snapshot_imported_at sn)))),
      (''source_metadata'', Value (PyMap (thaw_metadata (snapshot_source_metadata sn))))]"

definition json_diagnostic :: "diagnostic \<Rightarrow> json" where
  "json_diagnostic d = Object
     [(''severity'', Value (PyStr (severity_value (diag_severity d)))),
      (''line_number'', json_optional PyInt (diag_line_number d)),
      (''code'', Value (PyStr (diag_code d))),
      (''message'', Message (diag_message d))]"

definition json_document :: "tzdb \<Rightarrow> store \<Rightarrow> py_exn + json" where
  "json_document db st =
     (case iter_nodes st of
        Inl x \<Rightarrow> Inl x
      | Inr [] \<Rightarrow> Inl (StoreError ''IndexError'' [])
      | Inr (n # ns) \<Rightarrow>
          (case get_snapshot st (node_snapshot_id n) of
             Inl x \<Rightarrow> Inl x
           | Inr sn \<Rightarrow>
               (case map_result (json_node db) (n # ns) of
                  Inl x \<Rightarrow> Inl x
                | Inr nodes \<Rightarrow>
                    (case diagnostics st of
                       Inl x \<Rightarrow> Inl x
                     | Inr ds \<Rightarrow>
                         map_ok (\<lambda>count. Object
                           [(''snapshot'', json_snapshot db sn), (''nodes'', Array nodes),
                            (''diagnostics'', Array (map json_diagnostic ds)),
                            (''diagnostic_count'', Value (PyInt count))])
                           (diagnostic_count st)))))"

subsection \<open>Reading the document\<close>

definition base64_value :: "nat \<Rightarrow> nat option" where
  "base64_value c =
     (if 65 \<le> c \<and> c < 91 then Some (c - 65) else if 97 \<le> c \<and> c < 123 then Some (c - 71)
      else if 48 \<le> c \<and> c < 58 then Some (c + 4) else if c = 43 then Some 62 else if c = 47 then Some 63 else None)"

fun base64_decode :: "pystr \<Rightarrow> nat list option" where
  "base64_decode [] = Some []"
| "base64_decode (p # q # r # t # rest) =
     (case (base64_value p, base64_value q, base64_value r, base64_value t) of
        (Some p, Some q, Some r, Some t) \<Rightarrow>
          map_option (\<lambda>ns. [p * 4 + q div 16, q mod 16 * 16 + r div 4, r mod 4 * 64 + t] @ ns) (base64_decode rest)
      | (Some p, Some q, Some r, None) \<Rightarrow> Some [p * 4 + q div 16, q mod 16 * 16 + r div 4]
      | (Some p, Some q, None, None) \<Rightarrow> Some [p * 4 + q div 16]
      | _ \<Rightarrow> None)"
| "base64_decode _ = None"

definition b64decode :: "pystr \<Rightarrow> bytes option" where
  "b64decode s = map_option (map word_of_nat) (base64_decode s)"

lemma base64_value_char [simp]: "v < 64 \<Longrightarrow> base64_value (base64_char v) = Some v"
  by (auto simp: base64_value_def base64_char_def)

lemma base64_value_pad [simp]: "base64_value 61 = None"
  by (simp add: base64_value_def)

lemma digit_div_mod: "r < k \<Longrightarrow> (q * k + r) div k = (q :: nat)" "r < k \<Longrightarrow> (q * k + r) mod k = (r :: nat)"
  by simp_all

lemma base64_parts:
  assumes "a < 256" "b < 256" "c < (256 :: nat)"
  shows "a div 4 < 64" "a mod 4 * 16 + b div 16 < 64" "b mod 16 * 4 + c div 64 < 64" "c mod 64 < 64"
    "a div 4 * 4 + (a mod 4 * 16 + b div 16) div 16 = a"
    "(a mod 4 * 16 + b div 16) mod 16 * 16 + (b mod 16 * 4 + c div 64) div 4 = b"
    "(b mod 16 * 4 + c div 64) mod 4 * 64 + c mod 64 = c"
proof -
  have small: "b div 16 < 16" "c div 64 < 4" "a mod 4 < 4" "b mod 16 < 16"
    using assms by (simp_all add: less_mult_imp_div_less)
  then show "a mod 4 * 16 + b div 16 < 64" "b mod 16 * 4 + c div 64 < 64" by linarith+
  show "a div 4 < 64" "c mod 64 < 64" using assms by (simp_all add: less_mult_imp_div_less)
  show "a div 4 * 4 + (a mod 4 * 16 + b div 16) div 16 = a"
    "(a mod 4 * 16 + b div 16) mod 16 * 16 + (b mod 16 * 4 + c div 64) div 4 = b"
    "(b mod 16 * 4 + c div 64) mod 4 * 64 + c mod 64 = c"
    by (simp_all only: digit_div_mod(1) [OF small(1)] digit_div_mod(2) [OF small(1)]
        digit_div_mod(1) [OF small(2)] digit_div_mod(2) [OF small(2)] div_mult_mod_eq)
qed

lemma base64_decode_encode: "list_all (\<lambda>n. n < 256) ns \<Longrightarrow> base64_decode (base64_encode ns) = Some ns"
proof (induction ns rule: base64_encode.induct)
  case (2 a)
  then have "a < 256" by simp
  from base64_parts [OF this, of 0 0] show ?case by (simp add: digit_div_mod)
next
  case (3 a b)
  then have "a < 256" "b < 256" by simp_all
  note parts = base64_parts [OF this, of 0, simplified div_0 add_0_right]
  show ?case
    by (simp only: base64_encode.simps base64_decode.simps base64_value_char base64_value_pad parts prod.case option.case)
next
  case (4 a b c rest)
  then have "a < 256" "b < 256" "c < 256" by simp_all
  note parts = base64_parts [OF this]
  have "base64_decode (base64_encode rest) = Some rest" using 4 by simp
  then show ?case
    by (simp only: base64_encode.simps base64_decode.simps base64_value_char parts prod.case option.case append.simps option.map)
qed simp

lemma b64decode_b64encode: "b64decode (b64encode b) = Some b"
proof -
  have "unat w < 256" for w :: byte using unsigned_less [of w] by simp
  then have "list_all (\<lambda>n. n < 256) (map unat b)" by (simp add: list_all_iff)
  then show ?thesis by (simp add: b64decode_def b64encode_def base64_decode_encode map_idI)
qed

text \<open>What a reader of the document finds out about a node.\<close>

definition json_field :: "json \<Rightarrow> string \<Rightarrow> pyval option" where
  "json_field j key = (case j of
     Object items \<Rightarrow> (case map_of items key of Some (Value v) \<Rightarrow> Some v | _ \<Rightarrow> None) | _ \<Rightarrow> None)"

definition read_json_node :: "json \<Rightarrow> (int \<times> int option \<times> bytes \<times> bytes option) option" where
  "read_json_node j =
     (case (json_field j ''id'', json_field j ''parent_id'', json_field j ''mounted_name'', json_field j ''content'') of
        (Some (PyInt i), Some parent, Some (PyStr name), Some content) \<Rightarrow>
          (case (utf8_encode name, case content of PyStr s \<Rightarrow> map_option Some (b64decode s) | _ \<Rightarrow> Some None) of
             (Some raw, Some c) \<Rightarrow> Some (i, case parent of PyInt p \<Rightarrow> Some p | _ \<Rightarrow> None, raw, c)
           | _ \<Rightarrow> None)
      | _ \<Rightarrow> None)"

lemma read_json_node_ok:
  assumes "json_node db n = Inr j"
  shows "read_json_node j = Some (node_id n, node_parent_id n, node_mounted_name n, node_content n)"
proof -
  obtain name where name: "utf8_decode (node_mounted_name n) = Inr name"
    using assms by (auto simp: json_node_def decode_name_def split: sum.splits)
  have "utf8_encode name = Some (node_mounted_name n)" using name by (rule utf8_encode_decode)
  with assms name show ?thesis
    by (cases "node_parent_id n"; cases "node_content n")
      (auto simp: json_node_def decode_name_def read_json_node_def json_field_def json_optional_def b64decode_b64encode)
qed

text \<open>The nodes that a reader finds in the document.\<close>

definition read_document :: "json \<Rightarrow> (int \<times> int option \<times> bytes \<times> bytes option) list option" where
  "read_document j = (case j of
     Object items \<Rightarrow>
       (case map_of items ''nodes'' of Some (Array nodes) \<Rightarrow> those (map read_json_node nodes) | _ \<Rightarrow> None)
   | _ \<Rightarrow> None)"

lemma read_json_nodes:
  "map_result (json_node db) ns = Inr js \<Longrightarrow>
   map read_json_node js = map (\<lambda>n. Some (node_id n, node_parent_id n, node_mounted_name n, node_content n)) ns"
  by (induction ns arbitrary: js) (auto split: sum.splits dest: read_json_node_ok)

lemma json_document_nodes:
  assumes "iter_nodes st = Inr ns" "json_document db st = Inr doc"
  shows "read_document doc =
    Some (map (\<lambda>n. (node_id n, node_parent_id n, node_mounted_name n, node_content n)) ns)"
proof -
  from assms obtain js where "map_result (json_node db) ns = Inr js" "\<exists>sn ds count. doc = Object
      [(''snapshot'', sn), (''nodes'', Array js), (''diagnostics'', ds), (''diagnostic_count'', count)]"
    by (auto simp: json_document_def split: list.splits sum.splits simp del: map_result.simps)
  then show ?thesis
    by (auto simp: read_document_def those_Some_iff dest!: read_json_nodes)
qed

text \<open>The document is written when every name can be decoded and the snapshot and the diagnostics can be read.\<close>

lemma json_document_succeeds:
  assumes "iter_nodes st = Inr (n # ns)" "get_snapshot st (node_snapshot_id n) = Inr sn"
    and "\<forall>x \<in> set (n # ns). \<exists>name. decode_name (node_mounted_name x) = Inr name"
    and "diagnostics st = Inr ds" "diagnostic_count st = Inr k"
  shows "\<exists>doc. json_document db st = Inr doc"
proof -
  have "\<exists>j. json_node db x = Inr j" if "x \<in> set (n # ns)" for x
    using assms(3) that by (fastforce simp: json_node_def)
  then obtain f where "\<And>x. x \<in> set (n # ns) \<Longrightarrow> json_node db x = Inr (f x)" by metis
  then have "map_result (json_node db) (n # ns) = Inr (map f (n # ns))" by (rule map_result_Inr)
  then show ?thesis using assms by (simp add: json_document_def del: map_result.simps)
qed

end
