(* ===== verification/Mounting.thy ===== *)
theory Mounting
  imports Mount_Session Fuse_Operations Sqlite_Codec
begin

text \<open>
  \<open>snapshotfs.fuse.adapter.mount\<close>, \<open>snapshotfs.fuse\<close> and \<open>snapshotfs.doctor\<close>: mounting a store in the
  foreground and the checks of the environment. The kernel device, pyfuse3 and trio are the answers of a
  \<open>host\<close>, as in \<open>Session_World\<close>; calls that answer a question about the host are not recorded in the
  trace, so the host answers them the same way until a recorded call is made.
\<close>

section \<open>The host\<close>

datatype fuse_call =
    Init_Fuse pystr | Take_Environment pystr | Write_Ready int | Close_Ready int | Run_Main | Close_Fuse bool

type_synonym fuse_trace = "fuse_call list"

text \<open>
  An exception of the Python kind carries the name of its class where \<open>py\_exn\<close> has no constructor for
  it; a module that is not found is named in the message.
\<close>

record host =
  h_system :: pystr
  h_import :: "pystr \<Rightarrow> session_exn + unit"
  h_helper :: "pystr option"
  h_device_exists :: bool
  h_device_access :: bool
  h_is_dir :: "pystr \<Rightarrow> session_exn + bool"
  h_ismount :: "pystr \<Rightarrow> bool"
  h_occupied :: "pystr \<Rightarrow> session_exn + bool"
  h_dir_access :: "pystr \<Rightarrow> bool"
  h_ready_fd :: "pystr option"
  h_init :: "fuse_trace \<Rightarrow> session_exn + unit"
  h_write :: "fuse_trace \<Rightarrow> session_exn + unit"
  h_close :: "fuse_trace \<Rightarrow> session_exn + unit"
  h_main :: "fuse_trace \<Rightarrow> session_exn + unit"
  h_close_fuse :: "fuse_trace \<Rightarrow> session_exn + unit"

definition python_error :: "string \<Rightarrow> message \<Rightarrow> session_exn" where
  "python_error name m = Py_Raised (StoreError name m)"

section \<open>fuse/adapter/mount.py\<close>

text \<open>The checks before the mount, with the error of the first that fails.\<close>

definition mount_guards :: "host \<Rightarrow> pystr \<Rightarrow> session_exn + unit" where
  "mount_guards H path =
     (let refuse = (\<lambda>m. Inl (Py_Raised (RuntimeError m)))
      in case h_is_dir H path of
           Inl e \<Rightarrow> Inl e
         | Inr dir \<Rightarrow>
             if \<not> dir then refuse [Txt ''mountpoint must be an existing directory: '', Str path]
             else if h_ismount H path then refuse [Txt ''mountpoint is already mounted: '', Str path]
             else (case h_occupied H path of
                 Inl e \<Rightarrow> Inl e
               | Inr occupied \<Rightarrow>
                   if occupied then refuse [Txt ''mountpoint must be empty: '', Str path]
                   else if \<not> h_device_exists H
                   then refuse [Txt ''/dev/fuse is unavailable; enable FUSE on the host '',
                     Txt ''(sudo modprobe fuse) and expose it to containers'']
                   else if \<not> h_device_access H
                   then refuse [Txt ''permission denied for /dev/fuse; check device '',
                     Txt ''permissions and container device access'']
                   else if h_helper H = None
                   then refuse [Txt ''fusermount3 is unavailable; install the system fuse3 package'']
                   else Inr ()))"

text \<open>\<open>int(text)\<close>: white space around, a sign, and underscores between digits.\<close>

definition underscores_ok :: "pystr \<Rightarrow> bool" where
  "underscores_ok s \<longleftrightarrow> [] \<notin> set (split_on 95 s)"

definition int_of_text :: "pystr \<Rightarrow> py_exn + int" where
  "int_of_text text =
     (let s = py_strip text;
          (negative, digits) = (case s of c # r \<Rightarrow> if c = 45 then (True, r) else if c = 43 then (False, r) else (False, s) | [] \<Rightarrow> (False, s))
      in case (if underscores_ok digits then py_int (List.filter (\<lambda>c. c \<noteq> 95) digits) else None) of
           None \<Rightarrow> Inl (ValueError [Txt ''invalid literal for int() with base 10: '', Repr text])
         | Some n \<Rightarrow> Inr (if negative then - n else n))"

text \<open>\<open>except (OSError, RuntimeError)\<close> on what initialising FUSE raises.\<close>

definition os_or_runtime :: "py_exn \<Rightarrow> bool" where
  "os_or_runtime x = (case x of
     OSError _ \<Rightarrow> True | RuntimeError _ \<Rightarrow> True | RecursionError \<Rightarrow> True
   | StoreError c _ \<Rightarrow> c \<in> {''SourceError'', ''ContentReadError'', ''FuseUnavailableError'', ''SQLiteStoreError'',
       ''SQLitePersistenceError'', ''SQLiteSchemaError'', ''SQLiteStoreClosedError'', ''SQLiteDestinationExistsError'',
       ''SQLiteDurabilityError'', ''SQLitePublicationError''}
   | _ \<Rightarrow> False)"

definition cannot_mount :: "pystr \<Rightarrow> py_exn \<Rightarrow> message" where
  "cannot_mount mountpoint x =
     [Txt ''cannot mount at '', Str mountpoint, Txt '': ''] @ exn_text x @
     [Txt ''. Check mountpoint ownership, '', Txt ''/dev/fuse access, and container FUSE permissions.'']"

text \<open>
  Telling the parent, if there is one, that the mount is ready: the descriptor is taken out of the
  environment, written to and closed.
\<close>

definition announce :: "host \<Rightarrow> fuse_trace \<Rightarrow> (session_exn + unit) \<times> fuse_trace" where
  "announce H tr =
     (let tr = tr @ [Take_Environment READY_ENV]
      in case h_ready_fd H of
           None \<Rightarrow> (Inr (), tr)
         | Some text \<Rightarrow>
             (case int_of_text text of
                Inl x \<Rightarrow> (Inl (Py_Raised x), tr)
              | Inr fd \<Rightarrow>
                  (let written = h_write H tr; tr = tr @ [Write_Ready fd];
                       closed = h_close H tr; tr = tr @ [Close_Ready fd]
                   in (case closed of Inl e \<Rightarrow> Inl e | Inr _ \<Rightarrow> written, tr))))"

text \<open>The session after the initialisation; the clean-up always closes FUSE with an unmount.\<close>

definition serve :: "host \<Rightarrow> fuse_trace \<Rightarrow> (session_exn + unit) \<times> fuse_trace" where
  "serve H tr =
     (let (result, tr) =
        (case announce H tr of
           (Inl e, tr) \<Rightarrow> (Inl e, tr)
         | (Inr _, tr) \<Rightarrow> (h_main H tr, tr @ [Run_Main]))
      in (case h_close_fuse H tr of Inl e \<Rightarrow> Inl e | Inr _ \<Rightarrow> result, tr @ [Close_Fuse True]))"

definition mount_snapshot :: "host \<Rightarrow> store \<Rightarrow> pystr \<Rightarrow> bool \<Rightarrow> fuse_trace \<Rightarrow> (session_exn + unit) \<times> fuse_trace" where
  "mount_snapshot H st mountpoint simulate tr =
     (case mount_guards H mountpoint of
        Inl e \<Rightarrow> (Inl e, tr)
      | Inr _ \<Rightarrow>
          (case fuse_init st simulate of
             Inl x \<Rightarrow> (Inl (Py_Raised x), tr)
           | Inr operations \<Rightarrow>
               (case h_init H tr of
                  Inl (Py_Raised x) \<Rightarrow>
                    (Inl (if os_or_runtime x then Py_Raised (RuntimeError (cannot_mount mountpoint x)) else Py_Raised x),
                     tr @ [Init_Fuse mountpoint])
                | Inl e \<Rightarrow> (Inl e, tr @ [Init_Fuse mountpoint])
                | Inr _ \<Rightarrow> serve H (tr @ [Init_Fuse mountpoint]))))"

section \<open>fuse/\_\_init\_\_.py\<close>

definition fuse_unavailable :: session_exn where
  "fuse_unavailable = python_error ''FuseUnavailableError''
     [Txt ''FUSE mounting requires Linux and the optional Python dependencies. '',
      Txt ''Install the SnapshotFS .deb or Arch package, or install '',
      Txt ''snapshotfs[fuse] with pip/uv and the system fuse3 package.'']"

definition mount_store :: "host \<Rightarrow> store \<Rightarrow> pystr \<Rightarrow> bool \<Rightarrow> fuse_trace \<Rightarrow> (session_exn + unit) \<times> fuse_trace" where
  "mount_store H st mountpoint simulate tr =
     (case h_import H (lit ''snapshotfs.fuse.adapter'') of
        Inl (Py_Raised (StoreError name m)) \<Rightarrow>
          if name = ''ModuleNotFoundError'' \<and> m \<in> {[Str (lit ''pyfuse3'')], [Str (lit ''trio'')]}
          then (Inl fuse_unavailable, tr)
          else (Inl (Py_Raised (StoreError name m)), tr)
      | Inl e \<Rightarrow> (Inl e, tr)
      | Inr _ \<Rightarrow> mount_snapshot H st mountpoint simulate tr)"

section \<open>doctor.py\<close>

record check =
  check_name :: pystr
  check_ok :: bool
  check_detail :: message

text \<open>\<open>except (ImportError, OSError)\<close>.\<close>

definition import_error :: "py_exn \<Rightarrow> bool" where
  "import_error x = (case x of
     OSError _ \<Rightarrow> True | StoreError c _ \<Rightarrow> c \<in> {''ImportError'', ''ModuleNotFoundError''} | _ \<Rightarrow> False)"

definition module_check :: "host \<Rightarrow> string \<Rightarrow> session_exn + check" where
  "module_check H name =
     (case h_import H (lit name) of
        Inl (Py_Raised x) \<Rightarrow>
          if import_error x
          then Inr \<lparr>check_name = lit name, check_ok = False, check_detail =
            exn_text x @ [Txt ''; install the Linux package or snapshotfs[fuse] and system fuse3'']\<rparr>
          else Inl (Py_Raised x)
      | Inl e \<Rightarrow> Inl e
      | Inr _ \<Rightarrow> Inr \<lparr>check_name = lit name, check_ok = True, check_detail = [Txt ''available'']\<rparr>)"

text \<open>The state of the mount point, or the error of looking at it.\<close>

definition mountpoint_state :: "host \<Rightarrow> pystr \<Rightarrow> session_exn + bool \<times> message" where
  "mountpoint_state H path =
     (case h_is_dir H path of
        Inl e \<Rightarrow> Inl e
      | Inr dir \<Rightarrow>
          if \<not> dir then Inr (False, [Txt ''create a directory owned by your user''])
          else if h_ismount H path then Inr (False, [Txt ''already mounted; unmount it first''])
          else (case h_occupied H path of
              Inl e \<Rightarrow> Inl e
            | Inr occupied \<Rightarrow>
                if occupied then Inr (False, [Txt ''choose an empty directory''])
                else Inr (h_dir_access H path, [Txt ''empty directory; write/search access required''])))"

definition os_error :: "py_exn \<Rightarrow> bool" where
  "os_error x = (case x of OSError _ \<Rightarrow> True | _ \<Rightarrow> False)"

definition mountpoint_check :: "host \<Rightarrow> pystr \<Rightarrow> session_exn + check" where
  "mountpoint_check H path =
     (let report = (\<lambda>ok detail. \<lparr>check_name = lit ''mountpoint'', check_ok = ok, check_detail = [Str path, Txt '': ''] @ detail\<rparr>)
      in case mountpoint_state H path of
           Inl (Py_Raised x) \<Rightarrow> if os_error x then Inr (report False (exn_text x)) else Inl (Py_Raised x)
         | Inl e \<Rightarrow> Inl e
         | Inr (ok, detail) \<Rightarrow> Inr (report ok detail))"

definition host_checks :: "host \<Rightarrow> check list" where
  "host_checks H =
     [\<lparr>check_name = lit ''fusermount3'', check_ok = h_helper H \<noteq> None, check_detail =
        [case h_helper H of Some p \<Rightarrow> if p \<noteq> [] then Str p else Txt ''install the system fuse3 package''
           | None \<Rightarrow> Txt ''install the system fuse3 package'']\<rparr>,
      \<lparr>check_name = lit ''FUSE device'', check_ok = h_device_exists H, check_detail =
        [if h_device_exists H then Txt ''/dev/fuse''
         else Txt ''enable the host FUSE module (sudo modprobe fuse); expose /dev/fuse to containers'']\<rparr>,
      \<lparr>check_name = lit ''device access'', check_ok = h_device_exists H \<and> h_device_access H, check_detail =
        [Txt ''read/write access to /dev/fuse required; check device permissions and container policy'']\<rparr>]"

definition check_environment :: "host \<Rightarrow> pystr option \<Rightarrow> session_exn + check list" where
  "check_environment H mountpoint =
     (case map_result (module_check H) [''pyfuse3'', ''trio''] of
        Inl e \<Rightarrow> Inl e
      | Inr modules \<Rightarrow>
          (let checks = \<lparr>check_name = lit ''platform'', check_ok = h_system H = lit ''Linux'',
                 check_detail = [Str (h_system H), Txt ''; FUSE mounting requires Linux'']\<rparr> # modules @ host_checks H
           in case mountpoint of
                None \<Rightarrow> Inr checks
              | Some path \<Rightarrow> map_ok (\<lambda>c. checks @ [c]) (mountpoint_check H path)))"

text \<open>The lines that \<open>doctor\<close> prints for the checks, and its exit status.\<close>

definition check_line :: "check \<Rightarrow> message" where
  "check_line c = [Txt (if check_ok c then ''OK'' else ''FAIL''), Txt '' '', Str (check_name c), Txt '': ''] @ check_detail c"

definition doctor_status :: "check list \<Rightarrow> int" where
  "doctor_status checks = (if list_all check_ok checks then 0 else 1)"

section \<open>What they guarantee\<close>

text \<open>When every check passes, no guard of the mount fails.\<close>

lemma mountpoint_check_ok:
  "mountpoint_check H path = Inr c \<Longrightarrow> check_ok c \<Longrightarrow>
   h_is_dir H path = Inr True \<and> \<not> h_ismount H path \<and> h_occupied H path = Inr False"
  by (auto simp: mountpoint_check_def mountpoint_state_def Let_def split: sum.splits if_splits session_exn.splits)

lemma checks_cover_guards:
  assumes "check_environment H (Some path) = Inr checks" "doctor_status checks = 0"
  shows "mount_guards H path = Inr ()"
proof -
  from assms obtain modules c where "checks = \<lparr>check_name = lit ''platform'', check_ok = h_system H = lit ''Linux'',
      check_detail = [Str (h_system H), Txt ''; FUSE mounting requires Linux'']\<rparr> # modules @ host_checks H @ [c]"
      "mountpoint_check H path = Inr c"
    by (auto simp: check_environment_def Let_def split: sum.splits)
  with assms(2) have "list_all check_ok (host_checks H)" "check_ok c" by (auto simp: doctor_status_def split: if_splits)
  then show ?thesis using mountpoint_check_ok [OF \<open>mountpoint_check H path = Inr c\<close>]
    by (auto simp: host_checks_def mount_guards_def)
qed

text \<open>
  The calls of a mount: nothing when it is refused; otherwise the initialisation, and when that
  succeeds, FUSE is closed with an unmount at the end, once, whatever happened in between; the
  descriptor of the parent is closed after the byte was written.
\<close>

lemma announce_calls:
  "announce H tr = (r, tr') \<Longrightarrow> \<exists>fd. tr' = tr @ [Take_Environment READY_ENV] \<or>
     tr' = tr @ [Take_Environment READY_ENV, Write_Ready fd, Close_Ready fd]"
  by (auto simp: announce_def Let_def split: option.splits sum.splits)

definition session_calls :: "fuse_trace \<Rightarrow> bool" where
  "session_calls mid \<longleftrightarrow>
     (\<exists>fd. mid \<in> {[], [Write_Ready fd, Close_Ready fd], [Run_Main], [Write_Ready fd, Close_Ready fd, Run_Main]})"

lemma serve_calls:
  assumes "serve H tr = (r, tr')"
  shows "\<exists>mid. tr' = tr @ Take_Environment READY_ENV # mid @ [Close_Fuse True] \<and> session_calls mid \<and>
    (r = Inr () \<longrightarrow> Run_Main \<in> set mid)"
proof -
  obtain a tr1 where a: "announce H tr = (a, tr1)" by fastforce
  from announce_calls [OF a] obtain fd where fd: "tr1 = tr @ [Take_Environment READY_ENV] \<or>
     tr1 = tr @ [Take_Environment READY_ENV, Write_Ready fd, Close_Ready fd]" by blast
  have "(r \<noteq> Inr () \<and> tr' = tr1 @ [Close_Fuse True]) \<or> tr' = tr1 @ [Run_Main, Close_Fuse True]"
    using assms a by (cases a) (auto simp: serve_def split: sum.splits)
  with fd show ?thesis by (auto simp: session_calls_def)
qed

text \<open>The whole mount.\<close>

lemma mount_snapshot_calls:
  assumes "mount_snapshot H st mountpoint simulate tr = (r, tr')"
  shows "((\<exists>e. r = Inl e) \<and> (tr' = tr \<or> mount_guards H mountpoint = Inr () \<and> tr' = tr @ [Init_Fuse mountpoint])) \<or>
    (mount_guards H mountpoint = Inr () \<and> h_init H tr = Inr () \<and>
      (\<exists>mid. tr' = tr @ [Init_Fuse mountpoint, Take_Environment READY_ENV] @ mid @ [Close_Fuse True] \<and>
        session_calls mid \<and> (r = Inr () \<longrightarrow> Run_Main \<in> set mid)))"
proof (cases "mount_guards H mountpoint = Inr () \<and> h_init H tr = Inr () \<and> (\<exists>ops. fuse_init st simulate = Inr ops)")
  case True
  with assms have s: "serve H (tr @ [Init_Fuse mountpoint]) = (r, tr')" by (auto simp: mount_snapshot_def)
  then obtain mid where "tr' = (tr @ [Init_Fuse mountpoint]) @ Take_Environment READY_ENV # mid @ [Close_Fuse True]"
    "session_calls mid" "r = Inr () \<longrightarrow> Run_Main \<in> set mid"
    using serve_calls by blast
  with True show ?thesis by auto
next
  case False
  with assms show ?thesis
    by (auto simp: mount_snapshot_def split: sum.splits session_exn.splits dest: sym [of "Inl _"])
qed

end
