(* ===== verification/Logging_Setup.thy ===== *)
theory Logging_Setup
  imports File_Source
begin

text \<open>
  \<open>snapshotfs.logging\_setup\<close>: the loggers that a command-line session changes and restores. A handler
  is a number that is fresh when the handler is made; whether the log file can be opened is a parameter.
\<close>

section \<open>Loggers\<close>

record logger =
  log_level :: int
  log_propagate :: bool
  log_handlers :: "nat list"

definition DEBUG :: int where "DEBUG = 10"

text \<open>\<open>addHandler\<close> adds a handler once; \<open>removeHandler\<close> removes it if it is there.\<close>

definition add_handler :: "nat \<Rightarrow> logger \<Rightarrow> logger" where
  "add_handler h l = (if h \<in> set (log_handlers l) then l else l\<lparr>log_handlers := log_handlers l @ [h]\<rparr>)"

definition remove_handler :: "nat \<Rightarrow> logger \<Rightarrow> logger" where
  "remove_handler h l = l\<lparr>log_handlers := remove1 h (log_handlers l)\<rparr>"

text \<open>The logger of the package and those of pyfuse3 and trio.\<close>

record loggers =
  package_logger :: logger
  dependency_loggers :: "logger list"
  next_handler :: nat

section \<open>The default log file\<close>

record platform_paths =
  pp_linux :: bool
  pp_state_home :: "pystr option"
  pp_home :: pystr
  pp_app_dir :: pystr
  pp_expanduser :: "pystr \<Rightarrow> pystr"

text \<open>\<open>base / name\<close> for a relative name.\<close>

definition path_join :: "pystr \<Rightarrow> pystr \<Rightarrow> pystr" where
  "path_join base name = path_text (path_root base) (path_parts base @ path_parts name)"

definition default_log_path :: "platform_paths \<Rightarrow> pystr" where
  "default_log_path P =
     (let base = (if pp_linux P
        then (case pp_state_home P of Some d \<Rightarrow> d | None \<Rightarrow> path_join (pp_home P) (lit ''.local/state''))
        else pp_app_dir P)
      in path_join base (if pp_linux P then lit ''snapshotfs/snapshotfs.log'' else lit ''snapshotfs.log''))"

section \<open>A session\<close>

record logging_session =
  ls_handlers :: "nat list"
  ls_path :: "pystr option"
  ls_arguments :: "pystr list"
  ls_custom_registry :: bool
  ls_previous_level :: int
  ls_previous_propagate :: bool
  ls_dependency_settings :: "(int \<times> bool) list"

definition new_session :: "loggers \<Rightarrow> logging_session" where
  "new_session L =
     \<lparr>ls_handlers = [], ls_path = None, ls_arguments = [], ls_custom_registry = False,
      ls_previous_level = log_level (package_logger L), ls_previous_propagate = log_propagate (package_logger L),
      ls_dependency_settings = map (\<lambda>l. (log_level l, log_propagate l)) (dependency_loggers L)\<rparr>"

datatype log_exn = Click_Error message

text \<open>\<open>logger.setLevel(DEBUG)\<close>, no propagation, and every handler of the session.\<close>

definition attach :: "nat list \<Rightarrow> logger \<Rightarrow> logger" where
  "attach hs l = fold add_handler hs (l\<lparr>log_level := DEBUG, log_propagate := False\<rparr>)"

definition new_handler :: "loggers \<times> logging_session \<Rightarrow> loggers \<times> logging_session" where
  "new_handler Ls = (case Ls of (L, s) \<Rightarrow>
     (L\<lparr>next_handler := next_handler L + 1\<rparr>, s\<lparr>ls_handlers := ls_handlers s @ [next_handler L]\<rparr>))"

definition attach_all :: "loggers \<times> logging_session \<Rightarrow> loggers \<times> logging_session" where
  "attach_all Ls = (case Ls of (L, s) \<Rightarrow>
     (L\<lparr>package_logger := attach (ls_handlers s) (package_logger L),
        dependency_loggers := map (attach (ls_handlers s)) (dependency_loggers L)\<rparr>, s))"

text \<open>The console handler, or a null handler when there would be none.\<close>

definition other_handlers :: "bool \<Rightarrow> loggers \<times> logging_session \<Rightarrow> loggers \<times> logging_session" where
  "other_handlers verbose Ls =
     (let Ls = (if verbose then new_handler Ls else Ls)
      in if ls_handlers (snd Ls) = [] then new_handler Ls else Ls)"

text \<open>
  \<open>configure\<close>; \<open>file\_error\<close> is the error of making the directory or opening the file. It returns an
  error or the warning that is printed, and the state.
\<close>

definition configure ::
  "platform_paths \<Rightarrow> pystr option \<Rightarrow> bool \<Rightarrow> pystr option \<Rightarrow> loggers \<times> logging_session \<Rightarrow>
    (log_exn + message list) \<times> loggers \<times> logging_session" where
  "configure P file_error verbose log_file Ls =
     (let given = (case log_file of Some f \<Rightarrow> f \<noteq> [] | None \<Rightarrow> False);
          path = (case log_file of
              Some f \<Rightarrow> if f \<noteq> [] then pp_expanduser P f else default_log_path P
            | None \<Rightarrow> default_log_path P)
      in case file_error of
           Some e \<Rightarrow>
             if given then (Inl (Click_Error [Txt ''cannot open log file '', Str path, Txt '': '', Str e]), Ls)
             else (Inr [[Txt ''warning: cannot open default log file '', Str path, Txt '': '', Str e]],
                   attach_all (other_handlers verbose Ls))
         | None \<Rightarrow>
             (Inr [], attach_all (other_handlers verbose (case new_handler Ls of (L, s) \<Rightarrow> (L, s\<lparr>ls_path := Some path\<rparr>)))))"

definition detach :: "nat list \<Rightarrow> int \<times> bool \<Rightarrow> logger \<Rightarrow> logger" where
  "detach hs setting l = (fold remove_handler hs l)\<lparr>log_level := fst setting, log_propagate := snd setting\<rparr>"

definition close_session :: "loggers \<times> logging_session \<Rightarrow> loggers \<times> logging_session" where
  "close_session Ls = (case Ls of (L, s) \<Rightarrow>
     (L\<lparr>dependency_loggers := map2 (\<lambda>l setting. detach (ls_handlers s) setting l) (dependency_loggers L) (ls_dependency_settings s),
        package_logger := detach (ls_handlers s) (ls_previous_level s, ls_previous_propagate s) (package_logger L)\<rparr>,
      s\<lparr>ls_handlers := []\<rparr>))"

section \<open>Closing a session restores the loggers\<close>

lemma fold_add_handlers: "\<exists>extra. log_handlers (fold add_handler hs l) = log_handlers l @ extra \<and>
    set extra = set hs - set (log_handlers l) \<and> distinct extra"
proof (induction hs arbitrary: l)
  case (Cons h hs)
  from Cons.IH [of "add_handler h l"] obtain extra where
    "log_handlers (fold add_handler hs (add_handler h l)) = log_handlers (add_handler h l) @ extra"
    "set extra = set hs - set (log_handlers (add_handler h l))" "distinct extra" by blast
  then show ?case
    by (cases "h \<in> set (log_handlers l)")
      (auto simp: add_handler_def [of h l] intro: exI [of _ "h # extra"] exI [of _ extra])
qed simp

lemma fold_remove_handlers:
  "set hs \<inter> set xs = {} \<Longrightarrow> distinct ys \<Longrightarrow> set ys \<subseteq> set hs \<Longrightarrow> log_handlers l = xs @ ys \<Longrightarrow>
   log_handlers (fold remove_handler hs l) = xs"
proof (induction hs arbitrary: l ys)
  case (Cons h hs)
  then have "log_handlers (remove_handler h l) = xs @ remove1 h ys" by (simp add: remove_handler_def remove1_append)
  moreover have "set (remove1 h ys) \<subseteq> set hs" using Cons.prems(2,3) by auto
  ultimately show ?case using Cons.IH [of "remove1 h ys" "remove_handler h l"] Cons.prems by simp
qed simp

text \<open>
  What holds of the loggers during a session that began with the loggers \<open>l0\<close>: only handlers of the
  session were added, at the end, each once.
\<close>

definition extended :: "nat list \<Rightarrow> logger \<Rightarrow> logger \<Rightarrow> bool" where
  "extended hs l0 l \<longleftrightarrow> (\<exists>ys. log_handlers l = log_handlers l0 @ ys \<and> distinct ys \<and> set ys \<subseteq> set hs)"

definition session_ok :: "loggers \<Rightarrow> loggers \<times> logging_session \<Rightarrow> bool" where
  "session_ok L0 Ls \<longleftrightarrow> (case Ls of (L, s) \<Rightarrow>
     next_handler L0 \<le> next_handler L \<and>
     (\<forall>h \<in> set (ls_handlers s). next_handler L0 \<le> h \<and> h < next_handler L) \<and>
     extended (ls_handlers s) (package_logger L0) (package_logger L) \<and>
     list_all2 (extended (ls_handlers s)) (dependency_loggers L0) (dependency_loggers L) \<and>
     ls_previous_level s = log_level (package_logger L0) \<and> ls_previous_propagate s = log_propagate (package_logger L0) \<and>
     ls_dependency_settings s = map (\<lambda>l. (log_level l, log_propagate l)) (dependency_loggers L0))"

definition handlers_known :: "loggers \<Rightarrow> bool" where
  "handlers_known L \<longleftrightarrow> (\<forall>l \<in> set (package_logger L # dependency_loggers L). \<forall>h \<in> set (log_handlers l). h < next_handler L)"

lemma extended_mono: "extended hs l0 l \<Longrightarrow> set hs \<subseteq> set hs' \<Longrightarrow> extended hs' l0 l"
  by (auto simp: extended_def)

lemma session_ok_new: "session_ok L (L, new_session L)"
  by (auto simp: session_ok_def new_session_def extended_def list_all2_same)

lemma session_ok_new_handler: "session_ok L0 Ls \<Longrightarrow> session_ok L0 (new_handler Ls)"
proof -
  assume ok: "session_ok L0 Ls"
  obtain L s where Ls: "Ls = (L, s)" by fastforce
  have "list_all2 (extended (ls_handlers s @ [next_handler L])) (dependency_loggers L0) (dependency_loggers L)"
    by (rule list_all2_mono [of "extended (ls_handlers s)"])
      (use ok extended_mono in \<open>auto simp: session_ok_def Ls intro: extended_mono [of "ls_handlers s"]\<close>)
  with ok show ?thesis
    by (auto simp: session_ok_def new_handler_def Ls intro: extended_mono [of "ls_handlers s"])
qed

lemma extended_attach: "extended hs l0 l \<Longrightarrow> extended hs l0 (attach hs l)"
proof -
  assume "extended hs l0 l"
  then obtain ys where ys: "log_handlers l = log_handlers l0 @ ys" "distinct ys" "set ys \<subseteq> set hs"
    by (auto simp: extended_def)
  obtain extra where "log_handlers (attach hs l) = log_handlers l @ extra" "set extra = set hs - set (log_handlers l)" "distinct extra"
    using fold_add_handlers [of hs "l\<lparr>log_level := DEBUG, log_propagate := False\<rparr>"] by (auto simp: attach_def)
  with ys show ?thesis by (auto simp: extended_def intro!: exI [of _ "ys @ extra"])
qed

lemma extended_attach_all: "list_all2 (extended hs) ls0 ls \<Longrightarrow> list_all2 (extended hs) ls0 (map (attach hs) ls)"
  by (induction rule: list_all2_induct) (simp_all add: extended_attach)

lemma session_ok_attach: "session_ok L0 Ls \<Longrightarrow> session_ok L0 (attach_all Ls)"
  by (auto simp: session_ok_def attach_all_def extended_attach extended_attach_all)

lemma session_ok_configure: "session_ok L0 Ls \<Longrightarrow> session_ok L0 (snd (configure P file_error verbose log_file Ls))"
proof -
  assume ok: "session_ok L0 Ls"
  have other: "session_ok L0 (attach_all (other_handlers verbose Ls'))" if "session_ok L0 Ls'" for Ls'
    using that by (simp add: other_handlers_def Let_def session_ok_attach session_ok_new_handler)
  have "session_ok L0 (case new_handler Ls of (L, s) \<Rightarrow> (L, s\<lparr>ls_path := path\<rparr>))" for path
    using session_ok_new_handler [OF ok] by (auto simp: session_ok_def split: prod.split)
  with ok other show ?thesis by (auto simp: configure_def Let_def split: option.split)
qed

lemma detach_extended:
  assumes "extended hs l0 l" "\<forall>h \<in> set hs. n \<le> h" "\<forall>h \<in> set (log_handlers l0). h < n"
  shows "detach hs (log_level l0, log_propagate l0) l = l0"
proof -
  obtain ys where ys: "log_handlers l = log_handlers l0 @ ys" "distinct ys" "set ys \<subseteq> set hs"
    using assms(1) by (auto simp: extended_def)
  have "set hs \<inter> set (log_handlers l0) = {}" using assms(2,3) by force
  from fold_remove_handlers [OF this ys(2,3,1)] show ?thesis by (simp add: detach_def)
qed

theorem close_restores:
  assumes "handlers_known L0" "session_ok L0 Ls"
  shows "package_logger (fst (close_session Ls)) = package_logger L0 \<and>
    dependency_loggers (fst (close_session Ls)) = dependency_loggers L0"
proof -
  obtain L s where Ls: "Ls = (L, s)" by fastforce
  have fresh: "\<forall>h \<in> set (ls_handlers s). next_handler L0 \<le> h" using assms(2) by (auto simp: session_ok_def Ls)
  have "detach (ls_handlers s) (log_level l0, log_propagate l0) l = l0"
    if "extended (ls_handlers s) l0 l" "l0 \<in> set (package_logger L0 # dependency_loggers L0)" for l0 l
    using detach_extended [OF that(1) fresh] assms(1) that(2) unfolding handlers_known_def by blast
  note restored = this
  have "map2 (\<lambda>l setting. detach (ls_handlers s) setting l) (dependency_loggers L) (ls_dependency_settings s) = dependency_loggers L0"
  proof (rule nth_equalityI)
    have len: "length (dependency_loggers L) = length (dependency_loggers L0)"
      using assms(2) by (auto simp: session_ok_def Ls dest: list_all2_lengthD)
    then show "length (map2 (\<lambda>l setting. detach (ls_handlers s) setting l) (dependency_loggers L) (ls_dependency_settings s)) =
        length (dependency_loggers L0)" using assms(2) by (auto simp: session_ok_def Ls)
    fix i
    assume "i < length (map2 (\<lambda>l setting. detach (ls_handlers s) setting l) (dependency_loggers L) (ls_dependency_settings s))"
    then have i: "i < length (dependency_loggers L0)" using len assms(2) by (auto simp: session_ok_def Ls)
    have "extended (ls_handlers s) (dependency_loggers L0 ! i) (dependency_loggers L ! i)"
      using assms(2) i by (auto simp: session_ok_def Ls dest: list_all2_nthD)
    with restored i len assms(2) show "map2 (\<lambda>l setting. detach (ls_handlers s) setting l) (dependency_loggers L)
        (ls_dependency_settings s) ! i = dependency_loggers L0 ! i"
      by (simp add: session_ok_def Ls)
  qed
  with restored [of "package_logger L0" "package_logger L"] assms(2) show ?thesis
    by (simp add: close_session_def Ls session_ok_def)
qed

text \<open>Any sequence of calls of \<open>configure\<close>, accepted or not, is undone by \<open>close\<close>.\<close>

definition configure_all ::
  "(platform_paths \<times> pystr option \<times> bool \<times> pystr option) list \<Rightarrow> loggers \<times> logging_session \<Rightarrow> loggers \<times> logging_session" where
  "configure_all calls Ls = fold (\<lambda>(P, e, verbose, log_file) Ls. snd (configure P e verbose log_file Ls)) calls Ls"

lemma session_ok_configure_all: "session_ok L0 Ls \<Longrightarrow> session_ok L0 (configure_all calls Ls)"
proof (induction calls arbitrary: Ls)
  case (Cons c calls)
  obtain P e verbose log_file where c: "c = (P, e, verbose, log_file)" using prod_cases4 by blast
  have "session_ok L0 (snd (configure P e verbose log_file Ls))" using Cons.prems by (rule session_ok_configure)
  from Cons.IH [OF this] show ?case by (simp add: configure_all_def c)
qed (simp add: configure_all_def)

end
