(* ===== verification/Cli.thy ===== *)
theory Cli
  imports Cli_Registry Cli_Output Mounting Logging_Setup Sqlite_Import Listing_Import
begin

text \<open>
  \<open>snapshotfs.cli\<close>: the commands as compositions of the components, and the exit status and messages
  of a run. The parsing of the command line by click is not modelled: a command takes the parsed
  arguments. \<open>Session\<close> carries what is raised below the commands.
\<close>

section \<open>What ends a command\<close>

datatype cli_exn = Click_Exception int message | Import_Failed import_failure | Click_Abort | Session session_exn

text \<open>The exit code and the text; click prints a usage line before it.\<close>

definition usage_error :: "message \<Rightarrow> cli_exn" where
  "usage_error m = Click_Exception 2 m"

fun create_failure :: "create_exn \<Rightarrow> cli_exn" where
  "create_failure (Import_Failure f) = Import_Failed f"
| "create_failure (Import_Raised x) = Session (Py_Raised x)"

definition lift_exn :: "py_exn + 'a \<Rightarrow> cli_exn + 'a" where
  "lift_exn r = (case r of Inl x \<Rightarrow> Inl (Session (Py_Raised x)) | Inr y \<Rightarrow> Inr y)"

section \<open>Exit status and messages\<close>

fun has_substring :: "pystr \<Rightarrow> pystr \<Rightarrow> bool" where
  "has_substring needle [] \<longleftrightarrow> needle = []"
| "has_substring needle (c # s) \<longleftrightarrow> take (length needle) (c # s) = needle \<or> has_substring needle s"

text \<open>The hints for the codes of the diagnostics of a failed import.\<close>

definition import_hints :: "pystr list \<Rightarrow> message list" where
  "import_hints codes =
     (let has = (\<lambda>names. list_ex (\<lambda>c. c \<in> set (map lit names)) codes)
      in (if has [''DECODE_ERROR''] then
            [[Txt ''Set --encoding to the producer's encoding '', Txt ''(for example utf-8, cp1252, or utf-16).'']] else []) @
         (if has [''INVALID_LOCAL_TIME''] then
            [[Txt ''Check --source-timezone. Repeated DST times require '',
              Txt ''--ambiguous-time earlier or later; nonexistent times are rejected.'']] else []) @
         (if has [''INVALID_DATETIME'', ''INVALID_TIME'', ''MALFORMED_ENTRY''] then
            [[Txt ''Check --date-format mdy, dmy, or ymd against the source dates; '',
              Txt ''expected entries contain a date, time, <DIR> or size, and name.'']] else []) @
         (if has [''UNKNOWN_LINE'', ''MISSING_SECTION''] then
            [[Txt ''windows-dir requires English Windows dir /s output, including 'Directory of' headers; '',
              Txt ''localized output and UNC paths are unsupported.'']] else []) @
         (if list_ex (\<lambda>c. has_substring (lit ''SUMMARY'') c \<or> has_substring (lit ''FOOTER'') c \<or> has_substring (lit ''TOTAL_MISMATCH'') c) codes then
            [[Txt ''Keep the complete dir /s listing, including File(s), Dir(s), '',
              Txt ''and Total Files Listed summaries; do not trim or concatenate listings.'']] else []))"

definition import_report :: "import_failure \<Rightarrow> message list" where
  "import_report f =
     (let ds = failure_diagnostics f
      in map format_diagnostic ds @
         map (\<lambda>h. Txt ''hint: '' # h) (import_hints (map diag_code ds)) @
         (if failure_diagnostic_count f > length ds
          then [[Num (int (failure_diagnostic_count f)), Txt '' diagnostics observed; showing first '', Num (int (length ds))]]
          else []))"

text \<open>\<open>except (OSError, RuntimeError, RegistryError)\<close>, and the exceptions that are reported alike before it.\<close>

definition expected_exn :: "py_exn \<Rightarrow> bool" where
  "expected_exn x \<longleftrightarrow> os_or_runtime x \<or> (\<exists>m. x = registry_error m)"

definition error_line :: "bool \<Rightarrow> message \<Rightarrow> message" where
  "error_line expected m =
     Txt ''error: '' # m @ (if expected then [] else [Txt ''; see the log file or retry with --verbose''])"

text \<open>\<open>\_run\<close>: the exit status and the lines on the error stream; the value of a command counts when it is a number.\<close>

fun run_outcome :: "cli_exn + int option \<Rightarrow> int \<times> message list" where
  "run_outcome (Inr (Some n)) = (n, [])"
| "run_outcome (Inr None) = (0, [])"
| "run_outcome (Inl (Click_Exception code m)) = (code, [Txt ''Error: '' # m])"
| "run_outcome (Inl (Import_Failed f)) = (1, import_report f)"
| "run_outcome (Inl Click_Abort) = (130, [[Txt ''Aborted!'']])"
| "run_outcome (Inl (Session Keyboard_Interrupt)) = (130, [])"
| "run_outcome (Inl (Session (Py_Raised x))) = (1, [error_line (expected_exn x) (exn_text x)])"
| "run_outcome (Inl (Session Timeout_Expired)) = (1, [error_line False [Txt ''TimeoutExpired'']])"
| "run_outcome (Inl (Session Process_Lookup)) = (1, [error_line True [Txt ''ProcessLookupError'']])"

text \<open>
  \<open>main\<close>: a session around the run, which is closed whatever happens. The run is a function of the
  loggers and the session.
\<close>

definition cli_main ::
  "(loggers \<times> logging_session \<Rightarrow> (cli_exn + int option) \<times> loggers \<times> logging_session) \<Rightarrow> pystr list option \<Rightarrow>
    pystr list \<Rightarrow> bool \<Rightarrow> loggers \<Rightarrow> (int \<times> message list) \<times> loggers" where
  "cli_main invoke argv process_arguments custom L =
     (let s = (new_session L)\<lparr>ls_arguments := (case argv of Some a \<Rightarrow> a | None \<Rightarrow> process_arguments), ls_custom_registry := custom\<rparr>;
          (result, Ls) = invoke (L, s);
          (status, errors) = run_outcome result;
          log = (case ls_path (snd Ls) of
              Some p \<Rightarrow> if status \<notin> {0, 130} then [[Txt ''Diagnostic log: '', Str p]] else []
            | None \<Rightarrow> [])
      in ((status, errors @ log), fst (close_session Ls)))"

section \<open>The command groups\<close>

definition reserved_commands :: "pystr list" where
  "reserved_commands = map lit [''completion'', ''doctor'', ''run'', ''unmount'']"

fun add_groups :: "'c store_registration list \<Rightarrow> pystr list \<Rightarrow> py_exn + (pystr \<times> 'c) list" where
  "add_groups [] seen = Inr []"
| "add_groups (r # rs) seen =
     (if store_reg_name r \<in> set seen \<or> store_reg_name r \<in> set reserved_commands
      then Inl (registry_error [Txt ''duplicate or reserved store registration name '', Repr (store_reg_name r)])
      else map_ok ((#) (store_reg_name r, store_reg_command r)) (add_groups rs (store_reg_name r # seen)))"

text \<open>\<open>build\_cli\<close>: the built-in groups \<open>sqlite\<close> and \<open>memory\<close>, those of the registry, and the other commands.\<close>

definition build_cli :: "'c \<Rightarrow> 'c \<Rightarrow> (string \<Rightarrow> 'c) \<Rightarrow> ('i, 'c) registry \<Rightarrow> py_exn + (pystr \<times> 'c) list" where
  "build_cli sqlite memory command R =
     map_ok (\<lambda>groups. groups @ map (\<lambda>n. (lit n, command n)) [''completion'', ''doctor'', ''unmount'', ''run''])
       (add_groups (\<lparr>store_reg_name = lit ''sqlite'', store_reg_command = sqlite\<rparr> #
           \<lparr>store_reg_name = lit ''memory'', store_reg_command = memory\<rparr> # map snd (reg_stores R)) [])"

section \<open>Background mode\<close>

text \<open>The answer and the line that is printed when the mount runs in the background.\<close>

definition background_requested ::
  "world \<Rightarrow> logging_session option \<Rightarrow> bool \<Rightarrow> pystr \<Rightarrow> pystr \<Rightarrow> trace \<Rightarrow> ((cli_exn + bool \<times> message list) \<times> trace) option" where
  "background_requested W session background timeout mountpoint tr =
     (if \<not> background \<or> dict_get (w_environ W) WORKER_ENV = Some (lit ''1'') then Some (Inr (False, []), tr)
      else (case session of
          None \<Rightarrow> Some (Inl (usage_error [Txt ''background mode requires the default CLI registry'']), tr)
        | Some s \<Rightarrow>
            if ls_custom_registry s \<or> ls_arguments s = []
            then Some (Inl (usage_error [Txt ''background mode requires the default CLI registry'']), tr)
            else map_option (\<lambda>(a, tr). (case a of Inl e \<Rightarrow> Inl (Session e) | Inr path \<Rightarrow>
                Inr (True, [[Txt ''Mounted '', Str path, Txt '' in background'']]), tr))
              (next_do (start_background W (ls_arguments s) mountpoint timeout) (\<lambda>_. resolve_path W mountpoint) tr)))"

section \<open>The commands\<close>

definition create_components ::
  "('i, 'c) registry \<Rightarrow> pystr \<Rightarrow> pystr \<Rightarrow> arguments \<Rightarrow> cli_exn + 'i source \<times> 'i parser" where
  "create_components R source parser args =
     lift_exn (case create_source R source args of
         Inl x \<Rightarrow> Inl x
       | Inr s \<Rightarrow> map_ok (\<lambda>p. (s, p)) (create_parser R parser args))"

text \<open>
  The arguments that the two commands share, with those of the components. What
  \<open>background\_requested\<close> answered is a parameter, and so is the foreground mount, \<open>mount\_store\<close>.
\<close>

record mount_arguments =
  ma_source :: pystr
  ma_parser :: pystr
  ma_simulate :: bool
  ma_components :: arguments

type_synonym 'r mounter = "store \<Rightarrow> pystr \<Rightarrow> bool \<Rightarrow> cli_exn + 'r"

definition memory_mount ::
  "tzdb \<Rightarrow> pystr \<Rightarrow> datetime \<Rightarrow> ('i, 'c) registry \<Rightarrow> (cli_exn + bool) \<Rightarrow> unit mounter \<Rightarrow> mount_arguments \<Rightarrow> pystr \<Rightarrow> cli_exn + unit"
where
  "memory_mount db uuid now R requested mount args mountpoint =
     (case requested of
        Inl e \<Rightarrow> Inl e
      | Inr True \<Rightarrow> Inr ()
      | Inr False \<Rightarrow>
          (case create_components R (ma_source args) (ma_parser args) (ma_components args) of
             Inl e \<Rightarrow> Inl e
           | Inr (src, p) \<Rightarrow>
               (case create_memory_store db uuid now src p of
                  Inl x \<Rightarrow> Inl (create_failure x)
                | Inr s \<Rightarrow> mount (mem_object s) mountpoint (ma_simulate args))))"

text \<open>
  \<open>sqlite create\<close>; \<open>None\<close> when building the store does not return. The store is closed afterwards,
  which cannot fail.
\<close>

definition sqlite_create ::
  "text_codecs \<Rightarrow> tzdb \<Rightarrow> os \<Rightarrow> bool \<Rightarrow> database files \<Rightarrow> pystr \<Rightarrow> datetime \<Rightarrow> ('i, 'c) registry \<Rightarrow> (cli_exn + bool) \<Rightarrow>
    unit mounter \<Rightarrow> mount_arguments \<Rightarrow> pystr \<Rightarrow> bool \<Rightarrow> bool \<Rightarrow> pystr option \<Rightarrow> (cli_exn + unit) option" where
  "sqlite_create L db os parent_is_dir fs uuid now R requested mount args output overwrite background mountpoint =
     (if mountpoint = None \<and> ma_simulate args
      then Some (Inl (usage_error [Txt ''--simulate-missing-content requires --mount'']))
      else if background \<and> mountpoint = None
      then Some (Inl (usage_error [Txt ''--background requires --mount'']))
      else (case (if mountpoint \<noteq> None then requested else Inr False) of
          Inl e \<Rightarrow> Some (Inl e)
        | Inr True \<Rightarrow> Some (Inr ())
        | Inr False \<Rightarrow>
            (case create_components R (ma_source args) (ma_parser args) (ma_components args) of
               Inl e \<Rightarrow> Some (Inl e)
             | Inr (src, p) \<Rightarrow>
                 (case create_sqlite_store L db os parent_is_dir fs uuid now src p output overwrite of
                    Inl x \<Rightarrow> Some (Inl (create_failure x))
                  | Inr None \<Rightarrow> None
                  | Inr (Some s) \<Rightarrow>
                      Some (case mountpoint of
                          None \<Rightarrow> Inr ()
                        | Some mp \<Rightarrow> mount (sqlite_object s) mp (ma_simulate args))))))"

text \<open>\<open>sqlite mount\<close> and \<open>sqlite show\<close>; \<open>None\<close> when opening the artifact does not return.\<close>

definition sqlite_mount ::
  "text_codecs \<Rightarrow> (cli_exn + bool) \<Rightarrow> unit mounter \<Rightarrow> artifact_file \<Rightarrow> pystr \<Rightarrow> bool \<Rightarrow> (cli_exn + unit) option" where
  "sqlite_mount L requested mount snapshot mountpoint simulate =
     (case requested of
        Inl e \<Rightarrow> Some (Inl e)
      | Inr True \<Rightarrow> Some (Inr ())
      | Inr False \<Rightarrow>
          map_option (\<lambda>opened. case opened of
              Inl x \<Rightarrow> Inl (Session (Py_Raised x))
            | Inr s \<Rightarrow> mount (sqlite_object s) mountpoint simulate)
          (open_sqlite_store L snapshot))"

datatype shown_output = Tree "message list" | Document json

definition sqlite_show ::
  "text_codecs \<Rightarrow> tzdb \<Rightarrow> nat \<Rightarrow> artifact_file \<Rightarrow> bool \<Rightarrow> ((cli_exn + unit) \<times> shown_output option) option" where
  "sqlite_show L db room snapshot as_json =
     map_option (\<lambda>opened. case opened of
         Inl x \<Rightarrow> (Inl (Session (Py_Raised x)), None)
       | Inr s \<Rightarrow>
           if as_json then
             (case json_document db (sqlite_object s) of
                Inl x \<Rightarrow> (Inl (Session (Py_Raised x)), None)
              | Inr doc \<Rightarrow> (Inr (), Some (Document doc)))
           else (case print_tree room (sqlite_object s) of
                (Some x, out) \<Rightarrow> (Inl (Session (Py_Raised x)), Some (Tree out))
              | (None, out) \<Rightarrow> (Inr (), Some (Tree out))))
     (open_sqlite_store L snapshot)"

text \<open>\<open>run\<close>: the worker logs to the file of the session.\<close>

definition run_command ::
  "world \<Rightarrow> logging_session option \<Rightarrow> pystr \<Rightarrow> pystr list \<Rightarrow> bool \<Rightarrow> pystr \<Rightarrow> trace \<Rightarrow> ((cli_exn + int) \<times> trace) option" where
  "run_command W session snapshot command simulate timeout tr =
     (let options = (case session of
          Some s \<Rightarrow> (case ls_path s of Some p \<Rightarrow> [lit ''--log-file'', p] | None \<Rightarrow> [])
        | None \<Rightarrow> [])
      in map_option (\<lambda>(a, tr). (case a of Inl e \<Rightarrow> Inl (Session e) | Inr n \<Rightarrow> Inr n, tr))
           (run_mounted W snapshot command options simulate timeout tr))"

text \<open>
  \<open>doctor\<close>: one line per check, between the versions and the log in use; what a check raises ends the
  command after the first line.
\<close>

definition doctor ::
  "host \<Rightarrow> platform_paths \<Rightarrow> pystr \<Rightarrow> pystr \<Rightarrow> logging_session option \<Rightarrow> pystr option \<Rightarrow> (session_exn + int) \<times> message list"
where
  "doctor H P version python session mountpoint =
     (let header = [Txt ''SnapshotFS '', Str version, Txt '' | '', Str (h_system H), Txt '' | Python '', Str python]
      in case check_environment H mountpoint of
           Inl e \<Rightarrow> (Inl e, [header])
         | Inr checks \<Rightarrow>
             (Inr (doctor_status checks),
              [header] @ map check_line checks @
              [case (case session of Some s \<Rightarrow> ls_path s | None \<Rightarrow> None) of
                 Some path \<Rightarrow> [Txt ''Diagnostic log: '', Str path]
               | None \<Rightarrow> [Txt ''Default log: '', Str (default_log_path P), Txt '' (override with --log-file)''],
               [Txt ''Checks do not prove kernel/container mount permission; '',
                Txt ''an actual mount is the final check.'']]))"

section \<open>Exit statuses\<close>

text \<open>Only a command that did not raise exits with zero; an error of click carries its own code.\<close>

lemma run_outcome_zero:
  "fst (run_outcome r) = 0 \<longleftrightarrow> r = Inr None \<or> r = Inr (Some 0) \<or> (\<exists>m. r = Inl (Click_Exception 0 m))"
  by (cases r rule: run_outcome.cases) auto

section \<open>The session around a run\<close>

text \<open>A run that touches the loggers only by configuring its session leaves them as they were.\<close>

lemma main_restores_loggers:
  assumes known: "handlers_known L"
    and invoke: "\<And>Ls. \<exists>calls. snd (invoke Ls) = configure_all calls Ls"
  shows "package_logger (snd (cli_main invoke argv process_arguments custom L)) = package_logger L \<and>
    dependency_loggers (snd (cli_main invoke argv process_arguments custom L)) = dependency_loggers L"
proof -
  let ?s = "(new_session L)\<lparr>ls_arguments := (case argv of Some a \<Rightarrow> a | None \<Rightarrow> process_arguments), ls_custom_registry := custom\<rparr>"
  have "session_ok L (L, ?s)" using session_ok_new [of L] by (simp add: session_ok_def)
  moreover obtain calls where "snd (invoke (L, ?s)) = configure_all calls (L, ?s)" using invoke by blast
  ultimately have "session_ok L (snd (invoke (L, ?s)))" using session_ok_configure_all by metis
  from close_restores [OF known this] show ?thesis
    by (cases "invoke (L, ?s)") (auto simp: cli_main_def Let_def split: prod.split)
qed

section \<open>The names of the commands\<close>

lemma add_groups_iff:
  "(\<exists>cs. add_groups rs seen = Inr cs) \<longleftrightarrow>
     distinct (map store_reg_name rs) \<and> set (map store_reg_name rs) \<inter> (set seen \<union> set reserved_commands) = {}"
  by (induction rs arbitrary: seen) auto

lemma add_groups_names: "add_groups rs seen = Inr cs \<Longrightarrow> map fst cs = map store_reg_name rs"
  by (induction rs arbitrary: seen cs) (auto split: if_splits)

lemma build_cli_commands:
  assumes "build_cli sqlite memory command R = Inr commands"
  shows "distinct (map fst commands) \<and>
    map fst commands = lit ''sqlite'' # lit ''memory'' # map (store_reg_name \<circ> snd) (reg_stores R) @
      map lit [''completion'', ''doctor'', ''unmount'', ''run'']"
proof -
  let ?rs = "\<lparr>store_reg_name = lit ''sqlite'', store_reg_command = sqlite\<rparr> #
    \<lparr>store_reg_name = lit ''memory'', store_reg_command = memory\<rparr> # map snd (reg_stores R)"
  from assms obtain groups where g: "add_groups ?rs [] = Inr groups"
    "commands = groups @ map (\<lambda>n. (lit n, command n)) [''completion'', ''doctor'', ''unmount'', ''run'']"
    unfolding build_cli_def map_ok_eq_Inr by blast
  have names: "map fst groups = map store_reg_name ?rs" by (rule add_groups_names [OF g(1)])
  have "distinct (map store_reg_name ?rs)" "set (map store_reg_name ?rs) \<inter> set reserved_commands = {}"
    using add_groups_iff [of ?rs "[]"] g(1) by auto
  moreover have "distinct (map lit [''completion'', ''doctor'', ''unmount'', ''run''])" by simp
  moreover have "set reserved_commands = set (map lit [''completion'', ''doctor'', ''unmount'', ''run''])"
    by (auto simp: reserved_commands_def)
  ultimately have "distinct (map store_reg_name ?rs @ map lit [''completion'', ''doctor'', ''unmount'', ''run''])"
    by (simp only: distinct_append)
  moreover have "map fst commands = map store_reg_name ?rs @ map lit [''completion'', ''doctor'', ''unmount'', ''run'']"
    unfolding g(2) map_append names by simp
  ultimately show ?thesis by simp
qed

section \<open>Mounting a listing from memory\<close>

text \<open>
  With the default components, the store that is mounted shows exactly the entries of the listing file,
  which parsed without an error; in every other case the command ends before the mount.
\<close>

definition default_arguments :: "mount_arguments \<Rightarrow> bool" where
  "default_arguments args \<longleftrightarrow> ma_source args = lit ''file'' \<and> ma_parser args = lit ''windows-dir''"

lemma default_components:
  assumes R: "default_registry fs db cs = Inr R" and args: "default_arguments args"
    and c: "create_components R (ma_source args) (ma_parser args) (ma_components args) = Inr (src, p)"
  obtains path cfg where "dict_get (ma_components args) (lit ''input'') = Some path" "file_source fs path = Inr src"
    "p = windows_dir_parser db cs cfg"
proof -
  have s: "create_source R (ma_source args) (ma_components args) = file_factory fs (ma_components args)"
    and q: "create_parser R (ma_parser args) (ma_components args) = windows_dir_factory db cs (ma_components args)"
    using R args by (auto simp: default_registry_eq default_arguments_def create_source_def create_parser_def
        create_component_def default_sources_def default_parsers_def)
  with c have "file_factory fs (ma_components args) = Inr src" "windows_dir_factory db cs (ma_components args) = Inr p"
    by (auto simp: create_components_def lift_exn_def split: sum.splits)
  moreover from this(2) have "\<exists>cfg. p = windows_dir_parser db cs cfg"
    by (auto simp: windows_dir_factory_def split: sum.splits list.splits)
  ultimately show ?thesis
    using that by (auto simp: file_factory_def argument_def split: sum.splits option.splits)
qed

lemma memory_mount_shows_listing:
  assumes R: "default_registry fs db cs = Inr R" and args: "default_arguments args" and requested: "requested = Inr False"
  shows "(\<exists>e. \<forall>mount. memory_mount db uuid now R requested mount args mountpoint = Inl e) \<or>
    (\<exists>path cfg stream s t. dict_get (ma_components args) (lit ''input'') = Some path \<and>
      fs_open fs (path_text (path_root path) (path_parts path)) = Inr stream \<and>
      pr_error (dir_parse db cs cfg stream) = None \<and> \<not> coll_has_errors (pr_collector (dir_parse db cs cfg stream)) \<and>
      spec_all (spec_add db) (pr_entries (dir_parse db cs cfg stream)) start_tree = Inr t \<and>
      mem_store_ok s \<and> store_view (mem_object s) uuid = node_view uuid t \<and>
      (\<forall>mount. memory_mount db uuid now R requested mount args mountpoint = mount (mem_object s) mountpoint (ma_simulate args)))"
proof (cases "create_components R (ma_source args) (ma_parser args) (ma_components args)")
  case (Inl e)
  then show ?thesis by (simp add: memory_mount_def requested)
next
  case (Inr c)
  obtain src p where c: "c = (src, p)" by fastforce
  from default_components [OF R args] Inr c obtain path cfg where
    path: "dict_get (ma_components args) (lit ''input'') = Some path" "file_source fs path = Inr src"
      "p = windows_dir_parser db cs cfg" by metis
  show ?thesis
  proof (cases "create_memory_store db uuid now src p")
    case Inl_store: (Inl x)
    with Inr c show ?thesis by (simp add: memory_mount_def requested)
  next
    case Inr_store: (Inr s)
    then have "create_memory_store db uuid now src (windows_dir_parser db cs cfg) = Inr s" using path(3) by simp
    from listing_import [OF this] obtain stream t where st: "source_open src = Inr stream"
      "pr_error (dir_parse db cs cfg stream) = None" "\<not> coll_has_errors (pr_collector (dir_parse db cs cfg stream))"
      "spec_all (spec_add db) (pr_entries (dir_parse db cs cfg stream)) start_tree = Inr t"
      "mem_store_ok s" "store_view (mem_object s) uuid = node_view uuid t" by blast
    have "fs_open fs (path_text (path_root path) (path_parts path)) = Inr stream"
      using path(2) st(1) by (auto simp: file_source_def Let_def split: sum.splits)
    moreover have "memory_mount db uuid now R requested mount args mountpoint = mount (mem_object s) mountpoint (ma_simulate args)" for mount
      using Inr c Inr_store by (simp add: memory_mount_def requested)
    ultimately show ?thesis using path(1) st by blast
  qed
qed

section \<open>Creating and showing an artifact\<close>

text \<open>
  The artifact of a published import is opened again and printed: a line for every path of the
  imported tree in the order of the paths, and the report of its diagnostics.
\<close>

definition report_lines :: "text_codecs \<Rightarrow> diagnostic list \<Rightarrow> nat \<Rightarrow> message list" where
  "report_lines L ds n = map (format_diagnostic \<circ> stored_diagnostic L) ds @
    (if n > length ds
     then [[Num (int n), Txt '' diagnostics observed; showing first '', Num (int (length ds))]] else [])"

lemma represented_views:
  assumes rep: "sqlite_represents L db sn t ds n s" and r: "sqlite_nodes s 1 = Some r"
  shows "store_view (sqlite_object s) (node_snapshot_id r) = node_view (snapshot_id sn) t"
proof -
  from rep have ok: "sqlite_store_ok s" and view: "store_view (sqlite_object s) (snapshot_id sn) = node_view (snapshot_id sn) t"
    and sn: "sqlite_get_snapshot s (snapshot_id sn) = Inr (stored_snapshot L db sn)"
    by (simp_all add: sqlite_represents_def)
  obtain sn' where "sqlite_get_snapshot s (node_snapshot_id r) = Inr sn'"
    using sqlite.get_snapshot_law [OF ok r] by (auto simp: sqlite_object_def)
  then have "get_root (sqlite_object s) (node_snapshot_id r) = get_root (sqlite_object s) (snapshot_id sn)"
    using sn by (simp add: sqlite_object_def sqlite_get_root_def)
  then show ?thesis unfolding view [symmetric] store_view_def by simp
qed

lemma represented_report:
  assumes "sqlite_represents L db sn t ds n s"
  shows "print_report (sqlite_object s) = (None, report_lines L ds n)"
  using assms by (simp add: report_lines_def sqlite_represents_def sqlite_object_def print_report_def Let_def)

lemma represented_reopens:
  assumes "sqlite_represents L db sn t ds n s"
  shows "open_sqlite_store L (Database (ss_database s)) = Some (Inr s)"
  using assms by (cases s) (simp add: sqlite_represents_def sqlite_store_ok_def artifact_ok_def open_sqlite_store_ok)

lemma represented_shown:
  assumes rep: "sqlite_represents L db sn t ds n s"
  shows "if \<forall>path x. t path = Some x \<longrightarrow> mn_kind x = DIRECTORY \<longrightarrow> length path < room
    then \<exists>paths. sorted_wrt (<) paths \<and> set paths = {path. path \<noteq> [] \<and> t path \<noteq> None} \<and>
      sqlite_show L db' room (Database (ss_database s)) False = Some (Inr (), Some (Tree
        ([Txt ''/''] # map (path_line (node_view (snapshot_id sn) t)) paths @ report_lines L ds n)))
    else \<exists>out. sqlite_show L db' room (Database (ss_database s)) False =
      Some (Inl (Session (Py_Raised RecursionError)), Some (Tree out))"
proof -
  from rep have ok: "sqlite_store_ok s" by (simp add: sqlite_represents_def)
  obtain r where r: "sqlite_nodes s 1 = Some r" using tree_ok_root [OF sqlite.tree [OF ok]] by blast
  let ?v = "node_view (snapshot_id sn) t"
  have fit: "(\<forall>path x. ?v path = Some x \<longrightarrow> node_kind x = DIRECTORY \<longrightarrow> length path < room) \<longleftrightarrow>
    (\<forall>path x. t path = Some x \<longrightarrow> mn_kind x = DIRECTORY \<longrightarrow> length path < room)"
    by (force simp: node_view_def)
  have none: "?v path \<noteq> None \<longleftrightarrow> t path \<noteq> None" for path by (simp add: node_view_def)
  note p = shown_sqlite.print_tree_spec [OF ok r, of room, unfolded represented_views [OF rep r] fit none represented_report [OF rep]]
  show ?thesis
  proof (cases "\<forall>path x. t path = Some x \<longrightarrow> mn_kind x = DIRECTORY \<longrightarrow> length path < room")
    case True
    with p obtain paths where "sorted_wrt (<) paths" "set paths = {path. path \<noteq> [] \<and> t path \<noteq> None}"
      "print_tree room (sqlite_object s) = (None, [Txt ''/''] # map (path_line ?v) paths @ report_lines L ds n)"
      by (auto simp del: not_None_eq)
    then show ?thesis using True by (auto simp: sqlite_show_def represented_reopens [OF rep])
  next
    case False
    with p have "fst (print_tree room (sqlite_object s)) = Some RecursionError" by (simp only: if_False)
    then show ?thesis unfolding if_not_P [OF False]
      by (cases "print_tree room (sqlite_object s)") (simp add: sqlite_show_def represented_reopens [OF rep])
  qed
qed

text \<open>The document of the same artifact describes every node of it once.\<close>

lemma represented_document:
  assumes rep: "sqlite_represents L db sn t ds n s"
  shows "\<exists>doc ns. sqlite_show L db' room (Database (ss_database s)) True = Some (Inr (), Some (Document doc)) \<and>
    distinct ns \<and> set ns = {x. \<exists>i. sqlite_nodes s i = Some x} \<and>
    read_document doc = Some (map (\<lambda>x. (node_id x, node_parent_id x, node_mounted_name x, node_content x)) ns)"
proof -
  from rep have ok: "sqlite_store_ok s" by (simp add: sqlite_represents_def)
  obtain x xs where ns: "iter_nodes (sqlite_object s) = Inr (x # xs)" "sqlite_nodes s 1 = Some x" "distinct (x # xs)"
    "set (x # xs) = {y. \<exists>i. sqlite_nodes s i = Some y}"
    using sqlite.iter_nodes_law [OF ok] by (metis list.collapse)
  obtain sn' where sn': "get_snapshot (sqlite_object s) (node_snapshot_id x) = Inr sn'"
    using sqlite.get_snapshot_law [OF ok ns(2)] by blast
  have names: "\<forall>y \<in> set (x # xs). \<exists>name. decode_name (node_mounted_name y) = Inr name"
    unfolding ns(4) using shown_sqlite.name_decodes [OF ok] by blast
  have "diagnostics (sqlite_object s) = Inr (map (stored_diagnostic L) ds)" "diagnostic_count (sqlite_object s) = Inr (int n)"
    using rep by (simp_all add: sqlite_represents_def sqlite_object_def)
  from json_document_succeeds [OF ns(1) sn' names this] obtain doc where doc: "json_document db' (sqlite_object s) = Inr doc" ..
  then have "sqlite_show L db' room (Database (ss_database s)) True = Some (Inr (), Some (Document doc))"
    by (simp add: sqlite_show_def represented_reopens [OF rep])
  with json_document_nodes [OF ns(1) doc] ns(3,4) show ?thesis by blast
qed

end
