(* ===== verification/Command_Example.thy ===== *)
theory Command_Example imports Listing_Example Sqlite_Import_Example Session_Example Cli begin

text \<open>
  Concrete inputs of the command line: a file system with one listing, the arguments of a mount, a host
  on which mounting works until it is interrupted, and a published artifact.
\<close>

section \<open>A listing on disk\<close>

definition example_files :: "stream file_system" where
  "example_files = \<lparr>fs_cwd = lit ''/tmp'', fs_stat = (\<lambda>_. Inr 9), fs_open = (\<lambda>_. Inr example_stream)\<rparr>"

definition example_arguments :: mount_arguments where
  "example_arguments = \<lparr>ma_source = lit ''file'', ma_parser = lit ''windows-dir'', ma_simulate = False,
     ma_components = [(lit ''input'', lit ''l''), (lit ''encoding'', lit ''ascii''), (lit ''date_format'', lit ''mdy''),
       (lit ''source_timezone'', lit ''UTC''), (lit ''ambiguous_time'', lit ''reject'')]\<rparr>"

lemma example_components_created:
  assumes R: "default_registry example_files utc_db ascii_codecs = Inr R"
  obtains src where "create_components R (ma_source example_arguments) (ma_parser example_arguments)
      (ma_components example_arguments) = Inr (src, windows_dir_parser utc_db ascii_codecs listing_config)"
    "source_open src = Inr example_stream" "utf8_encode (source_uri src) \<noteq> None"
proof -
  have "as_uri (absolute_text (lit ''/tmp'') (lit ''l'')) = Inr (lit ''file:///tmp/l'')"
    by (simp add: as_uri_def absolute_text_def path_root_def path_parts_def path_text_def fsencode_def
        fs_unit_def quote_byte_def unreserved_def lit_def scalar_def surrogate_def utf8_units_def)
  then obtain src where src: "file_source example_files (lit ''l'') = Inr src" "source_open src = Inr example_stream"
    "source_uri src = lit ''file:///tmp/l''"
    by (simp add: file_source_def example_files_def Let_def map_ok_def)
  have "date_format_of (lit ''mdy'') = Inr MDY" by (simp add: date_format_of_def)
  moreover have "make_config utc_db (lit ''ascii'') MDY (lit ''UTC'') (lit ''reject'') = Inr listing_config"
    by (simp add: make_config_def listing_config_def source_zone_def utc_db_def)
  ultimately have "windows_dir_factory utc_db ascii_codecs (ma_components example_arguments) =
      Inr (windows_dir_parser utc_db ascii_codecs listing_config)"
    by (simp add: windows_dir_factory_def example_arguments_def argument_def)
  moreover have "file_factory example_files (ma_components example_arguments) = Inr src"
    using src(1) by (simp add: file_factory_def example_arguments_def argument_def)
  ultimately have "create_components R (ma_source example_arguments) (ma_parser example_arguments)
      (ma_components example_arguments) = Inr (src, windows_dir_parser utc_db ascii_codecs listing_config)"
    using R by (auto simp: default_registry_eq create_components_def create_source_def create_parser_def
        create_component_def default_sources_def default_parsers_def lift_exn_def map_ok_def example_arguments_def)
  moreover have "utf8_encode (source_uri src) \<noteq> None" unfolding src(3) by (simp add: utf8_eval)
  ultimately show thesis using src(2) that by blast
qed

lemma example_memory_mount:
  assumes R: "default_registry example_files utc_db ascii_codecs = Inr R"
  shows "memory_mount utc_db (lit ''id'') noon R (Inr False) (\<lambda>_ _ _. Inr ()) example_arguments (lit ''/mnt'') = Inr ()"
proof -
  obtain src where src: "create_components R (ma_source example_arguments) (ma_parser example_arguments)
      (ma_components example_arguments) = Inr (src, windows_dir_parser utc_db ascii_codecs listing_config)"
    "source_open src = Inr example_stream" "utf8_encode (source_uri src) \<noteq> None"
    by (rule example_components_created [OF R])
  with listing_created_from [OF src(2,3)] show ?thesis by (auto simp: memory_mount_def)
qed

section \<open>A host\<close>

definition example_host :: host where
  "example_host = \<lparr>h_system = lit ''Linux'', h_import = (\<lambda>_. Inr ()), h_helper = Some (lit ''/usr/bin/fusermount3''),
     h_device_exists = True, h_device_access = True, h_is_dir = (\<lambda>_. Inr True), h_ismount = (\<lambda>_. False),
     h_occupied = (\<lambda>_. Inr False), h_dir_access = (\<lambda>_. True), h_ready_fd = None, h_init = (\<lambda>_. Inr ()),
     h_write = (\<lambda>_. Inr ()), h_close = (\<lambda>_. Inr ()), h_main = (\<lambda>_. Inl Keyboard_Interrupt),
     h_close_fuse = (\<lambda>_. Inr ())\<rparr>"

lemma example_mount_run:
  obtains tr' where "mount_snapshot example_host (mem_object example_store) (lit ''/mnt'') False [] =
      (Inl Keyboard_Interrupt, tr')" "h_init example_host [] = Inr ()" "tr' \<noteq> []" "tr' \<noteq> [Init_Fuse (lit ''/mnt'')]"
  using example_mount_init
  by (simp add: mount_snapshot_def mount_guards_def serve_def announce_def example_host_def Let_def)

section \<open>A run\<close>

definition example_loggers :: loggers where
  "example_loggers = \<lparr>package_logger = \<lparr>log_level = 0, log_propagate = True, log_handlers = [0]\<rparr>,
     dependency_loggers = replicate 2 \<lparr>log_level = 30, log_propagate = True, log_handlers = []\<rparr>, next_handler = 1\<rparr>"

definition example_run :: "loggers \<times> logging_session \<Rightarrow> (cli_exn + int option) \<times> loggers \<times> logging_session" where
  "example_run Ls = (Inl Click_Abort, snd (configure \<lparr>pp_linux = True, pp_state_home = None, pp_home = lit ''/root'',
     pp_app_dir = [], pp_expanduser = id\<rparr> None True None Ls))"

section \<open>A published artifact\<close>

lemma example_sqlite_finished:
  obtains b s b' where "sqlite_usable example_codecs utc_db example_snapshot b" "sqlite_view example_codecs b = start_tree"
    "sqlite_finish example_codecs example_os [] (Some 0) b = Some (Inr s, b')"
    "sqlite_represents example_codecs utc_db example_snapshot start_tree [] 0 s"
proof -
  have "(Map.empty :: database files) (lit ''artifact'') = None \<or> False" by simp
  from sqlite_init_usable [where destination = "lit ''artifact''", OF example_snapshot_storable example_codecs_ok this
      example_os_temporary]
  obtain b where b: "sqlite_usable example_codecs utc_db example_snapshot b" "sqlite_view example_codecs b = start_tree"
    "sb_files b = [lit ''temporary'' \<mapsto> empty_database]" "sb_destination b = lit ''artifact''" "\<not> sb_overwrite b"
    by (metis start_tree_def)
  then obtain t where t: "sb_temporary b = Some t" "t \<noteq> lit ''artifact''" by (auto simp: sqlite_usable_def)
  have ds: "reportable example_codecs [] 0" by (simp add: reportable_def)
  have ok: "\<exists>fs. publish example_os t (lit ''artifact'') False ([lit ''temporary'' \<mapsto> empty_database](t \<mapsto> d)) = (None, fs)" for d
    using t(2) by (simp add: publish_def move_into_place_def example_os_def lit_def)
  obtain d result b' where f: "sqlite_finish example_codecs example_os [] (Some 0) b = Some (result, b')"
    "case publish example_os (the (sb_temporary b)) (sb_destination b) (sb_overwrite b)
        ((sb_files b)(the (sb_temporary b) \<mapsto> d)) of
      (Some x, fs) \<Rightarrow> result = Inl x
    | (None, fs) \<Rightarrow> fs (sb_destination b) = Some d \<and> sb_files b' = fs \<and> (\<exists>s. result = Inr s \<and> ss_database s = d \<and>
        sqlite_represents example_codecs utc_db example_snapshot (sqlite_view example_codecs b) [] 0 s)"
    by (rule sqlite_finish_spec [where os = example_os, OF b(1) example_codecs_ok ds])
  from ok [of d] obtain fs where "publish example_os (the (sb_temporary b)) (sb_destination b) (sb_overwrite b)
      ((sb_files b)(the (sb_temporary b) \<mapsto> d)) = (None, fs)" using b(3-5) t(1) by auto
  with f(2) b(2) obtain s where "result = Inr s" "sqlite_represents example_codecs utc_db example_snapshot start_tree [] 0 s"
    by auto
  with f(1) show thesis using that [OF b(1,2)] by simp
qed

lemma example_represented:
  obtains s where "sqlite_represents example_codecs utc_db example_snapshot start_tree [] 0 s"
  by (rule example_sqlite_finished)

end
