(* ===== verification/Spec2Isabelle.thy ===== *)
theory Spec2Isabelle
  imports Dir_Diagnostics Decoding_Text Grammar_Print Command_Example
begin

text \<open>
  SnapshotFS imports a recorded listing of a file system (the output of the Windows command
  \<open>dir /s\<close>) into a store, in memory or as a SQLite artifact, and mounts the store as a read-only
  FUSE file system. This development models the Python package \<open>snapshotfs\<close> (under
  \<open>src/src/snapshotfs\<close>) and states its properties C1 to C40; the other theories hold the models and
  the lemmas the properties rest on.

  \<^bold>\<open>Conventions.\<close> A Python string is a list of code points (\<open>pystr\<close>), bytes are a list of 8-bit
  words, an integer is unbounded, a \<open>dict\<close> is an association list in insertion order, a dataclass
  is a record and its \<open>__post_init__\<close> a function into \<open>py_exn + record\<close>; a raised exception is the
  left side of a sum. An object with mutable state is a record that its methods take and return.
  The text of a message is a list of fragments, as in an f-string, since \<open>repr\<close> of an arbitrary
  string needs the tables of the Unicode standard.

  \<^bold>\<open>Theories and code.\<close>
    \<^item> \<open>Prelude\<close>: strings, bytes, dictionaries, slices, results. \<open>Py_Datetime\<close>, \<open>Py_Text\<close>, \<open>Py_Codecs\<close>
      and \<open>Py_Re\<close>: what the code uses of the standard library (dates and \<open>isoformat\<close>, string
      methods, UTF-8 and UTF-16 with their error positions, a backtracking matcher for the regular
      expressions). The time zone database, code page tables and codec aliases are parameters.
    \<^item> \<open>Model\<close>: \<open>model/\<close>. \<open>Diagnostics\<close>: \<open>diagnostics.py\<close>. \<open>Building\<close>: \<open>store/building.py\<close>, with the
      specification of merging all observations of a path. \<open>Store_Interface\<close>: \<open>store/base.py\<close>, and the
      contract of a store as the locale \<open>snapshot_store\<close>. \<open>Timestamps\<close>: \<open>timestamps.py\<close>.
    \<^item> \<open>Node_Tree\<close> and \<open>Tree_Refinement\<close>: the tree both builders grow, indexed by inode, its
      invariant \<open>builder_tree\<close>, and the specification \<open>spec_add\<close>, which adds an entry to a map from
      paths to nodes; the loop over inodes refines it. \<open>Finished_Tree\<close>: the nodes of a finished tree,
      and that a store over them shows it.
    \<^item> \<open>Memory_Store\<close>: \<open>store/memory/\<close>; its store interprets \<open>snapshot_store\<close>. \<open>Import_Service\<close>:
      \<open>import_service.py\<close>, with the contract of a builder as the locale \<open>snapshot_builder\<close>.
    \<^item> \<open>Sqlite_Schema\<close>, \<open>Sqlite_Contract\<close>, \<open>Sqlite_Codec\<close>, \<open>Sqlite_Query\<close>, \<open>Sqlite_Validation\<close>,
      \<open>Sqlite_Store\<close> and \<open>Sqlite_Artifact\<close>: the modules of \<open>store/sqlite/\<close>. A table is a list of rows of
      typed cells, a \<open>WHERE\<close> condition a predicate on rows, a recursive query a partial function that
      is \<open>None\<close> when it does not return. \<open>Sqlite_Soundness\<close> shows that a validated artifact whose metadata
      can be read is a tree and interprets \<open>snapshot_store\<close> on it. \<open>Sqlite_Reading\<close> shows what every
      artifact that can be opened gives its readers, with any metadata.
    \<^item> \<open>Sqlite_Builder\<close>: \<open>builder.py\<close>, \<open>schema.py\<close>. \<open>Sqlite_Refinement\<close>: the table of nodes refines the
      tree of nodes, where a stored node is what its row reads back as. \<open>Sqlite_Finish\<close>: the finished
      artifact passes the validation and shows the tree. \<open>Sqlite_Import\<close>: \<open>create_sqlite_store\<close>, and
      the builder interprets \<open>snapshot_builder\<close>. \<open>Sqlite_Agreement\<close>: both stores agree.
    \<^item> \<open>Decoding\<close> and \<open>Decoding_Chunks\<close>: \<open>decoding.py\<close> and its independence of the reads;
      \<open>Decoding_Text\<close>: texts it reads back as they were written. \<open>Grammar\<close>, \<open>Dir_Parser\<close>:
      \<open>parser/windows_dir/\<close>; \<open>Dir_Invariants\<close> and \<open>Grammar_Print\<close>: what the parser guarantees of its
      entries and totals, and the printer its lines round trip with. \<open>Dir_Diagnostics\<close>: runs that differ
      in the limit of their collector, through the locale \<open>collector_view\<close>.
      \<open>Listing_Import\<close> composes the parser with the import into memory.
    \<^item> \<open>Read_Policy\<close>: \<open>fuse/policy.py\<close>. \<open>Fuse_Operations\<close>: \<open>fuse/adapter/operations.py\<close> and
      \<open>read_only.py\<close>, as handlers over any store and the relation \<open>fuse_step\<close>; \<open>Mounted_Memory\<close> and
      \<open>Mounted_Sqlite\<close> interpret the adapter's invariant on both stores. \<open>Mounting\<close>:
      \<open>fuse/__init__.py\<close>, \<open>fuse/adapter/mount.py\<close> and the checks of \<open>doctor.py\<close>.
    \<^item> \<open>Mount_Table\<close>: the reading of \<open>/proc/self/mountinfo\<close> in \<open>mount_session.py\<close>, against the way the
      kernel writes it. \<open>Session_World\<close> and \<open>Mount_Session\<close>: the rest of that module; \<open>Session_Safety\<close>
      and \<open>Session_Cleanup\<close>: what a background mount and a temporary mount leave behind. An operation appends its system calls to a trace, and a \<open>world\<close> answers each call as a function of
      the trace before it, so that the environment may do anything at any time, signals included.
    \<^item> \<open>File_Source\<close>: \<open>source/file.py\<close>. \<open>Logging_Setup\<close>: \<open>logging_setup.py\<close>. \<open>Cli_Registry\<close>:
      \<open>cli_registry.py\<close>. \<open>Cli_Output\<close>: \<open>cli_output.py\<close>, with the locale \<open>inspected_store\<close> for the stores
      it prints and the reader of its document. \<open>Cli\<close>: \<open>cli.py\<close> and the command \<open>doctor\<close>.
    \<^item> \<open>Examples\<close>, \<open>Listing_Example\<close>, \<open>Sqlite_Example\<close>, \<open>Sqlite_Import_Example\<close>, \<open>Session_Example\<close> and
      \<open>Command_Example\<close>: concrete inputs for the witnesses.

  \<^bold>\<open>Assumptions on what is not in the source.\<close> \<open>codecs_ok\<close>: \<open>json\<close> writes and
  reads the empty object. \<open>time_ok\<close> and \<open>metadata_ok\<close>: the text written for a time or for metadata is read
  back as a value that is written alike. \<open>snapshot_storable\<close>, \<open>reportable\<close> and \<open>sqlite_importable\<close>: that, and
  that numbers and texts fit the columns. \<open>times_comparable\<close>: a stored time compares like the original. \<open>engine_enforces\<close>: SQLite keeps the primary keys and
  unique indexes that the catalogue of the artifact declares, whatever they are, and its texts are Unicode;
  that they are the ones of the schema is checked by the modelled validation. \<open>engine_ok\<close>, for an artifact
  that has not been validated yet (C12): inodes are distinct 64-bit numbers and siblings have distinct
  names. \<open>calm\<close>: while processes are stopped nothing raises but what the code handles. \<open>time_passes\<close>: the clock advances while
  the process sleeps. \<open>mount_ok\<close>: the kernel's entries have no white space but what it escapes.

  \<^bold>\<open>Bounds.\<close> The loops over streams and lists recurse structurally or with a measure. The recursive
  SQL query and the wait for an unmount are partial functions whose termination is itself a property.
  Only \<open>visit\<close>, which prints a tree, has fuel, since the code has it too: the number of nested calls that
  the recursion limit leaves; C6 says what happens with enough and with too little.

  \<^bold>\<open>Not modelled.\<close> The logging calls and the format of their records; the locks (a handler or method is
  one step); the parsing of the command line, help texts and shell completion, which click does; the
  rendering of the JSON document as text; the command's own use of the mount; the pragmas of the
  connection and a full disk; the generator of the command reference under \<open>scripts\<close>, which walks the
  command objects of click; the modules that only re-export names.
\<close>

section \<open>Importing\<close>

text \<open>
  C1: an import into memory of any parser's entries does exactly what the path-indexed
  specification says: it publishes a store that represents the specified tree when neither the
  parser nor the specification reports an error, and otherwise fails with the parser's
  diagnostics, extended by the first conflict.
\<close>
theorem memory_import_meets_specification:
  assumes sn: "make_snapshot \<lparr>snapshot_id = uuid, snapshot_source_uri = source_uri src,
      snapshot_source_format = parser_format_name p, snapshot_imported_at = now,
      snapshot_source_metadata = parser_source_metadata p\<rparr> = Inr sn"
    and r: "source_open src = Inr stream" "parser_parse p stream = Inr r" "pr_error r = None"
      "list_all entry_ok (pr_entries r)"
  shows "case spec_all (spec_add db) (pr_entries r) start_tree of
      Inl d \<Rightarrow> create_memory_store db uuid now src p =
        Inl (Import_Failure (make_import_failure
          (with_build_diagnostic d (coll_items (pr_collector r))) (Some (coll_total (pr_collector r) + 1))))
    | Inr t \<Rightarrow>
        if coll_has_errors (pr_collector r)
        then create_memory_store db uuid now src p =
          Inl (Import_Failure (make_import_failure (coll_items (pr_collector r))
            (Some (coll_total (pr_collector r)))))
        else \<exists>s. create_memory_store db uuid now src p = Inr s \<and>
          mem_represents sn t (coll_items (pr_collector r)) (coll_total (pr_collector r)) s"
  using create_memory_store_spec [OF sn r] .

lemma memory_import_meets_specification_witness:
  "\<exists>s t. create_memory_store utc_db (lit ''id'') noon example_source example_parser = Inr s \<and>
     mem_represents example_snapshot t [] 0 s"
proof -
  from example_spec_all obtain t where
    t: "spec_all (spec_add utc_db) [example_header, example_entry] start_tree = Inr t" ..
  show ?thesis
    using memory_import_meets_specification [OF example_make_snapshot, of "()" example_result utc_db] t
    by (auto simp: example_source_def example_parser_def example_result_def new_collector_def)
qed

text \<open>
  C7: adding an entry to the in-memory builder refines the path-indexed specification: the
  builder and the specification agree on which entries are rejected and with which diagnostic,
  and an accepted entry leaves the builder with exactly the specified tree.
\<close>
theorem memory_add_refines_specification:
  assumes "mem_ok b" "\<not> mb_finished b" "entry_ok e"
  shows "case (mem_add db e b, spec_add db e (mem_view b)) of
      ((err, b'), Inl d) \<Rightarrow> err = Some (Build_Error d)
    | ((err, b'), Inr t) \<Rightarrow> err = None \<and> mem_view b' = t"
  using mem_add_spec(1) [OF assms, of db "fst (mem_add db e b)" "snd (mem_add db e b)"]
  by (auto split: sum.splits prod.splits)

lemma memory_add_refines_specification_witness:
  "spec_add utc_db example_entry (mem_view (mem_init example_snapshot)) = Inr (mem_view example_builder)"
proof -
  have "\<not> mb_finished (mem_init example_snapshot)" by (simp add: mem_init_def)
  from memory_add_refines_specification [OF mem_ok_init this, of example_entry utc_db] show ?thesis
    by (simp add: example_add split: sum.splits)
qed

text \<open>
  C13: every call of the in-memory builder keeps its invariant: consecutive inodes, one
  dictionary of children per node, every node below a directory that is older than it, siblings
  with distinct names, and original paths that spell the mounted path; a rejected entry
  included.
\<close>
theorem memory_add_keeps_invariant:
  assumes "mem_ok b" "entry_ok e"
  shows "mem_ok (snd (mem_add db e b))"
  using assms by (rule mem_add_ok)

lemma memory_add_keeps_invariant_witness: "mem_ok (snd (mem_add utc_db example_header example_builder))"
  by (rule memory_add_keeps_invariant [OF example_builder_ok(1)]) simp

text \<open>
  Publication never fails on a builder that was not finished: each builder node passes the
  validation of the published node, the published store is well formed, and it shows, path by
  path, the tree of the builder.
\<close>
theorem memory_finish_publishes:
  assumes "mem_ok b" "\<not> mb_finished b"
  shows "\<exists>s. mem_finish ds count b = (Inr s, b\<lparr>mb_finished := True\<rparr>) \<and> mem_store_ok s \<and>
    store_view (mem_object s) (snapshot_id (mb_snapshot b)) =
      node_view (snapshot_id (mb_snapshot b)) (mem_view b)"
proof -
  obtain s where s: "mem_finish ds count b = (Inr s, b\<lparr>mb_finished := True\<rparr>)"
    using mem_finish_eq [OF assms, of ds count] by blast
  with mem_finish_ok [OF assms s] mem_finish_view [OF assms s] show ?thesis by blast
qed

text \<open>
  C21: the children of a node are listed in strictly increasing byte order of their names, all of
  them and nothing else, and a listing from an offset is the tail of the full listing.
\<close>
theorem memory_children_sorted_and_complete:
  assumes "mem_store_ok s" "mem_store_nodes s p \<noteq> None"
  shows "\<exists>cs. children_of (mem_store_nodes s) p cs \<and>
    (\<forall>off. mem_iter_children s p off = Inr (slice_from cs off))"
  using assms by (rule mem_iter_children_ok)

lemma memory_children_sorted_and_complete_witness:
  "\<exists>cs. children_of (mem_store_nodes example_store) 2 cs \<and> mem_iter_children example_store 2 0 = Inr cs"
  using memory_children_sorted_and_complete [OF example_store_ok, of 2]
  by (fastforce simp: example_store_nodes example_builder_nodes)

text \<open>A name is found in a directory exactly when a node of that name is listed in it.\<close>
theorem memory_lookup_iff_listed:
  assumes "mem_store_ok s" "mem_store_nodes s p \<noteq> None"
  shows "mem_lookup s p name = Inr (Some n) \<longleftrightarrow>
    (\<exists>cs. mem_iter_children s p 0 = Inr cs \<and> n \<in> set cs \<and> node_mounted_name n = name)"
  using mem.lookup_iff_listed [OF assms] by (simp add: mem_object_def)

text \<open>
  C4: a directory listing that is published has been read to its end without an error, and the
  published store is well formed and shows exactly the tree specified by the emitted entries.
\<close>
theorem published_listing_is_faithful:
  assumes "create_memory_store db uuid now src (windows_dir_parser db cs cfg) = Inr s"
  shows "\<exists>stream t. source_open src = Inr stream \<and> pr_error (dir_parse db cs cfg stream) = None \<and>
    \<not> coll_has_errors (pr_collector (dir_parse db cs cfg stream)) \<and>
    spec_all (spec_add db) (pr_entries (dir_parse db cs cfg stream)) start_tree = Inr t \<and>
    mem_store_ok s \<and> store_view (mem_object s) uuid = node_view uuid t"
  using assms by (rule listing_import)

lemma published_listing_is_faithful_witness:
  "\<exists>s t. spec_all (spec_add utc_db) listing_entries start_tree = Inr t \<and>
     store_view (mem_object s) (lit ''id'') = node_view (lit ''id'') t"
proof -
  from listing_created obtain s where "create_memory_store utc_db (lit ''id'') noon listing_source
     (windows_dir_parser utc_db ascii_codecs listing_config) = Inr s" ..
  from published_listing_is_faithful [OF this] show ?thesis
    by (auto simp: listing_source_def example_parse)
qed

section \<open>Paths and merging\<close>

text \<open>
  C15: the path of an entry is accepted exactly when it is non-empty and every component is a
  mountable name: not empty, not a dot name, without NUL and slash, valid Unicode, and at most
  255 bytes in UTF-8, which are the mounted name; everything else is an \<open>INVALID_PATH\<close>
  diagnostic at the entry's line.
\<close>
theorem components_accepts_exactly_mountable_paths:
  "(case components e of
      Inr names \<Rightarrow> entry_path e \<noteq> [] \<and> list_all2 mounts_as (entry_path e) names
    | Inl d \<Rightarrow> \<not> (entry_path e \<noteq> [] \<and> (\<exists>names. list_all2 mounts_as (entry_path e) names)) \<and>
        diag_severity d = ERROR \<and> diag_code d = lit ''INVALID_PATH'' \<and> diag_line_number d = entry_source_line e)"
proof (cases "components e")
  case (Inl d)
  moreover from this have "\<not> (entry_path e \<noteq> [] \<and> list_all2 mounts_as (entry_path e) names)" for names
    using components_iff [of e names] by auto
  moreover from Inl obtain m where "d = invalid_path e m" using components_error by blast
  ultimately show ?thesis by (auto simp: invalid_path_def error_diag_def)
next
  case (Inr names)
  then have "entry_path e \<noteq> [] \<and> list_all2 mounts_as (entry_path e) names"
    by (rule components_iff [THEN iffD1])
  then show ?thesis unfolding Inr sum.case .
qed

text \<open>Entries with different paths never get the same mounted names.\<close>
theorem components_injective:
  assumes "components e = Inr names" "components e' = Inr names"
  shows "entry_path e = entry_path e'"
  using assms mounts_as_all_inj by (auto simp: components_iff)

text \<open>
  C14: merging the observations of one path into a fresh node succeeds exactly when all of them
  agree with the one the node then shows: for a directory the first entry that is not a section
  header, else the first observation; files agree in size, time and content, directories in time.
\<close>
theorem merging_shows_first_observation:
  assumes "es \<noteq> []" "mn_observation n = None"
  shows "merge_all db n es = Inr n' \<longleftrightarrow>
    (\<forall>e \<in> set es. observation_agrees db (mn_kind n) (shown_observation (mn_kind n) es) e) \<and>
    n' = apply_entry n (shown_observation (mn_kind n) es)"
  using assms by (rule merge_all_observations)

lemma merging_shows_first_observation_witness:
  "merge_all utc_db (new_mutable_node 3 (Some 2) [97] (Some [67, 47, 97]) FILE) [example_entry, example_entry] =
     Inr example_file"
  using merging_shows_first_observation [of "[example_entry, example_entry]"
      "new_mutable_node 3 (Some 2) [97] (Some [67, 47, 97]) FILE" utc_db example_file]
  by (simp add: observation_agrees_def shown_observation_simps example_file_def)

section \<open>Domain objects\<close>

text \<open>
  Freezing JSON-like metadata succeeds, thawing gives back the value that was frozen, and
  freezing again changes nothing.
\<close>
theorem metadata_freeze_thaw_round_trip:
  assumes "json_items m"
  shows "\<exists>m'. freeze_metadata m = Inr m' \<and> thaw_metadata m' = m \<and> freeze_metadata m' = Inr m'"
  using freeze_thaw(2) [OF assms] freeze_metadata_idem [of m] by (auto simp: freeze_metadata_def)

text \<open>
  C36: a node is accepted exactly when its metadata can be frozen and its content fields are
  consistent: directories have none; a file's size is not negative, its inline content has the
  declared size, is present and unreferenced, an empty file has it, and without inline content a
  non-empty reference is there exactly for present and remote content.
\<close>
theorem node_accepted_iff_content_consistent:
  "(\<exists>n'. make_node n = Inr n') \<longleftrightarrow>
     content_ok (node_kind n) (node_size n) (node_content n) (node_content_status n) (node_content_ref n) \<and>
     (\<exists>m. freeze_metadata (node_source_metadata n) = Inr m)"
  by (rule make_node_iff)

section \<open>Diagnostics\<close>

text \<open>
  A collector counts every diagnostic, remembers whether one was an error, and retains
  exactly the first ones up to its limit, each with the excerpt of its line.
\<close>
theorem collector_retains_bounded_prefix:
  "let c = observe_line number line (new_collector n)
   in coll_items (add_all ds c) = take n (map (with_context c) ds) \<and>
      coll_total (add_all ds c) = length ds \<and>
      (coll_has_errors (add_all ds c) \<longleftrightarrow> (\<exists>d \<in> set ds. diag_severity d = ERROR))"
  using add_all_items [of "observe_line number line (new_collector n)" ds]
    add_all_fields [of ds "observe_line number line (new_collector n)"]
  by (simp add: Let_def new_collector_def)

text \<open>
  C40: the diagnostic of a failed build is always among the reported ones, the list stays
  within its bound, and no error of the parser is dropped for it unless all retained
  diagnostics are errors and the list is full.
\<close>
theorem build_diagnostic_is_reported:
  assumes "length ds \<le> MAX_DIAGNOSTICS"
  shows "d \<in> set (with_build_diagnostic d ds) \<and>
    length (with_build_diagnostic d ds) = min MAX_DIAGNOSTICS (length ds + 1) \<and>
    (length ds < MAX_DIAGNOSTICS \<or> WARNING \<in> diag_severity ` set ds \<longrightarrow>
       (\<forall>e \<in> set ds. diag_severity e = ERROR \<longrightarrow> e \<in> set (with_build_diagnostic d ds)))"
  using assms with_build_diagnostic_in with_build_diagnostic_length with_build_diagnostic_keeps
  by (metis imageE)

definition example_warning :: diagnostic where
  "example_warning = (error_diag ''W'' [] None)\<lparr>diag_severity := WARNING\<rparr>"

lemma build_diagnostic_is_reported_witness:
  "invalid_path example_entry ''m'' \<in>
     set (with_build_diagnostic (invalid_path example_entry ''m'') (replicate MAX_DIAGNOSTICS example_warning)) \<and>
   length (with_build_diagnostic (invalid_path example_entry ''m'') (replicate MAX_DIAGNOSTICS example_warning)) = MAX_DIAGNOSTICS"
  using build_diagnostic_is_reported [of "replicate MAX_DIAGNOSTICS example_warning" "invalid_path example_entry ''m''"]
  by simp

section \<open>Time zones\<close>

text \<open>
  C34: where the zone's clock can be converted, \<open>localize\<close> keeps the wall clock, puts it in the
  zone, and denotes one of the instants at which the zone's clock shows it: the later one for
  \<open>later\<close>, the earlier one otherwise, and with \<open>reject\<close> only when there is just one; it fails with
  a \<open>ValueError\<close> exactly when there is none or, rejecting, two.
\<close>
theorem localize_selects_instant:
  assumes "convertible db key v"
  shows "case localize db v key ambiguous of
      Inl x \<Rightarrow> (\<exists>m. x = ValueError m) \<and>
        (instants db key v = {} \<or> card (instants db key v) = 2 \<and> ambiguous = lit ''reject'')
    | Inr t \<Rightarrow> \<exists>i \<in> instants db key v. localized db key v t i \<and>
        i = (if ambiguous = lit ''later'' then Max (instants db key v) else Min (instants db key v)) \<and>
        (ambiguous = lit ''reject'' \<longrightarrow> instants db key v = {i})"
  using assms by (rule localize_cases)

lemma example_convertible: "convertible utc_db (lit ''Azores'') noon"
  by (simp add: convertible_def candidate_instant_def in_range_def utc_db_def noon_def dt_wall_def
      ymd_ordinal_def days_before_year_def days_before_month_def days_in_month_def is_leap_def
      min_wall_def max_wall_def eval_nat_numeral)

lemma localize_selects_instant_witness:
  "\<exists>t. localize utc_db noon (lit ''Azores'') (lit ''reject'') = Inr t \<and> dt_wall t = dt_wall noon"
proof -
  have "instants utc_db (lit ''Azores'') noon = {dt_wall noon + 3600000000}"
    by (auto simp: instants_def utc_db_def candidate_instant_def)
  with localize_selects_instant [OF example_convertible, of "lit ''reject''"] show ?thesis
    by (auto simp: localized_def split: sum.splits)
qed

section \<open>Decoding\<close>

text \<open>
  C33: how the input is cut into reads does not matter: two streams with the same bytes before
  their end and the same end decode to the same lines and the same outcome, for every encoding
  and every limit.
\<close>
theorem decoding_independent_of_reads:
  assumes "same_bytes s s'"
  shows "iter_decoded_lines cs s encoding limit = iter_decoded_lines cs s' encoding limit"
  using assms by (rule iter_decoded_lines_same)

lemma decoding_independent_of_reads_witness:
  "\<forall>cs. iter_decoded_lines cs (Stream [[97, 13], [10, 98]] None) (lit ''utf-8'') 9 =
     iter_decoded_lines cs (Stream [[97], [13, 10], [98], []] None) (lit ''utf-8'') 9"
  by (intro allI decoding_independent_of_reads)
    (simp add: same_bytes_def stream_bytes_def stream_end_def)

text \<open>
  The incremental splitter is equivalent to splitting the whole input at its line feeds:
  resuming the search after the bytes already scanned and checking the limit between reads
  changes neither the lines nor the first error.
\<close>
theorem incremental_splitting_equals_whole_input:
  "iter_byte_lines cs s encoding canonical limit =
     line_spec Byte_LF encoding limit (decode_line cs encoding canonical) (stream_end s) (whole_input s)"
  by (rule iter_byte_lines_spec)



text \<open>The decoded lines are numbered consecutively from one.\<close>
theorem decoded_lines_numbered:
  "map line_number (fst (iter_decoded_lines cs s encoding limit)) =
     map int [1..<length (fst (iter_decoded_lines cs s encoding limit)) + 1]"
  using iter_decoded_lines_numbered [of cs s encoding limit]
  by (auto simp: numbered_from_def intro!: nth_equalityI simp del: upt_Suc)

section \<open>Windows directory listings\<close>

text \<open>
  C30: whatever bytes the parser is given, each entry it emits is a valid entry below a single
  upper-case drive letter, whose other components are free of NUL, slash, backslash and colon
  and are neither empty nor dot names; headers and directories are directories, files have a
  size, and everything but headers has a time.
\<close>
theorem listing_entries_safe:
  "list_all emitted_ok (pr_entries (dir_parse db cs cfg s))"
  by (rule dir_parse_facts)

text \<open>
  C29: when the parser reports no error, every emitted time is in the configured zone, and some
  \<open>File(s)\<close> line of the listing states exactly the number and the total size of the emitted files.
\<close>
theorem clean_listing_totals_agree:
  assumes "pr_error (dir_parse db cs cfg s) = None"
    and "\<not> coll_has_errors (pr_collector (dir_parse db cs cfg s))"
  shows "list_all (time_in_zone (cfg_zone cfg)) (pr_entries (dir_parse db cs cfg s)) \<and>
    (\<exists>l \<in> set (fst (iter_decoded_lines cs s (cfg_encoding cfg) MAX_LINE_BYTES)).
       states_totals l (int (length (file_entries (pr_entries (dir_parse db cs cfg s)))))
         (total_bytes (pr_entries (dir_parse db cs cfg s))))"
  using assms by (rule dir_parse_facts(3))

lemma clean_listing_totals_agree_witness:
  "\<exists>l \<in> set (fst (iter_decoded_lines ascii_codecs example_stream (lit ''ascii'') MAX_LINE_BYTES)).
     states_totals l 1 5"
  using clean_listing_totals_agree [OF example_parse(2,3)]
  by (simp add: example_parse(1) listing_entries_def section_entry_def entry_bytes_def)


text \<open>
  C31: the diagnostics of a listing are the bounded prefix of all of them: with a limit large enough
  for every diagnostic, the parser reports a list \<open>ds\<close> from the same input of which it retains the first
  \<open>MAX_DIAGNOSTICS\<close>; it counts all of them, and remembers an error exactly when one of all of them is.
\<close>
theorem listing_diagnostics_bounded:
  "let c = pr_collector (dir_parse db cs cfg s);
       ds = coll_items (pr_collector (dir_parse_limited (MAX_DIAGNOSTICS + coll_total c + m) db cs cfg s))
   in coll_items c = take MAX_DIAGNOSTICS ds \<and> coll_total c = length ds \<and>
      (coll_has_errors c \<longleftrightarrow> (\<exists>d \<in> set ds. diag_severity d = ERROR))"
  using retained_diagnostics [of "MAX_DIAGNOSTICS + coll_total (pr_collector (dir_parse db cs cfg s)) + m" db cs cfg s]
  by (simp add: Let_def)

text \<open>
  C32: a directory or file line printed in any of the three date orders, with any separator and
  either clock, parses back to the printed entry without a diagnostic.
\<close>
theorem entry_line_round_trip:
  assumes "listed_time t" "one_of ''/.-'' sep" "name_ok name" "10 \<notin> set name"
    and "case item of None \<Rightarrow> True | Some n \<Rightarrow> length (nat_str n) \<le> int_max_str_digits"
  shows "parse_entry raw (print_entry fmt sep twelve k t item name) number fmt c =
    ((True, Some (printed_entry raw number t item name)), c)"
  using assms by (rule parse_entry_print)

lemma entry_line_round_trip_witness:
  "\<exists>line. parse_entry (lit ''C:x'') line 7 MDY (new_collector 9) =
     ((True, Some (printed_entry (lit ''C:x'') 7 noon (Some 1234) (lit ''a b''))), new_collector 9)"
  using entry_line_round_trip [of noon 47 "lit ''a b''" "Some 1234" "lit ''C:x''" MDY True 3 7 "new_collector 9"]
    length_nat_str [of 1234 4]
  by (auto simp: listed_time_def noon_def valid_datetime_def valid_date_def days_in_month_def is_leap_def
      one_of_def name_ok_def lit_def int_max_str_digits_def)

text \<open>A number printed with thousands separators parses back.\<close>
theorem comma_number_round_trip:
  assumes "length (nat_str n) \<le> int_max_str_digits"
  shows "parse_integer (comma_str n) = Some (int n)"
  using assms by (rule parse_integer_comma_str)

text \<open>
  C35: a listed time whose instant is outside the years 1 to 9999 is not reported as an invalid local
  time: when the lines before an entry were parsed without an exception and the entry has such a time,
  the parser ends with \<open>OverflowError\<close> after the entries of the lines before, and the whole import
  ends with that exception, whatever follows in the listing.
\<close>
theorem localize_overflow_escapes_parser:
  assumes sn: "make_snapshot \<lparr>snapshot_id = uuid, snapshot_source_uri = source_uri src,
      snapshot_source_format = lit ''windows-dir'', snapshot_imported_at = now,
      snapshot_source_metadata = parser_source_metadata (windows_dir_parser db cs cfg)\<rparr> = Inr sn"
    and src: "source_open src = Inr stream"
    and lines: "fst (iter_decoded_lines cs stream (cfg_encoding cfg) MAX_LINE_BYTES) = ls @ l # ls'"
    and before: "dir_lines db cfg ls new_dir_state = (None, es, st)"
    and entry: "reads_entry cfg st l e" "entry_modified_local e = Some t"
      "\<not> in_range (candidate_instant db (cfg_zone cfg) t False)"
  shows "pr_entries (dir_parse db cs cfg stream) = es \<and> pr_error (dir_parse db cs cfg stream) = Some date_out_of_range \<and>
    create_memory_store db uuid now src (windows_dir_parser db cs cfg) = Inl (Import_Raised date_out_of_range)"
  using overflow_ends_import [OF sn src lines before entry] by blast

lemma localize_overflow_escapes_parser_witness:
  "create_memory_store utc_db (lit ''id'') noon \<lparr>source_uri = lit ''uri'', source_size = Inr None, source_open = Inr late_stream\<rparr>
     (windows_dir_parser utc_db ascii_codecs late_config) = Inl (Import_Raised date_out_of_range)"
proof -
  let ?src = "\<lparr>source_uri = lit ''uri'', source_size = Inr None, source_open = Inr late_stream\<rparr>"
  let ?sn = "\<lparr>snapshot_id = lit ''id'', snapshot_source_uri = source_uri ?src, snapshot_source_format = lit ''windows-dir'',
    snapshot_imported_at = noon, snapshot_source_metadata = parser_source_metadata (windows_dir_parser utc_db ascii_codecs late_config)\<rparr>"
  have sn: "make_snapshot ?sn = Inr ?sn"
    by (simp add: make_snapshot_def require_unicode_def windows_dir_parser_def late_config_def freeze_metadata_def)
      (simp add: utf8_eval)
  have src: "source_open ?src = Inr late_stream" by simp
  have lines: "fst (iter_decoded_lines ascii_codecs late_stream (cfg_encoding late_config) MAX_LINE_BYTES) =
      [hd late_lines] @ \<lparr>line_number = 2, line_text = late_line\<rparr> # []"
    using late_decoded by (simp add: late_config_def late_lines_def)
  have time: "entry_modified_local late_file = Some last_minute" by (simp add: late_file_def)
  from localize_overflow_escapes_parser [OF sn src lines late_section late_entry time late_time] show ?thesis by blast
qed

section \<open>The mounted file system\<close>

text \<open>
  C16: in every state the handlers can reach over a store, the store is still the same, every
  open file handle stands for a file and every open directory handle for a directory of it, no
  handle is both or is yet to be allocated, and the lookup counts are positive and belong to
  nodes of the store.
\<close>
theorem mounted_tables_invariant:
  assumes "mem_store_ok s" "fuse_reachable env (mem_object s) simulate ops"
  shows "fo_store ops = mem_object s \<and> fo_simulate ops = simulate \<and> tables_ok (mem_store_nodes s) ops"
  using mounted.reachable_serves [OF assms] by (simp add: mounted.serves_def)

lemma mounted_tables_invariant_witness: "tables_ok (mem_store_nodes example_store) example_mount"
  using mounted_tables_invariant [OF example_store_ok example_reachable] by simp

text \<open>
  C17: opening a file in a reachable state gives a handle no open file or directory has, and
  reading through it gives what the read policy says for the opened node; every other open
  fails with an error number and changes nothing.
\<close>
theorem open_then_read:
  assumes ok: "mem_store_ok s" and reach: "fuse_reachable env (mem_object s) simulate ops"
  shows "case fuse_open i flags ops of
      (Inl x, ops') \<Rightarrow> ops' = ops \<and> x \<in> FUSEError ` {ENOENT, EISDIR, EINVAL, EROFS}
    | (Inr info, ops') \<Rightarrow>
        dict_get (fo_files ops) (fi_fh info) = None \<and> dict_get (fo_dirs ops) (fi_fh info) = None \<and>
        (\<exists>n. mem_store_nodes s i = Some n \<and> node_kind n = FILE \<and>
           fst (fuse_read (fi_fh info) off sz ops') =
             (case read_node n off sz simulate of Inl e \<Rightarrow> Inl (FUSEError e) | Inr b \<Rightarrow> Inr b))"
proof -
  from mounted.reachable_serves [OF assms] have sv: "fo_store ops = mem_object s" "fo_simulate ops = simulate"
    "tables_ok (mem_store_nodes s) ops" by (simp_all add: mounted.serves_def)
  have node: "fuse_node ops' i = (case mem_store_nodes s i of None \<Rightarrow> Inl (FUSEError ENOENT) | Some n \<Rightarrow> Inr n)"
    if "fo_store ops' = mem_object s" for ops'
    using that by (simp add: fuse_node_def mem_object_def mem_get_node_eq split: option.split)
  show ?thesis
    using fresh_handle [OF sv(3)] sv(1,2) node
    by (auto simp: fuse_open_def allocate_handle_def fuse_read_def file_handle_def
        split: option.split sum.split)
qed

lemma open_then_read_witness:
  "\<exists>info ops'. fuse_open 3 0 example_mount = (Inr info, ops') \<and>
     fst (fuse_read (fi_fh info) 1 9 ops') = Inr [121, 122]"
proof -
  have n: "mem_store_nodes example_store 3 = Some (node_of (lit ''id'') example_file)"
    by (simp add: example_store_nodes example_builder_nodes)
  have k: "node_kind (node_of (lit ''id'') example_file) = FILE"
    "read_node (node_of (lit ''id'') example_file) 1 9 False = Inr [121, 122]"
    by (simp_all add: example_file_def read_node_def content_values_def example_entry_def slice_nonneg
        eval_nat_numeral)
  have "fuse_node example_mount 3 = Inr (node_of (lit ''id'') example_file)"
    using mounted.fuse_node_iff [OF example_store_ok, of example_mount 3] n by (simp add: example_mount_def)
  from this [unfolded example_mount_def] have "fst (fuse_open 3 0 example_mount) \<noteq> Inl x" for x
    using k(1)
    by (simp add: fuse_open_def example_mount_def O_ACCMODE_def O_RDONLY_def Let_def allocate_handle_def)
  then obtain info ops' where o': "fuse_open 3 0 example_mount = (Inr info, ops')"
    by (metis old.sum.exhaust prod.collapse)
  with open_then_read [OF example_store_ok example_reachable, where i = 3 and flags = 0 and off = 1 and sz = 9] n k
  show ?thesis by simp
qed

text \<open>
  C20: a read within a file that has mounted content, inline or simulated, gives exactly the
  requested slice of it, shortened at the end of the content.
\<close>
theorem read_gives_slice:
  assumes "node_kind n = FILE" "node_content_ok n" "mounted_content n simulate = Some c" "0 \<le> off" "0 \<le> sz"
  shows "read_node n off sz simulate = Inr (slice c off (off + sz))"
  using assms by (rule read_node_mounted)

lemma example_file_node:
  "node_kind (node_of (lit ''id'') example_file) = FILE"
  "node_content_ok (node_of (lit ''id'') example_file)"
  "mounted_content (node_of (lit ''id'') example_file) False = Some [120, 121, 122]"
  by (simp_all add: example_file_def content_values_def example_entry_def content_ok_def mounted_content_def)

lemma read_gives_slice_witness:
  "read_node (node_of (lit ''id'') example_file) 1 9 False = Inr [121, 122]"
  using read_gives_slice [OF example_file_node, of 1 9] by (simp add: slice_nonneg eval_nat_numeral)

text \<open>
  Reading a file page by page, with pages of any sizes, and joining the pages gives the
  same bytes as one read of their total size.
\<close>
theorem paged_reads_join:
  assumes "node_kind n = FILE" "node_content_ok n" "mounted_content n simulate = Some c"
    and "0 \<le> off" "\<forall>s \<in> set szs. 0 \<le> s"
  shows "read_pages n simulate off szs = read_node n off (sum_list szs) simulate"
  using read_pages_slice [OF assms] read_node_mounted [OF assms(1-4)] sum_list_nonneg [of szs] assms(5)
  by simp

text \<open>
  A read inside a file whose content is not available fails with \<open>ENODATA\<close>; it never
  returns invented bytes unless the mount simulates missing content.
\<close>
theorem unavailable_content_is_enodata:
  assumes "node_kind n = FILE" "mounted_content n simulate = None" "0 \<le> off" "0 < sz"
    and "\<And>s. node_size n = Some s \<Longrightarrow> 0 \<le> s \<and> off < s"
  shows "read_node n off sz simulate = Inl ENODATA"
  using assms by (rule read_node_unavailable)

text \<open>
  Forgetting lowers each lookup count by the total forgotten for its inode, never below
  zero, whatever the order and the repetitions in the request.
\<close>
theorem forget_lowers_lookup_counts:
  assumes "0 \<le> lookup_count ops i"
  shows "lookup_count (snd (fuse_forget xs ops)) i = max 0 (lookup_count ops i - forgotten i xs)"
  using lookup_count_forget [OF assms, of xs] by (simp add: fuse_forget_def)

text \<open>
  C18: listing a directory page by page, resuming each time from the last identifier received,
  gives every child exactly once and in order, however the kernel sizes its buffers, and
  counts one lookup for each.
\<close>
theorem paged_listing_complete:
  assumes ok: "mem_store_ok s" and ops: "fo_store ops = mem_object s" "dict_get (fo_dirs ops) fh = Some p"
    and cs: "mem_store_nodes s p \<noteq> None" "children_of (mem_store_nodes s) p cs" "length cs \<le> sum_list rooms"
  shows "list_pages env fh rooms 0 ops = (Inr (listed env ops cs 1), count_lookups cs ops)"
proof -
  have "iter_children (fo_store ops) p off = Inr (slice_from cs off)" for off
    using mem_iter_children_ok [OF ok cs(1)] children_of_unique [OF cs(2)] ops(1)
    by (auto simp: mem_object_def)
  from list_pages_all [OF ops(2) this, of env rooms 0] cs(3) show ?thesis by simp
qed

lemma paged_listing_complete_witness:
  "\<exists>cs. children_of (mem_store_nodes example_store) 1 cs \<and>
     list_pages example_env 1 (replicate (length cs) 1) 0 (example_mount\<lparr>fo_dirs := [(1, 1)]\<rparr>) =
       (Inr (listed example_env (example_mount\<lparr>fo_dirs := [(1, 1)]\<rparr>) cs 1),
        count_lookups cs (example_mount\<lparr>fo_dirs := [(1, 1)]\<rparr>))"
proof -
  have one: "mem_store_nodes example_store 1 \<noteq> None"
    by (simp add: example_store_nodes example_builder_nodes)
  obtain cs where cs: "children_of (mem_store_nodes example_store) 1 cs"
    using mem_iter_children_ok [OF example_store_ok one] by blast
  with paged_listing_complete [OF example_store_ok _ _ one cs, of "example_mount\<lparr>fo_dirs := [(1, 1)]\<rparr>" 1
      "replicate (length cs) 1"]
  show ?thesis by (auto simp: example_mount_def sum_list_replicate)
qed

section \<open>SQLite artifacts\<close>

text \<open>
  C10: an artifact that was opened is a file system, whatever is stored in it. Where the engine keeps
  the constraints that the catalogue declares, the rows of its table of nodes are the nodes of a tree
  with mountable, unique names and consistent content. Reading an inode outside the tree fails. Reading
  a node gives it with its stored metadata, listing and looking up in it gives its children in the
  order of their names from any offset; a read only fails where the metadata of a row it reads, which
  the validation decodes but does not freeze, is not that of a node.
\<close>
theorem opened_artifact_is_tree:
  assumes "open_sqlite_store L (Database d) = Some (Inr s)" "engine_enforces d"
  shows "let t = artifact_tree L d in
    tree_ok t \<and> (\<forall>i. t i \<noteq> None \<longleftrightarrow> SqlInt i \<in> nr_id ` set (db_nodes d)) \<and>
    (\<forall>r \<in> set (db_nodes d). \<exists>n. t (int_value (nr_id r)) = Some n \<and> row_fields r n) \<and>
    (\<forall>i. case t i of
        None \<Rightarrow> \<exists>x. sqlite_get_node s i = Inl x
      | Some n \<Rightarrow> sqlite_get_node s i = shown_node L d n \<and> listing_reads s t n)"
proof -
  from assms(1) have s: "validate_artifact L d = Some (Inr ())" "s = \<lparr>ss_open = True, ss_codecs = L, ss_database = d\<rparr>"
    by (simp_all add: open_sqlite_store_ok)
  with assms(2) have ok: "opened_artifact s" by (simp add: opened_artifact_def)
  show ?thesis
    using opened_tree [OF ok] opened_listing [OF ok] s(2) by (auto simp: Let_def split: option.split)
qed

lemma opened_artifact_is_tree_witness:
  "tree_ok (artifact_tree example_codecs example_artifact) \<and>
   (\<exists>n. artifact_tree example_codecs example_artifact 2 = Some n \<and>
      listing_reads example_sqlite (artifact_tree example_codecs example_artifact) n) \<and>
   (\<exists>n. sqlite_get_node example_sqlite 2 = Inr n)"
proof -
  note shown = opened_artifact_is_tree [OF example_sqlite_open example_engine_enforces, unfolded Let_def]
  have row: "SqlInt 2 \<in> nr_id ` set (db_nodes example_artifact)"
    by (simp add: example_rows file_row_def directory_row_def)
  with shown obtain n where n: "artifact_tree example_codecs example_artifact 2 = Some n" by (metis not_None_eq)
  from shown have "case artifact_tree example_codecs example_artifact 2 of
      None \<Rightarrow> \<exists>x. sqlite_get_node example_sqlite 2 = Inl x
    | Some n \<Rightarrow> sqlite_get_node example_sqlite 2 = shown_node example_codecs example_artifact n \<and>
        listing_reads example_sqlite (artifact_tree example_codecs example_artifact) n" by blast
  moreover have "sqlite_nodes example_sqlite 2 \<noteq> None"
    using row sqlite_nodes_rows [OF example_sqlite_ok, of 2] by (simp add: example_sqlite_def)
  then have "\<exists>n. sqlite_get_node example_sqlite 2 = Inr n"
    using sqlite_get_node_found [OF example_sqlite_ok] by blast
  ultimately show ?thesis using n shown by simp
qed

text \<open>
  C12: opening an artifact always comes to an end, with a store or an error, unless the row of
  inode 1 has a parent.
\<close>
theorem opening_ends:
  assumes "engine_ok d" "\<And>r. root_row d = Some r \<Longrightarrow> nr_parent_id r = SqlNull"
  shows "\<exists>result. open_sqlite_store L (Database d) = Some result"
  using validation_ends [OF assms(1), of L] assms(2)
  by (cases "validate_artifact L d") (auto simp: open_sqlite_store_def)

lemma opening_ends_witness: "\<exists>result. open_sqlite_store example_codecs (Database example_artifact) = Some result"
  by (rule opening_ends [OF example_engine_ok]) (simp add: example_root_row directory_row_def)

text \<open>
  Opening a crafted artifact, in which inodes 1 and 2 are each other's parent and a third
  node has none, never returns: the graph is searched before inode 1 is required to be a root.
\<close>
theorem crafted_artifact_hangs:
  "engine_ok crafted_artifact \<and> open_sqlite_store L (Database crafted_artifact) = None"
  by (simp add: crafted_engine_ok open_sqlite_store_def crafted_hangs)

text \<open>
  C11: publishing changes the destination in one step to the complete temporary file or not at
  all, says so in its error, replaces an existing file only when that was asked for, touches no
  third file, and removes the temporary file when it reports no error.
\<close>
theorem publish_all_or_nothing:
  assumes "publish os t d overwrite fs = (err, fs')" "t \<noteq> d" "fs t = Some content"
  shows "fs' d = (if err = None \<or> (\<exists>x. err = Some x \<and> published_error x) then Some content else fs d) \<and>
    (fs d \<noteq> None \<and> \<not> overwrite \<longrightarrow> err \<noteq> None \<and> fs' = fs) \<and>
    (\<forall>p. p \<notin> {t, d} \<longrightarrow> fs' p = fs p) \<and> (err = None \<longrightarrow> fs' t = None)"
  using publish_effect [OF assms] by blast

lemma publish_all_or_nothing_witness:
  "snd (publish \<lparr>os_mkstemp = Inr [], os_sync = None, os_replace = None, os_link = None, os_unlink = \<lambda>_. Some [],
     os_directory_sync = None, os_directory_sync_supported = True\<rparr> [1] [2] False [[1] \<mapsto> ''db'']) [2] = Some ''db''"
  using publish_all_or_nothing [where t = "[1]" and d = "[2]" and content = "''db''" and overwrite = False and
      fs = "[[1] \<mapsto> ''db'']", OF prod.collapse [symmetric],
      of "\<lparr>os_mkstemp = Inr [], os_sync = None, os_replace = None, os_link = None, os_unlink = \<lambda>_. Some [],
        os_directory_sync = None, os_directory_sync_supported = True\<rparr>"]
  by (simp add: publish_def move_into_place_def published_error_def)

text \<open>
  C8: adding an entry to the SQLite builder refines the path-indexed specification in which a
  merged node is what its row reads back as: the statements over the table of nodes accept and
  reject what the specification does, with its diagnostic, and leave the specified tree; the
  builder stays usable.
\<close>
theorem sqlite_add_refines_specification:
  assumes u: "sqlite_usable L db sn b" and c: "codecs_ok L" and e: "sqlite_entry_ok L db e"
    and room: "sb_next_inode b + int (length (entry_path e)) \<le> 2 ^ 63"
    and add: "sqlite_add L db e b = (err, b')"
  shows "sqlite_usable L db sn b' \<and>
    (case spec_add_by (stored_node L db) db e (sqlite_view L b) of
       Inl d \<Rightarrow> err = Some (Build_Error d)
     | Inr t \<Rightarrow> err = None \<and> sqlite_view L b' = t)"
proof -
  have "sqlite_builder_ok L db b" using u by (simp add: sqlite_usable_def)
  from sqlite_add_spec [OF this c e room] add sqlite_add_usable [OF u c e room add] show ?thesis
    by (metis Pair_inject)
qed

lemma sqlite_add_refines_specification_witness:
  "\<exists>b b'. sqlite_view example_codecs b = start_tree \<and> sqlite_add example_codecs utc_db example_header b = (None, b') \<and>
     sqlite_usable example_codecs utc_db example_snapshot b'"
proof -
  obtain b where b: "sqlite_usable example_codecs utc_db example_snapshot b" "sqlite_view example_codecs b = start_tree"
    "sb_next_inode b = 2" by (rule example_sqlite_builder)
  obtain err b' where add: "sqlite_add example_codecs utc_db example_header b = (err, b')" by fastforce
  have "\<exists>t. spec_add_by (stored_node example_codecs utc_db) utc_db example_header start_tree = Inr t"
    by (simp add: spec_add_by_def example_header_components merge_def start_tree_def Let_def)
  then show ?thesis
    using sqlite_add_refines_specification [OF b(1) example_codecs_ok example_sqlite_entries(2) _ add] b add
    by (auto simp: example_header_def)
qed

text \<open>
  C9: finishing the SQLite builder always returns. It builds an artifact that passes every check
  of the validation, and when the publication succeeds the destination holds it and the store
  over it shows the tree of the builder, the snapshot and the diagnostics; otherwise the error is
  the one of the publication.
\<close>
theorem sqlite_finish_publishes:
  assumes "sqlite_usable L db sn b" "codecs_ok L" "reportable L ds n"
  shows "\<exists>d result b'. artifact_ok L d \<and> sqlite_finish L os ds (Some n) b = Some (result, b') \<and>
    (case publish os (the (sb_temporary b)) (sb_destination b) (sb_overwrite b)
        ((sb_files b)(the (sb_temporary b) \<mapsto> d)) of
      (Some x, fs) \<Rightarrow> result = Inl x
    | (None, fs) \<Rightarrow> fs (sb_destination b) = Some d \<and> sb_files b' = fs \<and>
        (\<exists>s. result = Inr s \<and> ss_database s = d \<and> sqlite_represents L db sn (sqlite_view L b) ds n s))"
  by (rule sqlite_finish_spec [where os = os, OF assms])
    (rule exI, rule exI, rule exI, erule conjI, erule conjI)

lemma sqlite_finish_publishes_witness:
  "\<exists>d b result b'. sqlite_view example_codecs b = start_tree \<and> artifact_ok example_codecs d \<and>
     sqlite_finish example_codecs example_os [] (Some 0) b = Some (result, b')"
proof -
  obtain b where "sqlite_usable example_codecs utc_db example_snapshot b" "sqlite_view example_codecs b = start_tree"
    by (rule example_sqlite_builder)
  with sqlite_finish_publishes [OF this(1) example_codecs_ok, of "[]" 0 example_os] show ?thesis
    by (auto simp: reportable_def)
qed

text \<open>
  C3: an import into SQLite of any parser's entries does what the path-indexed specification with
  read-back nodes says: it returns a store that represents the specified tree, or the error of the
  publication, when neither the parser nor the specification reports an error, and otherwise fails
  with the parser's diagnostics, extended by the first conflict.
\<close>
theorem sqlite_import_meets_specification:
  assumes sn: "make_snapshot \<lparr>snapshot_id = uuid, snapshot_source_uri = source_uri src,
      snapshot_source_format = parser_format_name p, snapshot_imported_at = now,
      snapshot_source_metadata = parser_source_metadata p\<rparr> = Inr sn" "snapshot_storable L db sn"
    and os: "os_mkstemp os = Inr tmp" "tmp \<noteq> destination" "fs destination = None \<or> overwrite"
    and r: "source_open src = Inr stream" "parser_parse p stream = Inr r" "pr_error r = None" "sqlite_importable L db r"
  shows "case spec_all (spec_add_by (stored_node L db) db) (pr_entries r) start_tree of
      Inl d \<Rightarrow> create_sqlite_store L db os True fs uuid now src p destination overwrite =
        Inl (Import_Failure (make_import_failure
          (with_build_diagnostic d (coll_items (pr_collector r))) (Some (coll_total (pr_collector r) + 1))))
    | Inr t \<Rightarrow>
        if coll_has_errors (pr_collector r)
        then create_sqlite_store L db os True fs uuid now src p destination overwrite =
          Inl (Import_Failure (make_import_failure (coll_items (pr_collector r))
            (Some (coll_total (pr_collector r)))))
        else (\<exists>x. create_sqlite_store L db os True fs uuid now src p destination overwrite = Inl (Import_Raised x) \<and>
            is_persistence_error x) \<or>
          (\<exists>s. create_sqlite_store L db os True fs uuid now src p destination overwrite = Inr (Some s) \<and>
            sqlite_represents L db sn t (coll_items (pr_collector r)) (coll_total (pr_collector r)) s)"
  using sqlite_import [where fs = fs and destination = destination, OF sn os r] .

lemma sqlite_import_meets_specification_witness:
  "\<exists>r. create_sqlite_store example_codecs utc_db example_os True Map.empty (lit ''id'') noon example_source
     example_parser (lit ''artifact'') False = r \<and>
     ((\<exists>x. r = Inl (Import_Raised x) \<and> is_persistence_error x) \<or> (\<exists>s. r = Inr (Some s) \<and> sqlite_store_ok s))"
proof -
  have src: "source_open example_source = Inr ()" "parser_parse example_parser () = Inr example_result"
    "pr_error example_result = None" "\<not> coll_has_errors (pr_collector example_result)"
    by (simp_all add: example_source_def example_parser_def example_result_def new_collector_def)
  have "\<exists>t. spec_all (spec_add_by (stored_node example_codecs utc_db) utc_db) (pr_entries example_result) start_tree = Inr t"
    by (simp add: example_result_def spec_add_by_def example_components example_header_components merge_def
        start_tree_def Let_def)
      (simp add: example_header_def example_entry_def)
  then show ?thesis
    using sqlite_import_meets_specification [where fs = Map.empty and destination = "lit ''artifact''" and overwrite = False,
        OF example_make_snapshot example_import _ src(1-3) example_importable] src(4)
    by (auto simp: sqlite_represents_def)
qed

text \<open>
  C2: importing the same input into memory and into SQLite gives the same result, where comparing
  a stored time gives what comparing the time itself gives: either both fail with the same error, or
  both succeed (or the artifact cannot be published) and every path leads to the same node, with its
  time and metadata as they are read back.
\<close>
theorem memory_and_sqlite_imports_agree:
  assumes sn: "make_snapshot \<lparr>snapshot_id = uuid, snapshot_source_uri = source_uri src,
      snapshot_source_format = parser_format_name p, snapshot_imported_at = now,
      snapshot_source_metadata = parser_source_metadata p\<rparr> = Inr sn" "snapshot_storable L db sn"
    and os: "os_mkstemp os = Inr tmp" "tmp \<noteq> destination" "fs destination = None \<or> overwrite"
    and r: "source_open src = Inr stream" "parser_parse p stream = Inr r" "pr_error r = None" "sqlite_importable L db r"
    and times: "times_comparable L db (set (pr_entries r))"
  shows "(\<exists>x. create_memory_store db uuid now src p = Inl x \<and>
      create_sqlite_store L db os True fs uuid now src p destination overwrite = Inl x) \<or>
    (\<exists>s x. create_memory_store db uuid now src p = Inr s \<and> is_persistence_error x \<and>
      create_sqlite_store L db os True fs uuid now src p destination overwrite = Inl (Import_Raised x)) \<or>
    (\<exists>s q. create_memory_store db uuid now src p = Inr s \<and>
      create_sqlite_store L db os True fs uuid now src p destination overwrite = Inr (Some q) \<and>
      (\<forall>path. store_view (sqlite_object q) uuid path =
        map_option (stored_view L db) (store_view (mem_object s) uuid path)))"
  using imports_agree [where fs = fs and destination = destination, OF sn os r times] .

lemma memory_and_sqlite_imports_agree_witness:
  "\<exists>s. create_memory_store utc_db (lit ''id'') noon example_source example_parser = Inr s \<and>
     ((\<exists>x. create_sqlite_store example_codecs utc_db example_os True Map.empty (lit ''id'') noon example_source
         example_parser (lit ''artifact'') False = Inl (Import_Raised x)) \<or>
      (\<exists>q. create_sqlite_store example_codecs utc_db example_os True Map.empty (lit ''id'') noon example_source
         example_parser (lit ''artifact'') False = Inr (Some q) \<and>
       (\<forall>path. store_view (sqlite_object q) (lit ''id'') path =
          map_option (stored_view example_codecs utc_db) (store_view (mem_object s) (lit ''id'') path))))"
proof -
  have src: "source_open example_source = Inr ()" "parser_parse example_parser () = Inr example_result"
    "pr_error example_result = None" "list_all entry_ok (pr_entries example_result)"
    "\<not> coll_has_errors (pr_collector example_result)"
    by (simp_all add: example_source_def example_parser_def example_result_def new_collector_def)
  obtain t where "spec_all (spec_add utc_db) (pr_entries example_result) start_tree = Inr t"
    using example_spec_all by (auto simp: example_result_def)
  then obtain s where "create_memory_store utc_db (lit ''id'') noon example_source example_parser = Inr s"
    using create_memory_store_spec [OF example_make_snapshot src(1-4), of utc_db] src(5) by auto
  then show ?thesis
    using memory_and_sqlite_imports_agree [where fs = Map.empty and destination = "lit ''artifact''" and overwrite = False,
        OF example_make_snapshot example_import _ src(1-3) example_importable example_times]
    by auto
qed

section \<open>The command line\<close>

text \<open>
  C6: what finishing the SQLite builder published is what \<open>sqlite show\<close> prints: it opens the
  destination again and prints a line for every path of the imported tree, in the order of the paths,
  and the report of the diagnostics, unless some directory is deeper than the recursion limit leaves
  room for, where it ends with \<open>RecursionError\<close>.
\<close>
theorem published_artifact_is_shown:
  assumes "sqlite_usable L db sn b" "codecs_ok L" "reportable L ds n"
    and "sqlite_finish L os ds (Some n) b = Some (Inr s, b')"
  shows "\<exists>d. sb_files b' (sb_destination b) = Some d \<and>
    (if \<forall>path x. sqlite_view L b path = Some x \<longrightarrow> mn_kind x = DIRECTORY \<longrightarrow> length path < room
     then \<exists>paths. sorted_wrt (<) paths \<and> set paths = {path. path \<noteq> [] \<and> sqlite_view L b path \<noteq> None} \<and>
       sqlite_show L db' room (Database d) False = Some (Inr (), Some (Tree
         ([Txt ''/''] # map (path_line (node_view (snapshot_id sn) (sqlite_view L b))) paths @ report_lines L ds n)))
     else \<exists>out. sqlite_show L db' room (Database d) False =
       Some (Inl (Session (Py_Raised RecursionError)), Some (Tree out)))"
proof -
  obtain d where d: "sb_files b' (sb_destination b) = Some d" "ss_database s = d"
    "sqlite_represents L db sn (sqlite_view L b) ds n s"
    using assms(4) by (rule_tac sqlite_finish_spec [where os = os, OF assms(1-3)]) (auto split: option.splits prod.splits)
  from d(1) represented_shown [OF d(3), of room db'] show ?thesis unfolding d(2) by blast
qed

lemma published_artifact_is_shown_witness:
  "\<exists>d. sqlite_show example_codecs utc_db 2 (Database d) False = Some (Inr (), Some (Tree [[Txt ''/'']]))"
proof -
  obtain b s b' where b: "sqlite_usable example_codecs utc_db example_snapshot b" "sqlite_view example_codecs b = start_tree"
    "sqlite_finish example_codecs example_os [] (Some 0) b = Some (Inr s, b')"
    by (rule example_sqlite_finished)
  have rep: "reportable example_codecs [] 0" by (simp add: reportable_def)
  have fit: "\<forall>path x. start_tree path = Some x \<longrightarrow> mn_kind x = DIRECTORY \<longrightarrow> length path < 2"
    and no_paths: "{path. path \<noteq> [] \<and> start_tree path \<noteq> None} = {}" by (auto simp: start_tree_def split: if_splits)
  obtain d paths where "set paths = {}" "sqlite_show example_codecs utc_db 2 (Database d) False = Some (Inr (), Some (Tree
      ([Txt ''/''] # map (path_line (node_view (snapshot_id example_snapshot) start_tree)) paths @
        report_lines example_codecs [] 0)))"
    using published_artifact_is_shown [OF b(1) example_codecs_ok rep b(3), of 2 utc_db, unfolded b(2) no_paths if_P [OF fit]]
    by (elim exE conjE) (rule that)
  then show ?thesis by (auto simp: report_lines_def)
qed

text \<open>
  C37: the JSON document of an artifact that holds an imported tree describes every node of it
  exactly once, and reading the document back gives each node's inode, parent, name and content.
\<close>
theorem shown_document_reads_back:
  assumes "sqlite_represents L db sn t ds n s"
  shows "\<exists>doc ns. sqlite_show L db' room (Database (ss_database s)) True = Some (Inr (), Some (Document doc)) \<and>
    distinct ns \<and> set ns = {x. \<exists>i. sqlite_nodes s i = Some x} \<and>
    read_document doc = Some (map (\<lambda>x. (node_id x, node_parent_id x, node_mounted_name x, node_content x)) ns)"
  using assms by (rule represented_document)

lemma shown_document_reads_back_witness:
  "\<exists>s doc. sqlite_store_ok s \<and> sqlite_show example_codecs utc_db 9 (Database (ss_database s)) True =
      Some (Inr (), Some (Document doc)) \<and> read_document doc \<noteq> None"
proof -
  obtain s where s: "sqlite_represents example_codecs utc_db example_snapshot start_tree [] 0 s"
    by (rule example_represented)
  then have ok: "sqlite_store_ok s" by (simp add: sqlite_represents_def)
  have some: "read_document doc = Some x \<Longrightarrow> read_document doc \<noteq> None" for doc x by simp
  show ?thesis
    using shown_document_reads_back [OF s, of utc_db 9]
    by (elim exE conjE) (rule exI, rule exI, intro conjI, rule ok, assumption, erule some)
qed

text \<open>
  C5: \<open>memory mount\<close> with the default components either ends with an error before anything is
  mounted, or hands to the mount a well-formed store that shows exactly the entries of the listing
  file, which was read to its end without an error.
\<close>
theorem memory_mount_shows_file:
  assumes "default_registry fs db cs = Inr R" "default_arguments args"
  shows "(\<exists>e. \<forall>mount. memory_mount db uuid now R (Inr False) mount args mountpoint = Inl e) \<or>
    (\<exists>path cfg stream s t. dict_get (ma_components args) (lit ''input'') = Some path \<and>
      fs_open fs (path_text (path_root path) (path_parts path)) = Inr stream \<and>
      pr_error (dir_parse db cs cfg stream) = None \<and> \<not> coll_has_errors (pr_collector (dir_parse db cs cfg stream)) \<and>
      spec_all (spec_add db) (pr_entries (dir_parse db cs cfg stream)) start_tree = Inr t \<and>
      mem_store_ok s \<and> store_view (mem_object s) uuid = node_view uuid t \<and>
      (\<forall>mount. memory_mount db uuid now R (Inr False) mount args mountpoint =
         mount (mem_object s) mountpoint (ma_simulate args)))"
  by (rule memory_mount_shows_listing [OF assms refl])

lemma memory_mount_shows_file_witness:
  "\<exists>R :: (stream, unit) registry. default_registry example_files utc_db ascii_codecs = Inr R \<and>
    (\<exists>s. mem_store_ok s \<and> (\<forall>mount. memory_mount utc_db (lit ''id'') noon R (Inr False) mount example_arguments (lit ''/mnt'') =
      mount (mem_object s) (lit ''/mnt'') False))"
proof -
  obtain R :: "(stream, unit) registry" where R: "default_registry example_files utc_db ascii_codecs = Inr R" using default_registry_eq by blast
  have args: "default_arguments example_arguments" "ma_simulate example_arguments = False"
    by (simp_all add: default_arguments_def example_arguments_def)
  have mounted: "memory_mount utc_db (lit ''id'') noon R (Inr False) (\<lambda>_ _ _. Inr ()) example_arguments (lit ''/mnt'') = Inr ()"
    by (rule example_memory_mount [OF R])
  define mounts where "mounts s \<longleftrightarrow> (\<forall>mount :: unit mounter.
    memory_mount utc_db (lit ''id'') noon R (Inr False) mount example_arguments (lit ''/mnt'') =
    mount (mem_object s) (lit ''/mnt'') (ma_simulate example_arguments))" for s
  define fails where "fails e \<longleftrightarrow> (\<forall>mount :: unit mounter.
    memory_mount utc_db (lit ''id'') noon R (Inr False) mount example_arguments (lit ''/mnt'') = Inl e)" for e
  have "\<not> fails e" for e
  proof
    assume "fails e"
    from this [unfolded fails_def, rule_format, of "\<lambda>_ _ _. Inr ()"] mounted show False by simp
  qed
  note not_fails = this
  have shown: "?thesis" if "mem_store_ok s" "mounts s" for s
    using that(2) [unfolded mounts_def args(2)] by (intro exI [of _ R] conjI R exI [of _ s] that(1))
  from memory_mount_shows_file [where uuid = "lit ''id''" and now = noon and mountpoint = "lit ''/mnt''", OF R args(1),
      folded mounts_def fails_def]
  show ?thesis
  proof (elim disjE exE conjE)
    show ?thesis if "fails e" for e using not_fails that by (rule notE)
    show ?thesis if "mem_store_ok s" "mounts s" for s using that by (rule shown)
  qed
qed

text \<open>
  C38: the parameters of a command are its own and those of the selected source and parser, and
  the selection is accepted exactly when no two of them share a destination or an option.
\<close>
theorem selected_parameters_exact:
  "selected_parameters R source parser names options = Inr ps \<longleftrightarrow>
   ps = parameters_of (selected_registration (reg_sources R) source) @ parameters_of (selected_registration (reg_parsers R) parser) \<and>
   compatible (set names) (set options) ps"
  by (rule selected_parameters_iff)

text \<open>
  C39: whatever a run raises or returns, and however often it configured its session, the loggers
  have their former handlers, level and propagation again when the command line returns.
\<close>
theorem loggers_restored:
  assumes "handlers_known L" "\<And>Ls. \<exists>calls. snd (invoke Ls) = configure_all calls Ls"
  shows "package_logger (snd (cli_main invoke argv process_arguments custom L)) = package_logger L \<and>
    dependency_loggers (snd (cli_main invoke argv process_arguments custom L)) = dependency_loggers L"
  using assms by (rule main_restores_loggers)

lemma loggers_restored_witness:
  "package_logger (snd (cli_main example_run None [] False example_loggers)) = package_logger example_loggers"
proof -
  have "handlers_known example_loggers" by (simp add: handlers_known_def example_loggers_def)
  moreover have "\<exists>calls. snd (example_run Ls) = configure_all calls Ls" for Ls
    by (rule exI [of _ "[(\<lparr>pp_linux = True, pp_state_home = None, pp_home = lit ''/root'',
      pp_app_dir = [], pp_expanduser = id\<rparr>, None, True, None)]"]) (simp add: example_run_def configure_all_def)
  ultimately show ?thesis using loggers_restored [of example_loggers example_run None "[]" False] by blast
qed

section \<open>Mount sessions\<close>

text \<open>
  C25: the helper that unmounts is only ever run for the path at which the table of mounts shows a
  SnapshotFS mount, and an unmount that reports success has seen that the path is no longer mounted.
\<close>
theorem unmounts_only_snapshot_mounts:
  assumes "unmount W path0 tr = Some (a, tr')"
  shows "(\<forall>helper argv. Run_Helper helper argv \<in> set (drop (length tr) tr') \<longrightarrow>
      (\<exists>path. allowed W path0 tr path \<and> argv = [helper, lit ''-u'', lit ''--'', path])) \<and>
    (a = Inr () \<longrightarrow> (\<exists>path t. allowed W path0 tr path \<and> tr' = t @ [Ask_Mounted path] \<and> w_ismount W path t = Inr False))"
  using unmount_calls [OF assms] unmount_run [OF assms] by blast

lemma unmounts_only_snapshot_mounts_witness:
  "\<exists>tr'. unmount example_world (lit ''/mnt'') [Start [] []] = Some (Inr (), tr') \<and>
     Run_Helper (lit ''/usr/bin/fusermount3'') [lit ''/usr/bin/fusermount3'', lit ''-u'', lit ''--'', lit ''/mnt''] \<in> set tr' \<and>
     (\<forall>helper argv. Run_Helper helper argv \<in> set tr' \<longrightarrow>
        (\<exists>path. allowed example_world (lit ''/mnt'') [Start [] []] path \<and> argv = [helper, lit ''-u'', lit ''--'', path]))"
proof -
  have "mounted_in [Start [] []]" by (simp add: mounted_in_def)
  from example_unmount [OF this, of "lit ''/mnt''"] obtain tr' where
    u: "unmount example_world (lit ''/mnt'') [Start [] []] = Some (Inr (), [Start [] []] @ tr')"
      "Run_Helper (lit ''/usr/bin/fusermount3'') [lit ''/usr/bin/fusermount3'', lit ''-u'', lit ''--'', lit ''/mnt''] \<in> set tr'"
    by simp
  from unmounts_only_snapshot_mounts [OF u(1)] u show ?thesis by auto
qed

text \<open>
  C24: a background mount is reported only after the worker signalled it, the mountpoint is mounted
  and the worker still runs, and then both ends of the pipe have been closed; on every other
  outcome after the pipe was made, both ends are closed once, and a worker that was started has ended
  since, or was sent \<open>SIGKILL\<close> and did not end within the five seconds that were waited for it.
\<close>
theorem background_mount_or_no_worker:
  assumes "calm W" "start_background W arguments mountpoint timeout tr = Some (a, tr')"
  shows "case a of
      Inr p \<Rightarrow> \<exists>r w. w_pipe W (checked mountpoint tr) = Inr (r, w) \<and>
        (let t0 = checked mountpoint tr @ [Make_Pipe];
             t1 = t0 @ [Open_Errors, Start (cli_executable W @ arguments) (worker_environment W w), Close w]
         in w_start W (cli_executable W @ arguments) (t0 @ [Open_Errors]) = Inr p \<and> ready W mountpoint r p t1 \<and>
            tr' = t1 @ handshake mountpoint r p @ [Close_Errors, Close r])
    | Inl e \<Rightarrow> \<forall>r w. prefix (checked mountpoint tr @ [Make_Pipe]) tr' \<longrightarrow>
        w_pipe W (checked mountpoint tr) = Inr (r, w) \<longrightarrow>
        (r \<noteq> w \<longrightarrow> (\<forall>fd \<in> {r, w}. count_list tr' (Close fd) = count_list tr (Close fd) + 1)) \<and>
        (\<forall>p. w_open_errors W (checked mountpoint tr @ [Make_Pipe]) = Inr () \<longrightarrow>
          w_start W (cli_executable W @ arguments) (checked mountpoint tr @ [Make_Pipe, Open_Errors]) = Inr p \<longrightarrow>
          ended_since W p (checked mountpoint tr @ [Make_Pipe, Open_Errors,
            Start (cli_executable W @ arguments) (worker_environment W w)]) tr')"
  using background_worker [OF assms] by (cases a) (simp_all add: Let_def)

lemma background_mount_or_no_worker_witness:
  "\<exists>p r t. w_pipe example_world (checked (lit ''/mnt'') []) = Inr (r, 4) \<and> ready example_world (lit ''/mnt'') r p t"
  using background_mount_or_no_worker [OF example_calm example_start_background] by (auto simp: Let_def)

text \<open>
  C22: in a temporary mount, whatever the command, the worker or an error does, when \<open>run\<close> returns or
  raises: every process that was started has ended since, or was sent \<open>SIGKILL\<close> and did not end within
  the five seconds that were waited for it; a mount that had become ready was unmounted, if it was
  still mounted, before its worker was stopped, and a failure of that is what \<open>run\<close> raises; the
  mountpoint was removed if it was no longer mounted, and when looking or removing fails \<open>run\<close> raises
  that; and an exit status is the one of the command.
\<close>
theorem mount_session_cleans_up:
  assumes "calm W" "command \<noteq> []" "w_make_directory W tr = Inr mp"
    and "run_mounted W snapshot command options simulate timeout tr = Some (a, tr')"
  shows "(\<forall>u argv env p. prefix tr u \<longrightarrow> prefix (u @ [Start argv env]) tr' \<longrightarrow> w_start W argv u = Inr p \<longrightarrow>
      ended_since W p (u @ [Start argv env]) tr') \<and>
    (\<forall>path worker t. w_resolve W snapshot (tr @ [Make_Directory]) = Inr path \<longrightarrow>
      start_background W (worker_arguments options path mp simulate) mp timeout (tr @ [Make_Directory, Resolve snapshot]) =
        Some (Inr worker, t) \<longrightarrow> unmounted_first W mp worker a t tr') \<and>
    directory_left W mp a tr' \<and>
    (\<forall>s. a = Inr s \<longrightarrow> (\<exists>u c status. prefix tr u \<and>
      prefix (u @ [Start (map (replace_marker mp) command)
        (dict_set (lit ''SNAPSHOTFS_MOUNTPOINT'') mp (external_environment W)), Wait c]) tr' \<and>
      w_start W (map (replace_marker mp) command) u = Inr c \<and>
      w_wait W c (u @ [Start (map (replace_marker mp) command)
        (dict_set (lit ''SNAPSHOTFS_MOUNTPOINT'') mp (external_environment W))]) = Inr status \<and> s = shell_status status))"
  by (intro conjI allI impI session_cleans_up [OF assms])

lemma mount_session_cleans_up_witness:
  "\<exists>t tr'. example_session = Some (Inr 0, tr') \<and>
     unmounted_first example_world (lit ''/tmp/snapshotfs-1'') 107 (Inr 0) t tr' \<and>
     directory_left example_world (lit ''/tmp/snapshotfs-1'') (Inr 0) tr'"
proof -
  obtain tr' where run: "example_session = Some (Inr 0, tr')" using example_session_ends by blast
  have dir: "w_make_directory example_world [] = Inr (lit ''/tmp/snapshotfs-1'')"
    and path: "w_resolve example_world (lit ''s.sqlite'') ([] @ [Make_Directory]) = Inr (lit ''s.sqlite'')"
    by (rule example_world_calls)+
  have "[lit ''ls'', lit ''{mountpoint}''] \<noteq> []" by simp
  note left = mount_session_cleans_up [OF example_calm this dir run [unfolded example_session_def]]
  then have "directory_left example_world (lit ''/tmp/snapshotfs-1'') (Inr 0) tr'" by (elim conjE)
  moreover from left path example_session_start
  have "\<exists>t. unmounted_first example_world (lit ''/tmp/snapshotfs-1'') 107 (Inr 0) t tr'" by (metis append_Nil)
  ultimately show ?thesis using run by blast
qed

text \<open>
  C23: a temporary mount comes to an end when its command does: no wait of the session itself is
  unbounded, in particular not the wait for the unmount, as long as the clock goes on while it sleeps.
\<close>
theorem mount_session_ends:
  assumes "time_passes W"
  shows "\<exists>a tr'. run_mounted W snapshot command options simulate timeout tr = Some (a, tr')"
  using assms by (rule session_ends)

lemma mount_session_ends_witness:
  "\<exists>r. run_mounted example_world (lit ''s'') [lit ''ls''] [] True (lit ''1'') [] = Some r"
  using mount_session_ends [OF example_time_passes, of "lit ''s''" "[lit ''ls'']" "[]" True "lit ''1''" "[]"] by blast

text \<open>
  C26: reading the table of mounts gives back what the kernel wrote: the first mount at the path
  decides, with its blanks, line feeds and backslashes unescaped, where mount points hold no other
  white space.
\<close>
theorem mount_table_reads_back:
  assumes "\<forall>m \<in> set ms. mount_ok m"
  shows "snapshot_mounted target (mount_table ms) =
    Inr (case List.find (\<lambda>m. mt_point m = target) ms of None \<Rightarrow> False | Some m \<Rightarrow> is_snapshot m)"
  using assms by (rule snapshot_mounted_table)

lemma mount_table_reads_back_witness:
  "snapshot_mounted [47, 32, 97] (mount_table [odd_mount 92, odd_mount 32]) = Inr True"
proof -
  have "\<forall>m \<in> set [odd_mount 92, odd_mount 32]. mount_ok m"
    by (simp add: mount_ok_def odd_mount_def word_ok_def lit_def py_isspace_def)
  from mount_table_reads_back [OF this, of "[47, 32, 97]"] show ?thesis
    by (simp add: odd_mount_def is_snapshot_def)
qed

text \<open>
  C27: the mount is initialised at most once, only after its checks passed, and once it is initialised
  it is closed exactly once, as the last call, whatever fails in between.
\<close>
theorem mount_is_always_closed:
  assumes "mount_snapshot H st mountpoint simulate tr = (r, tr')"
  shows "((\<exists>e. r = Inl e) \<and> (tr' = tr \<or> mount_guards H mountpoint = Inr () \<and> tr' = tr @ [Init_Fuse mountpoint])) \<or>
    (mount_guards H mountpoint = Inr () \<and> h_init H tr = Inr () \<and>
      (\<exists>mid. tr' = tr @ [Init_Fuse mountpoint, Take_Environment READY_ENV] @ mid @ [Close_Fuse True] \<and>
        session_calls mid \<and> (r = Inr () \<longrightarrow> Run_Main \<in> set mid)))"
  using assms by (rule mount_snapshot_calls)

lemma mount_is_always_closed_witness:
  "\<exists>tr'. mount_snapshot example_host (mem_object example_store) (lit ''/mnt'') False [] =
      (Inl Keyboard_Interrupt, tr' @ [Close_Fuse True])"
proof -
  obtain tr' where run: "mount_snapshot example_host (mem_object example_store) (lit ''/mnt'') False [] =
      (Inl Keyboard_Interrupt, tr')" "h_init example_host [] = Inr ()" "tr' \<noteq> []" "tr' \<noteq> [Init_Fuse (lit ''/mnt'')]"
    by (rule example_mount_run)
  from mount_is_always_closed [OF run(1)] run show ?thesis by auto
qed

text \<open>
  C28: when \<open>doctor\<close> reports success for a directory, none of the checks that a mount at that directory
  makes before its initialisation fails.
\<close>
theorem doctor_success_means_guards_pass:
  assumes "doctor H P version python session (Some path) = (Inr 0, out)"
  shows "mount_guards H path = Inr ()"
proof -
  from assms obtain checks where "check_environment H (Some path) = Inr checks" "doctor_status checks = 0"
    by (auto simp: doctor_def Let_def split: sum.splits)
  then show ?thesis by (rule checks_cover_guards)
qed

lemma doctor_success_means_guards_pass_witness: "mount_guards example_host (lit ''/mnt'') = Inr ()"
proof (rule doctor_success_means_guards_pass)
  show "doctor example_host P [] [] None (Some (lit ''/mnt'')) =
      (Inr 0, snd (doctor example_host P [] [] None (Some (lit ''/mnt''))))" for P
    by (simp add: doctor_def check_environment_def module_check_def host_checks_def mountpoint_check_def
        mountpoint_state_def example_host_def doctor_status_def Let_def)
qed

end
